(* ===== verification/Prelude.thy ===== *)
theory Prelude
  imports Main
begin

text \<open>
  Shared vocabulary of the development: Go strings and byte slices (lists of bytes), the
  functions of the Go standard library the sources call on them, and the collections of
  rewrite rules the component theories use.

  A Go \<open>string\<close> or \<open>[]byte\<close> is a sequence of bytes, and so is a HOL \<open>string\<close> (a list of
  8-bit characters). \<open>len\<close> is \<open>length\<close>, slicing is \<open>take\<close> and \<open>drop\<close>.
\<close>

named_theorems go_defs "definitions unfolded to evaluate a model function"
named_theorems go_strings "facts on prefixes, suffixes and scanning"

type_synonym header = "(string \<times> string list) list"

section \<open>Prefixes, suffixes, slicing\<close>

definition has_prefix :: "string \<Rightarrow> string \<Rightarrow> bool" where
  \<comment> \<open>\<open>strings.HasPrefix\<close>\<close>
  "has_prefix s p = (take (length p) s = p)"

definition has_suffix :: "string \<Rightarrow> string \<Rightarrow> bool" where
  \<comment> \<open>\<open>strings.HasSuffix\<close>\<close>
  "has_suffix s t = (length t \<le> length s \<and> drop (length s - length t) s = t)"

definition trim_prefix :: "string \<Rightarrow> string \<Rightarrow> string" where
  \<comment> \<open>\<open>strings.TrimPrefix\<close>\<close>
  "trim_prefix s p = (if has_prefix s p then drop (length p) s else s)"

definition cut_suffix :: "string \<Rightarrow> string \<Rightarrow> string" where
  \<comment> \<open>\<open>s[:len(s)-len(t)]\<close>\<close>
  "cut_suffix s t = take (length s - length t) s"

lemma has_prefix_append [simp, go_strings]: "has_prefix (p @ s) p"
  by (simp add: has_prefix_def)

lemma has_prefix_Nil [simp]: "has_prefix s []"
  by (simp add: has_prefix_def)

lemma has_prefix_iff [go_strings]: "has_prefix s p \<longleftrightarrow> (\<exists>r. s = p @ r)"
  by (metis append_eq_conv_conj append_take_drop_id has_prefix_def)

lemma has_prefix_Cons [simp]:
  "has_prefix (x # s) (y # p) \<longleftrightarrow> x = y \<and> has_prefix s p"
  "\<not> has_prefix [] (y # p)"
  by (simp_all add: has_prefix_def)

lemma has_suffix_append [simp, go_strings]: "has_suffix (s @ t) t"
  by (simp add: has_suffix_def)

lemma has_suffix_Nil [simp]: "has_suffix s []"
  by (simp add: has_suffix_def)

lemma has_suffix_iff [go_strings]: "has_suffix s t \<longleftrightarrow> (\<exists>r. s = r @ t)"
  by (metis add_diff_cancel_right' append_eq_conv_conj append_take_drop_id has_suffix_def
      le_add2 length_append)

lemma cut_suffix_append [simp, go_strings]: "cut_suffix (s @ t) t = s"
  by (simp add: cut_suffix_def)

section \<open>Searching and splitting\<close>

fun index_byte :: "string \<Rightarrow> char \<Rightarrow> nat option" where
  \<comment> \<open>\<open>strings.IndexByte\<close>; \<open>None\<close> is the result -1\<close>
  "index_byte [] c = None"
| "index_byte (x # xs) c = (if x = c then Some 0 else map_option Suc (index_byte xs c))"

fun last_index_byte :: "string \<Rightarrow> char \<Rightarrow> nat option" where
  \<comment> \<open>\<open>strings.LastIndex\<close> of a one-byte string\<close>
  "last_index_byte [] c = None"
| "last_index_byte (x # xs) c =
     (case last_index_byte xs c of
        Some i \<Rightarrow> Some (Suc i)
      | None \<Rightarrow> if x = c then Some 0 else None)"

definition contains_byte :: "string \<Rightarrow> char \<Rightarrow> bool" where
  \<comment> \<open>\<open>strings.Contains\<close> of a one-byte string\<close>
  "contains_byte s c = (c \<in> set s)"

fun split_byte :: "string \<Rightarrow> char \<Rightarrow> string list" where
  \<comment> \<open>\<open>strings.Split\<close> at a one-byte separator; never empty\<close>
  "split_byte [] c = [[]]"
| "split_byte (x # xs) c =
     (if x = c then [] # split_byte xs c
      else (case split_byte xs c of
              [] \<Rightarrow> [[x]]
            | p # ps \<Rightarrow> (x # p) # ps))"

fun join_with :: "string \<Rightarrow> string list \<Rightarrow> string" where
  \<comment> \<open>\<open>strings.Join\<close>\<close>
  "join_with sep [] = []"
| "join_with sep [s] = s"
| "join_with sep (s # t # ts) = s @ sep @ join_with sep (t # ts)"

lemma split_byte_not_Nil [simp]: "split_byte s c \<noteq> []"
  by (cases s) (auto split: list.splits)

lemma index_byte_None [go_strings]: "index_byte s c = None \<longleftrightarrow> c \<notin> set s"
  by (induction s) auto

lemma index_byte_Some [go_strings]:
  "index_byte s c = Some i \<Longrightarrow> i < length s \<and> s ! i = c \<and> c \<notin> set (take i s)"
  by (induction s arbitrary: i) (auto split: if_splits simp: nth_Cons')

lemma index_byte_append_first [go_strings]:
  "c \<notin> set a \<Longrightarrow> index_byte (a @ c # b) c = Some (length a)"
  by (induction a) auto

lemma index_byte_split [go_strings]:
  assumes "index_byte s c = Some i"
  shows "s = take i s @ c # drop (Suc i) s"
  using index_byte_Some [OF assms] id_take_nth_drop by metis

lemma last_index_byte_None [go_strings]: "last_index_byte s c = None \<longleftrightarrow> c \<notin> set s"
  by (induction s) (auto split: option.splits)

lemma last_index_byte_append_last [go_strings]:
  "c \<notin> set b \<Longrightarrow> last_index_byte (a @ c # b) c = Some (length a)"
proof (induction a)
  case Nil
  then show ?case by (auto simp: last_index_byte_None split: option.splits)
next
  case (Cons x a)
  then show ?case by simp
qed

lemma join_split_byte [go_strings]: "join_with [c] (split_byte s c) = s"
proof (induction s)
  case Nil
  then show ?case by simp
next
  case (Cons x s)
  then show ?case
    by (cases "split_byte s c" rule: remdups_adj.cases) auto
qed

lemma split_byte_no_sep [go_strings]: "p \<in> set (split_byte s c) \<Longrightarrow> c \<notin> set p"
  by (induction s arbitrary: p) (auto split: if_splits list.splits)

lemma split_byte_absent [go_strings]: "c \<notin> set s \<Longrightarrow> split_byte s c = [s]"
  by (induction s) auto

lemma split_byte_append [go_strings]:
  "c \<notin> set a \<Longrightarrow> split_byte (a @ c # b) c = a # split_byte b c"
  by (induction a) auto

lemma split_join_byte [go_strings]:
  "ps \<noteq> [] \<Longrightarrow> (\<forall>p \<in> set ps. c \<notin> set p) \<Longrightarrow> split_byte (join_with [c] ps) c = ps"
proof (induction ps)
  case Nil
  then show ?case by simp
next
  case (Cons p ps)
  then show ?case
    by (cases ps) (auto simp: split_byte_absent split_byte_append)
qed

section \<open>UTF-8\<close>

text \<open>
  \<open>for _, r := range s\<close> decodes \<open>s\<close> as UTF-8, and \<open>Builder.WriteRune\<close> encodes each rune
  again: a byte that does not start a valid encoding becomes U+FFFD (EF BF BD) and the scan
  moves on by one byte. \<open>utf8_len s\<close> is the length of the valid encoding \<open>s\<close> starts with,
  or 0.
\<close>

definition byte_in :: "nat \<Rightarrow> nat \<Rightarrow> char \<Rightarrow> bool" where
  "byte_in lo hi c = (lo \<le> of_char c \<and> of_char c \<le> (hi :: nat))"

fun utf8_len :: "string \<Rightarrow> nat" where
  "utf8_len [] = 0"
| "utf8_len (a # s) =
     (if byte_in 0x00 0x7F a then 1
      else (case s of [] \<Rightarrow> 0 | b # s2 \<Rightarrow>
        if byte_in 0xC2 0xDF a then (if byte_in 0x80 0xBF b then 2 else 0)
        else (case s2 of [] \<Rightarrow> 0 | c # s3 \<Rightarrow>
          if (byte_in 0xE0 0xE0 a \<and> byte_in 0xA0 0xBF b
              \<or> byte_in 0xE1 0xEC a \<and> byte_in 0x80 0xBF b
              \<or> byte_in 0xED 0xED a \<and> byte_in 0x80 0x9F b
              \<or> byte_in 0xEE 0xEF a \<and> byte_in 0x80 0xBF b) \<and> byte_in 0x80 0xBF c then 3
          else (case s3 of [] \<Rightarrow> 0 | d # _ \<Rightarrow>
            if (byte_in 0xF0 0xF0 a \<and> byte_in 0x90 0xBF b
                \<or> byte_in 0xF1 0xF3 a \<and> byte_in 0x80 0xBF b
                \<or> byte_in 0xF4 0xF4 a \<and> byte_in 0x80 0x8F b)
               \<and> byte_in 0x80 0xBF c \<and> byte_in 0x80 0xBF d then 4
            else 0))))"

definition rune_error :: string where
  "rune_error = [CHR 0xEF, CHR 0xBF, CHR 0xBD]"

function rune_strings :: "string \<Rightarrow> string list" where
  \<comment> \<open>the runes of \<open>range s\<close>, each in the encoding \<open>WriteRune\<close> gives it\<close>
  "rune_strings s =
     (if s = [] then []
      else if utf8_len s = 0 then rune_error # rune_strings (drop 1 s)
      else take (utf8_len s) s # rune_strings (drop (utf8_len s) s))"
  by pat_completeness auto
termination
  by (relation "measure length") auto

declare rune_strings.simps [simp del]

definition ascii :: "string \<Rightarrow> bool" where
  "ascii s = (\<forall>c \<in> set s. byte_in 0 0x7F c)"

lemma ascii_Cons [simp]: "ascii (c # s) \<longleftrightarrow> byte_in 0 0x7F c \<and> ascii s"
  by (auto simp: ascii_def)

lemma ascii_Nil [simp]: "ascii []"
  by (simp add: ascii_def)

lemma ascii_append [simp]: "ascii (s @ t) \<longleftrightarrow> ascii s \<and> ascii t"
  by (auto simp: ascii_def)

lemma rune_strings_ascii [go_strings]: "ascii s \<Longrightarrow> rune_strings s = map (\<lambda>c. [c]) s"
proof (induction s)
  case Nil
  then show ?case by (simp add: rune_strings.simps)
next
  case (Cons c s)
  then have "utf8_len (c # s) = 1" by simp
  with Cons show ?case by (subst rune_strings.simps) simp
qed

section \<open>White space and case\<close>

text \<open>
  The encodings of the characters \<open>unicode.IsSpace\<close> accepts, for \<open>strings.TrimSpace\<close> and
  \<open>bytes.TrimSpace\<close>.
\<close>

definition space_runes :: "string list" where
  "space_runes =
     [[CHR 0x09], [CHR 0x0A], [CHR 0x0B], [CHR 0x0C], [CHR 0x0D], [CHR 0x20],
      [CHR 0xC2, CHR 0x85], [CHR 0xC2, CHR 0xA0], [CHR 0xE1, CHR 0x9A, CHR 0x80],
      [CHR 0xE2, CHR 0x80, CHR 0x80], [CHR 0xE2, CHR 0x80, CHR 0x81],
      [CHR 0xE2, CHR 0x80, CHR 0x82], [CHR 0xE2, CHR 0x80, CHR 0x83],
      [CHR 0xE2, CHR 0x80, CHR 0x84], [CHR 0xE2, CHR 0x80, CHR 0x85],
      [CHR 0xE2, CHR 0x80, CHR 0x86], [CHR 0xE2, CHR 0x80, CHR 0x87],
      [CHR 0xE2, CHR 0x80, CHR 0x88], [CHR 0xE2, CHR 0x80, CHR 0x89],
      [CHR 0xE2, CHR 0x80, CHR 0x8A], [CHR 0xE2, CHR 0x80, CHR 0xA8],
      [CHR 0xE2, CHR 0x80, CHR 0xA9], [CHR 0xE2, CHR 0x80, CHR 0xAF],
      [CHR 0xE2, CHR 0x81, CHR 0x9F], [CHR 0xE3, CHR 0x80, CHR 0x80]]"

function strip_any :: "string list \<Rightarrow> string \<Rightarrow> string" where
  \<comment> \<open>removes the listed prefixes from the front for as long as one of them is there\<close>
  "strip_any ps s =
     (case find (\<lambda>p. p \<noteq> [] \<and> has_prefix s p) ps of
        None \<Rightarrow> s
      | Some p \<Rightarrow> strip_any ps (drop (length p) s))"
  by pat_completeness auto
termination
  by (relation "measure (\<lambda>(ps, s). length s)")
     (auto simp: find_Some_iff has_prefix_iff)

declare strip_any.simps [simp del]

definition trim_space :: "string \<Rightarrow> string" where
  "trim_space s = rev (strip_any (map rev space_runes) (rev (strip_any space_runes s)))"

definition lower_ascii :: "char \<Rightarrow> char" where
  "lower_ascii c = (if byte_in 65 90 c then char_of (of_char c + 32 :: nat) else c)"

definition to_lower :: "string \<Rightarrow> string" where
  \<comment> \<open>\<open>strings.ToLower\<close> on ASCII strings\<close>
  "to_lower s = map lower_ascii s"

text \<open>
  \<open>strings.EqualFold\<close> is equality under Unicode simple case folding. Every use in the sources
  has an ASCII string on one side; besides the two cases of a letter, the runes that fold to an
  ASCII letter are U+017F (to s) and U+212A (to k).
\<close>

function fold_norm :: "string \<Rightarrow> string" where
  "fold_norm s =
     (if s = [] then []
      else if has_prefix s [CHR 0xC5, CHR 0xBF] then CHR ''s'' # fold_norm (drop 2 s)
      else if has_prefix s [CHR 0xE2, CHR 0x84, CHR 0xAA] then CHR ''k'' # fold_norm (drop 3 s)
      else lower_ascii (hd s) # fold_norm (tl s))"
  by pat_completeness auto
termination
  by (relation "measure length") auto

declare fold_norm.simps [simp del]

definition equal_fold :: "string \<Rightarrow> string \<Rightarrow> bool" where
  "equal_fold s t = (fold_norm s = fold_norm t)"

lemma fold_norm_Nil [simp]: "fold_norm [] = []"
  by (simp add: fold_norm.simps)

lemma fold_norm_ascii [go_strings]: "ascii s \<Longrightarrow> fold_norm s = map lower_ascii s"
proof (induction s)
  case Nil
  then show ?case by simp
next
  case (Cons c s)
  then have "c \<noteq> CHR 0xC5" "c \<noteq> CHR 0xE2" by (auto simp: byte_in_def)
  with Cons show ?case by (subst fold_norm.simps) simp
qed

lemma equal_fold_refl [simp]: "equal_fold s s"
  by (simp add: equal_fold_def)

lemma equal_fold_sym: "equal_fold s t \<Longrightarrow> equal_fold t s"
  by (simp add: equal_fold_def)

lemma equal_fold_trans: "equal_fold s t \<Longrightarrow> equal_fold t u \<Longrightarrow> equal_fold s u"
  by (simp add: equal_fold_def)

section \<open>Decimal numbers\<close>

definition digit_char :: "nat \<Rightarrow> char" where
  "digit_char d = char_of (48 + d)"

definition digit_value :: "char \<Rightarrow> nat option" where
  "digit_value c = (if byte_in 48 57 c then Some (of_char c - 48) else None)"

fun format_nat :: "nat \<Rightarrow> string" where
  \<comment> \<open>\<open>strconv.FormatUint(n, 10)\<close>\<close>
  "format_nat n =
     (if n < 10 then [digit_char n] else format_nat (n div 10) @ [digit_char (n mod 10)])"

declare format_nat.simps [simp del]

definition format_int :: "int \<Rightarrow> string" where
  \<comment> \<open>\<open>strconv.FormatInt(i, 10)\<close>\<close>
  "format_int i = (if i < 0 then CHR ''-'' # format_nat (nat (- i)) else format_nat (nat i))"

fun digits_value :: "nat \<Rightarrow> string \<Rightarrow> nat option" where
  "digits_value acc [] = Some acc"
| "digits_value acc (c # cs) =
     (case digit_value c of None \<Rightarrow> None | Some d \<Rightarrow> digits_value (10 * acc + d) cs)"

datatype num_error = ErrSyntax | ErrRange

fun scan_uint :: "nat \<Rightarrow> nat \<Rightarrow> string \<Rightarrow> num_error + nat" where
  \<comment> \<open>the loop of \<open>strconv.ParseUint\<close>: it stops at the first byte that is no digit or makes the value too large\<close>
  "scan_uint bits n [] = Inr n"
| "scan_uint bits n (c # cs) =
     (case digit_value c of
        None \<Rightarrow> Inl ErrSyntax
      | Some d \<Rightarrow> if 2 ^ bits \<le> 10 * n + d then Inl ErrRange else scan_uint bits (10 * n + d) cs)"

definition parse_uint :: "string \<Rightarrow> nat \<Rightarrow> num_error + nat" where
  \<comment> \<open>\<open>strconv.ParseUint(s, 10, bits)\<close>\<close>
  "parse_uint s bits = (if s = [] then Inl ErrSyntax else scan_uint bits 0 s)"

definition parse_int :: "string \<Rightarrow> nat \<Rightarrow> num_error + int" where
  \<comment> \<open>\<open>strconv.ParseInt(s, 10, bits)\<close>\<close>
  "parse_int s bits =
     (let neg = has_prefix s ''-'';
          body = (if neg \<or> has_prefix s ''+'' then tl s else s)
      in case parse_uint body bits of
           Inl e \<Rightarrow> Inl e
         | Inr n \<Rightarrow>
             if \<not> neg \<and> 2 ^ (bits - 1) \<le> n then Inl ErrRange
             else if neg \<and> 2 ^ (bits - 1) < n then Inl ErrRange
             else Inr (if neg then - int n else int n))"

lemma digits_value_mono: "digits_value acc s = Some n \<Longrightarrow> acc \<le> n"
  by (induction s arbitrary: acc) (auto split: option.splits, fastforce)

lemma scan_uint_value:
  "acc < 2 ^ bits \<Longrightarrow> scan_uint bits acc s = Inr n \<longleftrightarrow> digits_value acc s = Some n \<and> n < 2 ^ bits"
proof (induction s arbitrary: acc)
  case Nil
  then show ?case by auto
next
  case (Cons c s)
  show ?case
  proof (cases "digit_value c")
    case (Some d)
    then show ?thesis
      using Cons.IH [of "10 * acc + d"] by (auto simp: not_le dest: digits_value_mono)
  qed simp
qed

lemma scan_uint_number:
  "digits_value acc s = Some n \<Longrightarrow> acc < 2 ^ bits \<Longrightarrow>
    scan_uint bits acc s = (if n < 2 ^ bits then Inr n else Inl ErrRange)"
proof (induction s arbitrary: acc)
  case (Cons c s)
  then obtain d where d: "digit_value c = Some d" "digits_value (10 * acc + d) s = Some n"
    by (auto split: option.splits)
  with digits_value_mono [OF d(2)] Cons.IH [OF d(2)] show ?case by auto
qed simp

lemma parse_uint_number:
  "digits_value 0 s = Some n \<Longrightarrow> s \<noteq> [] \<Longrightarrow>
    parse_uint s bits = (if n < 2 ^ bits then Inr n else Inl ErrRange)"
  by (simp add: parse_uint_def scan_uint_number)

lemma parse_uint_value:
  "parse_uint s bits = Inr n \<longleftrightarrow> s \<noteq> [] \<and> digits_value 0 s = Some n \<and> n < 2 ^ bits"
  by (simp add: parse_uint_def scan_uint_value)

lemma of_char_digit_char [simp]: "d < 10 \<Longrightarrow> of_char (digit_char d) = 48 + d"
  by (simp add: digit_char_def)

lemma digit_value_digit_char [simp]: "d < 10 \<Longrightarrow> digit_value (digit_char d) = Some d"
  by (simp add: digit_value_def byte_in_def)

lemma digits_value_append:
  "digits_value acc (xs @ ys) =
     (case digits_value acc xs of None \<Rightarrow> None | Some n \<Rightarrow> digits_value n ys)"
  by (induction xs arbitrary: acc) (auto split: option.splits)

lemma digits_value_format_nat [simp]: "digits_value 0 (format_nat n) = Some n"
proof (induction n rule: format_nat.induct)
  case (1 n)
  then show ?case
    by (subst format_nat.simps) (auto simp: digits_value_append)
qed

lemma format_nat_not_Nil [simp]: "format_nat n \<noteq> []"
  by (subst format_nat.simps) simp

lemma format_nat_byte: "c \<in> set (format_nat n) \<Longrightarrow> byte_in 48 57 c"
proof (induction n rule: format_nat.induct)
  case (1 n)
  show ?case
  proof (cases "n < 10")
    case True
    with "1.prems" show ?thesis by (simp add: format_nat.simps [of n] byte_in_def)
  next
    case False
    with "1.prems" have "c \<in> set (format_nat (n div 10)) \<or> c = digit_char (n mod 10)"
      by (auto simp: format_nat.simps [of n])
    with "1.IH" [OF False] show ?thesis by (auto simp: byte_in_def)
  qed
qed

lemma format_nat_no_sign: "\<not> has_prefix (format_nat n) ''-''" "\<not> has_prefix (format_nat n) ''+''"
  using format_nat_byte [of _ n]
  by (cases "format_nat n"; force simp: byte_in_def)+

lemma length_format_nat_le: "n < 10 ^ k \<Longrightarrow> 0 < k \<Longrightarrow> length (format_nat n) \<le> k"
proof (induction n arbitrary: k rule: format_nat.induct)
  case (1 n)
  show ?case
  proof (cases "n < 10")
    case True
    with "1.prems" show ?thesis by (simp add: format_nat.simps [of n])
  next
    case False
    with "1.prems" have k: "1 < k" by (cases "k = 1") auto
    then obtain j where j: "k = Suc j" "0 < j" by (cases k) auto
    with "1.prems" have "n div 10 < 10 ^ j" by (auto simp: less_mult_imp_div_less)
    with "1.IH" [OF False this \<open>0 < j\<close>] False j show ?thesis
      by (simp add: format_nat.simps [of n])
  qed
qed

lemma parse_uint_format [simp]: "n < 2 ^ bits \<Longrightarrow> parse_uint (format_nat n) bits = Inr n"
  by (simp add: parse_uint_value)

lemma parse_int_format:
  assumes "0 < bits" "- (2 ^ (bits - 1)) \<le> i" "i < 2 ^ (bits - 1)"
  shows "parse_int (format_int i) bits = Inr i"
proof (cases "i < 0")
  case True
  with assms have le: "nat (- i) \<le> 2 ^ (bits - 1)" by (simp add: nat_le_iff)
  then have "nat (- i) < 2 ^ bits"
    by (rule le_less_trans) (use assms(1) in simp)
  with True le show ?thesis
    by (simp add: parse_int_def format_int_def not_less)
next
  case False
  with assms have less: "nat i < 2 ^ (bits - 1)" by (simp add: nat_less_iff)
  then have "nat i < 2 ^ bits" by (rule less_le_trans) (simp add: power_increasing)
  with False less show ?thesis
    by (simp add: parse_int_def format_int_def format_nat_no_sign not_le)
qed

section \<open>64-bit signed wrap-around\<close>

definition wrap64 :: "int \<Rightarrow> int" where
  \<comment> \<open>the \<open>int64\<close> a Go arithmetic result is reduced to\<close>
  "wrap64 i = (i + 2 ^ 63) mod 2 ^ 64 - 2 ^ 63"

abbreviation max_int64 :: int where "max_int64 \<equiv> 2 ^ 63 - 1"

lemma wrap64_id [simp]: "- (2 ^ 63) \<le> i \<Longrightarrow> i < 2 ^ 63 \<Longrightarrow> wrap64 i = i"
  by (simp add: wrap64_def)

lemma wrap64_bounds: "- (2 ^ 63) \<le> wrap64 i" "wrap64 i < 2 ^ 63"
  using pos_mod_bound [of "2 ^ 64" "i + 2 ^ 63"] pos_mod_sign [of "2 ^ 64" "i + 2 ^ 63"]
  by (auto simp: wrap64_def)

section \<open>Maps that may be nil\<close>

text \<open>
  A Go map variable is nil (\<open>None\<close>) or refers to a map; reading a nil map finds nothing, writing
  needs an allocated one.
\<close>

type_synonym params = "(string \<rightharpoonup> string) option"

definition params_make :: "params \<Rightarrow> string \<rightharpoonup> string" where
  \<comment> \<open>\<open>if params == nil { params = make(...) }\<close>\<close>
  "params_make ps = (case ps of None \<Rightarrow> Map.empty | Some m \<Rightarrow> m)"

definition params_get :: "params \<Rightarrow> string \<Rightarrow> string option" where
  "params_get ps k = (case ps of None \<Rightarrow> None | Some m \<Rightarrow> m k)"

lemma params_make_simps [simp]: "params_make None = Map.empty" "params_make (Some m) = m"
  by (simp_all add: params_make_def)

lemma params_get_simps [simp]: "params_get None k = None" "params_get (Some m) k = m k"
  by (simp_all add: params_get_def)

section \<open>HTTP headers\<close>

text \<open>
  \<open>http.Header\<close> maps canonical names to value lists. An association list keeps an order of
  iteration; \<open>range\<close> over a Go map has no fixed order, so results that depend on it are stated
  for every order.
\<close>

definition token_byte :: "char \<Rightarrow> bool" where
  "token_byte c =
     (byte_in 48 57 c \<or> byte_in 65 90 c \<or> byte_in 97 122 c
      \<or> c \<in> {CHR ''!'', CHR ''#'', CHR ''$'', CHR ''%'', CHR ''&'', CHR 0x27, CHR ''*'',
             CHR ''+'', CHR ''-'', CHR ''.'', CHR ''^'', CHR ''_'', CHR 0x60, CHR ''|'', CHR ''~''})"

definition upper_ascii :: "char \<Rightarrow> char" where
  "upper_ascii c = (if byte_in 97 122 c then char_of (of_char c - 32 :: nat) else c)"

fun canonical_loop :: "bool \<Rightarrow> string \<Rightarrow> string" where
  "canonical_loop up [] = []"
| "canonical_loop up (c # cs) =
     (if up then upper_ascii c else lower_ascii c) # canonical_loop (c = CHR ''-'') cs"

definition canonical_key :: "string \<Rightarrow> string" where
  \<comment> \<open>\<open>http.CanonicalHeaderKey\<close>\<close>
  "canonical_key k = (if list_all token_byte k then canonical_loop True k else k)"

definition header_values :: "header \<Rightarrow> string \<Rightarrow> string list" where
  "header_values h k = (case map_of h (canonical_key k) of None \<Rightarrow> [] | Some vs \<Rightarrow> vs)"

definition header_get :: "header \<Rightarrow> string \<Rightarrow> string" where
  \<comment> \<open>\<open>Header.Get\<close>\<close>
  "header_get h k = (case header_values h k of [] \<Rightarrow> [] | v # _ \<Rightarrow> v)"

fun alist_put :: "'k \<Rightarrow> 'v \<Rightarrow> ('k \<times> 'v) list \<Rightarrow> ('k \<times> 'v) list" where
  "alist_put k v [] = [(k, v)]"
| "alist_put k v ((k', v') # xs) =
     (if k' = k then (k, v) # xs else (k', v') # alist_put k v xs)"

definition header_set :: "header \<Rightarrow> string \<Rightarrow> string \<Rightarrow> header" where
  \<comment> \<open>\<open>Header.Set\<close>\<close>
  "header_set h k v = alist_put (canonical_key k) [v] h"

definition header_add :: "header \<Rightarrow> string \<Rightarrow> string \<Rightarrow> header" where
  \<comment> \<open>\<open>Header.Add\<close>\<close>
  "header_add h k v = alist_put (canonical_key k) (header_values h k @ [v]) h"

lemma map_of_alist_put [simp]: "map_of (alist_put k v xs) = (map_of xs)(k \<mapsto> v)"
  by (induction xs rule: alist_put.induct) auto

lemma keys_alist_put [simp]: "fst ` set (alist_put k v xs) = insert k (fst ` set xs)"
  by (induction k v xs rule: alist_put.induct) auto

lemma distinct_alist_put: "distinct (map fst xs) \<Longrightarrow> distinct (map fst (alist_put k v xs))"
  by (induction k v xs rule: alist_put.induct) auto

lemma alist_put_new: "k \<notin> fst ` set q \<Longrightarrow> alist_put k v q = q @ [(k, v)]"
  by (induction k v q rule: alist_put.induct) auto

lemma alist_put_last: "k \<notin> fst ` set q \<Longrightarrow> alist_put k v (q @ [(k, w)]) = q @ [(k, v)]"
  by (induction k v q rule: alist_put.induct) auto

lemma header_get_set_same [simp]: "header_get (header_set h k v) k = v"
  by (simp add: header_get_def header_values_def header_set_def)

lemma header_get_set_other:
  "canonical_key k' \<noteq> canonical_key k \<Longrightarrow> header_get (header_set h k v) k' = header_get h k'"
  by (simp add: header_get_def header_values_def header_set_def)

lemma header_values_add:
  "header_values (header_add h k v) k' =
     (if canonical_key k' = canonical_key k then header_values h k @ [v] else header_values h k')"
  by (simp add: header_values_def header_add_def)

section \<open>Header keys in other letter case\<close>

definition byte_of :: "char \<Rightarrow> nat" where "byte_of c = of_char c"

lemma byte_simps:
  "byte_of (lower_ascii c) = (if 65 \<le> byte_of c \<and> byte_of c \<le> 90 then byte_of c + 32 else byte_of c)"
  "byte_of (upper_ascii c) = (if 97 \<le> byte_of c \<and> byte_of c \<le> 122 then byte_of c - 32 else byte_of c)"
  by (auto simp: byte_of_def lower_ascii_def upper_ascii_def byte_in_def)

lemma byte_eq: "c = d \<longleftrightarrow> byte_of c = byte_of d" by (simp add: byte_of_def)

lemma case_again:
  "upper_ascii (lower_ascii c) = upper_ascii c" "lower_ascii (lower_ascii c) = lower_ascii c"
  "lower_ascii (upper_ascii c) = lower_ascii c" "(lower_ascii c = CHR ''-'') = (c = CHR ''-'')"
proof -
  have dash: "byte_of (CHR ''-'') = 45" by (simp add: byte_of_def)
  show "upper_ascii (lower_ascii c) = upper_ascii c" "lower_ascii (lower_ascii c) = lower_ascii c"
    "lower_ascii (upper_ascii c) = lower_ascii c" "(lower_ascii c = CHR ''-'') = (c = CHR ''-'')"
    unfolding byte_eq byte_simps dash by auto
qed

lemma lower_token: "token_byte (lower_ascii c) = token_byte c"
proof (cases "byte_in 65 90 c")
  case True
  then have "byte_in 97 122 (lower_ascii c)" by (simp add: lower_ascii_def byte_in_def)
  with True show ?thesis by (simp add: token_byte_def)
qed (simp add: lower_ascii_def)

lemma canonical_loop_lower: "canonical_loop up (to_lower k) = canonical_loop up k" "to_lower (canonical_loop up k) = to_lower k"
  by (induction k arbitrary: up) (simp_all add: to_lower_def case_again)

lemma canonical_key_lower: "list_all token_byte k \<Longrightarrow> canonical_key (to_lower k) = canonical_key k"
  by (simp add: canonical_key_def canonical_loop_lower) (simp add: to_lower_def list.pred_map comp_def lower_token)

lemma to_lower_canonical_key: "to_lower (canonical_key k) = to_lower k"
  by (simp add: canonical_key_def canonical_loop_lower)

lemma token_ascii: "list_all token_byte k \<Longrightarrow> ascii k"
  by (induction k) (auto simp: token_byte_def byte_in_def)
lemma token_canonical: "list_all token_byte (canonical_key k) = list_all token_byte k"
proof -
  have "list_all token_byte (to_lower k) = list_all token_byte k" for k
    by (simp add: to_lower_def list.pred_map comp_def lower_token)
  then show ?thesis using to_lower_canonical_key by metis
qed

lemma canonical_fold: "list_all token_byte k0 \<Longrightarrow> k0 = canonical_key k \<Longrightarrow> equal_fold k0 k"
  using token_canonical [of k] to_lower_canonical_key [of k]
  by (simp add: equal_fold_def fold_norm_ascii token_ascii to_lower_def)

end
