(* ===== verification/Pattern.thy ===== *)
theory Pattern
  imports Prelude
begin

text \<open>
  Path templates of \<open>routing/pattern.go\<close>: parsing (\<open>ParsePattern\<close>, \<open>splitTemplate\<close>,
  \<open>parseSegment\<close>, \<open>parseResourceExpr\<close>) and matching (\<open>Pattern.Match\<close>, \<open>matchResourceExpr\<close>).

  The matching loops keep an index \<open>pi\<close> into the path. The model keeps the suffix
  \<open>path[pi:]\<close> instead; a capture \<open>path[start:pi]\<close> is the suffix at \<open>start\<close> less the
  suffix at \<open>pi\<close> (\<open>slice\<close>).
\<close>

record exprSeg =
  es_literal :: string
  es_wildcard :: bool
  es_multi :: bool

record param =
  p_name :: string
  p_resource :: bool
  p_expr :: "exprSeg list"

record segment =
  seg_literal :: string
  seg_param :: "param option"

record Pattern =
  raw :: string
  segments :: "segment list"
  pat_verb :: string

datatype pattern_error =
    EmptyTemplate
  | MustStartWithSlash string
  | MissingClosingBrace string
  | EmptyParameter string
  | EmptyNameOrExpression string
  | InvalidResourceExpression string
  | NoSegments string

section \<open>Parsing\<close>

definition literalExpr :: "string \<Rightarrow> exprSeg" where
  "literalExpr s = \<lparr>es_literal = s, es_wildcard = False, es_multi = False\<rparr>"

fun parseExprParts :: "string \<Rightarrow> string list \<Rightarrow> pattern_error + exprSeg list" where
  \<comment> \<open>the loop of \<open>parseResourceExpr\<close>\<close>
  "parseExprParts expr [] = Inr []"
| "parseExprParts expr (part # parts) =
     (if part = [] then Inl (InvalidResourceExpression expr)
      else case parseExprParts expr parts of
             Inl e \<Rightarrow> Inl e
           | Inr segs \<Rightarrow>
               Inr ((if part = ''**'' then \<lparr>es_literal = [], es_wildcard = False, es_multi = True\<rparr>
                     else if part = ''*'' then \<lparr>es_literal = [], es_wildcard = True, es_multi = False\<rparr>
                     else literalExpr part) # segs))"

definition parseResourceExpr :: "string \<Rightarrow> pattern_error + exprSeg list" where
  "parseResourceExpr expr =
     (case parseExprParts expr (split_byte expr CHR ''/'') of
        Inl e \<Rightarrow> Inl e
      | Inr segs \<Rightarrow> if segs = [] then Inl (InvalidResourceExpression expr) else Inr segs)"

definition parseSegment :: "string \<Rightarrow> pattern_error + segment" where
  "parseSegment part =
     (if \<not> has_prefix part ''{'' then Inr \<lparr>seg_literal = part, seg_param = None\<rparr>
      else if \<not> has_suffix part ''}'' then Inl (MissingClosingBrace part)
      else
        let inner = take (length part - 2) (drop 1 part)
        in if inner = [] then Inl (EmptyParameter part)
           else case index_byte inner CHR ''='' of
                  Some eq \<Rightarrow>
                    (let name = take eq inner; expr = drop (eq + 1) inner
                     in if name = [] \<or> expr = [] then Inl (EmptyNameOrExpression part)
                        else case parseResourceExpr expr of
                               Inl e \<Rightarrow> Inl e
                             | Inr exprSegs \<Rightarrow>
                                 Inr \<lparr>seg_literal = [],
                                      seg_param = Some \<lparr>p_name = name, p_resource = True,
                                                        p_expr = exprSegs\<rparr>\<rparr>)
                | None \<Rightarrow>
                    Inr \<lparr>seg_literal = [],
                         seg_param = Some \<lparr>p_name = inner, p_resource = False, p_expr = []\<rparr>\<rparr>)"

fun splitTemplate_loop :: "string list \<Rightarrow> string list \<Rightarrow> string \<Rightarrow> int \<Rightarrow> string list" where
  \<comment> \<open>runes left, \<open>parts\<close>, \<open>cur\<close>, \<open>depth\<close>\<close>
  "splitTemplate_loop [] parts cur depth = (if cur \<noteq> [] then parts @ [cur] else parts)"
| "splitTemplate_loop (r # rs) parts cur depth =
     (if r = ''{'' then splitTemplate_loop rs parts (cur @ r) (depth + 1)
      else if r = ''}'' then splitTemplate_loop rs parts (cur @ r) (depth - 1)
      else if r = ''/'' then
        (if depth = 0 then splitTemplate_loop rs (parts @ [cur]) [] depth
         else splitTemplate_loop rs parts (cur @ r) depth)
      else splitTemplate_loop rs parts (cur @ r) depth)"

definition splitTemplate :: "string \<Rightarrow> string list" where
  "splitTemplate template = splitTemplate_loop (rune_strings template) [] [] 0"

definition splitVerb :: "string \<Rightarrow> string \<times> string" where
  \<comment> \<open>the custom verb and the rest of the template; the first block of \<open>ParsePattern\<close>\<close>
  "splitVerb template =
     (case last_index_byte template CHR '':'' of
        None \<Rightarrow> ([], template)
      | Some idx \<Rightarrow>
          if idx > 0 then
            (let verb = drop (idx + 1) template
             in if verb \<noteq> [] \<and> \<not> contains_byte verb CHR ''/'' \<and> \<not> contains_byte verb CHR ''{''
                then (verb, take idx template) else ([], template))
          else ([], template))"

fun parseParts :: "string list \<Rightarrow> pattern_error + segment list" where
  "parseParts [] = Inr []"
| "parseParts (part # parts) =
     (if part = [] then parseParts parts
      else case parseSegment part of
             Inl e \<Rightarrow> Inl e
           | Inr seg \<Rightarrow> (case parseParts parts of Inl e \<Rightarrow> Inl e | Inr segs \<Rightarrow> Inr (seg # segs)))"

definition ParsePattern :: "string \<Rightarrow> pattern_error + Pattern" where
  "ParsePattern template =
     (if template = [] then Inl EmptyTemplate
      else if \<not> has_prefix template ''/'' then Inl (MustStartWithSlash template)
      else
        let (verb, rest) = splitVerb template
        in case parseParts (splitTemplate rest) of
             Inl e \<Rightarrow> Inl e
           | Inr segs \<Rightarrow>
               if segs = [] then Inl (NoSegments template)
               else Inr \<lparr>raw = template, segments = segs, pat_verb = verb\<rparr>)"

section \<open>Matching\<close>

definition not_slash :: "char \<Rightarrow> bool" where
  "not_slash c = (c \<noteq> CHR ''/'')"

definition skip_slashes :: "string \<Rightarrow> string" where
  \<comment> \<open>\<open>for pi < len(path) && path[pi] == '/' { pi++ }\<close>\<close>
  "skip_slashes s = dropWhile (\<lambda>c. c = CHR ''/'') s"

definition slice :: "string \<Rightarrow> string \<Rightarrow> string" where
  "slice start cur = take (length start - length cur) start"

definition at_boundary :: "string \<Rightarrow> bool" where
  \<comment> \<open>not \<open>pi < len(path) && path[pi] != '/'\<close>\<close>
  "at_boundary s = (s = [] \<or> hd s = CHR ''/'')"

fun matchExpr_loop :: "exprSeg list \<Rightarrow> string \<Rightarrow> string \<Rightarrow> (string \<times> string) option" where
  "matchExpr_loop [] start cur = Some (slice start cur, cur)"
| "matchExpr_loop (es # ess) start cur =
     (let cur = skip_slashes cur
      in if es_multi es then Some (start, [])
         else if es_wildcard es then matchExpr_loop ess start (dropWhile not_slash cur)
         else if \<not> has_prefix cur (es_literal es) then None
         else let cur = drop (length (es_literal es)) cur
              in if \<not> at_boundary cur then None else matchExpr_loop ess start cur)"

definition matchResourceExpr :: "exprSeg list \<Rightarrow> string \<Rightarrow> (string \<times> string) option" where
  \<comment> \<open>the captured value and the suffix at the end index\<close>
  "matchResourceExpr expr start = matchExpr_loop expr start start"

fun matchSegments :: "segment list \<Rightarrow> string \<Rightarrow> params \<Rightarrow> (string \<times> params) option" where
  \<comment> \<open>the loop over the segments: the suffix left and the parameters\<close>
  "matchSegments [] cur params = Some (cur, params)"
| "matchSegments (seg # segs) cur params =
     (let cur = skip_slashes cur
      in case seg_param seg of
           Some p \<Rightarrow>
             if p_resource p then
               (case matchResourceExpr (p_expr p) cur of
                  None \<Rightarrow> None
                | Some (value, rest) \<Rightarrow>
                    matchSegments segs rest (Some ((params_make params)(p_name p \<mapsto> value))))
             else
               (let value = takeWhile not_slash cur
                in if value = [] then None
                   else matchSegments segs (dropWhile not_slash cur)
                          (Some ((params_make params)(p_name p \<mapsto> value))))
         | None \<Rightarrow>
             if \<not> has_prefix cur (seg_literal seg) then None
             else let cur = drop (length (seg_literal seg)) cur
                  in if \<not> at_boundary cur then None else matchSegments segs cur params)"

definition last_segment :: "string \<Rightarrow> string" where
  \<comment> \<open>\<open>path[lastStart:]\<close>\<close>
  "last_segment path = rev (takeWhile not_slash (rev path))"

definition Match :: "Pattern \<Rightarrow> string \<Rightarrow> params option" where
  \<comment> \<open>\<open>None\<close> is \<open>(nil, false)\<close>\<close>
  "Match p path =
     (if pat_verb p \<noteq> [] \<and> \<not> has_suffix (last_segment path) ('':'' @ pat_verb p) then None
      else
        let path = (if pat_verb p \<noteq> [] then take (length path - length (pat_verb p) - 1) path
                    else path)
        in case matchSegments (segments p) path None of
             None \<Rightarrow> None
           | Some (cur, params) \<Rightarrow> if skip_slashes cur \<noteq> [] then None else Some params)"

definition Specificity :: "Pattern \<Rightarrow> nat" where
  "Specificity p = sum_list (map (\<lambda>seg. if seg_param seg \<noteq> None then 1 else 10) (segments p))"

lemmas pattern_defs [go_defs] =
  parseResourceExpr_def parseSegment_def splitTemplate_def splitVerb_def ParsePattern_def
  literalExpr_def not_slash_def skip_slashes_def slice_def at_boundary_def
  matchResourceExpr_def last_segment_def Match_def Specificity_def contains_byte_def

end
