(* ===== verification/PatternSpec.thy ===== *)
theory PatternSpec
  imports Pattern
begin

text \<open>
  Properties of path templates: what \<open>ParsePattern\<close> guarantees of its result, that it reads back
  every template a pattern renders to, and which parameters a successful \<open>Match\<close> binds.
\<close>

section \<open>What parsing guarantees\<close>

definition expr_ok :: "exprSeg \<Rightarrow> bool" where
  "expr_ok es =
     (if es_multi es then \<not> es_wildcard es \<and> es_literal es = []
      else if es_wildcard es then es_literal es = []
      else es_literal es \<noteq> [] \<and> CHR ''/'' \<notin> set (es_literal es)
           \<and> es_literal es \<noteq> ''*'' \<and> es_literal es \<noteq> ''**'')"

definition segment_ok :: "segment \<Rightarrow> bool" where
  "segment_ok seg =
     (case seg_param seg of
        None \<Rightarrow> seg_literal seg \<noteq> [] \<and> \<not> has_prefix (seg_literal seg) ''{''
      | Some p \<Rightarrow> seg_literal seg = [] \<and> p_name p \<noteq> [] \<and> CHR ''='' \<notin> set (p_name p) \<and>
          (if p_resource p then p_expr p \<noteq> [] \<and> list_all expr_ok (p_expr p) else p_expr p = []))"

definition pattern_ok :: "Pattern \<Rightarrow> bool" where
  "pattern_ok p = (segments p \<noteq> [] \<and> list_all segment_ok (segments p)
     \<and> CHR ''/'' \<notin> set (pat_verb p) \<and> CHR ''{'' \<notin> set (pat_verb p))"

lemma parseExprParts_ok:
  "parseExprParts e parts = Inr segs \<Longrightarrow> \<forall>p \<in> set parts. CHR ''/'' \<notin> set p \<Longrightarrow>
   list_all expr_ok segs \<and> length segs = length parts"
proof (induction parts arbitrary: segs)
  case Nil
  then show ?case by simp
next
  case (Cons p parts)
  then obtain ss where ss: "parseExprParts e parts = Inr ss" and p: "p \<noteq> []"
    by (auto split: if_splits sum.splits)
  have "segs \<noteq> [] \<and> tl segs = ss \<and> expr_ok (hd segs)"
    using Cons.prems p ss by (auto simp: expr_ok_def literalExpr_def split: if_splits)
  with Cons ss show ?case by (cases segs) auto
qed

lemma parseSegment_ok:
  assumes "parseSegment part = Inr seg" "part \<noteq> []"
  shows "segment_ok seg"
proof (cases "has_prefix part ''{''")
  case False
  with assms show ?thesis by (auto simp: parseSegment_def segment_ok_def)
next
  case True
  define inner where "inner = take (length part - 2) (drop 1 part)"
  show ?thesis
  proof (cases "index_byte inner CHR ''=''")
    case None
    with assms True have "seg = \<lparr>seg_literal = [],
        seg_param = Some \<lparr>p_name = inner, p_resource = False, p_expr = []\<rparr>\<rparr>" "inner \<noteq> []"
      by (auto simp: parseSegment_def Let_def inner_def split: if_splits)
    with None show ?thesis by (simp add: segment_ok_def index_byte_None)
  next
    case (Some i)
    with assms True obtain segs where seg: "seg = \<lparr>seg_literal = [],
        seg_param = Some \<lparr>p_name = take i inner, p_resource = True, p_expr = segs\<rparr>\<rparr>"
      and expr: "parseResourceExpr (drop (i + 1) inner) = Inr segs" and ne: "take i inner \<noteq> []"
      by (auto simp: parseSegment_def Let_def inner_def split: if_splits sum.splits)
    have "segs \<noteq> [] \<and> list_all expr_ok segs"
      using expr parseExprParts_ok split_byte_no_sep
      by (fastforce simp: parseResourceExpr_def split: sum.splits if_splits)
    with seg ne index_byte_Some [OF Some] show ?thesis by (simp add: segment_ok_def)
  qed
qed

lemma parseParts_ok: "parseParts parts = Inr segs \<Longrightarrow> list_all segment_ok segs"
  by (induction parts arbitrary: segs) (auto split: if_splits sum.splits dest: parseSegment_ok)

lemma splitVerb_ok: "splitVerb t = (verb, rest) \<Longrightarrow> CHR ''/'' \<notin> set verb \<and> CHR ''{'' \<notin> set verb"
  by (auto simp: splitVerb_def contains_byte_def Let_def split: option.splits if_splits)

lemma parsed_ok:
  assumes "ParsePattern t = Inr p"
  shows "raw p = t \<and> has_prefix t ''/'' \<and> pattern_ok p"
  using assms parseParts_ok splitVerb_ok
  by (fastforce simp: ParsePattern_def pattern_ok_def split: if_splits sum.splits prod.splits)

text \<open>
  C11. A template that parses gives a pattern that keeps the template as \<open>raw\<close> and has at least
  one segment; each segment is a non-empty literal or a named parameter, a resource parameter has
  a non-empty expression of well-formed parts, and the verb holds no slash or brace.
\<close>

theorem ParsePattern_ok:
  assumes "ParsePattern t = Inr p"
  shows "raw p = t \<and> has_prefix t ''/'' \<and> pattern_ok p"
  using assms by (rule parsed_ok)

section \<open>Reading back a rendered template\<close>

definition render_expr :: "exprSeg \<Rightarrow> string" where
  "render_expr es = (if es_multi es then ''**'' else if es_wildcard es then ''*'' else es_literal es)"

definition render_segment :: "segment \<Rightarrow> string" where
  "render_segment seg =
     (case seg_param seg of
        None \<Rightarrow> seg_literal seg
      | Some p \<Rightarrow>
          ''{'' @ p_name p @
          (if p_resource p then ''='' @ join_with ''/'' (map render_expr (p_expr p)) else []) @ ''}'')"

definition render :: "Pattern \<Rightarrow> string" where
  "render p = concat (map (\<lambda>seg. ''/'' @ render_segment seg) (segments p)) @
     (if pat_verb p = [] then [] else '':'' @ pat_verb p)"

definition plain :: "string \<Rightarrow> bool" where
  "plain s = (ascii s \<and> set s \<inter> {CHR ''{'', CHR ''}'', CHR '':''} = {})"

definition printable :: "segment \<Rightarrow> bool" where
  \<comment> \<open>no braces or colons inside, slashes only between the parts of an expression\<close>
  "printable seg =
     (segment_ok seg \<and>
      (case seg_param seg of
         None \<Rightarrow> plain (seg_literal seg) \<and> CHR ''/'' \<notin> set (seg_literal seg)
       | Some p \<Rightarrow> plain (p_name p) \<and> CHR ''/'' \<notin> set (p_name p)
           \<and> list_all (\<lambda>es. plain (es_literal es)) (p_expr p)))"

lemma plain_append [simp]: "plain (a @ b) \<longleftrightarrow> plain a \<and> plain b"
  by (auto simp: plain_def)

lemma plain_Nil [simp]: "plain []" by (simp add: plain_def)

lemma plain_join: "(\<forall>s \<in> set ss. plain s) \<Longrightarrow> plain (join_with ''/'' ss)"
  by (induction "''/''" ss rule: join_with.induct) (auto simp: plain_def byte_in_def)

lemma plain_render_expr: "plain (es_literal es) \<Longrightarrow> plain (render_expr es)"
  by (simp add: render_expr_def plain_def byte_in_def)

lemma parse_render_expr:
  "list_all expr_ok segs \<Longrightarrow> parseExprParts e (map render_expr segs) = Inr segs"
proof (induction segs)
  case Nil
  then show ?case by simp
next
  case (Cons es segs)
  then have "parseExprParts e (map render_expr segs) = Inr segs" "expr_ok es" by simp_all
  moreover from this(2) have "render_expr es \<noteq> [] \<and>
      (if render_expr es = ''**'' then \<lparr>es_literal = [], es_wildcard = False, es_multi = True\<rparr>
       else if render_expr es = ''*'' then \<lparr>es_literal = [], es_wildcard = True, es_multi = False\<rparr>
       else literalExpr (render_expr es)) = es"
    by (cases es) (auto simp: expr_ok_def render_expr_def literalExpr_def split: if_splits)
  ultimately show ?case by simp
qed

lemma render_expr_no_slash: "expr_ok es \<Longrightarrow> CHR ''/'' \<notin> set (render_expr es)"
  by (auto simp: expr_ok_def render_expr_def split: if_splits)

lemma parseResourceExpr_render:
  assumes "list_all expr_ok segs" "segs \<noteq> []"
  shows "parseResourceExpr (join_with ''/'' (map render_expr segs)) = Inr segs"
proof -
  have "split_byte (join_with ''/'' (map render_expr segs)) CHR ''/'' = map render_expr segs"
    by (rule split_join_byte) (use assms render_expr_no_slash in \<open>auto simp: list_all_iff\<close>)
  with parse_render_expr [OF assms(1)] assms(2) show ?thesis by (simp add: parseResourceExpr_def)
qed

lemma join_render_expr_not_Nil:
  assumes "list_all expr_ok segs" "segs \<noteq> []"
  shows "join_with ''/'' (map render_expr segs) \<noteq> []"
  using assms by (cases "map render_expr segs" rule: remdups_adj.cases)
    (auto simp: expr_ok_def render_expr_def split: if_splits)

definition render_inner :: "param \<Rightarrow> string" where
  "render_inner p = p_name p @
    (if p_resource p then ''='' @ join_with ''/'' (map render_expr (p_expr p)) else [])"

lemma render_segment_inner: "seg_param seg = Some p \<Longrightarrow> render_segment seg = ''{'' @ render_inner p @ ''}''"
  by (simp add: render_segment_def render_inner_def)

lemma plain_inner:
  assumes "printable seg" "seg_param seg = Some p"
  shows "plain (render_inner p)"
proof -
  have "plain (join_with ''/'' (map render_expr (p_expr p)))"
    by (rule plain_join) (use assms in \<open>auto simp: printable_def list_all_iff plain_render_expr\<close>)
  moreover have "plain ''=''" by (simp add: plain_def byte_in_def)
  ultimately show ?thesis
    using assms plain_append [of "''=''" "join_with ''/'' (map render_expr (p_expr p))"]
    by (simp add: render_inner_def printable_def)
qed

lemma parseSegment_render:
  assumes "segment_ok seg"
  shows "parseSegment (render_segment seg) = Inr seg"
proof (cases "seg_param seg")
  case None
  with assms show ?thesis by (cases seg) (simp add: parseSegment_def render_segment_def segment_ok_def)
next
  case (Some p)
  have suffix: "has_suffix (''{'' @ render_inner p @ ''}'') ''}''"
    using has_suffix_append [of "''{'' @ render_inner p" "''}''"] by simp
  have name: "p_name p \<noteq> []" "CHR ''='' \<notin> set (p_name p)" and lit: "seg_literal seg = []"
    using assms Some by (simp_all add: segment_ok_def)
  have inner: "render_inner p \<noteq> []" using name by (simp add: render_inner_def)
  show ?thesis
  proof (cases "p_resource p")
    case False
    with assms Some name lit suffix inner show ?thesis
      unfolding render_segment_inner [OF Some] by (cases seg; cases p)
        (simp add: parseSegment_def Let_def render_inner_def segment_ok_def index_byte_None [THEN iffD2])
  next
    case True
    let ?e = "join_with ''/'' (map render_expr (p_expr p))"
    have ok: "list_all expr_ok (p_expr p)" "p_expr p \<noteq> []" using assms Some True by (simp_all add: segment_ok_def)
    have "index_byte (render_inner p) CHR ''='' = Some (length (p_name p))"
      using index_byte_append_first [OF name(2), of ?e] True by (simp add: render_inner_def)
    moreover have "take (length (p_name p)) (render_inner p) = p_name p" "drop (length (p_name p) + 1) (render_inner p) = ?e"
      using True by (simp_all add: render_inner_def)
    ultimately show ?thesis
      using Some True name lit suffix inner parseResourceExpr_render [OF ok] join_render_expr_not_Nil [OF ok]
      unfolding render_segment_inner [OF Some] by (cases seg; cases p) (simp add: parseSegment_def Let_def)
  qed
qed

lemma splitTemplate_inner:
  "\<forall>c \<in> set s. c \<noteq> CHR ''{'' \<and> c \<noteq> CHR ''}'' \<and> (c = CHR ''/'' \<longrightarrow> depth \<noteq> 0) \<Longrightarrow>
   splitTemplate_loop (map (\<lambda>c. [c]) s @ rs) parts cur depth = splitTemplate_loop rs parts (cur @ s) depth"
  by (induction s arbitrary: cur) auto

lemma splitTemplate_segment:
  assumes "printable seg"
  shows "splitTemplate_loop (map (\<lambda>c. [c]) (render_segment seg) @ rs) parts [] 0 =
         splitTemplate_loop rs parts (render_segment seg) 0"
proof (cases "seg_param seg")
  case None
  with assms show ?thesis
    by (subst splitTemplate_inner) (auto simp: printable_def render_segment_def plain_def)
next
  case (Some p)
  have "plain (render_inner p)" using plain_inner [OF assms Some] .
  then have "\<forall>c \<in> set (render_inner p). c \<noteq> CHR ''{'' \<and> c \<noteq> CHR ''}'' \<and> (c = CHR ''/'' \<longrightarrow> (1 :: int) \<noteq> 0)"
    by (auto simp: plain_def)
  from splitTemplate_inner [OF this, of "''}'' # rs" parts "''{''"] show ?thesis
    by (simp add: render_segment_inner [OF Some])
qed

lemma splitTemplate_segments:
  "list_all printable segs \<Longrightarrow> cur \<noteq> [] \<Longrightarrow>
   splitTemplate_loop (map (\<lambda>c. [c]) (concat (map (\<lambda>seg. ''/'' @ render_segment seg) segs))) parts cur 0 =
     parts @ cur # map render_segment segs"
proof (induction segs arbitrary: parts cur)
  case Nil
  then show ?case by simp
next
  case (Cons seg segs)
  have ne: "render_segment seg \<noteq> []"
    using Cons.prems by (auto simp: printable_def segment_ok_def render_segment_def split: option.splits)
  with Cons show ?case by (simp add: splitTemplate_segment)
qed

lemma plain_render_segment:
  assumes "printable seg"
  shows "ascii (render_segment seg) \<and> CHR '':'' \<notin> set (render_segment seg)"
proof (cases "seg_param seg")
  case None
  with assms show ?thesis by (simp add: printable_def render_segment_def plain_def)
next
  case (Some p)
  from plain_inner [OF assms Some] show ?thesis
    by (simp add: render_segment_inner [OF Some] plain_def byte_in_def)
qed

lemma splitVerb_render:
  assumes "list_all printable (segments p)" "segments p \<noteq> []"
    and "CHR '':'' \<notin> set (pat_verb p)" "CHR ''/'' \<notin> set (pat_verb p)" "CHR ''{'' \<notin> set (pat_verb p)"
  shows "splitVerb (render p) =
    (pat_verb p, concat (map (\<lambda>seg. ''/'' @ render_segment seg) (segments p)))"
proof -
  let ?b = "concat (map (\<lambda>seg. ''/'' @ render_segment seg) (segments p))"
  have b: "CHR '':'' \<notin> set ?b" using assms(1) plain_render_segment by (auto simp: list_all_iff)
  have ne: "?b \<noteq> []" using assms(2) by (cases "segments p") auto
  show ?thesis
  proof (cases "pat_verb p = []")
    case True
    with b show ?thesis
      by (simp add: splitVerb_def render_def last_index_byte_None [THEN iffD2])
  next
    case False
    then have "last_index_byte (render p) CHR '':'' = Some (length ?b)"
      using last_index_byte_append_last [OF assms(3), of ?b] by (simp add: render_def)
    with False ne assms(3-) show ?thesis
      by (simp add: splitVerb_def Let_def contains_byte_def render_def)
  qed
qed

lemma parseParts_render: "list_all segment_ok segs \<Longrightarrow> parseParts (map render_segment segs) = Inr segs"
proof (induction segs)
  case Nil
  then show ?case by simp
next
  case (Cons seg segs)
  then have "render_segment seg \<noteq> []" by (auto simp: segment_ok_def render_segment_def split: option.splits)
  with Cons show ?case by (simp add: parseSegment_render)
qed

text \<open>
  C12. \<open>ParsePattern\<close> inverts rendering: a pattern of well-formed segments whose texts hold no
  braces or colons, and whose verb holds no colon, is read back from the template it renders to.
\<close>

theorem ParsePattern_render:
  assumes "list_all printable (segments p)" "pattern_ok p" "CHR '':'' \<notin> set (pat_verb p)"
  shows "ParsePattern (render p) = Inr (p\<lparr>raw := render p\<rparr>)"
proof -
  let ?b = "concat (map (\<lambda>seg. ''/'' @ render_segment seg) (segments p))"
  have ne: "segments p \<noteq> []" and verb: "CHR ''/'' \<notin> set (pat_verb p)" "CHR ''{'' \<notin> set (pat_verb p)"
    using assms(2) by (auto simp: pattern_ok_def)
  then obtain seg segs where segs: "segments p = seg # segs" by (cases "segments p") auto
  have "ascii ?b" using assms(1) plain_render_segment by (auto simp: list_all_iff ascii_def byte_in_def)
  moreover have ner: "render_segment seg \<noteq> []"
    using assms(1) segs by (auto simp: printable_def segment_ok_def render_segment_def split: option.splits)
  ultimately have split: "splitTemplate ?b = [] # map render_segment (segments p)"
    using assms(1) segs
    by (simp add: splitTemplate_def rune_strings_ascii splitTemplate_segment
        splitTemplate_segments [simplified])
  have head: "render p \<noteq> []" "has_prefix (render p) ''/''" using segs by (simp_all add: render_def)
  have parse: "parseParts (splitTemplate ?b) = Inr (segments p)"
    using parseParts_render [of "segments p"] assms(2) split by (simp add: pattern_ok_def)
  show ?thesis
    using head splitVerb_render [OF assms(1) ne assms(3) verb] parse ne
    by (cases p) (simp add: ParsePattern_def)
qed

section \<open>The parameters a match binds\<close>

definition pattern_names :: "segment list \<Rightarrow> string list" where
  "pattern_names segs = List.map_filter (\<lambda>seg. map_option p_name (seg_param seg)) segs"

lemma pattern_names_simps [simp]:
  "pattern_names [] = []"
  "pattern_names (seg # segs) =
     (case seg_param seg of None \<Rightarrow> pattern_names segs | Some p \<Rightarrow> p_name p # pattern_names segs)"
  by (simp_all add: pattern_names_def map_filter_def split: option.splits)

definition single_value :: "string option \<Rightarrow> bool" where
  "single_value v = (\<exists>x. v = Some x \<and> x \<noteq> [] \<and> CHR ''/'' \<notin> set x)"

lemma takeWhile_not_slash: "CHR ''/'' \<notin> set (takeWhile not_slash s)"
  by (auto simp: not_slash_def dest: set_takeWhileD)

lemma matchSegments_step:
  assumes "matchSegments (seg # segs) cur ps = Some res"
  obtains (literal) cur' where "seg_param seg = None" "matchSegments segs cur' ps = Some res"
  | (param) p v cur' where "seg_param seg = Some p"
      "matchSegments segs cur' (Some ((params_make ps)(p_name p \<mapsto> v))) = Some res"
      "\<not> p_resource p \<Longrightarrow> v \<noteq> [] \<and> CHR ''/'' \<notin> set v"
  using assms takeWhile_not_slash
  by (auto simp: Let_def split: option.splits if_splits prod.splits)

lemma matchSegments_params:
  assumes "matchSegments segs cur ps = Some (rest, ps')"
  shows "dom (params_make ps') = dom (params_make ps) \<union> set (pattern_names segs) \<and>
    (ps' = None \<longleftrightarrow> ps = None \<and> pattern_names segs = []) \<and>
    (\<forall>k. k \<notin> set (pattern_names segs) \<longrightarrow> params_make ps' k = params_make ps k)"
  using assms
proof (induction segs arbitrary: cur ps)
  case Nil
  then show ?case by simp
next
  case (Cons seg segs)
  from Cons.prems show ?case
  proof (cases rule: matchSegments_step)
    case literal
    with Cons.IH [OF literal(2)] show ?thesis by simp
  next
    case (param p v cur')
    with Cons.IH [OF param(2)] show ?thesis by auto
  qed
qed

lemma matchSegments_values:
  assumes "matchSegments segs cur ps = Some (rest, ps')" "distinct (pattern_names segs)"
    and "seg \<in> set segs" "seg_param seg = Some p" "\<not> p_resource p"
  shows "single_value (params_make ps' (p_name p))"
  using assms(1-3)
proof (induction segs arbitrary: cur ps)
  case Nil
  then show ?case by simp
next
  case (Cons seg' segs)
  from Cons.prems(1) show ?case
  proof (cases rule: matchSegments_step)
    case literal
    with Cons assms(4) show ?thesis by auto
  next
    case (param q v cur')
    show ?thesis
    proof (cases "seg = seg'")
      case True
      with param assms(4) Cons.prems(2) have "p_name p \<notin> set (pattern_names segs)" "q = p" by auto
      with matchSegments_params [OF param(2)] param(3) assms(5) show ?thesis
        by (simp add: single_value_def)
    next
      case False
      with Cons param show ?thesis by simp
    qed
  qed
qed

text \<open>
  A match binds exactly the names of the template's parameters and nothing else (no map is
  allocated when there are none), and when no name repeats every single-segment parameter gets a
  non-empty value without a slash.
\<close>

theorem Match_params:
  assumes "Match p path = Some ps"
  shows "dom (params_make ps) = set (pattern_names (segments p)) \<and>
    (ps = None \<longleftrightarrow> pattern_names (segments p) = []) \<and>
    (distinct (pattern_names (segments p)) \<longrightarrow>
     (\<forall>seg q. seg \<in> set (segments p) \<and> seg_param seg = Some q \<and> \<not> p_resource q \<longrightarrow>
        single_value (params_get ps (p_name q))))"
proof -
  from assms obtain cur rest where m: "matchSegments (segments p) cur None = Some (rest, ps)"
    by (auto simp: Match_def Let_def split: if_splits option.splits)
  have "params_get ps k = params_make ps k" for k by (cases ps) simp_all
  with matchSegments_params [OF m] matchSegments_values [OF m] show ?thesis by auto
qed

lemma Match_params_witness:
  "\<exists>p ps. ParsePattern ''/v1/{id}/{name=a/*}:go'' = Inr p \<and> Match p ''/v1/7/a/b:go'' = Some ps \<and>
     dom (params_make ps) = {''id'', ''name''}"
proof -
  let ?p = "\<lparr>raw = ''/v1/{id}/{name=a/*}:go'', segments =
     [\<lparr>seg_literal = ''v1'', seg_param = None\<rparr>,
      \<lparr>seg_literal = [], seg_param = Some \<lparr>p_name = ''id'', p_resource = False, p_expr = []\<rparr>\<rparr>,
      \<lparr>seg_literal = [], seg_param = Some \<lparr>p_name = ''name'', p_resource = True,
         p_expr = [literalExpr ''a'', \<lparr>es_literal = [], es_wildcard = True, es_multi = False\<rparr>]\<rparr>\<rparr>],
     pat_verb = ''go''\<rparr>"
  have parse: "ParsePattern ''/v1/{id}/{name=a/*}:go'' = Inr ?p"
    by (simp add: go_defs rune_strings_ascii byte_in_def has_suffix_def has_prefix_def)
  have match: "Match ?p ''/v1/7/a/b:go'' = Some (Some [''id'' \<mapsto> ''7'', ''name'' \<mapsto> ''a/b''])"
    by (simp add: go_defs has_suffix_def has_prefix_def)
  have "dom (params_make (Some [''id'' \<mapsto> ''7'', ''name'' \<mapsto> ''a/b'' :: string])) = {''id'', ''name''}"
    using Match_params [OF match] by auto
  with parse match show ?thesis by blast
qed

lemma ParsePattern_ok_witness:
  "\<exists>p. ParsePattern ''/v1/{id}:go'' = Inr p \<and> raw p = ''/v1/{id}:go'' \<and> pattern_ok p"
proof -
  let ?p = "\<lparr>raw = ''/v1/{id}:go'', segments =
     [\<lparr>seg_literal = ''v1'', seg_param = None\<rparr>,
      \<lparr>seg_literal = [], seg_param = Some \<lparr>p_name = ''id'', p_resource = False, p_expr = []\<rparr>\<rparr>],
     pat_verb = ''go''\<rparr>"
  have parse: "ParsePattern ''/v1/{id}:go'' = Inr ?p"
    by (simp add: go_defs rune_strings_ascii byte_in_def has_suffix_def has_prefix_def)
  from ParsePattern_ok [OF this] parse show ?thesis by blast
qed

lemma ParsePattern_render_witness:
  "ParsePattern ''/v1/{name=a/**}:go'' = Inr \<lparr>raw = ''/v1/{name=a/**}:go'', segments =
     [\<lparr>seg_literal = ''v1'', seg_param = None\<rparr>,
      \<lparr>seg_literal = [], seg_param = Some \<lparr>p_name = ''name'', p_resource = True,
         p_expr = [literalExpr ''a'', \<lparr>es_literal = [], es_wildcard = False, es_multi = True\<rparr>]\<rparr>\<rparr>],
     pat_verb = ''go''\<rparr>"
  using ParsePattern_render [of "\<lparr>raw = [], segments =
     [\<lparr>seg_literal = ''v1'', seg_param = None\<rparr>,
      \<lparr>seg_literal = [], seg_param = Some \<lparr>p_name = ''name'', p_resource = True,
         p_expr = [literalExpr ''a'', \<lparr>es_literal = [], es_wildcard = False, es_multi = True\<rparr>]\<rparr>\<rparr>],
     pat_verb = ''go''\<rparr>"]
  by (simp add: printable_def segment_ok_def pattern_ok_def plain_def byte_in_def expr_ok_def
      literalExpr_def render_def render_segment_def render_expr_def)

end
