(* ===== verification/Metadata.thy ===== *)
theory Metadata
  imports Prelude
begin

text \<open>
  Transport metadata, \<open>metadata/metadata.go\<close>: the request metadata and its accessors, the headers
  forwarded to gRPC, and the \<open>Grpc-Timeout\<close> and \<open>Grpc-Deadline\<close> headers. Durations and times are
  integers in nanoseconds; a \<open>time.Duration\<close> is an \<open>int64\<close>, so every product is written with
  its wrap-around.
\<close>

record cookie =
  c_name :: string
  c_value :: string

record RequestMeta =
  mHeader :: "header option"
  mQuery :: "header option"
  mBody :: "string option"
  mCookies :: "cookie list"
  mParams :: params

definition empty_meta :: RequestMeta where
  "empty_meta = \<lparr>mHeader = None, mQuery = None, mBody = None, mCookies = [], mParams = None\<rparr>"

text \<open>
  \<open>context.Context\<close>: the deadline, and the values attached under the framework's private key
  types (request metadata, and the claims of \<open>auth/jwt\<close>, whose type is a parameter here) and
  under keys of other packages.
\<close>

record 'c Context =
  ctxDeadline :: "int option"
  requestMetaValue :: "RequestMeta option"
  claimsValue :: "'c option"
  otherValues :: "string \<rightharpoonup> string"

definition WithRequestMeta :: "'c Context \<Rightarrow> RequestMeta \<Rightarrow> 'c Context" where
  "WithRequestMeta ctx meta = ctx\<lparr>requestMetaValue := Some meta\<rparr>"

definition RequestMetaFromContext :: "'c Context \<Rightarrow> RequestMeta" where
  "RequestMetaFromContext ctx =
     (case requestMetaValue ctx of Some meta \<Rightarrow> meta | None \<Rightarrow> empty_meta)"

definition or_empty :: "header option \<Rightarrow> header" where
  "or_empty h = (case h of Some h \<Rightarrow> h | None \<Rightarrow> [])"

definition HeaderFromContext :: "'c Context \<Rightarrow> header" where
  "HeaderFromContext ctx = or_empty (mHeader (RequestMetaFromContext ctx))"

definition QueryFromContext :: "'c Context \<Rightarrow> header" where
  "QueryFromContext ctx = or_empty (mQuery (RequestMetaFromContext ctx))"

definition BodyFromContext :: "'c Context \<Rightarrow> string option" where
  "BodyFromContext ctx = mBody (RequestMetaFromContext ctx)"

definition CookiesFromContext :: "'c Context \<Rightarrow> cookie list" where
  "CookiesFromContext ctx = mCookies (RequestMetaFromContext ctx)"

definition ParamsFromContext :: "'c Context \<Rightarrow> params" where
  "ParamsFromContext ctx = mParams (RequestMetaFromContext ctx)"

fun find_cookie :: "cookie list \<Rightarrow> string \<Rightarrow> cookie option" where
  \<comment> \<open>the loop of \<open>CookieFromContext\<close>, \<open>Request.Cookie\<close> and \<open>Ctx.Cookie\<close>; \<open>None\<close> is
      \<open>http.ErrNoCookie\<close>\<close>
  "find_cookie [] nm = None"
| "find_cookie (c # cs) nm = (if c_name c = nm then Some c else find_cookie cs nm)"

definition CookieFromContext :: "'c Context \<Rightarrow> string \<Rightarrow> cookie option" where
  "CookieFromContext ctx nm = find_cookie (CookiesFromContext ctx) nm"

section \<open>Header constants\<close>

abbreviation HeaderAccept :: string where "HeaderAccept \<equiv> ''Accept''"
abbreviation HeaderAuthorization :: string where "HeaderAuthorization \<equiv> ''Authorization''"
abbreviation HeaderConnection :: string where "HeaderConnection \<equiv> ''Connection''"
abbreviation HeaderContentType :: string where "HeaderContentType \<equiv> ''Content-Type''"
abbreviation HeaderGrpcDeadline :: string where "HeaderGrpcDeadline \<equiv> ''Grpc-Deadline''"
abbreviation HeaderGrpcStatusDetails :: string where
  "HeaderGrpcStatusDetails \<equiv> ''Grpc-Status-Details-Bin''"
abbreviation HeaderGrpcTimeout :: string where "HeaderGrpcTimeout \<equiv> ''Grpc-Timeout''"
abbreviation HeaderUpgrade :: string where "HeaderUpgrade \<equiv> ''Upgrade''"
abbreviation ContentTypeJSON :: string where "ContentTypeJSON \<equiv> ''application/json''"
abbreviation ContentTypeProtobuf :: string where "ContentTypeProtobuf \<equiv> ''application/protobuf''"
abbreviation ContentTypeXProtobuf :: string where "ContentTypeXProtobuf \<equiv> ''application/x-protobuf''"
abbreviation ContentTypeXML :: string where "ContentTypeXML \<equiv> ''application/xml''"
abbreviation ContentTypeEventStream :: string where "ContentTypeEventStream \<equiv> ''text/event-stream''"
abbreviation ContentTypeGRPC :: string where "ContentTypeGRPC \<equiv> ''application/grpc''"

section \<open>Headers forwarded to gRPC\<close>

definition hopByHopHeaders :: "string list" where
  "hopByHopHeaders =
     [''content-type'', ''content-length'', ''connection'', ''upgrade'',
      ''accept'', ''accept-encoding'', ''user-agent'', ''host'',
      ''grpc-timeout'', ''grpc-deadline'']"

definition isHopByHop :: "string \<Rightarrow> bool" where
  "isHopByHop k = list_ex (\<lambda>h. equal_fold k h) hopByHopHeaders"

fun headerPairs_loop :: "header \<Rightarrow> string list" where
  "headerPairs_loop [] = []"
| "headerPairs_loop ((k, vs) # h) =
     (if isHopByHop k then headerPairs_loop h
      else concat (map (\<lambda>v. [to_lower k, v]) vs) @ headerPairs_loop h)"

definition HeaderPairsFromMeta :: "RequestMeta \<Rightarrow> string list option" where
  \<comment> \<open>\<open>None\<close> is the nil slice; the header's order is the order \<open>range\<close> visits the map in\<close>
  "HeaderPairsFromMeta meta =
     (let h = or_empty (mHeader meta)
      in if h = [] then None
         else let pairs = headerPairs_loop h in if pairs = [] then None else Some pairs)"

definition HeaderPairs :: "'c Context \<Rightarrow> string list option" where
  "HeaderPairs ctx = HeaderPairsFromMeta (RequestMetaFromContext ctx)"

section \<open>Grpc-Timeout and Grpc-Deadline\<close>

definition maxTimeoutValue :: int where
  "maxTimeoutValue = 100000000 - 1"

abbreviation Nanosecond :: int where "Nanosecond \<equiv> 1"
abbreviation Microsecond :: int where "Microsecond \<equiv> 1000"
abbreviation Millisecond :: int where "Millisecond \<equiv> 1000000"
abbreviation Second :: int where "Second \<equiv> 1000000000"
abbreviation Minute :: int where "Minute \<equiv> 60000000000"
abbreviation Hour :: int where "Hour \<equiv> 3600000000000"

definition timeoutUnits :: "char \<Rightarrow> int option" where
  "timeoutUnits c =
     (if c = CHR ''H'' then Some Hour else if c = CHR ''M'' then Some Minute
      else if c = CHR ''S'' then Some Second else if c = CHR ''m'' then Some Millisecond
      else if c = CHR ''u'' then Some Microsecond else if c = CHR ''n'' then Some Nanosecond
      else None)"

definition div_up :: "int \<Rightarrow> int \<Rightarrow> int" where
  \<comment> \<open>the local function \<open>div\<close>; both arguments are positive where it is called\<close>
  "div_up d r = (if d mod r > 0 then wrap64 (d div r + 1) else d div r)"

fun format_units :: "(int \<times> char) list \<Rightarrow> int \<Rightarrow> string" where
  "format_units [] d = format_int (div_up d Hour) @ ''H''"
| "format_units ((u, s) # us) d =
     (let v = div_up d u in if v \<le> maxTimeoutValue then format_int v @ [s] else format_units us d)"

definition timeout_units :: "(int \<times> char) list" where
  "timeout_units =
     [(Nanosecond, CHR ''n''), (Microsecond, CHR ''u''), (Millisecond, CHR ''m''),
      (Second, CHR ''S''), (Minute, CHR ''M''), (Hour, CHR ''H'')]"

definition FormatGrpcTimeout :: "int \<Rightarrow> string" where
  "FormatGrpcTimeout d = (if d \<le> 0 then ''0n'' else format_units timeout_units d)"

definition ParseGrpcTimeout :: "string \<Rightarrow> int option" where
  "ParseGrpcTimeout v =
     (let size = length v
      in if size < 2 \<or> size > 9 then None
         else case timeoutUnits (last v) of
                None \<Rightarrow> None
              | Some unit \<Rightarrow>
                  (case parse_uint (take (size - 1) v) 64 of
                     Inl _ \<Rightarrow> None
                   | Inr t \<Rightarrow>
                       (let maxHours = max_int64 div Hour
                        in if unit = Hour \<and> wrap64 (int t) > maxHours then Some max_int64
                           else Some (wrap64 (unit * wrap64 (int t))))))"

definition ParseGrpcDeadline :: "(string \<Rightarrow> int option) \<Rightarrow> string \<Rightarrow> int option" where
  \<comment> \<open>\<open>rfc3339\<close> is \<open>time.Parse(time.RFC3339, _)\<close>, as nanoseconds since the epoch\<close>
  "ParseGrpcDeadline rfc3339 v =
     (if v = [] then None
      else case rfc3339 v of
             Some t \<Rightarrow> Some t
           | None \<Rightarrow>
               (case parse_int v 64 of
                  Inr n \<Rightarrow> if length v > 10 then Some n else Some (n * Second)
                | Inl _ \<Rightarrow> None))"

lemmas metadata_defs [go_defs] =
  isHopByHop_def hopByHopHeaders_def HeaderPairsFromMeta_def or_empty_def FormatGrpcTimeout_def
  timeout_units_def maxTimeoutValue_def div_up_def ParseGrpcTimeout_def timeoutUnits_def

section \<open>Properties\<close>

lemma header_pairs_members:
  "set (headerPairs_loop h) = {} \<longleftrightarrow> (\<forall>(k, vs) \<in> set h. isHopByHop k \<or> vs = [])"
  by (induction h rule: headerPairs_loop.induct) auto

fun pair_up :: "string list \<Rightarrow> (string \<times> string) list" where
  \<comment> \<open>the reading \<open>AppendToOutgoingContext\<close> gives a flat list\<close>
  "pair_up (k # v # rest) = (k, v) # pair_up rest"
| "pair_up _ = []"

lemma pair_up_values: "pair_up (concat (map (\<lambda>v. [k, v]) vs) @ rest) = map (Pair k) vs @ pair_up rest"
  by (induction vs) auto

lemma pair_up_headers:
  "pair_up (headerPairs_loop h) =
     concat (map (\<lambda>(k, vs). if isHopByHop k then [] else map (Pair (to_lower k)) vs) h)"
  by (induction h rule: headerPairs_loop.induct) (auto simp: pair_up_values)

text \<open>
  What is forwarded to gRPC is exactly every value of every header that is not hop-by-hop,
  under its lower-case name and in the header's order: nothing is dropped, doubled or invented,
  and there is no slice when nothing is left.
\<close>

theorem HeaderPairs_exact:
  "pair_up (case HeaderPairsFromMeta meta of None \<Rightarrow> [] | Some ps \<Rightarrow> ps) =
     concat (map (\<lambda>(k, vs). if isHopByHop k then [] else map (Pair (to_lower k)) vs)
       (or_empty (mHeader meta))) \<and>
   (HeaderPairsFromMeta meta = None \<longleftrightarrow>
     list_all (\<lambda>(k, vs). isHopByHop k \<or> vs = []) (or_empty (mHeader meta)))"
  using pair_up_headers [of "or_empty (mHeader meta)"] header_pairs_members [of "or_empty (mHeader meta)"]
  by (auto simp: HeaderPairsFromMeta_def Let_def list_all_iff split: option.splits)

lemma isHopByHop_fold: "equal_fold k k' \<Longrightarrow> isHopByHop k = isHopByHop k'"
  by (simp add: isHopByHop_def equal_fold_def)

lemma wrap64_nonneg: "0 \<le> i \<Longrightarrow> i < 2 ^ 63 \<Longrightarrow> wrap64 i = i"
  by (rule wrap64_id) auto

lemma div_up_bounds:
  assumes "0 < d" "d < 2 ^ 63" "0 < r"
  shows "d \<le> div_up d r * r" "div_up d r * r < d + r" "0 < div_up d r" "div_up d r \<le> d"
proof -
  have eq: "d = d div r * r + d mod r" by simp
  have m: "0 \<le> d mod r" "d mod r < r" using assms by simp_all
  have q0: "0 \<le> d div r" using assms by (simp add: pos_imp_zdiv_nonneg_iff)
  have "d div r * 1 \<le> d div r * r" using q0 assms by (intro mult_left_mono) auto
  with eq m q0 have q: "0 \<le> d div r" "d div r \<le> d" by linarith+
  have w: "div_up d r = (if d mod r > 0 then d div r + 1 else d div r)"
  proof (cases "d mod r > 0")
    case True
    then have "r \<noteq> 1" by auto
    with assms q have "2 * (d div r) \<le> r * (d div r)" by (intro mult_right_mono) auto
    then have "2 * (d div r) \<le> d div r * r" by (simp add: mult.commute)
    with eq m True q have "d div r + 1 \<le> d" by linarith
    with assms q True show ?thesis by (simp add: div_up_def)
  qed (simp add: div_up_def)
  show "d \<le> div_up d r * r" "div_up d r * r < d + r"
    unfolding w using eq m by (simp_all only: distrib_right split: if_split) linarith+
  show "0 < div_up d r"
  proof (cases "d mod r > 0")
    case False
    then have "d div r * r = d" using eq m by linarith
    with assms(1) q have "0 < d div r" by (cases "d div r = 0") auto
    with False show ?thesis by (simp add: w)
  qed (use q in \<open>simp add: w\<close>)
  show "div_up d r \<le> d"
  proof (cases "d mod r > 0")
    case True
    then have "r \<noteq> 1" by auto
    with assms q have "2 * (d div r) \<le> r * (d div r)" by (intro mult_right_mono) auto
    then have "2 * (d div r) \<le> d div r * r" by (simp add: mult.commute)
    with eq m True q have "d div r + 1 \<le> d" by linarith
    with True show ?thesis by (simp add: w)
  qed (use q in \<open>simp add: w\<close>)
qed

lemma parse_formatted:
  assumes "0 \<le> v" "v \<le> maxTimeoutValue" "timeoutUnits s = Some u" "u * v < 2 ^ 63 \<or> u = Hour"
  shows "ParseGrpcTimeout (format_int v @ [s]) =
    Some (if u = Hour \<and> v > max_int64 div Hour then max_int64 else u * v)"
proof -
  have u: "0 < u" using assms(3) by (auto simp: timeoutUnits_def split: if_splits)
  have len: "length (format_nat (nat v)) \<le> 8" "0 < length (format_nat (nat v))"
    using assms(1,2) length_format_nat_le [of "nat v" 8] by (auto simp: maxTimeoutValue_def)
  have bits: "nat v < 2 ^ 64" and v63: "v < 2 ^ 63" using assms(1,2) by (simp_all add: maxTimeoutValue_def)
  have "u * v < 2 ^ 63" if "\<not> (u = Hour \<and> v > max_int64 div Hour)" using that assms(4) by auto
  with u assms(1) have prod: "wrap64 (u * v) = u * v" if "\<not> (u = Hour \<and> v > max_int64 div Hour)"
    using that by (intro wrap64_nonneg mult_nonneg_nonneg) auto
  have wv: "wrap64 v = v" using assms(1) v63 by simp
  have size: "\<not> (length (format_nat (nat v) @ [s]) < 2 \<or> length (format_nat (nat v) @ [s]) > 9)"
    using len by auto
  have "format_int v = format_nat (nat v)" using assms(1) by (simp add: format_int_def)
  then have "ParseGrpcTimeout (format_int v @ [s]) =
      (if u = Hour \<and> wrap64 (int (nat v)) > max_int64 div Hour then Some max_int64
       else Some (wrap64 (u * wrap64 (int (nat v)))))"
    unfolding ParseGrpcTimeout_def Let_def
    by (simp only: size if_False last_snoc butlast_snoc butlast_conv_take [symmetric] assms(3)
        option.case parse_uint_format [OF bits] sum.case)
  also have "int (nat v) = v" using assms(1) by simp
  finally show ?thesis unfolding wv using prod by (simp only: split: if_split) blast
qed

lemma timeout_units_unit: "(u, s) \<in> set timeout_units \<Longrightarrow> timeoutUnits s = Some u \<and> 0 < u \<and> u \<le> Hour"
proof -
  have "list_all (\<lambda>(u, s). timeoutUnits s = Some u \<and> 0 < u \<and> u \<le> Hour) timeout_units"
    by (simp add: timeout_units_def timeoutUnits_def)
  then show "(u, s) \<in> set timeout_units \<Longrightarrow> timeoutUnits s = Some u \<and> 0 < u \<and> u \<le> Hour"
    by (auto simp: list_all_iff)
qed

lemma format_units_parse:
  assumes "0 < d" "d < 2 ^ 63" "set us \<subseteq> set timeout_units" "(Hour, CHR ''H'') \<in> set us"
  shows "\<exists>u s v. (u, s) \<in> set us \<and> v = div_up d u \<and> v \<le> maxTimeoutValue \<and>
    format_units us d = format_int v @ [s]"
  using assms(3,4)
proof (induction us)
  case Nil
  then show ?case by simp
next
  case (Cons p us)
  obtain u s where p: "p = (u, s)" by (cases p)
  show ?case
  proof (cases "div_up d u \<le> maxTimeoutValue")
    case True
    then show ?thesis using p by (auto simp: Let_def)
  next
    case False
    have "div_up d Hour * Hour < d + Hour" using div_up_bounds(2) [OF assms(1,2)] by simp
    with assms(2) have "div_up d Hour \<le> maxTimeoutValue" by (simp add: maxTimeoutValue_def)
    with False have "(Hour, CHR ''H'') \<in> set us" using Cons.prems(2) p by auto
    with Cons.IH Cons.prems(1) False p show ?thesis by (auto simp: Let_def)
  qed
qed

text \<open>
  A timeout survives the header: for every positive duration the encoded value parses, is at
  most nine bytes, never under-represents the duration, and exceeds it by less than an hour (by
  less than the unit it was encoded in). No multiplication on the way overflows.
\<close>

theorem ParseGrpcTimeout_Format:
  assumes "0 < d" "d < 2 ^ 63"
  shows "\<exists>d' u s. ParseGrpcTimeout (FormatGrpcTimeout d) = Some d' \<and> d \<le> d' \<and> d' \<le> max_int64 \<and>
    (u, s) \<in> set timeout_units \<and> last (FormatGrpcTimeout d) = s \<and> d' < d + u \<and>
    length (FormatGrpcTimeout d) \<le> 9"
proof -
  have "(Hour, CHR ''H'') \<in> set timeout_units" by (simp add: timeout_units_def)
  from format_units_parse [OF assms order_refl this] obtain u s where
    us: "(u, s) \<in> set timeout_units" and le: "div_up d u \<le> maxTimeoutValue"
    and eq: "FormatGrpcTimeout d = format_int (div_up d u) @ [s]"
    using assms(1) by (auto simp: FormatGrpcTimeout_def)
  have u: "timeoutUnits s = Some u" "0 < u" using timeout_units_unit [OF us] by simp_all
  note b = div_up_bounds [OF assms u(2)]
  have prod: "u * div_up d u < 2 ^ 63 \<or> u = Hour"
    using us le b(2) assms by (auto simp: timeout_units_def maxTimeoutValue_def)
  have len: "length (FormatGrpcTimeout d) \<le> 9"
    using b(3) le length_format_nat_le [of "nat (div_up d u)" 8]
    by (auto simp: eq format_int_def maxTimeoutValue_def)
  note parse = parse_formatted [OF less_imp_le [OF b(3)] le u(1) prod]
  show ?thesis
  proof (cases "u = Hour \<and> div_up d u > max_int64 div Hour")
    case True
    with parse eq us b assms len show ?thesis
      by (intro exI [of _ max_int64] exI [of _ u] exI [of _ s]) auto
  next
    case False
    then have "u * div_up d u < 2 ^ 63" using prod by auto
    with False parse eq us b len show ?thesis
      by (intro exI [of _ "u * div_up d u"] exI [of _ u] exI [of _ s]) (auto simp: mult.commute)
  qed
qed

lemma ParseGrpcTimeout_Format_witness:
  "FormatGrpcTimeout 1500000000 = ''1500000u'' \<and> (\<exists>d'. ParseGrpcTimeout (FormatGrpcTimeout 1500000000) = Some d' \<and> 1500000000 \<le> d')"
proof
  show "FormatGrpcTimeout 1500000000 = ''1500000u''"
    by (simp add: go_defs format_int_def format_nat.simps digit_char_def) code_simp
  show "\<exists>d'. ParseGrpcTimeout (FormatGrpcTimeout 1500000000) = Some d' \<and> 1500000000 \<le> d'"
    using ParseGrpcTimeout_Format [of 1500000000] by auto
qed

lemma digits_value_less: "digits_value acc s = Some n \<Longrightarrow> n < (acc + 1) * 10 ^ length s"
proof (induction s arbitrary: acc)
  case Nil
  then show ?case by simp
next
  case (Cons c s)
  then obtain d where d: "digit_value c = Some d" "digits_value (10 * acc + d) s = Some n"
    by (auto split: option.splits)
  then have "d \<le> 9" by (auto simp: digit_value_def byte_in_def split: if_splits)
  then have "(10 * acc + d + 1) * 10 ^ length s \<le> (10 * (acc + 1)) * 10 ^ length s"
    by (intro mult_right_mono) auto
  also have "\<dots> = (acc + 1) * 10 ^ length (c # s)" by (simp add: algebra_simps)
  finally show ?case using Cons.IH [OF d(2)] by linarith
qed

lemma parse_uint_less: "parse_uint s bits = Inr n \<Longrightarrow> n < 10 ^ length s"
  using digits_value_less [of 0 s n] by (simp add: parse_uint_value)

text \<open>
  Whatever the header holds, a timeout that parses is a non-negative duration that fits
  \<open>int64\<close>: the multiplication by the unit never wraps (hours above the range are clamped).
\<close>

theorem ParseGrpcTimeout_bounds:
  assumes "ParseGrpcTimeout v = Some d"
  shows "0 \<le> d \<and> d \<le> max_int64"
proof -
  from assms obtain u t where len: "length v \<le> 9" and u: "timeoutUnits (last v) = Some u"
    and t: "parse_uint (take (length v - 1) v) 64 = Inr t"
    and d: "d = (if u = Hour \<and> wrap64 (int t) > max_int64 div Hour then max_int64
                 else wrap64 (u * wrap64 (int t)))"
    by (auto simp: ParseGrpcTimeout_def Let_def split: if_splits option.splits sum.splits)
  have "t < 10 ^ length (take (length v - 1) v)" by (rule parse_uint_less [OF t])
  also have "\<dots> \<le> 10 ^ 8" using len by (intro power_increasing) auto
  finally have t8: "int t < 10 ^ 8" by simp
  then have w: "wrap64 (int t) = int t" by simp
  have uH: "0 < u" "u \<le> Minute \<or> u = Hour" using u by (auto simp: timeoutUnits_def split: if_splits)
  have "u * int t < 2 ^ 63" if "\<not> (u = Hour \<and> int t > max_int64 div Hour)"
  proof (cases "u = Hour")
    case True
    with that show ?thesis by simp
  next
    case False
    with uH have "u * int t \<le> Minute * int t" by (intro mult_right_mono) auto
    with t8 show ?thesis by simp
  qed
  then have "wrap64 (u * int t) = u * int t" if "\<not> (u = Hour \<and> int t > max_int64 div Hour)"
    using that uH by (intro wrap64_nonneg) auto
  with \<open>_ \<Longrightarrow> u * int t < 2 ^ 63\<close> d w uH show ?thesis by (auto simp: mult_nonneg_nonneg)
qed

lemma ParseGrpcTimeout_bounds_witness:
  "ParseGrpcTimeout ''99999999H'' = Some max_int64 \<and> (0 :: int) \<le> max_int64"
proof -
  have p: "ParseGrpcTimeout ''99999999H'' = Some max_int64"
    by (simp add: go_defs parse_uint_number digit_value_def byte_in_def)
  from ParseGrpcTimeout_bounds [OF p] p show ?thesis by simp
qed

end
