(* ===== verification/Registry.thy ===== *)
theory Registry
  imports Main
begin

text \<open>
  The contract of the name-to-value stores of the repository (the codec registry, the transport
  registry, the typed \<open>sync.Map\<close> wrappers): what a lookup returns after entries were stored. Each
  store interprets the locale in its own theory.
\<close>

locale keyed_store =
  fixes key :: "'e \<Rightarrow> 'k"
    and val :: "'e \<Rightarrow> 'v"
    and empty :: "'s"
    and store :: "'e \<Rightarrow> 's \<Rightarrow> 's"
    and load :: "'s \<Rightarrow> 'k \<Rightarrow> 'v option"
  assumes load_empty: "load empty k = None"
    and load_store: "load (store e s) k = (if k = key e then Some (val e) else load s k)"
begin

definition store_all :: "'e list \<Rightarrow> 's" where
  "store_all es = fold store es empty"

lemma load_fold:
  "load (fold store es s) k =
     (case find (\<lambda>e. key e = k) (rev es) of Some e \<Rightarrow> Some (val e) | None \<Rightarrow> load s k)"
proof (induction es arbitrary: s)
  case Nil
  then show ?case by simp
next
  case (Cons e es)
  have "find P (xs @ [x]) = (case find P xs of Some y \<Rightarrow> Some y | None \<Rightarrow> if P x then Some x else None)"
    for P and xs :: "'e list" and x by (induction xs) auto
  with Cons show ?case by (auto simp: load_store split: option.splits)
qed

text \<open>The last entry stored under a name is the one that is found.\<close>

lemma load_store_all:
  "load (store_all es) k = map_option val (find (\<lambda>e. key e = k) (rev es))"
  by (simp add: store_all_def load_fold load_empty split: option.splits)

lemma load_store_all_None: "load (store_all es) k = None \<longleftrightarrow> k \<notin> key ` set es"
  by (auto simp: load_store_all find_None_iff)

text \<open>When every name is stored once, the order does not matter.\<close>

lemma load_store_all_distinct:
  assumes "distinct (map key es)" "e \<in> set es"
  shows "load (store_all es) (key e) = Some (val e)"
proof -
  have "\<exists>e'. find (\<lambda>x. key x = key e) (rev es) = Some e' \<and> e' \<in> set es \<and> key e' = key e"
  proof (cases "find (\<lambda>x. key x = key e) (rev es)")
    case None
    with assms(2) show ?thesis by (auto simp: find_None_iff)
  next
    case (Some e')
    then show ?thesis by (metis (mono_tags, lifting) find_Some_iff nth_mem set_rev)
  qed
  with assms show ?thesis by (auto simp: load_store_all distinct_map dest: inj_onD)
qed

lemma store_commute:
  "key a \<noteq> key b \<Longrightarrow> load (store a (store b s)) k = load (store b (store a s)) k"
  by (simp add: load_store)

end

end
