(* ===== verification/Encoding.thy ===== *)
theory Encoding
  imports Metadata Registry
begin

text \<open>
  Codecs and their negotiation, \<open>encoding/\<close>: the four built-in codecs, the registry
  (\<open>codec.go\<close>) and the choice of a codec from content types (\<open>proto.go\<close>). The serializers the
  codecs call (\<open>encoding/json\<close>, \<open>encoding/json/v2\<close>, \<open>encoding/xml\<close>, \<open>protojson\<close>, \<open>proto\<close>) are
  functions of the record \<open>serializers\<close>; messages are of an arbitrary type. Any other
  implementation of the \<open>Codec\<close> interface is \<open>OtherCodec\<close>, with its name and binary flag.
\<close>

datatype codec = JSONCodec | JSONV2Codec | XMLCodec | ProtoCodec | OtherCodec string bool

fun Name :: "codec \<Rightarrow> string" where
  "Name JSONCodec = ContentTypeJSON"
| "Name JSONV2Codec = ''application/json.v2''"
| "Name XMLCodec = ContentTypeXML"
| "Name ProtoCodec = ContentTypeProtobuf"
| "Name (OtherCodec nm b) = nm"

fun IsBinary :: "codec \<Rightarrow> bool" where
  "IsBinary JSONCodec = False"
| "IsBinary JSONV2Codec = False"
| "IsBinary XMLCodec = False"
| "IsBinary ProtoCodec = True"
| "IsBinary (OtherCodec nm b) = b"

section \<open>Serialization\<close>

type_synonym 'm marshaler = "'m \<Rightarrow> string + string"
type_synonym 'm unmarshaler = "string \<Rightarrow> 'm \<Rightarrow> string option \<times> 'm"
type_synonym 'm stream_decoder = "string \<times> string option \<Rightarrow> 'm \<Rightarrow> string option \<times> 'm"
  \<comment> \<open>the reader: the bytes it yields and the error it ends with (\<open>None\<close> for \<open>io.EOF\<close>)\<close>

record 'm serializers =
  isProto :: "'m \<Rightarrow> bool" \<comment> \<open>the type assertion \<open>v.(proto.Message)\<close>\<close>
  typeName :: "'m \<Rightarrow> string" \<comment> \<open>what \<open>%T\<close> prints\<close>
  jsonMarshal :: "'m marshaler"
  jsonUnmarshal :: "'m unmarshaler"
  jsonv2Marshal :: "'m marshaler"
  jsonv2Unmarshal :: "'m unmarshaler"
  xmlMarshal :: "'m marshaler"
  xmlUnmarshal :: "'m unmarshaler"
  protojsonMarshal :: "'m marshaler"
  protojsonUnmarshal :: "'m unmarshaler"
  protoMarshal :: "'m marshaler"
  protoUnmarshal :: "'m unmarshaler"
  otherMarshal :: "string \<Rightarrow> 'm marshaler"
  otherUnmarshal :: "string \<Rightarrow> 'm unmarshaler"
  jsonDecode :: "'m stream_decoder" \<comment> \<open>\<open>json.NewDecoder(r).Decode\<close>; it need not read all of \<open>r\<close>\<close>
  jsonv2Read :: "'m stream_decoder"
  xmlDecode :: "'m stream_decoder"
  otherDecode :: "string \<Rightarrow> 'm stream_decoder"
  b64Error :: "string \<Rightarrow> string" \<comment> \<open>the text of the error of a base64 decoder\<close>

definition not_proto :: "'m serializers \<Rightarrow> 'm \<Rightarrow> string" where
  "not_proto lib v = ''ProtoCodec: '' @ typeName lib v @ '' does not implement proto.Message''"

fun Marshal :: "'m serializers \<Rightarrow> codec \<Rightarrow> 'm marshaler" where
  \<comment> \<open>\<open>Inl\<close> is the error's text\<close>
  "Marshal lib JSONCodec v = (if isProto lib v then protojsonMarshal lib v else jsonMarshal lib v)"
| "Marshal lib JSONV2Codec v = (if isProto lib v then protojsonMarshal lib v else jsonv2Marshal lib v)"
| "Marshal lib XMLCodec v = xmlMarshal lib v"
| "Marshal lib ProtoCodec v = (if isProto lib v then protoMarshal lib v else Inl (not_proto lib v))"
| "Marshal lib (OtherCodec nm b) v = otherMarshal lib nm v"

fun Unmarshal :: "'m serializers \<Rightarrow> codec \<Rightarrow> 'm unmarshaler" where
  \<comment> \<open>the error, if any, and the message \<open>v\<close> points to afterwards\<close>
  "Unmarshal lib JSONCodec data v =
     (if isProto lib v then protojsonUnmarshal lib data v else jsonUnmarshal lib data v)"
| "Unmarshal lib JSONV2Codec data v =
     (if isProto lib v then protojsonUnmarshal lib data v else jsonv2Unmarshal lib data v)"
| "Unmarshal lib XMLCodec data v = xmlUnmarshal lib data v"
| "Unmarshal lib ProtoCodec data v =
     (if isProto lib v then protoUnmarshal lib data v else (Some (not_proto lib v), v))"
| "Unmarshal lib (OtherCodec nm b) data v = otherUnmarshal lib nm data v"

definition protoDecoder_Decode ::
    "'m serializers \<Rightarrow> string \<times> string option \<Rightarrow> 'm \<Rightarrow> string option \<times> 'm" where
  \<comment> \<open>the reader: the bytes it yields and the error it ends with (\<open>None\<close> for \<open>io.EOF\<close>)\<close>
  "protoDecoder_Decode lib r v =
     (if \<not> isProto lib v then (Some (not_proto lib v), v)
      else case snd r of Some e \<Rightarrow> (Some e, v) | None \<Rightarrow> protoUnmarshal lib (fst r) v)"

definition protoEncoder_Encode ::
    "'m serializers \<Rightarrow> (string \<Rightarrow> string option) \<Rightarrow> 'm \<Rightarrow> string option \<times> string" where
  \<comment> \<open>\<open>werr\<close> is the result of the writer on the data; the second result is what was written\<close>
  "protoEncoder_Encode lib werr v =
     (if \<not> isProto lib v then (Some (not_proto lib v), [])
      else case protoMarshal lib v of
             Inl e \<Rightarrow> (Some e, [])
           | Inr data \<Rightarrow> (werr data, data))"

fun codec_Decode :: "'m serializers \<Rightarrow> codec \<Rightarrow> string \<times> string option \<Rightarrow> 'm \<Rightarrow> string option \<times> 'm" where
  \<comment> \<open>\<open>NewDecoder(r).Decode(v)\<close>; unlike \<open>Unmarshal\<close>, the JSON codecs do not look for a proto message\<close>
  "codec_Decode lib JSONCodec r v = jsonDecode lib r v"
| "codec_Decode lib JSONV2Codec r v = jsonv2Read lib r v"
| "codec_Decode lib XMLCodec r v = xmlDecode lib r v"
| "codec_Decode lib ProtoCodec r v = protoDecoder_Decode lib r v"
| "codec_Decode lib (OtherCodec nm b) r v = otherDecode lib nm r v"

section \<open>Registry\<close>

type_synonym codec_registry = "string \<rightharpoonup> codec"

definition NewRegistry :: codec_registry where
  "NewRegistry = Map.empty"

definition Registry_Register :: "codec \<Rightarrow> codec_registry \<Rightarrow> codec_registry" where
  "Registry_Register c r = r(Name c \<mapsto> c)"

definition Registry_Get :: "codec_registry \<Rightarrow> string \<Rightarrow> codec option" where
  "Registry_Get r nm = r nm"

definition DefaultRegistry :: codec_registry where
  "DefaultRegistry = fold Registry_Register [JSONCodec, JSONV2Codec, XMLCodec, ProtoCodec] NewRegistry"

definition ForName :: "codec_registry \<Rightarrow> string \<Rightarrow> codec" where
  \<comment> \<open>the package variable \<open>DefaultRegistry\<close>, which an application may have extended, is the
      first argument\<close>
  "ForName r nm = (case Registry_Get r nm of Some c \<Rightarrow> c | None \<Rightarrow> JSONCodec)"

interpretation codecs: keyed_store Name "\<lambda>c. c" NewRegistry Registry_Register Registry_Get
  by unfold_locales (simp_all add: NewRegistry_def Registry_Register_def Registry_Get_def)

section \<open>Negotiation\<close>

definition media_type :: "string \<Rightarrow> string" where
  "media_type ct =
     trim_space (case index_byte ct CHR '';'' of Some i \<Rightarrow> take i ct | None \<Rightarrow> ct)"

definition CodecForContentType :: "string \<Rightarrow> codec" where
  "CodecForContentType ct =
     (let mediaType = media_type ct
      in if equal_fold mediaType ContentTypeProtobuf \<or> equal_fold mediaType ContentTypeXProtobuf
         then ProtoCodec else JSONCodec)"

definition CodecForRequest :: "string \<Rightarrow> string \<Rightarrow> codec" where
  "CodecForRequest ct accept =
     (if ct \<noteq> [] then CodecForContentType ct
      else if accept \<noteq> [] \<and> accept \<noteq> ''*/*'' then CodecForContentType accept
      else JSONCodec)"

section \<open>Properties\<close>

text \<open>
  After any sequence of registrations on top of the built-in codecs, \<open>ForName\<close> returns the
  last codec registered under the name, and JSON for a name nobody registered.
\<close>

theorem ForName_last:
  "ForName (fold Registry_Register cs DefaultRegistry) nm =
     (case find (\<lambda>c. Name c = nm) (rev cs @ [ProtoCodec, XMLCodec, JSONV2Codec, JSONCodec]) of
        Some c \<Rightarrow> c | None \<Rightarrow> JSONCodec)"
proof -
  have "fold Registry_Register cs DefaultRegistry =
      codecs.store_all ([JSONCodec, JSONV2Codec, XMLCodec, ProtoCodec] @ cs)"
    by (simp add: DefaultRegistry_def codecs.store_all_def)
  then show ?thesis
    by (simp only: ForName_def codecs.load_store_all) (simp add: option.map_ident)
qed

lemma media_type_params: "CHR '';'' \<notin> set mt \<Longrightarrow> media_type (mt @ CHR '';'' # ps) = media_type mt"
  by (simp add: media_type_def index_byte_append_first index_byte_None [THEN iffD2])

text \<open>
  The codec depends on the media type alone: parameters after a semicolon are ignored, and two
  content types whose media types are equal up to case select the same codec, which is protobuf
  exactly for the two protobuf names.
\<close>

theorem CodecForContentType_media:
  "(CHR '';'' \<notin> set mt \<longrightarrow> CodecForContentType (mt @ CHR '';'' # ps) = CodecForContentType mt) \<and>
   (equal_fold (media_type ct) (media_type ct') \<longrightarrow> CodecForContentType ct = CodecForContentType ct') \<and>
   (CodecForContentType ct = ProtoCodec \<longleftrightarrow>
      equal_fold (media_type ct) ContentTypeProtobuf \<or> equal_fold (media_type ct) ContentTypeXProtobuf)"
  by (auto simp: CodecForContentType_def media_type_params Let_def equal_fold_def)

lemma CodecForContentType_media_witness:
  "CodecForContentType (''Application/Protobuf'' @ CHR '';'' # '' charset=utf-8'') = CodecForContentType ''Application/Protobuf''"
  using CodecForContentType_media [of "''Application/Protobuf''" "'' charset=utf-8''" "[]" "[]"] by simp

text \<open>
  Whatever a request says, the negotiated codec is JSON or protobuf: the XML and JSON v2
  codecs, though registered, are never selected by a content type.
\<close>

theorem CodecForRequest_two:
  "CodecForRequest ct accept \<in> {JSONCodec, ProtoCodec} \<and>
   (ct = [] \<and> (accept = [] \<or> accept = ''*/*'') \<longrightarrow> CodecForRequest ct accept = JSONCodec) \<and>
   (ct \<noteq> [] \<longrightarrow> CodecForRequest ct accept = CodecForContentType ct)"
  by (simp add: CodecForRequest_def CodecForContentType_def Let_def)

lemma CodecForRequest_two_witness:
  "CodecForRequest ''application/xml'' [] = CodecForContentType ''application/xml''"
  using CodecForRequest_two [of "''application/xml''" "[]"] by simp

end
