(* ===== verification/Codes.thy ===== *)
theory Codes
  imports Prelude
begin

text \<open>
  The RPC error codes of \<open>codes/codes.go\<close>: names, HTTP statuses and the two reverse lookups.
  \<open>Code\<close> is a Go \<open>int\<close>; values outside 0..16 exist (a status from the wire is cast to
  \<open>Code\<close>) and take the default branches.
\<close>

type_synonym code = int

abbreviation CodeOK :: code where "CodeOK \<equiv> 0"
abbreviation CodeCanceled :: code where "CodeCanceled \<equiv> 1"
abbreviation CodeUnknown :: code where "CodeUnknown \<equiv> 2"
abbreviation CodeInvalidArgument :: code where "CodeInvalidArgument \<equiv> 3"
abbreviation CodeDeadlineExceeded :: code where "CodeDeadlineExceeded \<equiv> 4"
abbreviation CodeNotFound :: code where "CodeNotFound \<equiv> 5"
abbreviation CodeAlreadyExists :: code where "CodeAlreadyExists \<equiv> 6"
abbreviation CodePermissionDenied :: code where "CodePermissionDenied \<equiv> 7"
abbreviation CodeResourceExhausted :: code where "CodeResourceExhausted \<equiv> 8"
abbreviation CodeFailedPrecondition :: code where "CodeFailedPrecondition \<equiv> 9"
abbreviation CodeAborted :: code where "CodeAborted \<equiv> 10"
abbreviation CodeOutOfRange :: code where "CodeOutOfRange \<equiv> 11"
abbreviation CodeUnimplemented :: code where "CodeUnimplemented \<equiv> 12"
abbreviation CodeInternal :: code where "CodeInternal \<equiv> 13"
abbreviation CodeUnavailable :: code where "CodeUnavailable \<equiv> 14"
abbreviation CodeDataLoss :: code where "CodeDataLoss \<equiv> 15"
abbreviation CodeUnauthenticated :: code where "CodeUnauthenticated \<equiv> 16"

definition all_codes :: "code list" where
  \<comment> \<open>the constants in the order of the loop that builds \<open>codeNames\<close>\<close>
  "all_codes =
     [CodeOK, CodeCanceled, CodeUnknown, CodeInvalidArgument, CodeDeadlineExceeded, CodeNotFound,
      CodeAlreadyExists, CodePermissionDenied, CodeResourceExhausted, CodeFailedPrecondition,
      CodeAborted, CodeOutOfRange, CodeUnimplemented, CodeInternal, CodeUnavailable, CodeDataLoss,
      CodeUnauthenticated]"

definition code_String :: "code \<Rightarrow> string" where
  "code_String c =
     (if c = CodeOK then ''ok''
      else if c = CodeCanceled then ''canceled''
      else if c = CodeUnknown then ''unknown''
      else if c = CodeInvalidArgument then ''invalid_argument''
      else if c = CodeDeadlineExceeded then ''deadline_exceeded''
      else if c = CodeNotFound then ''not_found''
      else if c = CodeAlreadyExists then ''already_exists''
      else if c = CodePermissionDenied then ''permission_denied''
      else if c = CodeResourceExhausted then ''resource_exhausted''
      else if c = CodeFailedPrecondition then ''failed_precondition''
      else if c = CodeAborted then ''aborted''
      else if c = CodeOutOfRange then ''out_of_range''
      else if c = CodeUnimplemented then ''unimplemented''
      else if c = CodeInternal then ''internal''
      else if c = CodeUnavailable then ''unavailable''
      else if c = CodeDataLoss then ''data_loss''
      else if c = CodeUnauthenticated then ''unauthenticated''
      else ''unknown'')"

definition HTTPStatus :: "code \<Rightarrow> int" where
  "HTTPStatus c =
     (if c = CodeOK then 200
      else if c = CodeCanceled then 499
      else if c = CodeUnknown then 500
      else if c = CodeInvalidArgument then 400
      else if c = CodeDeadlineExceeded then 504
      else if c = CodeNotFound then 404
      else if c = CodeAlreadyExists then 409
      else if c = CodePermissionDenied then 403
      else if c = CodeResourceExhausted then 429
      else if c = CodeFailedPrecondition then 400
      else if c = CodeAborted then 409
      else if c = CodeOutOfRange then 400
      else if c = CodeUnimplemented then 501
      else if c = CodeInternal then 500
      else if c = CodeUnavailable then 503
      else if c = CodeDataLoss then 500
      else if c = CodeUnauthenticated then 401
      else 500)"

definition codeNames :: "string \<rightharpoonup> code" where
  \<comment> \<open>\<open>for c := CodeOK; c <= CodeUnauthenticated; c++ { m[c.String()] = c }\<close>\<close>
  "codeNames = fold (\<lambda>c m. m(code_String c \<mapsto> c)) all_codes Map.empty"

definition CodeFromString :: "string \<Rightarrow> code option" where
  "CodeFromString s = codeNames s"

definition CodeFromHTTPStatus :: "int \<Rightarrow> code" where
  "CodeFromHTTPStatus status =
     (if status = 200 then CodeOK
      else if status = 499 then CodeCanceled
      else if status = 400 then CodeInvalidArgument
      else if status = 504 then CodeDeadlineExceeded
      else if status = 404 then CodeNotFound
      else if status = 409 then CodeAborted
      else if status = 403 then CodePermissionDenied
      else if status = 429 then CodeResourceExhausted
      else if status = 501 then CodeUnimplemented
      else if status = 500 then CodeInternal
      else if status = 503 then CodeUnavailable
      else if status = 401 then CodeUnauthenticated
      else CodeUnknown)"

section \<open>Properties\<close>

lemma all_codes_range: "c \<in> set all_codes \<longleftrightarrow> 0 \<le> c \<and> c \<le> 16"
  unfolding all_codes_def by simp arith

lemma code_String_inj: "inj_on code_String (set all_codes)"
proof -
  have "distinct (map code_String all_codes)" by code_simp
  then show ?thesis by (simp add: distinct_map)
qed

lemma fold_update_inj:
  "inj_on f (set xs) \<Longrightarrow>
   fold (\<lambda>c m. m(f c \<mapsto> c)) xs m s = Some c \<longleftrightarrow>
     (c \<in> set xs \<and> f c = s \<or> s \<notin> f ` set xs \<and> m s = Some c)"
proof (induction xs arbitrary: m)
  case Nil
  then show ?case by simp
next
  case (Cons x xs)
  from Cons.prems have inj: "inj_on f (set xs)" by (simp add: inj_on_def)
  from Cons.prems have "y \<in> set xs \<Longrightarrow> f x = f y \<Longrightarrow> y = x" for y by (auto simp: inj_on_def)
  with Cons.IH [OF inj, of "m(f x \<mapsto> x)"] show ?case by auto
qed

lemma CodeFromString_code_String: "c \<in> set all_codes \<Longrightarrow> CodeFromString (code_String c) = Some c"
  by (simp add: CodeFromString_def codeNames_def fold_update_inj [OF code_String_inj])

text \<open>
  Code names parse back: the reverse lookup finds a code exactly when it is one of the
  seventeen codes and the name is its own.
\<close>

theorem CodeFromString_iff:
  "CodeFromString s = Some c \<longleftrightarrow> (0 \<le> c \<and> c \<le> 16 \<and> code_String c = s)"
  by (simp add: CodeFromString_def codeNames_def fold_update_inj [OF code_String_inj]
      all_codes_range conj_assoc)

text \<open>
  The HTTP status of a code maps back to the same code, through the client-side reverse map,
  for the defined codes other than unknown, already_exists, failed_precondition, out_of_range and
  data_loss; these five and every undefined code come back as another code.
\<close>

theorem CodeFromHTTPStatus_HTTPStatus:
  "CodeFromHTTPStatus (HTTPStatus c) = c \<longleftrightarrow>
     (0 \<le> c \<and> c \<le> 16 \<and> c \<notin> {CodeUnknown, CodeAlreadyExists, CodeFailedPrecondition,
                               CodeOutOfRange, CodeDataLoss})"
proof -
  have "c \<in> set all_codes \<or> \<not> (0 \<le> c \<and> c \<le> 16)" by (simp add: all_codes_range)
  then show ?thesis
  proof
    assume "c \<in> set all_codes"
    then show ?thesis
      unfolding all_codes_def by (auto simp: HTTPStatus_def CodeFromHTTPStatus_def)
  next
    assume "\<not> (0 \<le> c \<and> c \<le> 16)"
    then show ?thesis by (auto simp: HTTPStatus_def CodeFromHTTPStatus_def)
  qed
qed

lemma HTTPStatus_values:
  "HTTPStatus c \<in> {200, 499, 500, 400, 504, 404, 409, 403, 429, 501, 503, 401}"
  by (simp add: HTTPStatus_def)

lemma HTTPStatus_ok_iff: "HTTPStatus c = 200 \<longleftrightarrow> c = CodeOK"
  by (simp add: HTTPStatus_def)

lemma HTTPStatus_CodeFromHTTPStatus:
  "s \<in> range HTTPStatus \<longleftrightarrow> HTTPStatus (CodeFromHTTPStatus s) = s"
proof
  assume "s \<in> range HTTPStatus"
  then obtain c where "s = HTTPStatus c" by blast
  then show "HTTPStatus (CodeFromHTTPStatus s) = s"
    using HTTPStatus_values [of c] by (auto simp: HTTPStatus_def CodeFromHTTPStatus_def)
next
  assume "HTTPStatus (CodeFromHTTPStatus s) = s"
  then show "s \<in> range HTTPStatus" by (metis rangeI)
qed

end
