(* ===== verification/Base64.thy ===== *)
theory Base64
  imports Prelude
begin

text \<open>
  \<open>base64.StdEncoding\<close> of the Go standard library: \<open>EncodeToString\<close> and \<open>DecodeString\<close>. The
  decoder ignores carriage returns and newlines, wants full padding and, as the standard encoding
  is not strict, does not look at the unused bits of the last digit.
\<close>

definition b64_alphabet :: string where
  "b64_alphabet = ''ABCDEFGHIJKLMNOPQRSTUVWXYZabcdefghijklmnopqrstuvwxyz0123456789+/''"

definition b64_char :: "nat \<Rightarrow> char" where
  "b64_char i = b64_alphabet ! i"

definition b64_value :: "char \<Rightarrow> nat option" where
  "b64_value c = index_byte b64_alphabet c"

definition byte_nat :: "char \<Rightarrow> nat" where
  "byte_nat c = of_char c"

definition nat_byte :: "nat \<Rightarrow> char" where
  "nat_byte n = char_of n"

definition sextet :: "nat \<Rightarrow> nat \<Rightarrow> char" where
  \<comment> \<open>digit \<open>k\<close> of \<open>n\<close> to base 64, as a base64 character\<close>
  "sextet n k = b64_char (n div 64 ^ k mod 64)"

fun b64_encode :: "string \<Rightarrow> string" where
  "b64_encode (a # b # c # rest) =
     (let n = byte_nat a * 65536 + byte_nat b * 256 + byte_nat c
      in [sextet n 3, sextet n 2, sextet n 1, sextet n 0] @ b64_encode rest)"
| "b64_encode [a, b] =
     (let n = byte_nat a * 65536 + byte_nat b * 256 in [sextet n 3, sextet n 2, sextet n 1, CHR ''=''])"
| "b64_encode [a] = (let n = byte_nat a * 65536 in [sextet n 3, sextet n 2, CHR ''='', CHR ''=''])"
| "b64_encode [] = []"

definition bytes_of :: "nat \<Rightarrow> nat \<Rightarrow> string" where
  "bytes_of n k = take k [nat_byte (n div 65536), nat_byte (n div 256 mod 256), nat_byte (n mod 256)]"

fun b64_quantum :: "char \<Rightarrow> char \<Rightarrow> char \<Rightarrow> char \<Rightarrow> string option" where
  \<comment> \<open>four characters; padding gives a short result\<close>
  "b64_quantum a b c d =
     (case (b64_value a, b64_value b) of
        (Some va, Some vb) \<Rightarrow>
          (let n = va * 262144 + vb * 4096
           in if d = CHR ''='' then
                (if c = CHR ''='' then Some (bytes_of n 1)
                 else case b64_value c of None \<Rightarrow> None | Some vc \<Rightarrow> Some (bytes_of (n + vc * 64) 2))
              else case (b64_value c, b64_value d) of
                     (Some vc, Some vd) \<Rightarrow> Some (bytes_of (n + vc * 64 + vd) 3)
                   | _ \<Rightarrow> None)
      | _ \<Rightarrow> None)"

fun b64_decode_loop :: "string \<Rightarrow> string option" where
  "b64_decode_loop [] = Some []"
| "b64_decode_loop (a # b # c # d # rest) =
     (if d = CHR ''='' \<and> rest \<noteq> [] then None
      else case b64_quantum a b c d of
             None \<Rightarrow> None
           | Some x \<Rightarrow> map_option ((@) x) (b64_decode_loop rest))"
| "b64_decode_loop _ = None"

definition b64_decode :: "string \<Rightarrow> string option" where
  "b64_decode s = b64_decode_loop (filter (\<lambda>c. c \<noteq> CHR 0x0A \<and> c \<noteq> CHR 0x0D) s)"

section \<open>Round trip\<close>

lemma byte_nat_less [simp]: "byte_nat c < 256"
  by (simp add: byte_nat_def)

lemma nat_byte_byte_nat [simp]: "nat_byte (byte_nat c) = c"
  by (simp add: nat_byte_def byte_nat_def)

definition b64_plain :: "char \<Rightarrow> bool" where
  \<comment> \<open>what a text framing relies on: no white space and nothing above ASCII\<close>
  "b64_plain c = byte_in 33 126 c"

lemma b64_table: "list_all (\<lambda>i. b64_value (b64_char i) = Some i \<and> b64_plain (b64_char i) \<and> b64_char i \<noteq> CHR ''='') [0..<64]"
  by code_simp

lemma b64_value_char [simp]: "i < 64 \<Longrightarrow> b64_value (b64_char i) = Some i"
  using b64_table by (simp add: list_all_iff)

lemma b64_value_sextet [simp]: "b64_value (sextet n k) = Some (n div 64 ^ k mod 64)"
  by (simp add: sextet_def)

lemma sextet_plain [simp]: "b64_plain (sextet n k)"
  using b64_table by (simp add: sextet_def list_all_iff)

lemma sextet_not_pad [simp]: "sextet n k \<noteq> CHR ''=''"
  using b64_table by (simp add: sextet_def list_all_iff)

lemma b64_plain_newline: "b64_plain c \<Longrightarrow> c \<noteq> CHR 0x0A \<and> c \<noteq> CHR 0x0D"
  by (auto simp: b64_plain_def byte_in_def)

lemma b64_plain_pad [simp]: "b64_plain (CHR ''='')"
  by (simp add: b64_plain_def byte_in_def)

lemma b64_encode_plain: "c \<in> set (b64_encode s) \<Longrightarrow> b64_plain c"
  by (induction s rule: b64_encode.induct) (auto simp: Let_def)

lemma digits64:
  fixes n :: nat
  shows "n < 16777216 \<Longrightarrow>
    (n div 64 ^ 3 mod 64) * 262144 + (n div 64 ^ 2 mod 64) * 4096 + (n div 64 ^ 1 mod 64) * 64 + n div 64 ^ 0 mod 64 = n"
proof -
  assume n: "n < 16777216"
  then have hi: "n div 262144 mod 64 = n div 262144" by (simp add: less_mult_imp_div_less)
  have "n = n div 64 * 64 + n mod 64" by simp
  moreover have "n div 64 = n div 4096 * 64 + n div 64 mod 64"
    using div_mult_mod_eq [of "n div 64" 64] by (simp add: div_mult2_eq [of n 64 64, simplified, symmetric])
  moreover have "n div 4096 = n div 262144 * 64 + n div 4096 mod 64"
    using div_mult_mod_eq [of "n div 4096" 64] by (simp add: div_mult2_eq [of n 4096 64, simplified, symmetric])
  ultimately have "n div 262144 mod 64 * 262144 + n div 4096 mod 64 * 4096 + n div 64 mod 64 * 64 + n mod 64 = n"
    unfolding hi by linarith
  moreover have "(64 :: nat) ^ 3 = 262144" "(64 :: nat) ^ 2 = 4096" "(64 :: nat) ^ 1 = 64" "(64 :: nat) ^ 0 = 1"
    by simp_all
  ultimately show ?thesis by (simp only: div_by_1)
qed

lemma bytes_of_packed:
  assumes "b < 256" "c < 256"
  shows "bytes_of (a * 65536 + b * 256 + c) k = take k [nat_byte a, nat_byte b, nat_byte c]"
proof -
  have eq: "a * 65536 + b * 256 + c = (a * 256 + b) * 256 + c" by simp
  have d: "(a * 256 + b) * 256 + c = c + 256 * (a * 256 + b)" by simp
  have 1: "(a * 65536 + b * 256 + c) div 256 = a * 256 + b" "(a * 65536 + b * 256 + c) mod 256 = c"
    unfolding eq d using assms(2) by (simp_all only: mod_mult_self2 mod_less) simp
  have "(a * 256 + b) div 256 = a" "(a * 256 + b) mod 256 = b"
    using assms(1) by (simp_all add: add.commute [of "a * 256"])
  moreover have "(a * 65536 + b * 256 + c) div 65536 = (a * 65536 + b * 256 + c) div 256 div 256"
    by (simp add: div_mult2_eq [symmetric])
  ultimately show ?thesis by (simp only: bytes_of_def 1)
qed

lemma b64_quantum_encode:
  "b64_quantum (sextet n 3) (sextet n 2) (sextet n 1) (sextet n 0) =
     Some (bytes_of ((n div 64 ^ 3 mod 64) * 262144 + (n div 64 ^ 2 mod 64) * 4096
       + (n div 64 ^ 1 mod 64) * 64 + n div 64 ^ 0 mod 64) 3)"
  "b64_quantum (sextet n 3) (sextet n 2) (sextet n 1) (CHR ''='') =
     Some (bytes_of ((n div 64 ^ 3 mod 64) * 262144 + (n div 64 ^ 2 mod 64) * 4096
       + (n div 64 ^ 1 mod 64) * 64) 2)"
  "b64_quantum (sextet n 3) (sextet n 2) (CHR ''='') (CHR ''='') =
     Some (bytes_of ((n div 64 ^ 3 mod 64) * 262144 + (n div 64 ^ 2 mod 64) * 4096) 1)"
  by (simp_all add: Let_def)

lemma b64_decode_loop_encode: "b64_decode_loop (b64_encode s) = Some s"
proof (induction s rule: b64_encode.induct)
  case (1 a b c rest)
  define n where "n = byte_nat a * 65536 + byte_nat b * 256 + byte_nat c"
  have "n < 16777216"
    using byte_nat_less [of a] byte_nat_less [of b] byte_nat_less [of c] unfolding n_def by linarith
  then have "b64_quantum (sextet n 3) (sextet n 2) (sextet n 1) (sextet n 0) = Some (bytes_of n 3)"
    unfolding b64_quantum_encode by (simp only: digits64)
  also have "bytes_of n 3 = [a, b, c]" unfolding n_def by (simp add: bytes_of_packed)
  finally show ?case using 1 by (simp add: Let_def n_def [symmetric] del: b64_quantum.simps)
next
  case (2 a b)
  define n where "n = byte_nat a * 65536 + byte_nat b * 256"
  have n: "n < 16777216" using byte_nat_less [of a] byte_nat_less [of b] unfolding n_def by linarith
  have "n = (byte_nat a * 1024 + byte_nat b * 4) * 64" by (simp add: n_def)
  then have "n mod 64 = 0" by (simp only: mod_mult_self2_is_0)
  with digits64 [OF n] have
    "(n div 64 ^ 3 mod 64) * 262144 + (n div 64 ^ 2 mod 64) * 4096 + (n div 64 ^ 1 mod 64) * 64 = n"
    by (simp only: power_0 div_by_1 add_0_right)
  then have "b64_quantum (sextet n 3) (sextet n 2) (sextet n 1) (CHR ''='') = Some (bytes_of n 2)"
    unfolding b64_quantum_encode by (simp only: option.inject)
  also have "bytes_of n 2 = [a, b]" using bytes_of_packed [of "byte_nat b" 0 "byte_nat a" 2] by (simp add: n_def)
  finally show ?case by (simp add: Let_def n_def [symmetric] del: b64_quantum.simps)
next
  case (3 a)
  define n where "n = byte_nat a * 65536"
  have n: "n < 16777216" using byte_nat_less [of a] unfolding n_def by linarith
  have "n = (byte_nat a * 1024) * 64" "byte_nat a * 1024 = byte_nat a * 16 * 64" by (simp_all add: n_def)
  then have "n mod 64 = 0" "n div 64 mod 64 = 0"
    by (simp_all only: mod_mult_self2_is_0 nonzero_mult_div_cancel_right)
  with digits64 [OF n] have "(n div 64 ^ 3 mod 64) * 262144 + (n div 64 ^ 2 mod 64) * 4096 = n"
    by (simp only: power_0 power_one_right div_by_1 add_0_right mult_zero_left)
  then have "b64_quantum (sextet n 3) (sextet n 2) (CHR ''='') (CHR ''='') = Some (bytes_of n 1)"
    unfolding b64_quantum_encode by (simp only: option.inject)
  also have "bytes_of n 1 = [a]" using bytes_of_packed [of 0 0 "byte_nat a" 1] by (simp add: n_def)
  finally show ?case by (simp add: Let_def n_def [symmetric] del: b64_quantum.simps)
next
  case 4
  then show ?case by simp
qed

lemma b64_decode_encode [simp]: "b64_decode (b64_encode s) = Some s"
proof -
  have "filter (\<lambda>c. c \<noteq> CHR 0x0A \<and> c \<noteq> CHR 0x0D) (b64_encode s) = b64_encode s"
    by (rule filter_True) (use b64_encode_plain b64_plain_newline in blast)
  then show ?thesis by (simp add: b64_decode_def b64_decode_loop_encode)
qed

lemma b64_encode_Nil_iff [simp]: "b64_encode s = [] \<longleftrightarrow> s = []"
  by (cases s rule: b64_encode.cases) (auto simp: Let_def)

end
