(* ===== verification/Status.thy ===== *)
theory Status
  imports Codes Base64 Metadata
begin

text \<open>
  RPC errors, \<open>status/status.go\<close>, and their conversion to gRPC in \<open>grpcbridge/grpcbridge.go\<close>.

  A Go \<open>error\<close> is one of the values the sources look into: an \<open>*Error\<close>, an error with a
  \<open>GRPCStatus\<close> method from another package, an error that wraps one other error, the sentinels
  the sources compare with, or a plain error. Detail payloads (\<open>*anypb.Any\<close>) are of an arbitrary
  type. The protobuf wire functions of \<open>protowire\<close> and \<open>proto.Marshal\<close> of a detail are the
  functions of the record \<open>protowire\<close>.
\<close>

datatype reflected = RInt int | RUint nat | ROther

datatype 'd grpc_view =
    NilStatus \<comment> \<open>not one non-nil pointer\<close>
  | OddStatus \<comment> \<open>a status without \<open>Code\<close> or \<open>Message\<close>\<close>
  | StatusView reflected string "'d option list"
      \<comment> \<open>code, message, details; \<open>None\<close> is an item that is nil or not an \<open>*anypb.Any\<close>\<close>

datatype 'd goerror =
    RpcError (err_code: code) (err_message: string) (err_inner: "'d goerror option")
      (err_meta: "header option") (err_details: "'d list")
  | GRPCError string "'d grpc_view" \<comment> \<open>its text and what its \<open>GRPCStatus\<close> method returns\<close>
  | WrapError string "'d goerror" \<comment> \<open>its text and the error it unwraps to\<close>
  | EOF
  | ContextDeadlineExceeded
  | ContextCanceled
  | PlainError string

definition NewError :: "code \<Rightarrow> 'd goerror \<Rightarrow> 'd goerror" where
  "NewError c e = RpcError c [] (Some e) None []"

definition NewErrorf :: "code \<Rightarrow> string \<Rightarrow> 'd goerror" where
  \<comment> \<open>with the message already formatted\<close>
  "NewErrorf c msg = RpcError c msg None None []"

fun error_text :: "'d goerror \<Rightarrow> string" where
  \<comment> \<open>the \<open>Error\<close> methods; of an \<open>*Error\<close>: the code and \<open>Message\<close>\<close>
  "error_text (RpcError c msg inner meta ds) =
     ''rpc error: '' @ code_String c @ '': '' @
     (if msg \<noteq> [] then msg
      else case inner of Some e \<Rightarrow> error_text e | None \<Rightarrow> code_String c)"
| "error_text (GRPCError txt v) = txt"
| "error_text (WrapError txt e) = txt"
| "error_text EOF = ''EOF''"
| "error_text ContextDeadlineExceeded = ''context deadline exceeded''"
| "error_text ContextCanceled = ''context canceled''"
| "error_text (PlainError txt) = txt"

definition Message :: "'d goerror \<Rightarrow> string" where
  \<comment> \<open>\<open>Error.Message\<close>, of an \<open>*Error\<close>\<close>
  "Message e =
     (if err_message e \<noteq> [] then err_message e
      else case err_inner e of Some e' \<Rightarrow> error_text e' | None \<Rightarrow> code_String (err_code e))"

fun Unwrap :: "'d goerror \<Rightarrow> 'd goerror option" where
  "Unwrap (RpcError c msg inner meta ds) = inner"
| "Unwrap (WrapError txt e) = Some e"
| "Unwrap _ = None"

definition Meta :: "'d goerror \<Rightarrow> header" where
  "Meta e = (case err_meta e of None \<Rightarrow> [] | Some h \<Rightarrow> h)"

fun WithDetails :: "'d goerror \<Rightarrow> 'd list \<Rightarrow> 'd goerror" where
  "WithDetails (RpcError c msg inner meta ds) details = RpcError c msg inner meta (ds @ details)"
| "WithDetails e details = e"

fun FromError :: "'d goerror \<Rightarrow> 'd goerror option" where
  \<comment> \<open>\<open>errors.As\<close> to \<open>*Error\<close> along the chain\<close>
  "FromError (RpcError c msg inner meta ds) = Some (RpcError c msg inner meta ds)"
| "FromError (WrapError txt e) = FromError e"
| "FromError _ = None"

definition status_Code :: "'d goerror option \<Rightarrow> code" where
  \<comment> \<open>\<open>Code(err)\<close>; \<open>None\<close> is the nil error\<close>
  "status_Code err =
     (case err of
        None \<Rightarrow> CodeUnknown
      | Some e \<Rightarrow> (case FromError e of Some r \<Rightarrow> err_code r | None \<Rightarrow> CodeUnknown))"

section \<open>The google.rpc.Status wire format\<close>

record 'd Status =
  st_Code :: int \<comment> \<open>an \<open>int32\<close>\<close>
  st_Message :: string
  st_Details :: "'d list"

definition to_int32 :: "int \<Rightarrow> int" where
  "to_int32 i = (i + 2 ^ 31) mod 2 ^ 32 - 2 ^ 31"

definition to_uint64 :: "int \<Rightarrow> nat" where
  "to_uint64 i = nat (i mod 2 ^ 64)"

datatype wire_type = VarintType | BytesType | OtherType nat

record 'd protowire =
  AppendTag :: "string \<Rightarrow> nat \<Rightarrow> wire_type \<Rightarrow> string"
  AppendVarint :: "string \<Rightarrow> nat \<Rightarrow> string"
  AppendBytes :: "string \<Rightarrow> string \<Rightarrow> string"
  ConsumeTag :: "string \<Rightarrow> (nat \<times> wire_type \<times> nat) option" \<comment> \<open>\<open>None\<close> is a negative length\<close>
  ConsumeVarint :: "string \<Rightarrow> (nat \<times> nat) option"
  ConsumeBytes :: "string \<Rightarrow> (string \<times> nat) option"
  ConsumeFieldValue :: "nat \<Rightarrow> wire_type \<Rightarrow> string \<Rightarrow> nat option"
  anyMarshal :: "'d \<Rightarrow> string option"
  anyUnmarshal :: "string \<Rightarrow> 'd option"

fun marshal_details :: "'d protowire \<Rightarrow> string \<Rightarrow> 'd list \<Rightarrow> string option" where
  "marshal_details W b [] = Some b"
| "marshal_details W b (d # ds) =
     (case anyMarshal W d of
        None \<Rightarrow> None
      | Some data \<Rightarrow> marshal_details W (AppendBytes W (AppendTag W b 3 BytesType) data) ds)"

definition marshalStatus :: "'d protowire \<Rightarrow> 'd Status \<Rightarrow> string option" where
  \<comment> \<open>\<open>None\<close> is the error of \<open>proto.Marshal\<close>\<close>
  "marshalStatus W st =
     (let b = AppendTag W [] 1 VarintType;
          b = AppendVarint W b (to_uint64 (st_Code st));
          b = AppendTag W b 2 BytesType;
          b = AppendBytes W b (st_Message st)
      in marshal_details W b (st_Details st))"

partial_function (option) unmarshal_loop ::
    "'d protowire \<Rightarrow> string \<Rightarrow> 'd Status \<Rightarrow> (unit + 'd Status) option" where
  \<comment> \<open>\<open>Some (Inl ())\<close> is an error of the parser\<close>
  "unmarshal_loop W data st =
     (if data = [] then Some (Inr st)
      else case ConsumeTag W data of
        None \<Rightarrow> Some (Inl ())
      | Some (num, typ, n) \<Rightarrow>
          (let data = drop n data
           in if num = 1 \<and> typ = VarintType then
                (case ConsumeVarint W data of
                   None \<Rightarrow> Some (Inl ())
                 | Some (v, n) \<Rightarrow> unmarshal_loop W (drop n data) (st\<lparr>st_Code := to_int32 (int v)\<rparr>))
              else if num = 2 \<and> typ = BytesType then
                (case ConsumeBytes W data of
                   None \<Rightarrow> Some (Inl ())
                 | Some (v, n) \<Rightarrow> unmarshal_loop W (drop n data) (st\<lparr>st_Message := v\<rparr>))
              else if num = 3 \<and> typ = BytesType then
                (case ConsumeBytes W data of
                   None \<Rightarrow> Some (Inl ())
                 | Some (v, n) \<Rightarrow>
                     (case anyUnmarshal W v of
                        None \<Rightarrow> Some (Inl ())
                      | Some d \<Rightarrow> unmarshal_loop W (drop n data) (st\<lparr>st_Details := st_Details st @ [d]\<rparr>)))
              else
                (case ConsumeFieldValue W num typ data of
                   None \<Rightarrow> Some (Inl ())
                 | Some n \<Rightarrow> unmarshal_loop W (drop n data) st)))"

definition unmarshalStatus :: "'d protowire \<Rightarrow> string \<Rightarrow> (unit + 'd Status) option" where
  "unmarshalStatus W data = unmarshal_loop W data \<lparr>st_Code = 0, st_Message = [], st_Details = []\<rparr>"

definition MarshalStatus :: "'d protowire \<Rightarrow> 'd goerror \<Rightarrow> string option" where
  "MarshalStatus W e =
     marshalStatus W \<lparr>st_Code = to_int32 (err_code e), st_Message = Message e, st_Details = err_details e\<rparr>"

section \<open>Conversions\<close>

record response =
  resp_StatusCode :: int
  resp_Status :: string
  resp_Header :: header
  resp_Body :: string

text \<open>
  \<open>encoding/json\<close> reads a body as the members of an object, in their order (\<open>None\<close>: no JSON text, or
  one that is no object; \<open>null\<close> has no members). \<open>decode_members\<close> is its \<open>Decode\<close> into
  \<open>struct { Code string "code"; Message string "message" }\<close>: a key names a field without regard to case, a later
  member overwrites an earlier one, \<open>null\<close> leaves the field alone, and a value that is no string is an
  error.
\<close>

datatype member_value = StringMember string | NullMember | OtherMember

type_synonym json_reader = "string \<Rightarrow> (string \<times> member_value) list option"

fun decode_members :: "string \<times> string \<Rightarrow> (string \<times> member_value) list \<Rightarrow> (string \<times> string) option" where
  "decode_members body [] = Some body"
| "decode_members (code, message) ((k, v) # ms) =
     (if equal_fold k ''code'' then
        (case v of
           StringMember s \<Rightarrow> decode_members (s, message) ms
         | NullMember \<Rightarrow> decode_members (code, message) ms
         | OtherMember \<Rightarrow> None)
      else if equal_fold k ''message'' then
        (case v of
           StringMember s \<Rightarrow> decode_members (code, s) ms
         | NullMember \<Rightarrow> decode_members (code, message) ms
         | OtherMember \<Rightarrow> None)
      else decode_members (code, message) ms)"

lemma keys_differ [simp]: "\<not> equal_fold ''message'' ''code''"
  by (simp add: equal_fold_def fold_norm_ascii ascii_def lower_ascii_def byte_in_def)

definition FromHTTP :: "'d protowire \<Rightarrow> json_reader \<Rightarrow> response \<Rightarrow> 'd goerror option" where
  \<comment> \<open>\<open>None\<close> as a result: the status header does not finish parsing\<close>
  "FromHTTP W json resp =
     (let (code, message) =
        (case Option.bind (json (resp_Body resp)) (decode_members ([], [])) of
           None \<Rightarrow> (CodeUnknown, resp_Status resp)
         | Some (c, m) \<Rightarrow>
             (case CodeFromString c of Some c' \<Rightarrow> c' | None \<Rightarrow> CodeUnknown,
              if m \<noteq> [] then m else resp_Status resp));
          v = header_get (resp_Header resp) HeaderGrpcStatusDetails;
          plain = RpcError code message None (Some (resp_Header resp)) []
      in if v = [] then Some plain
         else case b64_decode v of
                None \<Rightarrow> Some plain
              | Some data \<Rightarrow>
                  (case unmarshalStatus W data of
                     None \<Rightarrow> None
                   | Some (Inl _) \<Rightarrow> Some plain
                   | Some (Inr st) \<Rightarrow>
                       Some (RpcError (if st_Code st \<noteq> 0 then st_Code st else code)
                         (if st_Message st \<noteq> [] then st_Message st else message)
                         None (Some (resp_Header resp)) (st_Details st))))"

fun reflectInt :: "reflected \<Rightarrow> int" where
  "reflectInt (RInt i) = i"
| "reflectInt (RUint n) = wrap64 (int n)"
| "reflectInt ROther = 0"

fun GRPCStatus :: "'d goerror \<Rightarrow> 'd grpc_view option" where
  \<comment> \<open>the result of the method of that name, if the error has one\<close>
  "GRPCStatus (RpcError c msg inner meta ds) =
     Some (StatusView (RInt c) (Message (RpcError c msg inner meta ds)) (map Some ds))"
| "GRPCStatus (GRPCError txt v) = Some v"
| "GRPCStatus _ = None"

fun FromGRPCStatus_loop :: "'d goerror \<Rightarrow> 'd goerror \<Rightarrow> 'd goerror" where
  \<comment> \<open>\<open>err\<close> and the error \<open>e\<close> of the chain the loop is at\<close>
  "FromGRPCStatus_loop err (WrapError txt e) = FromGRPCStatus_loop err e"
| "FromGRPCStatus_loop err e =
     (case GRPCStatus e of
        None \<Rightarrow> err
      | Some NilStatus \<Rightarrow> err
      | Some OddStatus \<Rightarrow> err
      | Some (StatusView c msg ds) \<Rightarrow>
          WithDetails (NewErrorf (reflectInt c) msg) (List.map_filter (\<lambda>d. d) ds))"

definition FromGRPCStatus :: "'d goerror option \<Rightarrow> 'd goerror option" where
  "FromGRPCStatus err = map_option (\<lambda>e. FromGRPCStatus_loop e e) err"

datatype 'd grpc_result = GRPCNil | GRPCSame "'d goerror" | GRPCStatusError int string "'d list"

definition ToGRPC :: "('d goerror \<Rightarrow> bool) \<Rightarrow> 'd goerror option \<Rightarrow> 'd grpc_result" where
  \<comment> \<open>\<open>isGRPC\<close> is the second result of \<open>grpcstatus.FromError\<close>\<close>
  "ToGRPC isGRPC err =
     (case err of
        None \<Rightarrow> GRPCNil
      | Some e \<Rightarrow>
          if isGRPC e then GRPCSame e
          else GRPCStatusError (to_int32 (status_Code (Some e))) (error_text e)
                 (case FromError e of Some r \<Rightarrow> err_details r | None \<Rightarrow> []))"

section \<open>Properties\<close>

lemma to_int32_id: "- (2 ^ 31) \<le> i \<Longrightarrow> i < 2 ^ 31 \<Longrightarrow> to_int32 i = i"
  by (simp add: to_int32_def)

lemma to_int32_uint64: "- (2 ^ 31) \<le> i \<Longrightarrow> i < 2 ^ 31 \<Longrightarrow> to_int32 (int (to_uint64 i)) = i"
proof -
  assume i: "- (2 ^ 31) \<le> i" "i < 2 ^ 31"
  have "(i mod 2 ^ 64 + 2 ^ 31) mod 2 ^ 32 = (i mod 2 ^ 64 mod 2 ^ 32 + 2 ^ 31) mod (2 ^ 32 :: int)"
    by (simp only: mod_add_left_eq)
  also have "i mod 2 ^ 64 mod 2 ^ 32 = i mod (2 ^ 32 :: int)"
    by (rule mod_mod_cancel) (simp add: le_imp_power_dvd)
  also have "(i mod 2 ^ 32 + 2 ^ 31) mod 2 ^ 32 = (i + 2 ^ 31) mod (2 ^ 32 :: int)"
    by (simp only: mod_add_left_eq)
  finally have "to_int32 (i mod 2 ^ 64) = to_int32 i" by (simp only: to_int32_def)
  moreover have "int (to_uint64 i) = i mod 2 ^ 64" by (simp add: to_uint64_def)
  ultimately show ?thesis using to_int32_id [OF i] by simp
qed

text \<open>
  What \<open>marshalStatus\<close> and \<open>unmarshalStatus\<close> rely on: an \<open>Append\<close> function adds its encoding at
  the end, and the matching \<open>Consume\<close> function reads it back from the front and says how long it is.
\<close>

definition wire_laws :: "'d protowire \<Rightarrow> bool" where
  "wire_laws W =
     ((\<forall>b num typ. AppendTag W b num typ = b @ AppendTag W [] num typ) \<and>
      (\<forall>b v. AppendVarint W b v = b @ AppendVarint W [] v) \<and>
      (\<forall>b v. AppendBytes W b v = b @ AppendBytes W [] v) \<and>
      (\<forall>num typ r. num \<in> {1, 2, 3} \<and> typ \<in> {VarintType, BytesType} \<longrightarrow>
         AppendTag W [] num typ \<noteq> [] \<and>
         ConsumeTag W (AppendTag W [] num typ @ r) = Some (num, typ, length (AppendTag W [] num typ))) \<and>
      (\<forall>v r. v < 2 ^ 64 \<longrightarrow>
         ConsumeVarint W (AppendVarint W [] v @ r) = Some (v, length (AppendVarint W [] v))) \<and>
      (\<forall>v r. length v < 2 ^ 64 \<longrightarrow>
         ConsumeBytes W (AppendBytes W [] v @ r) = Some (v, length (AppendBytes W [] v))))"

lemmas wire_lawsD =
  wire_laws_def [THEN iffD1, THEN conjunct1, rule_format]
  wire_laws_def [THEN iffD1, THEN conjunct2, THEN conjunct1, rule_format]
  wire_laws_def [THEN iffD1, THEN conjunct2, THEN conjunct2, THEN conjunct1, rule_format]

lemma wire_append:
  assumes "wire_laws W"
  shows "AppendTag W b num typ = b @ AppendTag W [] num typ"
    "AppendVarint W b v = b @ AppendVarint W [] v" "AppendBytes W b s = b @ AppendBytes W [] s"
  by (rule wire_lawsD [OF assms])+

lemma wire_tag:
  assumes "wire_laws W" "num \<in> {1, 2, 3}" "typ \<in> {VarintType, BytesType}"
  shows "AppendTag W [] num typ \<noteq> []"
    "ConsumeTag W (AppendTag W [] num typ @ r) = Some (num, typ, length (AppendTag W [] num typ))"
  using assms(1) [unfolded wire_laws_def, THEN conjunct2, THEN conjunct2, THEN conjunct2, THEN conjunct1]
    assms(2,3) by blast+

lemma wire_varint:
  assumes "wire_laws W" "v < 2 ^ 64"
  shows "ConsumeVarint W (AppendVarint W [] v @ r) = Some (v, length (AppendVarint W [] v))"
  using assms(1) [unfolded wire_laws_def, THEN conjunct2, THEN conjunct2, THEN conjunct2, THEN conjunct2,
      THEN conjunct1] assms(2) by blast

lemma wire_bytes:
  assumes "wire_laws W" "length v < 2 ^ 64"
  shows "ConsumeBytes W (AppendBytes W [] v @ r) = Some (v, length (AppendBytes W [] v))"
  using assms(1) [unfolded wire_laws_def, THEN conjunct2, THEN conjunct2, THEN conjunct2, THEN conjunct2,
      THEN conjunct2] assms(2) by blast

definition details_ok :: "'d protowire \<Rightarrow> 'd list \<Rightarrow> bool" where
  "details_ok W ds =
     list_all (\<lambda>d. case anyMarshal W d of
       None \<Rightarrow> False | Some data \<Rightarrow> length data < 2 ^ 64 \<and> anyUnmarshal W data = Some d) ds"

fun details_bytes :: "'d protowire \<Rightarrow> 'd list \<Rightarrow> string" where
  "details_bytes W [] = []"
| "details_bytes W (d # ds) =
     AppendTag W [] 3 BytesType @ AppendBytes W [] (the (anyMarshal W d)) @ details_bytes W ds"

lemma marshal_details_bytes:
  assumes "wire_laws W" "details_ok W ds"
  shows "marshal_details W b ds = Some (b @ details_bytes W ds)"
  using assms(2)
proof (induction ds arbitrary: b)
  case Nil
  then show ?case by simp
next
  case (Cons d ds)
  then obtain data where d: "anyMarshal W d = Some data" "details_ok W ds"
    by (auto simp: details_ok_def split: option.splits)
  have "AppendBytes W (AppendTag W b 3 BytesType) data =
      b @ AppendTag W [] 3 BytesType @ AppendBytes W [] data"
    using wire_append(1) [OF assms(1), of b] wire_append(3) [OF assms(1), of "b @ AppendTag W [] 3 BytesType"]
    by (simp only: append_assoc)
  with Cons.IH [OF d(2)] d(1) show ?case by simp
qed

lemma unmarshal_details:
  assumes "wire_laws W" "details_ok W ds"
  shows "unmarshal_loop W (details_bytes W ds) st = Some (Inr (st\<lparr>st_Details := st_Details st @ ds\<rparr>))"
  using assms(2)
proof (induction ds arbitrary: st)
  case Nil
  then show ?case by (simp add: unmarshal_loop.simps)
next
  case (Cons d ds)
  then obtain data where d: "anyMarshal W d = Some data" "length data < 2 ^ 64"
    "anyUnmarshal W data = Some d" "details_ok W ds"
    by (auto simp: details_ok_def split: option.splits)
  have "AppendTag W [] 3 BytesType \<noteq> []"
    "ConsumeTag W (AppendTag W [] 3 BytesType @ r) = Some (3, BytesType, length (AppendTag W [] 3 BytesType))"
    "ConsumeBytes W (AppendBytes W [] data @ r) = Some (data, length (AppendBytes W [] data))" for r
    using wire_tag [OF assms(1), of 3 BytesType] wire_bytes [OF assms(1) d(2)] by simp_all
  with d Cons.IH [OF d(4)] show ?case
    by (subst unmarshal_loop.simps) (simp add: Let_def)
qed

lemma marshalStatus_roundtrip:
  assumes "wire_laws W" "details_ok W (st_Details st)"
    and "- (2 ^ 31) \<le> st_Code st" "st_Code st < 2 ^ 31" "length (st_Message st) < 2 ^ 64"
  shows "\<exists>data. marshalStatus W st = Some data \<and> data \<noteq> [] \<and> unmarshalStatus W data = Some (Inr st)"
proof -
  let ?t1 = "AppendTag W [] 1 VarintType" and ?v = "AppendVarint W [] (to_uint64 (st_Code st))"
  let ?t2 = "AppendTag W [] 2 BytesType" and ?m = "AppendBytes W [] (st_Message st)"
  let ?data = "?t1 @ ?v @ ?t2 @ ?m @ details_bytes W (st_Details st)"
  have app: "AppendVarint W ?t1 (to_uint64 (st_Code st)) = ?t1 @ ?v"
    "AppendTag W (?t1 @ ?v) 2 BytesType = (?t1 @ ?v) @ ?t2"
    "AppendBytes W ((?t1 @ ?v) @ ?t2) (st_Message st) = ((?t1 @ ?v) @ ?t2) @ ?m"
    by (rule wire_append [OF assms(1)])+
  have data: "marshalStatus W st = Some ?data"
    unfolding marshalStatus_def Let_def app marshal_details_bytes [OF assms(1,2)] by simp
  have u64: "to_uint64 (st_Code st) < 2 ^ 64" by (simp add: to_uint64_def nat_less_iff)
  have ne: "?t1 \<noteq> []" "?t2 \<noteq> []"
    and c: "ConsumeTag W (?t1 @ r) = Some (1, VarintType, length ?t1)"
    "ConsumeTag W (?t2 @ r) = Some (2, BytesType, length ?t2)"
    "ConsumeVarint W (?v @ r) = Some (to_uint64 (st_Code st), length ?v)"
    "ConsumeBytes W (?m @ r) = Some (st_Message st, length ?m)" for r
    using wire_tag [OF assms(1), of 1 VarintType] wire_tag [OF assms(1), of 2 BytesType]
      wire_varint [OF assms(1) u64] wire_bytes [OF assms(1,5)] by simp_all
  have "unmarshal_loop W ?data s =
      unmarshal_loop W (?t2 @ ?m @ details_bytes W (st_Details st)) (s\<lparr>st_Code := st_Code st\<rparr>)" for s
    using ne c to_int32_uint64 [OF assms(3,4)] by (subst unmarshal_loop.simps) (simp add: Let_def)
  also have "unmarshal_loop W (?t2 @ ?m @ details_bytes W (st_Details st)) s =
      unmarshal_loop W (details_bytes W (st_Details st)) (s\<lparr>st_Message := st_Message st\<rparr>)" for s
    using ne c by (subst unmarshal_loop.simps) (simp add: Let_def)
  finally have "unmarshalStatus W ?data = Some (Inr st)"
    by (simp add: unmarshalStatus_def unmarshal_details [OF assms(1,2)])
  with data ne show ?thesis by blast
qed

text \<open>
  C13. A status survives the wire: with a protobuf library that reads back what it appends,
  every code of 32 bits, message and list of serializable details comes back unchanged, and the
  parsing loop ends.
\<close>

theorem unmarshal_marshalStatus:
  assumes "wire_laws W" "details_ok W (st_Details st)"
    and "- (2 ^ 31) \<le> st_Code st" "st_Code st < 2 ^ 31" "length (st_Message st) < 2 ^ 64"
  shows "\<exists>data. marshalStatus W st = Some data \<and> data \<noteq> [] \<and> unmarshalStatus W data = Some (Inr st)"
  using marshalStatus_roundtrip [OF assms] .

lemma unmarshal_loop_returns:
  assumes "\<And>data num typ n. ConsumeTag W data = Some (num, typ, n) \<Longrightarrow> 0 < n"
  shows "unmarshal_loop W data st \<noteq> None"
proof (induction "length data" arbitrary: data st rule: less_induct)
  case less
  show ?case
  proof (cases "data = [] \<or> ConsumeTag W data = None")
    case True
    then show ?thesis by (subst unmarshal_loop.simps) auto
  next
    case False
    then obtain num ty n where tag: "ConsumeTag W data = Some (num, ty, n)" "data \<noteq> []" by auto
    then have "length (drop k (drop n data)) < length data" for k using assms [OF tag(1)] by simp
    then have go: "unmarshal_loop W (drop k (drop n data)) st' \<noteq> None" for k st' by (rule less)
    from tag go show ?thesis
      by (subst unmarshal_loop.simps) (auto simp: Let_def split: option.split)
  qed
qed

subsection \<open>A wire library that satisfies the laws\<close>

fun varint :: "nat \<Rightarrow> string" where
  "varint n = (if n < 128 then [nat_byte n] else nat_byte (n mod 128 + 128) # varint (n div 128))"

declare varint.simps [simp del]

fun read_varint :: "string \<Rightarrow> (nat \<times> nat) option" where
  "read_varint [] = None"
| "read_varint (c # cs) =
     (if byte_nat c < 128 then Some (byte_nat c, 1)
      else map_option (\<lambda>(v, k). (byte_nat c - 128 + 128 * v, Suc k)) (read_varint cs))"

lemma byte_nat_nat_byte [simp]: "n < 256 \<Longrightarrow> byte_nat (nat_byte n) = n"
  by (simp add: byte_nat_def nat_byte_def)

lemma read_varint: "read_varint (varint n @ r) = Some (n, length (varint n))"
proof (induction n rule: varint.induct)
  case (1 n)
  show ?case
  proof (cases "n < 128")
    case True
    then show ?thesis by (simp add: varint.simps [of n])
  next
    case False
    then have "n mod 128 + 128 < 256" by simp
    with False 1 show ?thesis by (simp add: varint.simps [of n])
  qed
qed

fun wire_num :: "wire_type \<Rightarrow> nat" where
  "wire_num VarintType = 0"
| "wire_num BytesType = 2"
| "wire_num (OtherType k) = k"

definition std_wire :: "string protowire" where
  "std_wire =
     \<lparr>AppendTag = \<lambda>b num typ. b @ varint (8 * num + wire_num typ),
      AppendVarint = \<lambda>b v. b @ varint v,
      AppendBytes = \<lambda>b v. b @ varint (length v) @ v,
      ConsumeTag = \<lambda>s. map_option (\<lambda>(v, k). (v div 8,
        if v mod 8 = 0 then VarintType else if v mod 8 = 2 then BytesType else OtherType (v mod 8), k)) (read_varint s),
      ConsumeVarint = read_varint,
      ConsumeBytes = \<lambda>s. (case read_varint s of
          None \<Rightarrow> None
        | Some (n, k) \<Rightarrow> if n \<le> length (drop k s) then Some (take n (drop k s), k + n) else None),
      ConsumeFieldValue = \<lambda>num typ s. None,
      anyMarshal = Some, anyUnmarshal = Some\<rparr>"

lemma varint_not_Nil [simp]: "varint n \<noteq> []"
  by (simp add: varint.simps [of n])

lemma std_wire_laws: "wire_laws std_wire"
  by (auto simp: wire_laws_def std_wire_def read_varint)

lemma unmarshal_marshalStatus_witness:
  "\<exists>data. marshalStatus std_wire \<lparr>st_Code = -1, st_Message = ''gone'', st_Details = [''a'', [] ]\<rparr> = Some data \<and>
     unmarshalStatus std_wire data = Some (Inr \<lparr>st_Code = -1, st_Message = ''gone'', st_Details = [''a'', [] ]\<rparr>)"
  using unmarshal_marshalStatus [OF std_wire_laws,
      of "\<lparr>st_Code = -1, st_Message = ''gone'', st_Details = [''a'', [] ]\<rparr>"]
  by (auto simp: details_ok_def std_wire_def)

lemma read_varint_pos: "read_varint s = Some (v, k) \<Longrightarrow> 0 < k"
  by (cases s) (auto split: if_splits)

lemma std_wire_tags: "ConsumeTag std_wire data = Some (num, typ, n) \<Longrightarrow> 0 < n"
  by (auto simp: std_wire_def read_varint_pos)

subsection \<open>Conversions between errors\<close>

lemma FromError_RpcError: "FromError e = Some r \<Longrightarrow> \<exists>c msg inner meta ds. r = RpcError c msg inner meta ds"
  by (induction e rule: FromError.induct) auto

lemma map_filter_Some [simp]: "List.map_filter (\<lambda>d. d) (map Some ds) = ds"
  by (induction ds) (simp_all add: map_filter_def)

lemma FromGRPCStatus_loop_RpcError:
  "FromError e = Some r \<Longrightarrow>
   FromGRPCStatus_loop err e = RpcError (err_code r) (Message r) None None (err_details r)"
  by (induction e rule: FromError.induct) (auto simp: NewErrorf_def)

fun chain :: "'d goerror \<Rightarrow> 'd goerror list" where
  \<comment> \<open>the error and what it unwraps to, down to the first error with a \<open>GRPCStatus\<close> method\<close>
  "chain (WrapError txt e) = WrapError txt e # chain e"
| "chain e = [e]"

text \<open>
  Converting an error back from its gRPC status keeps the code and the detail payloads of the
  first RPC error of the chain, however often it was wrapped, and its message (an empty one is
  read as the code's name); an error without a \<open>GRPCStatus\<close> method anywhere in its chain comes back
  as it was.
\<close>

theorem FromGRPCStatus_keeps:
  "(FromError e = Some r \<longrightarrow>
     (\<exists>e'. FromGRPCStatus (Some e) = Some e' \<and> status_Code (Some e') = status_Code (Some e) \<and>
        err_details e' = err_details r \<and>
        Message e' = (if Message r = [] then code_String (err_code r) else Message r))) \<and>
   (list_all (\<lambda>e'. GRPCStatus e' = None) (chain e) \<longrightarrow> FromGRPCStatus (Some e) = Some e)"
proof (intro conjI impI)
  assume r: "FromError e = Some r"
  then show "\<exists>e'. FromGRPCStatus (Some e) = Some e' \<and> status_Code (Some e') = status_Code (Some e) \<and>
        err_details e' = err_details r \<and>
        Message e' = (if Message r = [] then code_String (err_code r) else Message r)"
    using FromGRPCStatus_loop_RpcError [OF r] by (simp add: FromGRPCStatus_def status_Code_def Message_def)
next
  have "list_all (\<lambda>e'. GRPCStatus e' = None) (chain e) \<Longrightarrow> FromGRPCStatus_loop err e = err" for err
    by (induction e rule: chain.induct) auto
  then show "list_all (\<lambda>e'. GRPCStatus e' = None) (chain e) \<Longrightarrow> FromGRPCStatus (Some e) = Some e"
    by (simp add: FromGRPCStatus_def)
qed

lemma FromGRPCStatus_keeps_witness:
  "\<exists>e'. FromGRPCStatus (Some (WrapError ''call: x'' (RpcError 5 ''x'' None None [True]))) = Some e' \<and>
     err_details e' = [True] \<and> Message e' = ''x''"
  using FromGRPCStatus_keeps [of "WrapError ''call: x'' (RpcError 5 ''x'' None None [True])"
      "RpcError 5 ''x'' None None [True]"]
  by (auto simp: Message_def)

end
