(* ===== verification/Ctx.thy ===== *)
theory Ctx
  imports Encoding Status
begin

text \<open>
  The handler context, requests and responses of \<open>runtime/ctx.go\<close>, \<open>runtime/request.go\<close>,
  \<open>runtime/response.go\<close>, \<open>runtime/stream.go\<close> and \<open>peer/peer.go\<close>.

  A \<open>Ctx\<close> is a Go struct of a context and a pointer to the state all its copies share. The model
  is the pair of the context and the contents of that state (\<open>None\<close> for the nil pointer); who
  passes a \<open>Ctx\<close> on goes on with the state it gets back. Messages (\<open>any\<close>) are of type \<open>'m\<close>, and
  \<open>gotype\<close> names the dynamic type of a value.
\<close>

type_synonym gotype = string

record Peer =
  Addr :: string
  peer_Protocol :: string

record Spec =
  sp_Procedure :: string
  sp_Method :: string
  sp_Path :: string
  sp_Service :: string
  sp_RPC :: string

definition empty_spec :: Spec where
  "empty_spec = \<lparr>sp_Procedure = [], sp_Method = [], sp_Path = [], sp_Service = [], sp_RPC = []\<rparr>"

definition empty_peer :: Peer where
  "empty_peer = \<lparr>Addr = [], peer_Protocol = []\<rparr>"

datatype StreamType = StreamTypeUnary | StreamTypeServer | StreamTypeClient | StreamTypeBidi

fun StreamType_String :: "StreamType \<Rightarrow> string" where
  "StreamType_String StreamTypeServer = ''server''"
| "StreamType_String StreamTypeClient = ''client''"
| "StreamType_String StreamTypeBidi = ''bidi''"
| "StreamType_String StreamTypeUnary = ''unary''"

section \<open>Requests and responses\<close>

record 'm Request =
  req_type :: gotype \<comment> \<open>the type argument of \<open>Request[T]\<close>\<close>
  req_msg :: 'm
  req_header :: "header option"
  req_spec :: Spec
  req_peer :: Peer
  req_meta :: RequestMeta

definition NewRequest :: "gotype \<Rightarrow> 'm \<Rightarrow> 'm Request" where
  "NewRequest T msg =
     \<lparr>req_type = T, req_msg = msg, req_header = Some [], req_spec = empty_spec,
      req_peer = empty_peer, req_meta = empty_meta\<rparr>"

definition NewRequestWithMeta :: "gotype \<Rightarrow> 'm \<Rightarrow> header option \<Rightarrow> Spec \<Rightarrow> Peer \<Rightarrow> 'm Request" where
  "NewRequestWithMeta T msg h sp pr =
     \<lparr>req_type = T, req_msg = msg, req_header = h, req_spec = sp, req_peer = pr, req_meta = empty_meta\<rparr>"

definition Request_WithRequestMeta :: "'m Request \<Rightarrow> RequestMeta \<Rightarrow> 'm Request" where
  "Request_WithRequestMeta r meta = r\<lparr>req_meta := meta\<rparr>"

definition Request_Cookie :: "'m Request \<Rightarrow> string \<Rightarrow> cookie option" where
  "Request_Cookie r nm = find_cookie (mCookies (req_meta r)) nm"

datatype 'm AnyRequest =
    TypedRequest "'m Request"
  | RawRequest 'm Spec Peer header

fun AnyRequest_Any :: "'m AnyRequest \<Rightarrow> 'm" where
  "AnyRequest_Any (TypedRequest r) = req_msg r"
| "AnyRequest_Any (RawRequest m sp pr h) = m"

fun AnyRequest_Spec :: "'m AnyRequest \<Rightarrow> Spec" where
  "AnyRequest_Spec (TypedRequest r) = req_spec r"
| "AnyRequest_Spec (RawRequest m sp pr h) = sp"

fun AnyRequest_Peer :: "'m AnyRequest \<Rightarrow> Peer" where
  "AnyRequest_Peer (TypedRequest r) = req_peer r"
| "AnyRequest_Peer (RawRequest m sp pr h) = pr"

fun AnyRequest_Header :: "'m AnyRequest \<Rightarrow> header option" where
  "AnyRequest_Header (TypedRequest r) = req_header r"
| "AnyRequest_Header (RawRequest m sp pr h) = Some h"

record 'm Response =
  resp_msg :: 'm
  resp_header :: "header option"
  resp_trailer :: "header option"

definition NewResponse :: "'m \<Rightarrow> 'm Response" where
  "NewResponse msg = \<lparr>resp_msg = msg, resp_header = None, resp_trailer = None\<rparr>"

definition Response_Header :: "'m Response \<Rightarrow> header \<times> 'm Response" where
  \<comment> \<open>allocates the map on first access\<close>
  "Response_Header r =
     (case resp_header r of Some h \<Rightarrow> (h, r) | None \<Rightarrow> ([], r\<lparr>resp_header := Some []\<rparr>))"

definition Response_Trailer :: "'m Response \<Rightarrow> header \<times> 'm Response" where
  "Response_Trailer r =
     (case resp_trailer r of Some h \<Rightarrow> (h, r) | None \<Rightarrow> ([], r\<lparr>resp_trailer := Some []\<rparr>))"

definition HeaderSet :: "'m Response \<Rightarrow> bool" where
  "HeaderSet r = (resp_header r \<noteq> None)"

section \<open>Ctx\<close>

record 'm ctxState =
  cs_meta :: RequestMeta
  cs_codec :: "codec option"
  cs_protocol :: string
  cs_spec :: Spec
  cs_peer :: Peer
  cs_req :: "'m option"
  cs_resp :: "'m option"

type_synonym ('c, 'm) Ctx = "'c Context \<times> 'm ctxState option"

definition NewCtx :: "'c Context \<Rightarrow> RequestMeta \<Rightarrow> codec option \<Rightarrow> ('c, 'm) Ctx" where
  "NewCtx ctx meta c =
     (ctx, Some \<lparr>cs_meta = meta, cs_codec = c, cs_protocol = [], cs_spec = empty_spec,
        cs_peer = empty_peer, cs_req = None, cs_resp = None\<rparr>)"

definition Ctx_Deadline :: "('c, 'm) Ctx \<Rightarrow> int option" where
  "Ctx_Deadline c = ctxDeadline (fst c)"

definition Ctx_Context :: "('c, 'm) Ctx \<Rightarrow> 'c Context" where
  "Ctx_Context c = fst c"

definition Ctx_Meta :: "('c, 'm) Ctx \<Rightarrow> RequestMeta" where
  "Ctx_Meta c = (case snd c of None \<Rightarrow> empty_meta | Some s \<Rightarrow> cs_meta s)"

definition Ctx_Header :: "('c, 'm) Ctx \<Rightarrow> header" where
  "Ctx_Header c =
     (case snd c of None \<Rightarrow> [] | Some s \<Rightarrow> (case mHeader (cs_meta s) of None \<Rightarrow> [] | Some h \<Rightarrow> h))"

definition Ctx_HeaderGet :: "('c, 'm) Ctx \<Rightarrow> string \<Rightarrow> string" where
  "Ctx_HeaderGet c nm = header_get (Ctx_Header c) nm"

definition query_get :: "header \<Rightarrow> string \<Rightarrow> string" where
  \<comment> \<open>\<open>url.Values.Get\<close>: the key as it is\<close>
  "query_get q k = (case map_of q k of Some (v # _) \<Rightarrow> v | _ \<Rightarrow> [])"

definition Ctx_Query :: "('c, 'm) Ctx \<Rightarrow> header" where
  "Ctx_Query c =
     (case snd c of None \<Rightarrow> [] | Some s \<Rightarrow> (case mQuery (cs_meta s) of None \<Rightarrow> [] | Some q \<Rightarrow> q))"

definition Ctx_QueryGet :: "('c, 'm) Ctx \<Rightarrow> string \<Rightarrow> string" where
  "Ctx_QueryGet c nm = query_get (Ctx_Query c) nm"

definition Ctx_Body :: "('c, 'm) Ctx \<Rightarrow> string option" where
  "Ctx_Body c = (case snd c of None \<Rightarrow> None | Some s \<Rightarrow> mBody (cs_meta s))"

definition Ctx_Cookies :: "('c, 'm) Ctx \<Rightarrow> cookie list" where
  "Ctx_Cookies c = (case snd c of None \<Rightarrow> [] | Some s \<Rightarrow> mCookies (cs_meta s))"

definition Ctx_Cookie :: "('c, 'm) Ctx \<Rightarrow> string \<Rightarrow> cookie option" where
  "Ctx_Cookie c nm = find_cookie (Ctx_Cookies c) nm"

definition Ctx_Params :: "('c, 'm) Ctx \<Rightarrow> params" where
  "Ctx_Params c = (case snd c of None \<Rightarrow> None | Some s \<Rightarrow> mParams (cs_meta s))"

definition Ctx_Param :: "('c, 'm) Ctx \<Rightarrow> string \<Rightarrow> string option" where
  "Ctx_Param c nm = params_get (Ctx_Params c) nm"

definition Ctx_Codec :: "('c, 'm) Ctx \<Rightarrow> codec option" where
  "Ctx_Codec c = (case snd c of None \<Rightarrow> None | Some s \<Rightarrow> cs_codec s)"

definition CodecName :: "('c, 'm) Ctx \<Rightarrow> string" where
  "CodecName c = (case Ctx_Codec c of Some codec \<Rightarrow> Name codec | None \<Rightarrow> [])"

definition IsJsonCodec :: "('c, 'm) Ctx \<Rightarrow> bool" where
  "IsJsonCodec c = (CodecName c = ContentTypeJSON)"

definition IsProtobufCodec :: "('c, 'm) Ctx \<Rightarrow> bool" where
  "IsProtobufCodec c = (CodecName c = ContentTypeProtobuf)"

definition IsXMLCodec :: "('c, 'm) Ctx \<Rightarrow> bool" where
  "IsXMLCodec c = (CodecName c = ContentTypeXML)"

definition Ctx_Protocol :: "('c, 'm) Ctx \<Rightarrow> string" where
  "Ctx_Protocol c =
     (case snd c of None \<Rightarrow> ''unknown''
      | Some s \<Rightarrow> if cs_protocol s = [] then ''unknown'' else cs_protocol s)"

definition IsGRPC :: "('c, 'm) Ctx \<Rightarrow> bool" where
  "IsGRPC c = (Ctx_Protocol c = ''grpc'')"

definition Ctx_Spec :: "('c, 'm) Ctx \<Rightarrow> Spec" where
  "Ctx_Spec c = (case snd c of None \<Rightarrow> empty_spec | Some s \<Rightarrow> cs_spec s)"

definition Ctx_Peer :: "('c, 'm) Ctx \<Rightarrow> Peer" where
  "Ctx_Peer c = (case snd c of None \<Rightarrow> empty_peer | Some s \<Rightarrow> cs_peer s)"

definition Ctx_Request :: "('m \<Rightarrow> gotype) \<Rightarrow> gotype \<Rightarrow> ('c, 'm) Ctx \<Rightarrow> 'm option" where
  \<comment> \<open>\<open>Request[T]\<close>: the payload if its dynamic type is \<open>*T\<close>\<close>
  "Ctx_Request typeOf T c =
     (case snd c of None \<Rightarrow> None
      | Some s \<Rightarrow> (case cs_req s of Some m \<Rightarrow> if typeOf m = T then Some m else None | None \<Rightarrow> None))"

definition Ctx_Response :: "('m \<Rightarrow> gotype) \<Rightarrow> gotype \<Rightarrow> ('c, 'm) Ctx \<Rightarrow> 'm option" where
  "Ctx_Response typeOf T c =
     (case snd c of None \<Rightarrow> None
      | Some s \<Rightarrow> (case cs_resp s of Some m \<Rightarrow> if typeOf m = T then Some m else None | None \<Rightarrow> None))"

definition SetRequest :: "'m option \<Rightarrow> ('c, 'm) Ctx \<Rightarrow> ('c, 'm) Ctx" where
  "SetRequest m = apsnd (map_option (\<lambda>s. s\<lparr>cs_req := m\<rparr>))"

definition SetResponse :: "'m option \<Rightarrow> ('c, 'm) Ctx \<Rightarrow> ('c, 'm) Ctx" where
  "SetResponse m = apsnd (map_option (\<lambda>s. s\<lparr>cs_resp := m\<rparr>))"

definition WithValue :: "string \<Rightarrow> string \<Rightarrow> ('c, 'm) Ctx \<Rightarrow> ('c, 'm) Ctx" where
  "WithValue k v = apfst (\<lambda>ctx. ctx\<lparr>otherValues := (otherValues ctx)(k \<mapsto> v)\<rparr>)"

definition WithContext :: "'c Context \<Rightarrow> ('c, 'm) Ctx \<Rightarrow> ('c, 'm) Ctx" where
  "WithContext ctx c = (ctx, snd c)"

definition WithCodec :: "codec option \<Rightarrow> ('c, 'm) Ctx \<Rightarrow> ('c, 'm) Ctx" where
  "WithCodec codec = apsnd (map_option (\<lambda>s. s\<lparr>cs_codec := codec\<rparr>))"

definition WithProtocol :: "string \<Rightarrow> ('c, 'm) Ctx \<Rightarrow> ('c, 'm) Ctx" where
  "WithProtocol p = apsnd (map_option (\<lambda>s. s\<lparr>cs_protocol := p\<rparr>))"

definition WithSpec :: "Spec \<Rightarrow> ('c, 'm) Ctx \<Rightarrow> ('c, 'm) Ctx" where
  "WithSpec sp = apsnd (map_option (\<lambda>s. s\<lparr>cs_spec := sp\<rparr>))"

definition WithPeer :: "Peer \<Rightarrow> ('c, 'm) Ctx \<Rightarrow> ('c, 'm) Ctx" where
  "WithPeer p = apsnd (map_option (\<lambda>s. s\<lparr>cs_peer := p\<rparr>))"

lemmas ctx_defs =
  NewCtx_def Ctx_Deadline_def Ctx_Context_def Ctx_Meta_def Ctx_Header_def Ctx_HeaderGet_def Ctx_Query_def
  Ctx_QueryGet_def Ctx_Body_def Ctx_Cookies_def Ctx_Cookie_def Ctx_Params_def Ctx_Param_def
  Ctx_Codec_def CodecName_def Ctx_Protocol_def Ctx_Spec_def Ctx_Peer_def Ctx_Request_def
  Ctx_Response_def SetRequest_def SetResponse_def WithValue_def WithContext_def WithCodec_def
  WithProtocol_def WithSpec_def WithPeer_def

text \<open>What survives which update; the claims are looked up in the context.\<close>

lemma ctx_with [simp]:
  "fst (SetRequest m c) = fst c" "fst (SetResponse m c) = fst c" "fst (WithCodec d c) = fst c"
  "fst (WithProtocol p c) = fst c" "fst (WithSpec sp c) = fst c" "fst (WithPeer pr c) = fst c"
  "snd (WithValue k v c) = snd c" "snd (WithContext ctx c) = snd c"
  by (simp_all add: ctx_defs)

end
