(* ===== verification/Middleware.thy ===== *)
theory Middleware
  imports Ctx Registry
begin

text \<open>
  Interceptor chains of \<open>middleware/interceptor.go\<close> and \<open>client/interceptor.go\<close>, the stream
  adapters of \<open>streaming/stream.go\<close>, \<open>kernel/stream.go\<close> and \<open>client/streams.go\<close>, and the
  transport registry of \<open>streaming/registry.go\<close>.

  A \<open>UnaryFunc\<close> gets a \<open>Ctx\<close> and a request (\<open>None\<close> is nil) and returns its result with the
  shared state of the \<open>Ctx\<close> as it leaves it. A stream is the context it was established with and
  its two operations on the state \<open>'s\<close> of the transport. An interceptor is the function its
  \<open>Wrap\<close> method computes.
\<close>

type_synonym ('c, 'm, 'd) UnaryFunc =
  "('c, 'm) Ctx \<Rightarrow> 'm AnyRequest option \<Rightarrow> ('d goerror + 'm Response option) \<times> 'm ctxState option"

type_synonym ('c, 'm, 'd) UnaryInterceptor = "('c, 'm, 'd) UnaryFunc \<Rightarrow> ('c, 'm, 'd) UnaryFunc"

record ('c, 'm, 'd, 's) Stream =
  strContext :: "('c, 'm) Ctx"
  Send :: "'m \<Rightarrow> 's \<Rightarrow> 'd goerror option \<times> 's"
  Receive :: "'s \<Rightarrow> ('d goerror + 'm) \<times> 's"

type_synonym ('c, 'm, 'd, 's) StreamInterceptor =
  "('c, 'm, 'd, 's) Stream \<Rightarrow> ('c, 'm, 'd, 's) Stream"

definition ChainUnaryInterceptors ::
    "('c, 'm, 'd) UnaryInterceptor list \<Rightarrow> ('c, 'm, 'd) UnaryFunc \<Rightarrow> ('c, 'm, 'd) UnaryFunc" where
  \<comment> \<open>the loop runs from the last interceptor to the first\<close>
  "ChainUnaryInterceptors interceptors next =
     fold (\<lambda>interceptor chained. interceptor chained) (rev interceptors) next"

definition ChainStreamInterceptors ::
    "('c, 'm, 'd, 's) StreamInterceptor list \<Rightarrow> ('c, 'm, 'd, 's) Stream \<Rightarrow> ('c, 'm, 'd, 's) Stream" where
  "ChainStreamInterceptors interceptors next =
     fold (\<lambda>interceptor chained. interceptor chained) (rev interceptors) next"

text \<open>
  The client's \<open>UnaryInvoker\<close>: one attempt of a call, on the state \<open>'w\<close> of the network; it returns
  the number of response bytes and the error, or \<open>None\<close> if it does not return.
\<close>

type_synonym ('x, 'd, 'w) UnaryInvoker = "'x \<Rightarrow> 'w \<Rightarrow> ((int \<times> 'd goerror option) \<times> 'w) option"

definition client_ChainUnaryInterceptors ::
    "(('x, 'd, 'w) UnaryInvoker \<Rightarrow> ('x, 'd, 'w) UnaryInvoker) list \<Rightarrow> ('x, 'd, 'w) UnaryInvoker
     \<Rightarrow> ('x, 'd, 'w) UnaryInvoker" where
  "client_ChainUnaryInterceptors interceptors next =
     fold (\<lambda>interceptor chained. interceptor chained) (rev interceptors) next"

section \<open>The onion\<close>

text \<open>What the three chains have in common: the first interceptor is the outermost.\<close>

locale onion =
  fixes chain :: "('h \<Rightarrow> 'h) list \<Rightarrow> 'h \<Rightarrow> 'h"
  assumes chain_Nil: "chain [] h = h"
    and chain_Cons: "chain (i # is) h = i (chain is h)"
begin

lemma chain_append: "chain (xs @ ys) h = chain xs (chain ys h)"
  by (induction xs) (simp_all add: chain_Nil chain_Cons)

lemma chain_middle: "chain (xs @ i # ys) h = chain xs (i (chain ys h))"
  by (simp add: chain_append chain_Cons)

lemma chain_single: "chain [i] h = i h"
  by (simp add: chain_Nil chain_Cons)

text \<open>An interceptor that never calls the next one hides everything inside it.\<close>

lemma chain_stop:
  assumes "\<And>h. i h = g"
  shows "chain (xs @ i # ys) h = chain xs g"
  by (simp add: chain_append chain_Cons assms)

text \<open>What every interceptor keeps, the chain keeps.\<close>

lemma chain_invariant:
  assumes "P h" "\<And>i h. i \<in> set is \<Longrightarrow> P h \<Longrightarrow> P (i h)"
  shows "P (chain is h)"
  using assms(2) by (induction "is") (simp_all add: chain_Nil chain_Cons assms(1))

text \<open>And one interceptor that enforces a property gives it to the chain, if the outer ones keep it.\<close>

lemma chain_enforced:
  assumes "\<And>h. P (i h)" "\<And>j h. j \<in> set xs \<Longrightarrow> P h \<Longrightarrow> P (j h)"
  shows "P (chain (xs @ i # ys) h)"
  unfolding chain_append chain_Cons
  by (rule chain_invariant) (use assms in auto)

end

interpretation unary: onion ChainUnaryInterceptors
  by unfold_locales (simp_all add: ChainUnaryInterceptors_def)

interpretation streams: onion ChainStreamInterceptors
  by unfold_locales (simp_all add: ChainStreamInterceptors_def)

interpretation invokers: onion client_ChainUnaryInterceptors
  by unfold_locales (simp_all add: client_ChainUnaryInterceptors_def)

section \<open>Stream adapters\<close>

definition NewServerStreamAdapter ::
    "('c, 'm) Ctx \<Rightarrow> ('m \<Rightarrow> 's \<Rightarrow> 'd goerror option \<times> 's) \<Rightarrow> ('c, 'm, 'd, 's) Stream" where
  \<comment> \<open>the inner stream is its \<open>Send\<close>\<close>
  "NewServerStreamAdapter ctx send =
     \<lparr>strContext = ctx, Send = send,
      Receive = \<lambda>s. (Inl (NewErrorf CodeInternal ''receive not supported on server-streaming transport''), s)\<rparr>"

definition NewClientStreamAdapter ::
    "('c, 'm) Ctx \<Rightarrow> ('s \<Rightarrow> ('d goerror + 'm) \<times> 's) \<Rightarrow> ('c, 'm, 'd, 's) Stream" where
  "NewClientStreamAdapter ctx receive =
     \<lparr>strContext = ctx,
      Send = \<lambda>m s. (Some (NewErrorf CodeInternal ''send not supported on client-streaming transport''), s),
      Receive = receive\<rparr>"

definition NewBidiStreamAdapter ::
    "('c, 'm) Ctx \<Rightarrow> ('m \<Rightarrow> 's \<Rightarrow> 'd goerror option \<times> 's) \<Rightarrow> ('s \<Rightarrow> ('d goerror + 'm) \<times> 's)
     \<Rightarrow> ('c, 'm, 'd, 's) Stream" where
  "NewBidiStreamAdapter ctx send receive = \<lparr>strContext = ctx, Send = send, Receive = receive\<rparr>"

definition receiveTyped ::
    "('m \<Rightarrow> gotype) \<Rightarrow> gotype \<Rightarrow> ('s \<Rightarrow> ('d goerror + 'm) \<times> 's) \<Rightarrow> 's \<Rightarrow> ('d goerror + 'm) \<times> 's" where
  "receiveTyped typeOf T receive s =
     (case receive s of
        (Inl e, s) \<Rightarrow> (Inl e, s)
      | (Inr msg, s) \<Rightarrow>
          if typeOf msg = T then (Inr msg, s)
          else (Inl (NewErrorf CodeInternal (''unexpected message type '' @ typeOf msg)), s))"

definition typedClientStream :: "('m \<Rightarrow> gotype) \<Rightarrow> gotype \<Rightarrow> ('c, 'm, 'd, 's) Stream \<Rightarrow> ('c, 'm, 'd, 's) Stream" where
  "typedClientStream typeOf Req inner = inner\<lparr>Receive := receiveTyped typeOf Req (Receive inner)\<rparr>"

definition typedServerStream :: "('c, 'm, 'd, 's) Stream \<Rightarrow> ('c, 'm, 'd, 's) Stream" where
  "typedServerStream inner = inner"

definition typedBidiStream :: "('m \<Rightarrow> gotype) \<Rightarrow> gotype \<Rightarrow> ('c, 'm, 'd, 's) Stream \<Rightarrow> ('c, 'm, 'd, 's) Stream" where
  "typedBidiStream typeOf Req inner = inner\<lparr>Receive := receiveTyped typeOf Req (Receive inner)\<rparr>"

section \<open>Transport registry\<close>

type_synonym 't transport_registry = "(string \<times> 't) list"
  \<comment> \<open>transports by name, in the order \<open>range\<close> visits the map; a transport is its name and the rest\<close>

definition NewTransportRegistry :: "'t transport_registry" where
  "NewTransportRegistry = []"

definition TransportRegistry_Register :: "string \<times> 't \<Rightarrow> 't transport_registry \<Rightarrow> 't transport_registry" where
  "TransportRegistry_Register t r = alist_put (fst t) (snd t) r"

definition TransportRegistry_Get :: "'t transport_registry \<Rightarrow> string \<Rightarrow> 't option" where
  "TransportRegistry_Get r nm = map_of r nm"

definition TransportRegistry_Names :: "'t transport_registry \<Rightarrow> string list" where
  "TransportRegistry_Names r = map fst r"

interpretation transports: keyed_store fst snd NewTransportRegistry TransportRegistry_Register TransportRegistry_Get
  by unfold_locales
     (simp_all add: NewTransportRegistry_def TransportRegistry_Register_def TransportRegistry_Get_def)

lemma TransportRegistry_Names_Register:
  "set (TransportRegistry_Names (TransportRegistry_Register t r)) = insert (fst t) (set (TransportRegistry_Names r))"
  by (simp add: TransportRegistry_Names_def TransportRegistry_Register_def)

lemma TransportRegistry_Names_distinct:
  "distinct (TransportRegistry_Names r) \<Longrightarrow> distinct (TransportRegistry_Names (TransportRegistry_Register t r))"
  by (simp add: TransportRegistry_Names_def TransportRegistry_Register_def distinct_alist_put)

section \<open>Properties\<close>

text \<open>
  C15. Every chain is an onion whose first interceptor is outermost: unary calls and streams on the server, and calls on the
  client. An interceptor wraps exactly the chain of those after it, and is wrapped by those before it; without
  interceptors the handler, the stream or the invoker is what it was; and one that never goes on hides everything
  after it, but not those before it.
\<close>

theorem interceptor_chains_onion:
  "ChainUnaryInterceptors [] u = u \<and>
   ChainUnaryInterceptors (outer @ i # inner) u = ChainUnaryInterceptors outer (i (ChainUnaryInterceptors inner u)) \<and>
   ChainUnaryInterceptors (outer @ (\<lambda>_. reject) # inner) u = ChainUnaryInterceptors outer reject \<and>
   ChainStreamInterceptors [] s = s \<and>
   ChainStreamInterceptors (outer' @ i' # inner') s = ChainStreamInterceptors outer' (i' (ChainStreamInterceptors inner' s)) \<and>
   ChainStreamInterceptors (outer' @ (\<lambda>_. closed) # inner') s = ChainStreamInterceptors outer' closed \<and>
   client_ChainUnaryInterceptors [] v = v \<and>
   client_ChainUnaryInterceptors (outer'' @ i'' # inner'') v =
     client_ChainUnaryInterceptors outer'' (i'' (client_ChainUnaryInterceptors inner'' v)) \<and>
   client_ChainUnaryInterceptors (outer'' @ (\<lambda>_. refuse) # inner'') v = client_ChainUnaryInterceptors outer'' refuse"
  by (intro conjI) (rule unary.chain_Nil unary.chain_middle unary.chain_stop streams.chain_Nil streams.chain_middle streams.chain_stop
      invokers.chain_Nil invokers.chain_middle invokers.chain_stop; rule refl)+

text \<open>
  The names of the transport registry are those registered, each once, and \<open>Get\<close> returns what
  was registered last under a name. They come in the order of the map, not sorted.
\<close>

theorem TransportRegistry_Names_set:
  "set (TransportRegistry_Names (fold TransportRegistry_Register ts NewTransportRegistry)) = fst ` set ts \<and>
   distinct (TransportRegistry_Names (fold TransportRegistry_Register ts NewTransportRegistry)) \<and>
   TransportRegistry_Get (fold TransportRegistry_Register ts NewTransportRegistry) nm =
     map_option snd (find (\<lambda>t. fst t = nm) (rev ts)) \<and>
   TransportRegistry_Names (fold TransportRegistry_Register [(''ws'', x), (''sse'', y)] NewTransportRegistry) =
     [''ws'', ''sse'']"
proof -
  have "set (TransportRegistry_Names (fold TransportRegistry_Register ts r)) = set (TransportRegistry_Names r) \<union> fst ` set ts"
    for r
    by (induction ts arbitrary: r) (auto simp: TransportRegistry_Names_Register)
  moreover have "distinct (TransportRegistry_Names r) \<Longrightarrow>
      distinct (TransportRegistry_Names (fold TransportRegistry_Register ts r))" for r
    by (induction ts arbitrary: r) (auto simp: TransportRegistry_Names_distinct)
  ultimately show ?thesis
    using transports.load_store_all [of ts nm, unfolded transports.store_all_def]
    by (simp add: NewTransportRegistry_def TransportRegistry_Names_def
        TransportRegistry_Register_def)
qed

end
