(* ===== verification/Transport.thy ===== *)
theory Transport
  imports Middleware
begin

text \<open>
  The stream transports: NDJSON requests (\<open>transport/ndjson\<close>, \<open>client/ndjson.go\<close>), server-sent
  events (\<open>transport/sse\<close>, the receiver of \<open>client/streams.go\<close>) and WebSocket frames
  (\<open>transport/websocket\<close>, \<open>client/websocket.go\<close>).

  A reader is the bytes it has still to yield and the error it ends with. A response writer keeps
  its live header, what was sent, and how many writes still succeed. The buffer pools only recycle
  memory and are left out here.
\<close>

record 'd reader =
  rd_bytes :: string
  rd_end :: "'d goerror"

definition ReadBytes :: "'d reader \<Rightarrow> (string \<times> 'd goerror option) \<times> 'd reader" where
  \<comment> \<open>\<open>bufio.Reader.ReadBytes('\n')\<close>\<close>
  "ReadBytes r =
     (case index_byte (rd_bytes r) CHR 0x0A of
        Some i \<Rightarrow> ((take (Suc i) (rd_bytes r), None), r\<lparr>rd_bytes := drop (Suc i) (rd_bytes r)\<rparr>)
      | None \<Rightarrow> ((rd_bytes r, Some (rd_end r)), r\<lparr>rd_bytes := []\<rparr>))"

lemma ReadBytes_less: "ReadBytes r = ((line, None), r') \<Longrightarrow> length (rd_bytes r') < length (rd_bytes r)"
  by (auto simp: ReadBytes_def dest!: index_byte_Some split: option.splits)

record 'd writer =
  w_header :: header
  w_sent :: "(int \<times> header) option" \<comment> \<open>the status line and header once sent\<close>
  w_body :: string
  w_left :: "nat option" \<comment> \<open>how many more writes succeed; \<open>None\<close> for all\<close>
  w_error :: "'d goerror"

definition WriteHeader :: "int \<Rightarrow> 'd writer \<Rightarrow> 'd writer" where
  "WriteHeader st w = (case w_sent w of None \<Rightarrow> w\<lparr>w_sent := Some (st, w_header w)\<rparr> | Some _ \<Rightarrow> w)"

definition Write :: "string \<Rightarrow> 'd writer \<Rightarrow> 'd goerror option \<times> 'd writer" where
  "Write data w =
     (let w = WriteHeader 200 w
      in case w_left w of
           None \<Rightarrow> (None, w\<lparr>w_body := w_body w @ data\<rparr>)
         | Some 0 \<Rightarrow> (Some (w_error w), w)
         | Some (Suc n) \<Rightarrow> (None, w\<lparr>w_body := w_body w @ data, w_left := Some n\<rparr>))"

fun write_all :: "string list \<Rightarrow> 'd writer \<Rightarrow> 'd goerror option \<times> 'd writer" where
  \<comment> \<open>\<open>if _, err := w.Write(x); err != nil { return err }\<close> for each of a list\<close>
  "write_all [] w = (None, w)"
| "write_all (x # xs) w =
     (case Write x w of (Some e, w) \<Rightarrow> (Some e, w) | (None, w) \<Rightarrow> write_all xs w)"

definition decode_stream_message ::
    "'m serializers \<Rightarrow> codec \<Rightarrow> code \<Rightarrow> 'm \<Rightarrow> string \<Rightarrow> 'd goerror + 'm" where
  \<comment> \<open>the common tail of the receivers: base64 for binary codecs, then \<open>Unmarshal\<close> into a new
      message \<open>fresh\<close>; \<open>c\<close> is the code of the errors\<close>
  "decode_stream_message lib codec c fresh data =
     (let decoded = (if IsBinary codec then b64_decode data else Some data)
      in case decoded of
           None \<Rightarrow> Inl (NewErrorf c (''decode base64 stream message: '' @ b64Error lib data))
         | Some line \<Rightarrow>
             (case Unmarshal lib codec line fresh of
                (Some e, _) \<Rightarrow> Inl (NewErrorf c (''decode stream message: '' @ e))
              | (None, msg) \<Rightarrow> Inr msg))"

section \<open>NDJSON\<close>

definition ndjson_Receive :: "'m serializers \<Rightarrow> codec \<Rightarrow> 'm \<Rightarrow> 'd reader \<Rightarrow> ('d goerror + 'm) \<times> 'd reader" where
  \<comment> \<open>\<open>ndjson.ClientStream.Receive\<close>; \<open>fresh\<close> is \<open>reflect.New(s.msgTyp)\<close>\<close>
  "ndjson_Receive lib codec fresh r =
     (case ReadBytes r of
        ((line, Some err), r) \<Rightarrow>
          if err = EOF \<and> trim_space line = [] then (Inl EOF, r) else (Inl err, r)
      | ((line, None), r) \<Rightarrow>
          let line = trim_space line
          in if line = [] then (Inl EOF, r)
             else (decode_stream_message lib codec CodeInvalidArgument fresh line, r))"

definition stream_payload :: "'m serializers \<Rightarrow> codec \<Rightarrow> 'm \<Rightarrow> string + string" where
  \<comment> \<open>what a message is on a text transport\<close>
  "stream_payload lib codec msg =
     (case Marshal lib codec msg of
        Inl e \<Rightarrow> Inl e
      | Inr raw \<Rightarrow> Inr (if IsBinary codec then b64_encode raw else raw))"

text \<open>
  The client's side of an NDJSON call. The response arrives on a channel (\<open>nd_chan\<close>) and is kept
  in \<open>nd_result\<close>; \<open>FromHTTP\<close> reads its body, which is then empty.
\<close>

type_synonym 'd ndjsonResult = "'d goerror + response"

record 'd ndjsonWriteStream =
  nd_written :: string
  nd_werror :: "'d goerror option" \<comment> \<open>set once writes to the pipe fail\<close>
  nd_chan :: "'d ndjsonResult option"
  nd_result :: "'d ndjsonResult option"
  nd_closed :: bool

definition takeResult :: "'d ndjsonWriteStream \<Rightarrow> 'd ndjsonResult option \<times> 'd ndjsonWriteStream" where
  "takeResult s =
     (case nd_result s of
        Some r \<Rightarrow> (Some r, s)
      | None \<Rightarrow>
          (case nd_chan s of
             Some r \<Rightarrow> (Some r, s\<lparr>nd_result := Some r, nd_chan := None\<rparr>)
           | None \<Rightarrow> (None, s)))"

definition consume_body :: "'d ndjsonWriteStream \<Rightarrow> 'd ndjsonWriteStream" where
  \<comment> \<open>the response body has been read and closed\<close>
  "consume_body s = s\<lparr>nd_result := map_option (map_sum id (\<lambda>r. r\<lparr>resp_Body := []\<rparr>)) (nd_result s)\<rparr>"

definition ndjson_Send ::
    "'d protowire \<Rightarrow> json_reader \<Rightarrow> 'm serializers \<Rightarrow> codec \<Rightarrow> 'm
     \<Rightarrow> 'd ndjsonWriteStream \<Rightarrow> ('d goerror option \<times> 'd ndjsonWriteStream) option" where
  \<comment> \<open>\<open>None\<close>: \<open>FromHTTP\<close> does not return\<close>
  "ndjson_Send W json lib codec msg s =
     (case takeResult s of
        (Some (Inl e), s) \<Rightarrow> Some (Some e, s)
      | (Some (Inr resp), s) \<Rightarrow>
          (case FromHTTP W json resp of None \<Rightarrow> None | Some e \<Rightarrow> Some (Some e, consume_body s))
      | (None, s) \<Rightarrow>
          (case stream_payload lib codec msg of
             Inl e \<Rightarrow> Some (Some (NewErrorf CodeInternal (''encode request: '' @ e)), s)
           | Inr data \<Rightarrow>
               (case nd_werror s of
                  Some e \<Rightarrow> Some (Some e, s)
                | None \<Rightarrow> Some (None, s\<lparr>nd_written := nd_written s @ data @ [CHR 0x0A]\<rparr>))))"

definition CloseAndReceive ::
    "'d protowire \<Rightarrow> json_reader \<Rightarrow> 'm serializers \<Rightarrow> codec \<Rightarrow> 'm
     \<Rightarrow> 'd ndjsonWriteStream \<Rightarrow> (('d goerror + 'm) \<times> 'd ndjsonWriteStream) option" where
  \<comment> \<open>\<open>None\<close>: still waiting for the response; \<open>fresh\<close> is \<open>reflect.New(s.respTyp)\<close>\<close>
  "CloseAndReceive W json lib codec fresh s =
     (case takeResult (s\<lparr>nd_closed := True\<rparr>) of
        (None, s) \<Rightarrow> None
      | (Some (Inl e), s) \<Rightarrow> Some (Inl e, s)
      | (Some (Inr resp), s) \<Rightarrow>
          if resp_StatusCode resp \<noteq> 200 then
            (case FromHTTP W json resp of None \<Rightarrow> None | Some e \<Rightarrow> Some (Inl e, consume_body s))
          else
            (case codec_Decode lib codec (resp_Body resp, None) fresh of
               (Some e, _) \<Rightarrow> Some (Inl (NewErrorf CodeInternal (''decode response: '' @ e)), consume_body s)
             | (None, msg) \<Rightarrow> Some (Inr msg, consume_body s)))"

section \<open>Server-sent events\<close>

record 'm Event =
  ev_Name :: string
  ev_ID :: string
  ev_Retry :: int
  ev_Data :: 'm

definition event_fields :: "'m Event option \<Rightarrow> string list" where
  "event_fields ev =
     (case ev of
        None \<Rightarrow> []
      | Some e \<Rightarrow>
          (if ev_Name e \<noteq> [] then [''event: '' @ ev_Name e @ [CHR 0x0A]] else []) @
          (if ev_ID e \<noteq> [] then [''id: '' @ ev_ID e @ [CHR 0x0A]] else []) @
          (if ev_Retry e > 0 then [''retry: '' @ format_int (ev_Retry e) @ [CHR 0x0A]] else []))"

definition sse_Send ::
    "'m serializers \<Rightarrow> ('m \<Rightarrow> 'm Event option) \<Rightarrow> codec \<Rightarrow> 'm \<Rightarrow> 'd writer \<Rightarrow> 'd goerror option \<times> 'd writer" where
  \<comment> \<open>\<open>sse.ServerStream.Send\<close>; \<open>asEvent\<close> is the type assertion to \<open>*event.Event\<close>. The final flush
      sends nothing of its own.\<close>
  "sse_Send lib asEvent codec msg w =
     (let ev = asEvent msg;
          msg = (case ev of Some e \<Rightarrow> ev_Data e | None \<Rightarrow> msg)
      in case stream_payload lib codec msg of
           Inl e \<Rightarrow> (Some (NewErrorf CodeInternal (''encode stream message: '' @ e)), w)
         | Inr data \<Rightarrow> write_all (event_fields ev @ [''data: '', data, [CHR 0x0A, CHR 0x0A]]) w)"

function sse_Receive :: "'m serializers \<Rightarrow> codec \<Rightarrow> 'm \<Rightarrow> 'd reader \<Rightarrow> ('d goerror + 'm) \<times> 'd reader" where
  \<comment> \<open>\<open>sseClientStream.Receive\<close>\<close>
  "sse_Receive lib codec fresh r =
     (case ReadBytes r of
        ((line, Some err), r') \<Rightarrow> (Inl err, r')
      | ((line, None), r') \<Rightarrow>
          let line = trim_space line
          in if \<not> has_prefix line ''data:'' then sse_Receive lib codec fresh r'
             else let data = trim_space (drop 5 line)
                  in if data = [] then sse_Receive lib codec fresh r'
                     else (decode_stream_message lib codec CodeInternal fresh data, r'))"
  by pat_completeness auto
termination
  by (relation "measure (\<lambda>(lib, codec, fresh, r). length (rd_bytes r))")
     (auto intro: ReadBytes_less [OF sym])

declare sse_Receive.simps [simp del]

section \<open>WebSocket\<close>

record 'd wsconn =
  ws_in :: "(nat \<times> string) list" \<comment> \<open>frames to come: message type and data\<close>
  ws_end :: "'d goerror"
  ws_out :: "(nat \<times> string) list"
  ws_close :: "(int \<times> string) option"
  ws_werror :: "'d goerror option"

definition ws_Read :: "'d wsconn \<Rightarrow> ('d goerror + string) \<times> 'd wsconn" where
  \<comment> \<open>\<open>wsAdapter.Read\<close>\<close>
  "ws_Read c =
     (case ws_in c of
        [] \<Rightarrow> (Inl (ws_end c), c)
      | (typ, data) # frames \<Rightarrow>
          (let c = c\<lparr>ws_in := frames\<rparr>
           in if typ \<noteq> 1 \<and> typ \<noteq> 2
              then (Inl (NewErrorf CodeInvalidArgument (''unexpected websocket message type '' @ format_nat typ)), c)
              else (Inr data, c)))"

definition ws_Write :: "nat \<Rightarrow> string \<Rightarrow> 'd wsconn \<Rightarrow> 'd goerror option \<times> 'd wsconn" where
  "ws_Write typ data c =
     (case ws_werror c of
        Some e \<Rightarrow> (Some e, c)
      | None \<Rightarrow> (None, c\<lparr>ws_out := ws_out c @ [(typ, data)]\<rparr>))"

definition ws_Close :: "int \<Rightarrow> string \<Rightarrow> 'd wsconn \<Rightarrow> 'd wsconn" where
  "ws_Close c reason conn = (if ws_close conn = None then conn\<lparr>ws_close := Some (c, reason)\<rparr> else conn)"

definition frame_type :: "codec \<Rightarrow> nat" where
  "frame_type codec = (if IsBinary codec then 2 else 1)"

definition ws_Send :: "'m serializers \<Rightarrow> codec \<Rightarrow> string \<Rightarrow> 'm \<Rightarrow> 'd wsconn \<Rightarrow> 'd goerror option \<times> 'd wsconn" where
  \<comment> \<open>\<open>Send\<close> of the server's streams (\<open>what\<close> is ''stream message'') and of the client's (''request'')\<close>
  "ws_Send lib codec what msg c =
     (case Marshal lib codec msg of
        Inl e \<Rightarrow> (Some (NewErrorf CodeInternal (''encode '' @ what @ '': '' @ e)), c)
      | Inr data \<Rightarrow> ws_Write (frame_type codec) data c)"

definition ws_Receive :: "'m serializers \<Rightarrow> codec \<Rightarrow> code \<Rightarrow> 'm \<Rightarrow> 'd wsconn \<Rightarrow> ('d goerror + 'm) \<times> 'd wsconn" where
  \<comment> \<open>\<open>Receive\<close> of \<open>websocket.BidiStream\<close> (code \<open>InvalidArgument\<close>) and of the client's streams
      (code \<open>Internal\<close>)\<close>
  "ws_Receive lib codec cd fresh c =
     (case ws_Read c of
        (Inl e, c) \<Rightarrow> (Inl e, c)
      | (Inr data, c) \<Rightarrow>
          (case Unmarshal lib codec data fresh of
             (Some e, _) \<Rightarrow> (Inl (NewErrorf cd (''decode stream message: '' @ e)), c)
           | (None, msg) \<Rightarrow> (Inr msg, c)))"

section \<open>Framing\<close>

definition printing :: "char \<Rightarrow> bool" where
  "printing c = byte_in 33 126 c"

definition framed :: "string \<Rightarrow> bool" where
  \<comment> \<open>a payload a line of text carries: one line that neither starts nor ends with white space\<close>
  "framed s = (s \<noteq> [] \<and> printing (hd s) \<and> printing (last s) \<and> CHR 0x0A \<notin> set s)"

lemma space_heads:
  "list_all (\<lambda>p. p \<noteq> [] \<and> \<not> printing (hd p)) space_runes"
  "list_all (\<lambda>p. p \<noteq> [] \<and> \<not> printing (hd p)) (map rev space_runes)"
  by (simp_all add: space_runes_def printing_def byte_in_def)

lemma strip_any_printing:
  assumes "list_all (\<lambda>p. p \<noteq> [] \<and> \<not> printing (hd p)) ps" "s = [] \<or> printing (hd s)"
  shows "strip_any ps s = s"
proof -
  have "find (\<lambda>p. p \<noteq> [] \<and> has_prefix s p) ps = None"
    using assms by (auto simp: find_None_iff list_all_iff has_prefix_iff)
  then show ?thesis by (subst strip_any.simps) simp
qed

lemma strip_any_space:
  assumes "[c] \<in> set ps" "\<forall>p \<in> set ps. p \<noteq> [] \<longrightarrow> hd p = c \<longrightarrow> p = [c]"
  shows "strip_any ps (c # s) = strip_any ps s"
proof -
  obtain p where p: "find (\<lambda>p. p \<noteq> [] \<and> has_prefix (c # s) p) ps = Some p"
    using assms(1) by (cases "find (\<lambda>p. p \<noteq> [] \<and> has_prefix (c # s) p) ps") (auto simp: find_None_iff)
  then have "p \<in> set ps" "p \<noteq> []" "has_prefix (c # s) p" by (auto simp: find_Some_iff)
  then have "hd p = c" by (auto simp: has_prefix_iff Cons_eq_append_conv)
  with \<open>p \<in> set ps\<close> \<open>p \<noteq> []\<close> assms(2) have "p = [c]" by blast
  with p show ?thesis by (subst strip_any.simps) simp
qed

lemma strip_newline:
  "strip_any (map rev space_runes) (CHR 0x0A # s) = strip_any (map rev space_runes) s"
  "strip_any space_runes (CHR 0x20 # s) = strip_any space_runes s"
  by (rule strip_any_space; simp add: space_runes_def)+

lemma trim_space_framed:
  assumes "framed s"
  shows "trim_space s = s" "trim_space (s @ [CHR 0x0A]) = s" "trim_space (CHR 0x20 # s) = s"
proof -
  have l: "strip_any space_runes (s @ t) = s @ t" for t
    using assms by (intro strip_any_printing space_heads) (auto simp: framed_def)
  have r: "strip_any (map rev space_runes) (rev s) = rev s"
    using assms by (intro strip_any_printing space_heads) (auto simp: framed_def hd_rev)
  show "trim_space s = s" "trim_space (s @ [CHR 0x0A]) = s" "trim_space (CHR 0x20 # s) = s"
    using l [of "[]"] l [of "[CHR 0x0A]"] r by (simp_all add: trim_space_def strip_newline)
qed

lemma ReadBytes_line:
  "CHR 0x0A \<notin> set line \<Longrightarrow> ReadBytes \<lparr>rd_bytes = line @ CHR 0x0A # rest, rd_end = e\<rparr> =
     ((line @ [CHR 0x0A], None), \<lparr>rd_bytes = rest, rd_end = e\<rparr>)"
  by (simp add: ReadBytes_def index_byte_append_first)

text \<open>What a codec has to do for one message: its payload is framed and is read back.\<close>

definition carries :: "'m serializers \<Rightarrow> codec \<Rightarrow> 'm \<Rightarrow> 'm \<Rightarrow> bool" where
  "carries lib codec fresh msg =
     (case Marshal lib codec msg of
        Inl _ \<Rightarrow> False
      | Inr raw \<Rightarrow> Unmarshal lib codec raw fresh = (None, msg) \<and>
          (if IsBinary codec then raw \<noteq> [] else framed raw))"

lemma b64_framed: "raw \<noteq> [] \<Longrightarrow> framed (b64_encode raw)"
  using b64_encode_plain [of _ raw] b64_encode_Nil_iff [of raw] hd_in_set [of "b64_encode raw"]
    last_in_set [of "b64_encode raw"]
  by (fastforce simp: framed_def printing_def b64_plain_def byte_in_def)

lemma carries_payload:
  assumes "carries lib codec fresh msg"
  obtains data where "stream_payload lib codec msg = Inr data" "framed data"
    "decode_stream_message lib codec c fresh data = (Inr msg :: 'd goerror + 'm)"
  using assms b64_framed
  by (fastforce simp: carries_def stream_payload_def decode_stream_message_def split: sum.splits if_splits)

lemma ndjson_Receive_line:
  assumes "framed data"
  shows "ndjson_Receive lib codec fresh \<lparr>rd_bytes = data @ CHR 0x0A # rest, rd_end = e\<rparr> =
    (decode_stream_message lib codec CodeInvalidArgument fresh data, \<lparr>rd_bytes = rest, rd_end = e\<rparr>)"
  using assms trim_space_framed(2) [OF assms] by (simp add: ndjson_Receive_def ReadBytes_line framed_def)

lemma sse_Receive_skip:
  assumes "CHR 0x0A \<notin> set line" "\<not> has_prefix (trim_space (line @ [CHR 0x0A])) ''data:''"
  shows "sse_Receive lib codec fresh \<lparr>rd_bytes = line @ CHR 0x0A # rest, rd_end = e\<rparr> =
    sse_Receive lib codec fresh \<lparr>rd_bytes = rest, rd_end = e\<rparr>"
  using assms by (subst sse_Receive.simps) (simp add: ReadBytes_line)

lemma trim_space_Nil [simp]: "trim_space [] = []"
  using strip_any_printing [OF space_heads(1), of "[]"] strip_any_printing [OF space_heads(2), of "[]"]
  by (simp add: trim_space_def)

lemma trim_blank: "trim_space [CHR 0x0A] = []"
  by (simp add: trim_space_def strip_any.simps space_runes_def has_prefix_def)

lemma sse_Receive_data:
  assumes "framed data"
  shows "sse_Receive lib codec fresh \<lparr>rd_bytes = ''data: '' @ data @ [CHR 0x0A, CHR 0x0A] @ rest, rd_end = e\<rparr> =
    (decode_stream_message lib codec CodeInternal fresh data, \<lparr>rd_bytes = CHR 0x0A # rest, rd_end = e\<rparr>)"
proof -
  have f: "framed (''data: '' @ data)"
    using assms by (auto simp: framed_def printing_def byte_in_def)
  have line: "CHR 0x0A \<notin> set (''data: '' @ data)" using assms by (simp add: framed_def)
  have "ReadBytes \<lparr>rd_bytes = ''data: '' @ data @ [CHR 0x0A, CHR 0x0A] @ rest, rd_end = e\<rparr> =
      ((''data: '' @ data @ [CHR 0x0A], None), \<lparr>rd_bytes = CHR 0x0A # rest, rd_end = e\<rparr>)"
    using ReadBytes_line [OF line, of "CHR 0x0A # rest" e] by simp
  moreover have "trim_space (''data: '' @ data @ [CHR 0x0A]) = ''data: '' @ data"
    using trim_space_framed(2) [OF f] by simp
  moreover have "trim_space (drop 5 (''data: '' @ data)) = data"
    using trim_space_framed(3) [OF assms] by simp
  ultimately show ?thesis
    using assms by (subst sse_Receive.simps) (simp add: framed_def)
qed

section \<open>Whole streams\<close>

fun drain :: "nat \<Rightarrow> ('s \<Rightarrow> ('e + 'm) \<times> 's) \<Rightarrow> 's \<Rightarrow> 'm list \<times> 'e option" where
  \<comment> \<open>up to \<open>n\<close> calls of \<open>Receive\<close>, ended by the first error\<close>
  "drain 0 receive s = ([], None)"
| "drain (Suc n) receive s =
     (case receive s of
        (Inl e, s) \<Rightarrow> ([], Some e)
      | (Inr m, s) \<Rightarrow> apfst ((#) m) (drain n receive s))"

fun send_all :: "('m \<Rightarrow> 's \<Rightarrow> 'e option \<times> 's) \<Rightarrow> 'm list \<Rightarrow> 's \<Rightarrow> 'e option \<times> 's" where
  \<comment> \<open>one \<open>Send\<close> per message, ended by the first error\<close>
  "send_all send [] s = (None, s)"
| "send_all send (m # ms) s =
     (case send m s of (Some e, s) \<Rightarrow> (Some e, s) | (None, s) \<Rightarrow> send_all send ms s)"

lemma drain_Inr: "receive s = (Inr m, s') \<Longrightarrow> drain (Suc n) receive s = apfst ((#) m) (drain n receive s')"
  by simp

definition event_data :: "('m \<Rightarrow> 'm Event option) \<Rightarrow> 'm \<Rightarrow> 'm" where
  "event_data asEvent m = (case asEvent m of Some e \<Rightarrow> ev_Data e | None \<Rightarrow> m)"

definition event_ok :: "('m \<Rightarrow> 'm Event option) \<Rightarrow> 'm \<Rightarrow> bool" where
  \<comment> \<open>an event's name and id hold no newline\<close>
  "event_ok asEvent m =
     (case asEvent m of None \<Rightarrow> True
      | Some e \<Rightarrow> CHR 0x0A \<notin> set (ev_Name e) \<and> CHR 0x0A \<notin> set (ev_ID e))"

lemma strip_any_suffix: "\<exists>pre. s = pre @ strip_any ps s"
proof (induction ps s rule: strip_any.induct)
  case (1 ps s)
  show ?case
  proof (cases "find (\<lambda>p. p \<noteq> [] \<and> has_prefix s p) ps")
    case None
    then show ?thesis by (subst strip_any.simps) simp
  next
    case (Some p)
    with 1 obtain pre where "drop (length p) s = pre @ strip_any ps (drop (length p) s)" by blast
    then have "s = (take (length p) s @ pre) @ strip_any ps (drop (length p) s)"
      by (metis append_assoc append_take_drop_id)
    moreover have "strip_any ps s = strip_any ps (drop (length p) s)"
      using Some by (subst strip_any.simps) simp
    ultimately show ?thesis by metis
  qed
qed

lemma trim_space_prefix:
  assumes "printing (hd s)" "has_prefix (trim_space s) p" "p \<noteq> []"
  shows "hd s = hd p"
proof -
  have "strip_any space_runes s = s"
    using assms(1) by (intro strip_any_printing space_heads) auto
  then have t: "trim_space s = rev (strip_any (map rev space_runes) (rev s))" by (simp add: trim_space_def)
  obtain pre where "rev s = pre @ strip_any (map rev space_runes) (rev s)" using strip_any_suffix by blast
  then have "s = trim_space s @ rev pre" unfolding t by (metis rev_append rev_rev_ident)
  with assms(2,3) show ?thesis by (auto simp: has_prefix_iff)
qed

lemma sse_skip_field:
  assumes "line \<noteq> []" "printing (hd line)" "hd line \<noteq> CHR ''d''" "CHR 0x0A \<notin> set line"
  shows "sse_Receive lib codec fresh \<lparr>rd_bytes = line @ CHR 0x0A # rest, rd_end = e\<rparr> =
    sse_Receive lib codec fresh \<lparr>rd_bytes = rest, rd_end = e\<rparr>"
  using trim_space_prefix [of "line @ [CHR 0x0A]" "''data:''"] assms
  by (intro sse_Receive_skip) auto

lemma format_int_line: "CHR 0x0A \<notin> set (format_int i)"
  using format_nat_byte [of "CHR 0x0A" "nat i"] format_nat_byte [of "CHR 0x0A" "nat (- i)"]
  by (auto simp: format_int_def byte_in_def)

lemma sse_skip_fields:
  assumes "event_ok asEvent m"
  shows "sse_Receive lib codec fresh \<lparr>rd_bytes = concat (event_fields (asEvent m)) @ rest, rd_end = e\<rparr> =
    sse_Receive lib codec fresh \<lparr>rd_bytes = rest, rd_end = e\<rparr>"
proof (cases "asEvent m")
  case None
  then show ?thesis by (simp add: event_fields_def)
next
  case (Some ev)
  have p: "printing CHR ''e''" "printing CHR ''i''" "printing CHR ''r''"
    by (simp_all add: printing_def byte_in_def)
  have "sse_Receive lib codec fresh \<lparr>rd_bytes = ''event: '' @ ev_Name ev @ CHR 0x0A # r, rd_end = e\<rparr> =
      sse_Receive lib codec fresh \<lparr>rd_bytes = r, rd_end = e\<rparr>"
    "sse_Receive lib codec fresh \<lparr>rd_bytes = ''id: '' @ ev_ID ev @ CHR 0x0A # r, rd_end = e\<rparr> =
      sse_Receive lib codec fresh \<lparr>rd_bytes = r, rd_end = e\<rparr>"
    "sse_Receive lib codec fresh \<lparr>rd_bytes = ''retry: '' @ format_int (ev_Retry ev) @ CHR 0x0A # r, rd_end = e\<rparr> =
      sse_Receive lib codec fresh \<lparr>rd_bytes = r, rd_end = e\<rparr>" for r
    using assms Some p format_int_line [of "ev_Retry ev"]
      sse_skip_field [of "''event: '' @ ev_Name ev"] sse_skip_field [of "''id: '' @ ev_ID ev"]
      sse_skip_field [of "''retry: '' @ format_int (ev_Retry ev)"]
    by (simp_all add: event_ok_def)
  then show ?thesis unfolding Some event_fields_def by simp
qed

lemma Write_ok: "w_left w = None \<Longrightarrow> Write x w = (None, (WriteHeader 200 w)\<lparr>w_body := w_body w @ x\<rparr>)"
  by (simp add: Write_def WriteHeader_def Let_def split: option.splits)

lemma write_all_ok:
  "w_left w = None \<Longrightarrow> \<exists>w'. write_all xs w = (None, w') \<and> w_left w' = None \<and> w_body w' = w_body w @ concat xs"
proof (induction xs arbitrary: w)
  case Nil
  then show ?case by simp
next
  case (Cons x xs)
  let ?w = "(WriteHeader 200 w)\<lparr>w_body := w_body w @ x\<rparr>"
  have "w_left ?w = None" using Cons.prems by (simp add: WriteHeader_def split: option.splits)
  from Cons.IH [OF this] show ?case using Cons.prems by (simp add: Write_ok)
qed

lemma sse_Send_ok:
  assumes "w_left w = None" "stream_payload lib codec (event_data asEvent m) = Inr data"
  shows "\<exists>w'. sse_Send lib asEvent codec m w = (None, w') \<and> w_left w' = None \<and>
    w_body w' = w_body w @ concat (event_fields (asEvent m)) @ ''data: '' @ data @ [CHR 0x0A, CHR 0x0A]"
  using assms(2) write_all_ok [OF assms(1), of "event_fields (asEvent m) @ [''data: '', data, [CHR 0x0A, CHR 0x0A]]"]
  by (simp add: sse_Send_def event_data_def Let_def)

lemma sse_Receive_blank:
  "sse_Receive lib codec fresh \<lparr>rd_bytes = CHR 0x0A # rest, rd_end = e\<rparr> =
   sse_Receive lib codec fresh \<lparr>rd_bytes = rest, rd_end = e\<rparr>"
  using sse_Receive_skip [of "[]" lib codec fresh rest e] by (simp add: trim_blank)

lemma sse_drain_blank:
  "drain n (sse_Receive lib codec fresh) \<lparr>rd_bytes = CHR 0x0A # rest, rd_end = e\<rparr> =
   drain n (sse_Receive lib codec fresh) \<lparr>rd_bytes = rest, rd_end = e\<rparr>"
  by (cases n) (simp_all add: sse_Receive_blank)

lemma sse_drain_end: "sse_Receive lib codec fresh \<lparr>rd_bytes = [], rd_end = e\<rparr> = (Inl e, \<lparr>rd_bytes = [], rd_end = e\<rparr>)"
  by (subst sse_Receive.simps) (simp add: ReadBytes_def)

text \<open>
  What a server sends as server-sent events is what the client receives: for every codec that
  reads back its own encoding of each message (as one line of text, or any non-empty bytes when
  binary), and whatever structured fields the events carry, the client gets the payloads in order,
  each once, and then the end of the stream.
\<close>

theorem sse_stream_roundtrip:
  fixes w :: "'d writer"
  assumes "list_all (\<lambda>m. event_ok asEvent m \<and> carries lib codec fresh (event_data asEvent m)) ms"
    and "w_left w = None" "w_body w = []"
  shows "\<exists>w'. send_all (sse_Send lib asEvent codec) ms w = (None, w') \<and>
    drain (Suc (length ms)) (sse_Receive lib codec fresh) \<lparr>rd_bytes = w_body w', rd_end = (EOF :: 'd goerror)\<rparr> =
      (map (event_data asEvent) ms, Some EOF)"
proof -
  have "\<exists>w' body. send_all (sse_Send lib asEvent codec) ms w = (None, w') \<and> w_body w' = w_body w @ body \<and>
    drain (Suc (length ms)) (sse_Receive lib codec fresh) \<lparr>rd_bytes = body, rd_end = (EOF :: 'd goerror)\<rparr> =
      (map (event_data asEvent) ms, Some EOF)" if "w_left w = None" for w :: "'d writer"
    using assms(1) that
  proof (induction ms arbitrary: w)
    case Nil
    then show ?case by (simp add: sse_drain_end)
  next
    case (Cons m ms)
    from Cons.prems(1) have ev: "event_ok asEvent m" and m: "carries lib codec fresh (event_data asEvent m)" by auto
    from carries_payload [OF m] obtain data where data: "stream_payload lib codec (event_data asEvent m) = Inr data"
      "framed data" "decode_stream_message lib codec CodeInternal fresh data = (Inr (event_data asEvent m) :: 'd goerror + _)"
      by blast
    from sse_Send_ok [OF Cons.prems(2) data(1)] obtain w1 where w1:
      "sse_Send lib asEvent codec m w = (None, w1)" "w_left w1 = None"
      "w_body w1 = w_body w @ concat (event_fields (asEvent m)) @ ''data: '' @ data @ [CHR 0x0A, CHR 0x0A]" by blast
    from Cons.IH [OF _ w1(2)] Cons.prems(1) obtain w' body where IH:
      "send_all (sse_Send lib asEvent codec) ms w1 = (None, w')" "w_body w' = w_body w1 @ body"
      "drain (Suc (length ms)) (sse_Receive lib codec fresh) \<lparr>rd_bytes = body, rd_end = (EOF :: 'd goerror)\<rparr> =
        (map (event_data asEvent) ms, Some EOF)" by auto
    let ?body = "concat (event_fields (asEvent m)) @ ''data: '' @ data @ [CHR 0x0A, CHR 0x0A] @ body"
    have "sse_Receive lib codec fresh \<lparr>rd_bytes = ?body, rd_end = (EOF :: 'd goerror)\<rparr> =
        (Inr (event_data asEvent m), \<lparr>rd_bytes = CHR 0x0A # body, rd_end = (EOF :: 'd goerror)\<rparr>)"
      unfolding sse_skip_fields [OF ev] sse_Receive_data [OF data(2)] data(3) ..
    then have "drain (Suc (Suc (length ms))) (sse_Receive lib codec fresh) \<lparr>rd_bytes = ?body, rd_end = (EOF :: 'd goerror)\<rparr> =
        apfst ((#) (event_data asEvent m))
          (drain (Suc (length ms)) (sse_Receive lib codec fresh) \<lparr>rd_bytes = CHR 0x0A # body, rd_end = (EOF :: 'd goerror)\<rparr>)"
      by (rule drain_Inr)
    also have "\<dots> = (map (event_data asEvent) (m # ms), Some EOF)"
      unfolding sse_drain_blank IH(3) by simp
    finally have "drain (Suc (length (m # ms))) (sse_Receive lib codec fresh) \<lparr>rd_bytes = ?body, rd_end = (EOF :: 'd goerror)\<rparr> =
        (map (event_data asEvent) (m # ms), Some EOF)" by (simp only: list.size add_0_right add_Suc_right)
    moreover have "w_body w' = w_body w @ ?body" using IH(2) w1(3) by simp
    moreover have "send_all (sse_Send lib asEvent codec) (m # ms) w = (None, w')" using w1(1) IH(1) by simp
    ultimately show ?case by blast
  qed
  from this [OF assms(2)] assms(3) show ?thesis by auto
qed

definition new_ndjson :: "'d ndjsonWriteStream" where
  \<comment> \<open>\<open>DoClientStream\<close>: nothing written, no response yet\<close>
  "new_ndjson = \<lparr>nd_written = [], nd_werror = None, nd_chan = None, nd_result = None, nd_closed = False\<rparr>"

fun ndjson_send_all ::
    "'d protowire \<Rightarrow> json_reader \<Rightarrow> 'm serializers \<Rightarrow> codec \<Rightarrow> 'm list
     \<Rightarrow> 'd ndjsonWriteStream \<Rightarrow> ('d goerror option \<times> 'd ndjsonWriteStream) option" where
  "ndjson_send_all W json lib codec [] s = Some (None, s)"
| "ndjson_send_all W json lib codec (m # ms) s =
     (case ndjson_Send W json lib codec m s of
        None \<Rightarrow> None
      | Some (Some e, s) \<Rightarrow> Some (Some e, s)
      | Some (None, s) \<Rightarrow> ndjson_send_all W json lib codec ms s)"

definition nd_idle :: "'d ndjsonWriteStream \<Rightarrow> bool" where
  "nd_idle s = (nd_werror s = None \<and> nd_chan s = None \<and> nd_result s = None)"

lemma ndjson_Send_idle:
  assumes "nd_idle s" "stream_payload lib codec m = Inr data"
  shows "ndjson_Send W json lib codec m s = Some (None, s\<lparr>nd_written := nd_written s @ data @ [CHR 0x0A]\<rparr>)"
  using assms by (simp add: ndjson_Send_def takeResult_def nd_idle_def)

lemma ndjson_drain_end:
  "ndjson_Receive lib codec fresh \<lparr>rd_bytes = [], rd_end = EOF\<rparr> = (Inl EOF, \<lparr>rd_bytes = [], rd_end = EOF\<rparr>)"
  by (simp add: ndjson_Receive_def ReadBytes_def)

text \<open>
  C32. What a client sends on a client-streaming call is what the server's handler receives: every
  message in order, each once, and then the end of the stream, under the same condition on the
  codec.
\<close>

theorem ndjson_stream_roundtrip:
  fixes W :: "'d protowire"
  assumes "list_all (carries lib codec fresh) ms"
  shows "\<exists>s. ndjson_send_all W json lib codec ms new_ndjson = Some (None, s) \<and>
    drain (Suc (length ms)) (ndjson_Receive lib codec fresh) \<lparr>rd_bytes = nd_written s, rd_end = (EOF :: 'd goerror)\<rparr> =
      (ms, Some EOF)"
proof -
  have "\<exists>s' body. ndjson_send_all W json lib codec ms s = Some (None, s') \<and> nd_written s' = nd_written s @ body \<and>
    drain (Suc (length ms)) (ndjson_Receive lib codec fresh) \<lparr>rd_bytes = body, rd_end = (EOF :: 'd goerror)\<rparr> =
      (ms, Some EOF)" if "nd_idle s" for s
    using assms that
  proof (induction ms arbitrary: s)
    case Nil
    then show ?case by (simp add: ndjson_drain_end)
  next
    case (Cons m ms)
    from Cons.prems(1) have m: "carries lib codec fresh m" by simp
    from carries_payload [OF m] obtain data where data: "stream_payload lib codec m = Inr data"
      "framed data" "decode_stream_message lib codec CodeInvalidArgument fresh data = (Inr m :: 'd goerror + _)"
      by blast
    let ?s = "s\<lparr>nd_written := nd_written s @ data @ [CHR 0x0A]\<rparr>"
    have idle: "nd_idle ?s" using Cons.prems(2) by (simp add: nd_idle_def)
    from Cons.IH [OF _ idle] Cons.prems(1) obtain s' body where IH:
      "ndjson_send_all W json lib codec ms ?s = Some (None, s')" "nd_written s' = nd_written ?s @ body"
      "drain (Suc (length ms)) (ndjson_Receive lib codec fresh) \<lparr>rd_bytes = body, rd_end = (EOF :: 'd goerror)\<rparr> =
        (ms, Some EOF)" by auto
    have "ndjson_Receive lib codec fresh \<lparr>rd_bytes = data @ CHR 0x0A # body, rd_end = (EOF :: 'd goerror)\<rparr> =
        (Inr m, \<lparr>rd_bytes = body, rd_end = (EOF :: 'd goerror)\<rparr>)"
      unfolding ndjson_Receive_line [OF data(2)] data(3) ..
    then have "drain (Suc (Suc (length ms))) (ndjson_Receive lib codec fresh)
        \<lparr>rd_bytes = data @ CHR 0x0A # body, rd_end = (EOF :: 'd goerror)\<rparr> =
        apfst ((#) m) (drain (Suc (length ms)) (ndjson_Receive lib codec fresh) \<lparr>rd_bytes = body, rd_end = EOF\<rparr>)"
      by (rule drain_Inr)
    also have "\<dots> = (m # ms, Some EOF)" unfolding IH(3) by simp
    finally have "drain (Suc (length (m # ms))) (ndjson_Receive lib codec fresh) \<lparr>rd_bytes = data @ CHR 0x0A # body, rd_end = (EOF :: 'd goerror)\<rparr> =
        (m # ms, Some EOF)" by (simp only: list.size add_0_right add_Suc_right)
    moreover have "nd_written s' = nd_written s @ data @ CHR 0x0A # body" using IH(2) by simp
    moreover have "ndjson_send_all W json lib codec (m # ms) s = Some (None, s')"
      using IH(1) ndjson_Send_idle [OF Cons.prems(2) data(1)] by simp
    ultimately show ?case by blast
  qed
  from this [of new_ndjson] show ?thesis by (auto simp: nd_idle_def new_ndjson_def)
qed

text \<open>
  The condition is needed: a message that a binary codec encodes as no bytes at all (a protobuf
  message whose fields all have their defaults) is lost. Over server-sent events the client skips
  it as if it had not been sent; over NDJSON its line ends the stream for the server, whatever
  follows. A last NDJSON line without a newline is lost as well.
\<close>

theorem stream_empty_message:
  fixes w :: "'d writer"
  assumes "Marshal lib codec m = Inr []" "IsBinary codec" "w_left w = None" "w_body w = []"
  shows "drain n (sse_Receive lib codec fresh)
      \<lparr>rd_bytes = w_body (snd (sse_Send lib (\<lambda>_. None) codec m w)) @ rest, rd_end = e\<rparr> =
      drain n (sse_Receive lib codec fresh) \<lparr>rd_bytes = rest, rd_end = e\<rparr> \<and>
    (\<exists>s. ndjson_Send W json lib codec m new_ndjson = Some (None, s) \<and>
      fst (ndjson_Receive lib codec fresh \<lparr>rd_bytes = nd_written s @ rest, rd_end = e\<rparr>) = Inl EOF) \<and>
    (CHR 0x0A \<notin> set line \<longrightarrow>
      fst (ndjson_Receive lib codec fresh \<lparr>rd_bytes = line, rd_end = EOF\<rparr>) = Inl EOF)"
proof -
  let ?body = "''data: '' @ [CHR 0x0A, CHR 0x0A]"
  have "stream_payload lib codec m = Inr []" using assms by (simp add: stream_payload_def)
  with sse_Send_ok [OF assms(3), of lib codec "\<lambda>_. None" m "[]"]
  have body: "w_body (snd (sse_Send lib (\<lambda>_. None) codec m w)) = ?body"
    using assms(4) by (auto simp: event_data_def event_fields_def)
  have "trim_space (''data: '' @ [CHR 0x0A]) = ''data:''"
    by (simp add: trim_space_def strip_any.simps space_runes_def has_prefix_def)
  moreover have "ReadBytes \<lparr>rd_bytes = ?body @ rest, rd_end = e\<rparr> =
      ((''data: '' @ [CHR 0x0A], None), \<lparr>rd_bytes = CHR 0x0A # rest, rd_end = e\<rparr>)"
    using ReadBytes_line [of "''data: ''" "CHR 0x0A # rest" e] by simp
  ultimately have "sse_Receive lib codec fresh \<lparr>rd_bytes = ?body @ rest, rd_end = e\<rparr> =
      sse_Receive lib codec fresh \<lparr>rd_bytes = CHR 0x0A # rest, rd_end = e\<rparr>"
    by (subst sse_Receive.simps) simp
  then have sse: "drain n (sse_Receive lib codec fresh)
      \<lparr>rd_bytes = w_body (snd (sse_Send lib (\<lambda>_. None) codec m w)) @ rest, rd_end = e\<rparr> =
      drain n (sse_Receive lib codec fresh) \<lparr>rd_bytes = rest, rd_end = e\<rparr>"
    unfolding body by (cases n) (simp_all add: sse_Receive_blank)
  have "ndjson_Send W json lib codec m new_ndjson = Some (None, new_ndjson\<lparr>nd_written := [CHR 0x0A]\<rparr>)"
    using ndjson_Send_idle [of new_ndjson lib codec m "[]" W json] \<open>stream_payload lib codec m = Inr []\<close>
    by (simp add: nd_idle_def new_ndjson_def)
  moreover have "fst (ndjson_Receive lib codec fresh \<lparr>rd_bytes = CHR 0x0A # rest, rd_end = e\<rparr>) = Inl EOF"
    by (simp add: ndjson_Receive_def ReadBytes_def trim_blank)
  ultimately have nd: "\<exists>s. ndjson_Send W json lib codec m new_ndjson = Some (None, s) \<and>
      fst (ndjson_Receive lib codec fresh \<lparr>rd_bytes = nd_written s @ rest, rd_end = e\<rparr>) = Inl EOF"
    by auto
  have "CHR 0x0A \<notin> set line \<Longrightarrow>
      fst (ndjson_Receive lib codec fresh \<lparr>rd_bytes = line, rd_end = EOF\<rparr>) = Inl EOF"
    by (simp add: ndjson_Receive_def ReadBytes_def index_byte_None [THEN iffD2])
  with sse nd show ?thesis by blast
qed

text \<open>
  Once the server has refused a client stream, only the first call that sees the refusal
  reports it: it reads the response body, so the next \<open>Send\<close> or \<open>CloseAndReceive\<close> finds the body
  empty and reports \<open>Unknown\<close> with the HTTP status line.
\<close>

theorem ndjson_refused_twice:
  assumes "nd_result s = None" "nd_chan s = Some (Inr resp)" "resp_StatusCode resp \<noteq> 200"
    and "header_get (resp_Header resp) HeaderGrpcStatusDetails = []"
    and "json (resp_Body resp) = Some [(''code'', StringMember (code_String c)), (''message'', StringMember msg)]" "c \<in> set all_codes" "json [] = None"
  shows "\<exists>e s'. ndjson_Send W json lib codec m s = Some (Some e, s') \<and> status_Code (Some e) = c \<and>
    (\<exists>e2 s2. ndjson_Send W json lib codec m' s' = Some (Some e2, s2) \<and>
       status_Code (Some e2) = CodeUnknown \<and> err_message e2 = resp_Status resp) \<and>
    (\<exists>e3 s3. CloseAndReceive W json lib codec fresh s' = Some (Inl e3, s3) \<and>
       status_Code (Some e3) = CodeUnknown)"
proof -
  have c: "CodeFromString (code_String c) = Some c" using CodeFromString_code_String [OF assms(6)] .
  let ?s = "consume_body (s\<lparr>nd_result := Some (Inr resp), nd_chan := None\<rparr>)"
  obtain e where "ndjson_Send W json lib codec m s = Some (Some e, ?s)" "status_Code (Some e) = c"
    using assms c by (auto simp: ndjson_Send_def takeResult_def FromHTTP_def status_Code_def)
  moreover have "\<exists>e2 s2. ndjson_Send W json lib codec m' ?s = Some (Some e2, s2) \<and>
       status_Code (Some e2) = CodeUnknown \<and> err_message e2 = resp_Status resp"
    using assms by (simp add: ndjson_Send_def takeResult_def FromHTTP_def status_Code_def consume_body_def)
  moreover have "\<exists>e3 s3. CloseAndReceive W json lib codec fresh ?s = Some (Inl e3, s3) \<and>
       status_Code (Some e3) = CodeUnknown"
    using assms by (simp add: CloseAndReceive_def takeResult_def FromHTTP_def status_Code_def consume_body_def)
  ultimately show ?thesis by blast
qed

section \<open>Concrete streams\<close>

definition text_lib :: "string serializers" where
  \<comment> \<open>messages are texts, all of them proto messages: protobuf writes the text, JSON quotes it\<close>
  "text_lib =
     \<lparr>isProto = \<lambda>_. True, typeName = \<lambda>_. ''Text'',
      jsonMarshal = Inr, jsonUnmarshal = \<lambda>d _. (None, d), jsonv2Marshal = Inr,
      jsonv2Unmarshal = \<lambda>d _. (None, d), xmlMarshal = Inr, xmlUnmarshal = \<lambda>d _. (None, d),
      protojsonMarshal = \<lambda>v. Inr ([CHR 0x22] @ v @ [CHR 0x22]),
      protojsonUnmarshal = \<lambda>d _. (None, butlast (tl d)),
      protoMarshal = Inr, protoUnmarshal = \<lambda>d _. (None, d),
      otherMarshal = \<lambda>_. Inr, otherUnmarshal = \<lambda>_ d _. (None, d),
      jsonDecode = \<lambda>r _. (None, fst r), jsonv2Read = \<lambda>r _. (None, fst r), xmlDecode = \<lambda>r _. (None, fst r),
      otherDecode = \<lambda>_ r _. (None, fst r), b64Error = \<lambda>_. ''illegal base64 data''\<rparr>"

lemma text_carries: "CHR 0x0A \<notin> set v \<Longrightarrow> carries text_lib JSONCodec [] v"
  "v \<noteq> [] \<Longrightarrow> carries text_lib ProtoCodec [] v"
  by (simp_all add: carries_def text_lib_def framed_def printing_def byte_in_def)

definition plain_writer :: "string writer" where
  "plain_writer = \<lparr>w_header = [], w_sent = None, w_body = [], w_left = None, w_error = EOF\<rparr>"

lemma sse_stream_roundtrip_witness:
  "\<exists>w'. send_all (sse_Send text_lib (\<lambda>_. None) ProtoCodec) [''one'', ''two''] plain_writer = (None, w') \<and>
     drain 3 (sse_Receive text_lib ProtoCodec []) \<lparr>rd_bytes = w_body w', rd_end = EOF\<rparr> =
       ([''one'', ''two''], Some (EOF :: string goerror))"
  using sse_stream_roundtrip [of "\<lambda>_. None" text_lib ProtoCodec "[]" "[''one'', ''two'']" plain_writer]
  by (simp add: text_carries event_ok_def event_data_def plain_writer_def eval_nat_numeral)

lemma ndjson_stream_roundtrip_witness:
  "\<exists>s. ndjson_send_all std_wire (\<lambda>_. None) text_lib JSONCodec [''one'', []] new_ndjson = Some (None, s) \<and>
     drain 3 (ndjson_Receive text_lib JSONCodec []) \<lparr>rd_bytes = nd_written s, rd_end = EOF\<rparr> =
       ([''one'', []], Some (EOF :: string goerror))"
  using ndjson_stream_roundtrip [of text_lib JSONCodec "[]" "[''one'', []]" std_wire "\<lambda>_. None"]
  by (simp add: text_carries eval_nat_numeral)

lemma text_lib_empty: "Marshal text_lib ProtoCodec [] = Inr []"
  by (simp add: text_lib_def)

lemma stream_empty_message_witness:
  "\<exists>s. ndjson_Send std_wire (\<lambda>_. None) text_lib ProtoCodec [] new_ndjson = Some (None, s) \<and>
     fst (ndjson_Receive text_lib ProtoCodec [] \<lparr>rd_bytes = nd_written s @ CHR ''x'' # [CHR 0x0A], rd_end = EOF\<rparr>) = Inl EOF"
  using stream_empty_message [of text_lib ProtoCodec "[]" plain_writer 0 "[]"
      "CHR ''x'' # [CHR 0x0A]" EOF std_wire "\<lambda>_. None" "[]"]
    text_lib_empty by (auto simp: plain_writer_def)

lemma ndjson_refused_twice_witness:
  "\<exists>e s'. ndjson_Send std_wire (\<lambda>b. if b = [] then None else Some [(''code'', StringMember b), (''message'', StringMember [])])
      text_lib JSONCodec ''x'' (new_ndjson\<lparr>nd_chan := Some (Inr \<lparr>resp_StatusCode = 401,
        resp_Status = ''401 Unauthorized'', resp_Header = [], resp_Body = code_String 16\<rparr>)\<rparr>) = Some (Some e, s') \<and>
      status_Code (Some e) = 16"
  using ndjson_refused_twice [of "new_ndjson\<lparr>nd_chan := Some (Inr \<lparr>resp_StatusCode = 401,
        resp_Status = ''401 Unauthorized'', resp_Header = [], resp_Body = code_String 16\<rparr>)\<rparr>"
      "\<lparr>resp_StatusCode = 401, resp_Status = ''401 Unauthorized'', resp_Header = [], resp_Body = code_String 16\<rparr>"
      "\<lambda>b. if b = [] then None else Some [(''code'', StringMember b), (''message'', StringMember [])]" 16 "[]" std_wire text_lib JSONCodec "''x''" "''x''" "[]"]
  by (auto simp: new_ndjson_def header_get_def header_values_def all_codes_def code_String_def)

end
