(* ===== verification/Operation.thy ===== *)
theory Operation
  imports Transport
begin

text \<open>
  Operations and services of \<open>kernel/\<close>: the operation and its constructors (\<open>kernel.go\<close>,
  \<open>options.go\<close>), the builder (\<open>builder.go\<close>), what registration does to an operation
  (\<open>prepare.go\<close>) and services (\<open>registry.go\<close>).

  Setters of the Go builder change the operation behind a pointer and return the pointer; here
  they return the operation. The closures the builder stores read the operation again when they
  are called, so \<open>newRequest\<close> is a function of the operation. A Go type is its name.
\<close>

record ('c, 'd) HttpRequest =
  rq_Method :: string
  rq_Path :: string \<comment> \<open>\<open>r.URL.Path\<close>\<close>
  rq_Query :: "header option" \<comment> \<open>the parsed query, \<open>None\<close> if \<open>r.URL.RawQuery\<close> is empty\<close>
  rq_Header :: header
  rq_Cookies :: "cookie list"
  rq_Body :: "'d reader option" \<comment> \<open>\<open>None\<close> for nil and \<open>http.NoBody\<close>\<close>
  rq_ProtoMajor :: int
  rq_Proto :: string
  rq_RemoteAddr :: string
  rq_Context :: "'c Context"

type_synonym ('c, 'm, 'd) RequestBuilder =
  "('c, 'm) Ctx \<Rightarrow> ('c, 'd) HttpRequest \<Rightarrow> params \<Rightarrow> Spec \<Rightarrow> codec \<Rightarrow> 'd goerror + 'm AnyRequest"

type_synonym ('c, 'm, 'd, 's) serverStreamFunc =
  "('c, 'm) Ctx \<Rightarrow> 'm AnyRequest \<Rightarrow> ('c, 'm, 'd, 's) Stream \<Rightarrow> 's \<Rightarrow> 'd goerror option \<times> 's"

type_synonym ('c, 'm, 'd, 's) clientStreamFunc =
  "('c, 'm) Ctx \<Rightarrow> ('c, 'm, 'd, 's) Stream \<Rightarrow> 's \<Rightarrow> ('d goerror + 'm Response option) \<times> 's"

type_synonym ('c, 'm, 'd, 's) bidiStreamFunc =
  "('c, 'm) Ctx \<Rightarrow> ('c, 'm, 'd, 's) Stream \<Rightarrow> 's \<Rightarrow> 'd goerror option \<times> 's"

record ('c, 'm, 'd, 's) Operation =
  op_Method :: string
  op_Path :: string
  op_Procedure :: string
  op_RPC :: string
  op_Body :: string
  op_ResponseBody :: string
  op_codec :: "codec option"
  op_interceptors :: "('c, 'm, 'd) UnaryInterceptor list"
  op_streamInterceptors :: "('c, 'm, 'd, 's) StreamInterceptor list"
  op_unary :: "('c, 'm, 'd) UnaryFunc option"
  op_serverStream :: "('c, 'm, 'd, 's) serverStreamFunc option"
  op_clientStream :: "('c, 'm, 'd, 's) clientStreamFunc option"
  op_bidiStream :: "('c, 'm, 'd, 's) bidiStreamFunc option"
  op_hasNewRequest :: bool \<comment> \<open>\<open>newRequest\<close> is set\<close>
  op_requestBuilder :: "('c, 'm, 'd) RequestBuilder option"
  op_reqType :: gotype
  op_resType :: gotype
  op_handlerReq :: gotype \<comment> \<open>the type argument \<open>Req\<close> of the handler setter\<close>
  op_streamType :: StreamType
  op_specCache :: Spec

definition empty_operation :: "('c, 'm, 'd, 's) Operation" where
  "empty_operation =
     \<lparr>op_Method = [], op_Path = [], op_Procedure = [], op_RPC = [], op_Body = [], op_ResponseBody = [],
      op_codec = None, op_interceptors = [], op_streamInterceptors = [], op_unary = None,
      op_serverStream = None, op_clientStream = None, op_bidiStream = None, op_hasNewRequest = False,
      op_requestBuilder = None, op_reqType = [], op_resType = [], op_handlerReq = [],
      op_streamType = StreamTypeUnary, op_specCache = empty_spec\<rparr>"

definition computeSpec :: "('c, 'm, 'd, 's) Operation \<Rightarrow> Spec" where
  "computeSpec e =
     \<lparr>sp_Procedure = (if op_Procedure e = [] then ''/'' @ op_RPC e else op_Procedure e),
      sp_Method = op_Method e, sp_Path = op_Path e, sp_Service = [], sp_RPC = op_RPC e\<rparr>"

fun elemType :: "gotype \<Rightarrow> gotype" where
  \<comment> \<open>removes the pointer stars\<close>
  "elemType [] = []"
| "elemType (c # T) = (if c = CHR ''*'' then elemType T else c # T)"

section \<open>The builder\<close>

definition SetMethod where "SetMethod method b = b\<lparr>op_Method := method\<rparr>"
definition SetPath where "SetPath path b = b\<lparr>op_Path := path\<rparr>"
definition SetProcedure where "SetProcedure procedure b = b\<lparr>op_Procedure := procedure\<rparr>"
definition SetRPC where "SetRPC rpc b = b\<lparr>op_RPC := rpc\<rparr>"
definition SetBody where "SetBody body b = b\<lparr>op_Body := body\<rparr>"
definition SetResponseBody where "SetResponseBody field b = b\<lparr>op_ResponseBody := field\<rparr>"
definition SetCodec where "SetCodec codec b = b\<lparr>op_codec := codec\<rparr>"
definition SetInterceptors where
  "SetInterceptors is b = b\<lparr>op_interceptors := op_interceptors b @ is\<rparr>"
definition SetStreamInterceptors where
  "SetStreamInterceptors is b = b\<lparr>op_streamInterceptors := op_streamInterceptors b @ is\<rparr>"
definition SetRequestBuilder where "SetRequestBuilder rb b = b\<lparr>op_requestBuilder := Some rb\<rparr>"
definition SetStreamType where "SetStreamType t b = b\<lparr>op_streamType := t\<rparr>"

fun request_typeName :: "'m AnyRequest option \<Rightarrow> string" where
  \<comment> \<open>what \<open>%T\<close> prints of a request\<close>
  "request_typeName None = ''<nil>''"
| "request_typeName (Some (TypedRequest r)) = ''*runtime.Request['' @ req_type r @ '']''"
| "request_typeName (Some (RawRequest m sp pr h)) = ''*kernel.rawRequest''"

definition SetUnaryHandler ::
    "gotype \<Rightarrow> gotype
     \<Rightarrow> (('c, 'm) Ctx \<Rightarrow> 'm Request \<Rightarrow> ('d goerror + 'm Response option) \<times> 'm ctxState option)
     \<Rightarrow> ('c, 'm, 'd, 's) Operation \<Rightarrow> ('c, 'm, 'd, 's) Operation" where
  "SetUnaryHandler Req Res handler b =
     b\<lparr>op_reqType := elemType Req, op_resType := elemType Res, op_handlerReq := Req,
       op_unary := Some (\<lambda>ctx req.
         case req of
           Some (TypedRequest r) \<Rightarrow>
             if req_type r = Req then handler ctx r
             else (Inl (NewErrorf CodeInternal (''unexpected request type '' @ request_typeName req)), snd ctx)
         | _ \<Rightarrow> (Inl (NewErrorf CodeInternal (''unexpected request type '' @ request_typeName req)), snd ctx)),
       op_hasNewRequest := True\<rparr>"

definition SetServerStreamHandler ::
    "('m \<Rightarrow> gotype) \<Rightarrow> gotype \<Rightarrow> gotype
     \<Rightarrow> (('c, 'm) Ctx \<Rightarrow> 'm Request \<Rightarrow> ('c, 'm, 'd, 's) Stream \<Rightarrow> 's \<Rightarrow> 'd goerror option \<times> 's)
     \<Rightarrow> ('c, 'm, 'd, 's) Operation \<Rightarrow> ('c, 'm, 'd, 's) Operation" where
  "SetServerStreamHandler typeOf Req Res handler b =
     b\<lparr>op_reqType := elemType Req, op_resType := elemType Res, op_handlerReq := Req,
       op_streamType := StreamTypeServer,
       op_serverStream := Some (\<lambda>ctx req stream s.
         let typed = (case req of TypedRequest r \<Rightarrow> if req_type r = Req then Some r else None
                                | RawRequest m sp pr h \<Rightarrow> None)
         in case typed of
              Some r \<Rightarrow> handler ctx r (typedServerStream stream) s
            | None \<Rightarrow>
                if typeOf (AnyRequest_Any req) = Req then
                  handler ctx
                    (NewRequestWithMeta Req (AnyRequest_Any req) (AnyRequest_Header req) (AnyRequest_Spec req)
                       (AnyRequest_Peer req))
                    (typedServerStream stream) s
                else (Some (NewErrorf CodeInternal (''unexpected request type '' @ request_typeName (Some req))), s)),
       op_hasNewRequest := True\<rparr>"

definition SetClientStreamHandler ::
    "('m \<Rightarrow> gotype) \<Rightarrow> gotype \<Rightarrow> gotype
     \<Rightarrow> (('c, 'm) Ctx \<Rightarrow> ('c, 'm, 'd, 's) Stream \<Rightarrow> 's \<Rightarrow> ('d goerror + 'm Response option) \<times> 's)
     \<Rightarrow> ('c, 'm, 'd, 's) Operation \<Rightarrow> ('c, 'm, 'd, 's) Operation" where
  "SetClientStreamHandler typeOf Req Res handler b =
     b\<lparr>op_reqType := elemType Req, op_resType := elemType Res, op_handlerReq := Req,
       op_streamType := StreamTypeClient,
       op_clientStream := Some (\<lambda>ctx stream. handler ctx (typedClientStream typeOf Req stream))\<rparr>"

definition SetBidiStreamHandler ::
    "('m \<Rightarrow> gotype) \<Rightarrow> gotype \<Rightarrow> gotype
     \<Rightarrow> (('c, 'm) Ctx \<Rightarrow> ('c, 'm, 'd, 's) Stream \<Rightarrow> 's \<Rightarrow> 'd goerror option \<times> 's)
     \<Rightarrow> ('c, 'm, 'd, 's) Operation \<Rightarrow> ('c, 'm, 'd, 's) Operation" where
  "SetBidiStreamHandler typeOf Req Res handler b =
     b\<lparr>op_reqType := elemType Req, op_resType := elemType Res, op_handlerReq := Req,
       op_streamType := StreamTypeBidi,
       op_bidiStream := Some (\<lambda>ctx stream. handler ctx (typedBidiStream typeOf Req stream))\<rparr>"

definition Build :: "('c, 'm, 'd, 's) Operation \<Rightarrow> ('c, 'm, 'd, 's) Operation" where
  "Build b =
     (let op = (if op_codec b = None then b\<lparr>op_codec := Some JSONCodec\<rparr> else b)
      in op\<lparr>op_specCache := computeSpec op\<rparr>)"

definition attach_meta :: "gotype \<Rightarrow> RequestMeta \<Rightarrow> 'm AnyRequest \<Rightarrow> 'm AnyRequest" where
  "attach_meta Req meta req =
     (case req of
        TypedRequest r \<Rightarrow> if req_type r = Req then TypedRequest (Request_WithRequestMeta r meta) else req
      | RawRequest m sp pr h \<Rightarrow> req)"

definition newRequest ::
    "('m \<Rightarrow> params \<Rightarrow> header option \<Rightarrow> string option \<Rightarrow> string \<Rightarrow> codec \<Rightarrow> 'd goerror option \<times> 'm)
     \<Rightarrow> (gotype \<Rightarrow> 'm) \<Rightarrow> ('c, 'm, 'd, 's) Operation
     \<Rightarrow> ('c, 'm) Ctx \<Rightarrow> ('c, 'd) HttpRequest \<Rightarrow> params \<Rightarrow> codec \<Rightarrow> 'd goerror + 'm AnyRequest" where
  \<comment> \<open>the closure the unary and the server-stream setters store; \<open>populate\<close> is
      \<open>runtime.PopulateMessage\<close> and \<open>new\<close> gives the zero message of a type\<close>
  "newRequest populate new op ctx r params codec =
     (let meta = Ctx_Meta ctx
      in case op_requestBuilder op of
           Some rb \<Rightarrow>
             (case rb ctx r params (op_specCache op) codec of
                Inl e \<Rightarrow> Inl e
              | Inr req \<Rightarrow> Inr (attach_meta (op_handlerReq op) meta req))
         | None \<Rightarrow>
             (case populate (new (op_handlerReq op)) params (mQuery meta) (mBody meta) (op_Body op) codec of
                (Some e, _) \<Rightarrow> Inl e
              | (None, msg) \<Rightarrow>
                  Inr (TypedRequest (Request_WithRequestMeta
                    (NewRequestWithMeta (op_handlerReq op) msg (mHeader meta) (op_specCache op) (Ctx_Peer ctx))
                    meta))))"

definition decodeRequest ::
    "'m serializers \<Rightarrow> (gotype \<Rightarrow> 'm) \<Rightarrow> ('c, 'm, 'd, 's) Operation \<Rightarrow> string \<Rightarrow> codec \<Rightarrow> 'd goerror + 'm AnyRequest" where
  "decodeRequest lib new op data codec =
     (case Unmarshal lib codec data (new (op_reqType op)) of
        (Some e, _) \<Rightarrow> Inl (NewErrorf CodeInvalidArgument (''decode request: '' @ e))
      | (None, msg) \<Rightarrow>
          Inr (RawRequest msg (op_specCache op) \<lparr>Addr = [], peer_Protocol = ''websocket''\<rparr> []))"

section \<open>Constructors and options\<close>

definition NewOperation where
  "NewOperation Req Res method path handler opts =
     Build (fold (\<lambda>opt b. opt b) opts
       (SetUnaryHandler Req Res handler (SetPath path (SetMethod method empty_operation))))"

definition NewServerStreamOperation where
  "NewServerStreamOperation typeOf Req Res method path handler opts =
     Build (fold (\<lambda>opt b. opt b) opts
       (SetServerStreamHandler typeOf Req Res handler (SetPath path (SetMethod method empty_operation))))"

definition NewClientStreamOperation where
  "NewClientStreamOperation typeOf Req Res method path handler opts =
     Build (fold (\<lambda>opt b. opt b) opts
       (SetClientStreamHandler typeOf Req Res handler (SetPath path (SetMethod method empty_operation))))"

definition NewBidiStreamOperation where
  "NewBidiStreamOperation typeOf Req Res method path handler opts =
     Build (fold (\<lambda>opt b. opt b) opts
       (SetBidiStreamHandler typeOf Req Res handler (SetPath path (SetMethod method empty_operation))))"

definition WithOperationCodec where "WithOperationCodec codec e = e\<lparr>op_codec := codec\<rparr>"
definition WithOperationUnaryInterceptors where
  "WithOperationUnaryInterceptors is e = e\<lparr>op_interceptors := op_interceptors e @ is\<rparr>"
definition WithBody where "WithBody body e = e\<lparr>op_Body := body\<rparr>"
definition WithResponseBody where "WithResponseBody field e = e\<lparr>op_ResponseBody := field\<rparr>"
definition WithRPC where "WithRPC nm e = e\<lparr>op_RPC := nm\<rparr>"
definition WithRequestBuilder where "WithRequestBuilder rb e = e\<lparr>op_requestBuilder := Some rb\<rparr>"
definition WithStreamType where "WithStreamType t e = e\<lparr>op_streamType := t\<rparr>"

section \<open>Registration\<close>

definition PrepareOperation ::
    "('c, 'm, 'd, 's) Operation \<Rightarrow> string \<Rightarrow> codec option \<Rightarrow> ('c, 'm, 'd) UnaryInterceptor list
     \<Rightarrow> ('c, 'm, 'd, 's) StreamInterceptor list \<Rightarrow> string \<Rightarrow> ('c, 'm, 'd, 's) Operation" where
  "PrepareOperation e serviceName codec unary stream path =
     (let e = e\<lparr>op_codec := (if op_codec e = None then codec else op_codec e),
                op_Procedure :=
                  (if op_Procedure e = [] then
                     (if serviceName \<noteq> [] \<and> op_RPC e \<noteq> [] then ''/'' @ serviceName @ ''/'' @ op_RPC e
                      else if op_RPC e \<noteq> [] then ''/'' @ op_RPC e
                      else op_Procedure e)
                   else op_Procedure e),
                op_Path := path\<rparr>;
          e = e\<lparr>op_specCache := computeSpec e\<rparr>
      in e\<lparr>op_interceptors := unary @ op_interceptors e, op_streamInterceptors := stream\<rparr>)"

record ('c, 'm, 'd, 's) Service =
  svc_Name :: string
  svc_Prefix :: string
  svc_operations :: "('c, 'm, 'd, 's) Operation list"

definition NewService :: "string \<Rightarrow> ('c, 'm, 'd, 's) Operation list \<Rightarrow> ('c, 'm, 'd, 's) Service" where
  "NewService nm ops = \<lparr>svc_Name = nm, svc_Prefix = [], svc_operations = ops\<rparr>"

definition Service_SetPrefix :: "string \<Rightarrow> ('c, 'm, 'd, 's) Service \<Rightarrow> ('c, 'm, 'd, 's) Service" where
  "Service_SetPrefix p s = s\<lparr>svc_Prefix := p\<rparr>"

definition Service_Add :: "('c, 'm, 'd, 's) Operation list \<Rightarrow> ('c, 'm, 'd, 's) Service \<Rightarrow> ('c, 'm, 'd, 's) Service" where
  "Service_Add ops s = s\<lparr>svc_operations := svc_operations s @ ops\<rparr>"

section \<open>Properties\<close>

lemma PrepareOperation_fields:
  "op_Method (PrepareOperation e svc codec unary stream path) = op_Method e"
  "op_RPC (PrepareOperation e svc codec unary stream path) = op_RPC e"
  "op_Path (PrepareOperation e svc codec unary stream path) = path"
  "op_streamType (PrepareOperation e svc codec unary stream path) = op_streamType e"
  "op_interceptors (PrepareOperation e svc codec unary stream path) = unary @ op_interceptors e"
  "op_streamInterceptors (PrepareOperation e svc codec unary stream path) = stream"
  "op_codec (PrepareOperation e svc codec unary stream path) = (if op_codec e = None then codec else op_codec e)"
  by (auto simp: PrepareOperation_def Let_def)

lemma PrepareOperation_streams:
  "PrepareOperation (e\<lparr>op_streamInterceptors := is\<rparr>) svc codec unary stream path =
   PrepareOperation e svc codec unary stream path"
  by (simp add: PrepareOperation_def computeSpec_def Let_def)

text \<open>
  Registration completes an operation: the cached spec is the one of the final fields and
  carries the full path, an explicit procedure stays and otherwise it is the service's name and the
  RPC's; the mux's unary interceptors come before the operation's own.
\<close>

theorem PrepareOperation_spec:
  "op_specCache (PrepareOperation e svc codec unary stream path) =
     computeSpec (PrepareOperation e svc codec unary stream path) \<and>
   sp_Path (op_specCache (PrepareOperation e svc codec unary stream path)) = path \<and>
   sp_Procedure (op_specCache (PrepareOperation e svc codec unary stream path)) =
     (if op_Procedure e \<noteq> [] then op_Procedure e
      else if svc \<noteq> [] \<and> op_RPC e \<noteq> [] then ''/'' @ svc @ ''/'' @ op_RPC e
      else ''/'' @ op_RPC e) \<and>
   ChainUnaryInterceptors (op_interceptors (PrepareOperation e svc codec unary stream path)) next =
     ChainUnaryInterceptors unary (ChainUnaryInterceptors (op_interceptors e) next)"
  by (simp add: PrepareOperation_def computeSpec_def Let_def unary.chain_append)

text \<open>
  Two settings have no effect on a mux. The codec of the mux never reaches an operation that
  was built, because building has already chosen JSON; and stream interceptors set on an operation
  are dropped when it is registered.
\<close>

theorem PrepareOperation_ignores:
  "op_codec (PrepareOperation (Build b) svc codec unary stream path) =
     (case op_codec b of None \<Rightarrow> Some JSONCodec | Some c \<Rightarrow> Some c) \<and>
   PrepareOperation (SetStreamInterceptors is e) svc codec unary stream path =
     PrepareOperation e svc codec unary stream path"
proof
  show "op_codec (PrepareOperation (Build b) svc codec unary stream path) =
     (case op_codec b of None \<Rightarrow> Some JSONCodec | Some c \<Rightarrow> Some c)"
    by (cases "op_codec b") (simp_all add: PrepareOperation_fields Build_def Let_def)
qed (simp only: SetStreamInterceptors_def PrepareOperation_streams)

end
