(* ===== verification/Handler.thy ===== *)
theory Handler
  imports Operation
begin

text \<open>
  The HTTP handler of an operation, \<open>kernel/handler.go\<close>: negotiation, deadlines, the four ways to
  serve a request, and how responses and errors are written.

  One request runs on a state of its own: the response writer, the request body, the WebSocket
  connection (and what \<open>websocket.Accept\<close> will say), and whether the handler panicked. What the
  handler calls outside \<open>kernel/\<close> is in the record \<open>env\<close>: the serializers and the protobuf wire
  format, the JSON text of an error body, \<open>runtime.PopulateMessage\<close> and \<open>extractField\<close>,
  which work on messages, and the clock.
\<close>

record 'd conn_state =
  cn_writer :: "'d writer"
  cn_flusher :: bool
  cn_body :: "'d reader"
  cn_accept :: "'d goerror + 'd wsconn"
  cn_ws :: "'d wsconn option"
  cn_panic :: bool

record ('m, 'd) env =
  ev_lib :: "'m serializers"
  ev_wire :: "'d protowire"
  ev_json :: "(string \<times> string) list \<Rightarrow> string" \<comment> \<open>\<open>json.Marshal\<close> of a map, given in the order of its keys\<close>
  ev_populate :: "'m \<Rightarrow> params \<Rightarrow> header option \<Rightarrow> string option \<Rightarrow> string \<Rightarrow> codec \<Rightarrow> 'd goerror option \<times> 'm"
  ev_extractField :: "'m \<Rightarrow> string \<Rightarrow> 'd goerror + 'm"
  ev_new :: "gotype \<Rightarrow> 'm"
  ev_asEvent :: "'m \<Rightarrow> 'm Event option"
  ev_rfc3339 :: "string \<Rightarrow> int option"
  ev_now :: int

record ('c, 'm, 'd) Handler =
  h_operation :: "('c, 'm, 'd, 'd conn_state) Operation"
  h_spec :: Spec
  h_unary :: "('c, 'm, 'd) UnaryFunc"
  h_streamAuth :: "('c, 'm, 'd) UnaryFunc option"
  h_streamInterceptors :: "('c, 'm, 'd, 'd conn_state) StreamInterceptor list"

definition nil_unary :: "('c, 'm, 'd) UnaryFunc" where
  \<comment> \<open>a nil function: whoever goes on with its nil response panics\<close>
  "nil_unary ctx req = (Inr None, snd ctx)"

definition NewHandler :: "('c, 'm, 'd, 'd conn_state) Operation \<Rightarrow> ('c, 'm, 'd) Handler" where
  "NewHandler e =
     \<lparr>h_operation = e, h_spec = op_specCache e,
      h_unary = ChainUnaryInterceptors (op_interceptors e)
        (case op_unary e of Some f \<Rightarrow> f | None \<Rightarrow> nil_unary),
      h_streamAuth =
        (if op_interceptors e \<noteq> []
         then Some (ChainUnaryInterceptors (op_interceptors e) (\<lambda>ctx req. (Inr None, snd ctx)))
         else None),
      h_streamInterceptors = op_streamInterceptors e\<rparr>"

definition wrapStream where
  "wrapStream h s =
     (if h_streamInterceptors h = [] then s else ChainStreamInterceptors (h_streamInterceptors h) s)"

definition panic :: "'d conn_state \<Rightarrow> 'd conn_state" where
  "panic s = s\<lparr>cn_panic := True\<rparr>"

section \<open>Reading the request\<close>

function headerContainsFold :: "string \<Rightarrow> string \<Rightarrow> bool" where
  "headerContainsFold v token =
     (if v = [] then False
      else
        let (part, v') = (case index_byte v CHR '','' of
                            None \<Rightarrow> (v, [])
                          | Some i \<Rightarrow> (take i v, drop (Suc i) v))
        in if equal_fold (trim_space part) token then True else headerContainsFold v' token)"
  by pat_completeness auto
termination
  by (relation "measure (\<lambda>(v, token). length v)")
     (auto split: option.splits)

declare headerContainsFold.simps [simp del]

definition isWebSocketUpgrade :: "('c, 'd) HttpRequest \<Rightarrow> bool" where
  "isWebSocketUpgrade r =
     (equal_fold (header_get (rq_Header r) HeaderUpgrade) ''websocket'' \<and>
      headerContainsFold (header_get (rq_Header r) HeaderConnection) ''upgrade'')"

definition codecFromRequest :: "('c, 'd) HttpRequest \<Rightarrow> header option \<Rightarrow> codec" where
  "codecFromRequest r query =
     (let enc = (case query of None \<Rightarrow> [] | Some q \<Rightarrow> query_get q ''encoding'')
      in if enc \<noteq> [] then CodecForContentType enc
         else if map_of (rq_Header r) HeaderContentType \<noteq> None
           then CodecForContentType (header_get (rq_Header r) HeaderContentType)
         else
           let accept = header_get (rq_Header r) HeaderAccept
           in if accept \<noteq> [] \<and> accept \<noteq> ''*/*'' then CodecForContentType accept else JSONCodec)"

definition clamp64 :: "int \<Rightarrow> int" where
  \<comment> \<open>\<open>time.Time.Sub\<close> saturates\<close>
  "clamp64 i = max (- (2 ^ 63)) (min max_int64 i)"

definition deadlineFromRequest :: "(string \<Rightarrow> int option) \<Rightarrow> int \<Rightarrow> ('c, 'd) HttpRequest \<Rightarrow> int option" where
  "deadlineFromRequest rfc3339 now r =
     (let v = header_get (rq_Header r) HeaderGrpcTimeout;
          timeout = (if v \<noteq> [] then ParseGrpcTimeout v else None)
      in case timeout of
           Some d \<Rightarrow> Some d
         | None \<Rightarrow>
             (let v = header_get (rq_Header r) HeaderGrpcDeadline
              in if v = [] then None
                 else case ParseGrpcDeadline rfc3339 v of
                        None \<Rightarrow> None
                      | Some t \<Rightarrow> (let d = clamp64 (t - now) in if d > 0 then Some d else Some 0)))"

definition context_WithTimeout :: "int \<Rightarrow> int \<Rightarrow> 'c Context \<Rightarrow> 'c Context" where
  \<comment> \<open>the earlier of the parent's deadline and now plus the timeout\<close>
  "context_WithTimeout now d ctx =
     ctx\<lparr>ctxDeadline := Some (case ctxDeadline ctx of None \<Rightarrow> now + d | Some t \<Rightarrow> min t (now + d))\<rparr>"

section \<open>Writing the response\<close>

definition update_header :: "(header \<Rightarrow> header) \<Rightarrow> 'd writer \<Rightarrow> 'd writer" where
  "update_header f w = w\<lparr>w_header := f (w_header w)\<rparr>"

definition add_all :: "header \<Rightarrow> header \<Rightarrow> header" where
  \<comment> \<open>\<open>for k, vs := range from { for _, v := range vs { h.Add(k, v) } }\<close>\<close>
  "add_all from h = fold (\<lambda>(k, vs) h. fold (\<lambda>v h. header_add h k v) vs h) from h"

definition rpc_error :: "'d goerror \<Rightarrow> 'd goerror" where
  \<comment> \<open>the \<open>*Error\<close> of the chain, or a new one around the error\<close>
  "rpc_error err =
     (case FromError err of Some r \<Rightarrow> r | None \<Rightarrow> NewError (status_Code (Some err)) err)"

definition writeError :: "('m, 'd) env \<Rightarrow> 'd goerror \<Rightarrow> 'd writer \<Rightarrow> 'd writer" where
  "writeError ev err w =
     (let c = status_Code (Some err);
          statusCode = HTTPStatus c;
          rpcErr = rpc_error err;
          w = update_header (add_all (Meta rpcErr)) w;
          w = update_header (\<lambda>h. header_set h HeaderContentType ContentTypeJSON) w;
          w = (if err_details rpcErr \<noteq> [] then
                 (case MarshalStatus (ev_wire ev) rpcErr of
                    Some data \<Rightarrow> update_header (\<lambda>h. header_set h HeaderGrpcStatusDetails (b64_encode data)) w
                  | None \<Rightarrow> w)
               else w);
          data = ev_json ev [(''code'', code_String c), (''message'', Message rpcErr)];
          w = WriteHeader statusCode w
      in snd (Write data w))"

definition on_writer :: "('d writer \<Rightarrow> 'd writer) \<Rightarrow> 'd conn_state \<Rightarrow> 'd conn_state" where
  "on_writer f s = s\<lparr>cn_writer := f (cn_writer s)\<rparr>"

definition writeResponse ::
    "('m, 'd) env \<Rightarrow> ('c, 'm, 'd) Handler \<Rightarrow> 'm Response \<Rightarrow> codec \<Rightarrow> 'd writer \<Rightarrow> 'd writer" where
  "writeResponse ev h resp codec w =
     (let w = (case resp_header resp of Some hs \<Rightarrow> update_header (add_all hs) w | None \<Rightarrow> w);
          w = update_header (\<lambda>h. header_set h HeaderContentType (Name codec)) w;
          field = op_ResponseBody (h_operation h);
          body = (if field \<noteq> [] then ev_extractField ev (resp_msg resp) field else Inr (resp_msg resp))
      in case body of
           Inl e \<Rightarrow> writeError ev e w
         | Inr body \<Rightarrow>
             (case Marshal (ev_lib ev) codec body of
                Inl e \<Rightarrow> writeError ev (NewErrorf CodeInternal (''encode response: '' @ e)) w
              | Inr data \<Rightarrow> snd (Write data (WriteHeader 200 w))))"

section \<open>Serving\<close>

definition serveUnary where
  "serveUnary ev h ctx r params codec s =
     (if \<not> op_hasNewRequest (h_operation h) then panic s
      else case newRequest (ev_populate ev) (ev_new ev) (h_operation h) ctx r params codec of
             Inl e \<Rightarrow> on_writer (writeError ev e) s
           | Inr req \<Rightarrow>
               (let ctx = SetRequest (Some (AnyRequest_Any req)) ctx
                in case fst (h_unary h ctx (Some req)) of
                     Inl e \<Rightarrow> on_writer (writeError ev e) s
                   | Inr None \<Rightarrow> panic s
                   | Inr (Some resp) \<Rightarrow> on_writer (writeResponse ev h resp codec) s))"

definition authorizeStream where
  \<comment> \<open>the error of a rejected request, and the shared state the interceptors leave\<close>
  "authorizeStream h ctx =
     (case h_streamAuth h of
        None \<Rightarrow> (None, ctx)
      | Some auth \<Rightarrow>
          (case auth ctx None of
             (Inl e, st) \<Rightarrow> (Some e, (fst ctx, st))
           | (Inr _, st) \<Rightarrow> (None, (fst ctx, st))))"

definition writer_stream where
  "writer_stream f m s =
     (let (r, w) = f m (cn_writer s) in (r, s\<lparr>cn_writer := w\<rparr>))"

definition ws_stream_send where
  "ws_stream_send f m s =
     (case cn_ws s of
        None \<Rightarrow> (Some (PlainError ''websocket: closed''), s)
      | Some c \<Rightarrow> (let (r, c) = f m c in (r, s\<lparr>cn_ws := Some c\<rparr>)))"

definition ws_stream_receive where
  "ws_stream_receive f s =
     (case cn_ws s of
        None \<Rightarrow> (Inl (PlainError ''websocket: closed''), s)
      | Some c \<Rightarrow> (let (r, c) = f c in (r, s\<lparr>cn_ws := Some c\<rparr>)))"

definition close_ws :: "int \<Rightarrow> string \<Rightarrow> 'd conn_state \<Rightarrow> 'd conn_state" where
  "close_ws cd reason s = s\<lparr>cn_ws := map_option (ws_Close cd reason) (cn_ws s)\<rparr>"

definition serveServerStreamWS where
  "serveServerStreamWS ev h ctx codec s =
     (case cn_accept s of
        Inl e \<Rightarrow> on_writer (writeError ev (NewErrorf CodeInternal (''websocket upgrade: '' @ error_text e))) s
      | Inr conn \<Rightarrow>
          (case ws_Read conn of
             (Inl e, conn) \<Rightarrow> close_ws 1011 (''read request: '' @ error_text e) (s\<lparr>cn_ws := Some conn\<rparr>)
           | (Inr data, conn) \<Rightarrow>
               (let s = s\<lparr>cn_ws := Some conn\<rparr>
                in case decodeRequest (ev_lib ev) (ev_new ev) (h_operation h) data codec of
                     Inl e \<Rightarrow> close_ws 1011 (error_text e) s
                   | Inr req \<Rightarrow>
                       (let stream = wrapStream h (NewServerStreamAdapter ctx
                              (ws_stream_send (ws_Send (ev_lib ev) codec ''stream message'')))
                        in case op_serverStream (h_operation h) of
                             None \<Rightarrow> panic s
                           | Some f \<Rightarrow>
                               (case f (strContext stream) req stream s of
                                  (Some e, s) \<Rightarrow> close_ws 1011 (error_text e) s
                                | (None, s) \<Rightarrow> close_ws 1000 [] s)))))"

definition sse_headers :: "header \<Rightarrow> header" where
  "sse_headers h =
     header_set (header_set (header_set h HeaderContentType ContentTypeEventStream)
       ''Cache-Control'' ''no-cache'') HeaderConnection ''keep-alive''"

definition serveServerStream where
  "serveServerStream ev h ctx r params codec s =
     (case authorizeStream h ctx of
        (Some e, _) \<Rightarrow> on_writer (writeError ev e) s
      | (None, ctx) \<Rightarrow>
          if \<not> op_hasNewRequest (h_operation h) then panic s
          else case newRequest (ev_populate ev) (ev_new ev) (h_operation h) ctx r params codec of
            Inl e \<Rightarrow> on_writer (writeError ev e) s
          | Inr req \<Rightarrow>
              (let ctx = SetRequest (Some (AnyRequest_Any req)) ctx
               in if isWebSocketUpgrade r then serveServerStreamWS ev h ctx codec s
                  else if \<not> cn_flusher s then
                    on_writer (writeError ev (NewErrorf CodeInternal ''streaming unsupported by this server'')) s
                  else
                    (let s = on_writer (\<lambda>w. WriteHeader 200 (update_header sse_headers w)) s;
                         stream = wrapStream h (NewServerStreamAdapter ctx
                           (writer_stream (sse_Send (ev_lib ev) (ev_asEvent ev) codec)))
                     in case op_serverStream (h_operation h) of
                          None \<Rightarrow> panic s
                        | Some f \<Rightarrow> snd (f (strContext stream) req stream s))))"

definition body_receive where
  "body_receive f s = (let (r, b) = f (cn_body s) in (r, s\<lparr>cn_body := b\<rparr>))"

definition serveClientStream where
  "serveClientStream ev h ctx codec s =
     (case authorizeStream h ctx of
        (Some e, _) \<Rightarrow> on_writer (writeError ev e) s
      | (None, ctx) \<Rightarrow>
          (let stream = wrapStream h (NewClientStreamAdapter ctx
                 (body_receive (ndjson_Receive (ev_lib ev) codec (ev_new ev (op_reqType (h_operation h))))))
           in case op_clientStream (h_operation h) of
                None \<Rightarrow> panic s
              | Some f \<Rightarrow>
                  (case f (strContext stream) stream s of
                     (Inl e, s) \<Rightarrow> on_writer (writeError ev e) s
                   | (Inr None, s) \<Rightarrow> panic s
                   | (Inr (Some resp), s) \<Rightarrow> on_writer (writeResponse ev h resp codec) s)))"

definition serveBidiStream where
  "serveBidiStream ev h ctx codec s =
     (case authorizeStream h ctx of
        (Some e, _) \<Rightarrow> on_writer (writeError ev e) s
      | (None, ctx) \<Rightarrow>
          (case cn_accept s of
             Inl e \<Rightarrow> on_writer (writeError ev (NewErrorf CodeInternal (''websocket upgrade: '' @ error_text e))) s
           | Inr conn \<Rightarrow>
               (let s = s\<lparr>cn_ws := Some conn\<rparr>;
                    stream = wrapStream h (NewBidiStreamAdapter ctx
                      (ws_stream_send (ws_Send (ev_lib ev) codec ''stream message''))
                      (ws_stream_receive (ws_Receive (ev_lib ev) codec CodeInvalidArgument
                         (ev_new ev (op_reqType (h_operation h))))))
                in case op_bidiStream (h_operation h) of
                     None \<Rightarrow> panic s
                   | Some f \<Rightarrow>
                       (case f (strContext stream) stream s of
                          (Some e, s) \<Rightarrow> close_ws 1011 (error_text e) s
                        | (None, s) \<Rightarrow> close_ws 1000 [] s))))"

definition read_body :: "('c, 'm, 'd) Handler \<Rightarrow> ('c, 'd) HttpRequest \<Rightarrow> 'd goerror + string option" where
  "read_body h r =
     (if op_streamType (h_operation h) \<in> {StreamTypeUnary, StreamTypeServer} then
        (case rq_Body r of
           None \<Rightarrow> Inr None
         | Some b \<Rightarrow>
             if rd_end b = EOF then Inr (Some (rd_bytes b))
             else Inl (NewErrorf CodeInvalidArgument (''read body: '' @ error_text (rd_end b))))
      else Inr None)"

definition request_ctx where
  "request_ctx ev h r params body =
     (let reqCtx = (case deadlineFromRequest (ev_rfc3339 ev) (ev_now ev) r of
                      Some d \<Rightarrow> context_WithTimeout (ev_now ev) d (rq_Context r)
                    | None \<Rightarrow> rq_Context r);
          meta = \<lparr>mHeader = Some (rq_Header r), mQuery = rq_Query r, mBody = body,
                  mCookies = rq_Cookies r, mParams = params\<rparr>;
          ctx = NewCtx reqCtx meta (Some (codecFromRequest r (rq_Query r)));
          ctx = WithPeer \<lparr>Addr = rq_RemoteAddr r, peer_Protocol = rq_Proto r\<rparr>
                  (WithSpec (h_spec h) (WithProtocol ''http'' ctx))
      in if isWebSocketUpgrade r then WithProtocol ''websocket'' ctx else ctx)"

definition ServeHTTPWithParams where
  "ServeHTTPWithParams ev h r params s =
     (let codec = codecFromRequest r (rq_Query r)
      in case read_body h r of
           Inl e \<Rightarrow> on_writer (writeError ev e) s
         | Inr body \<Rightarrow>
             (let ctx = request_ctx ev h r params body
              in case op_streamType (h_operation h) of
                   StreamTypeServer \<Rightarrow> serveServerStream ev h ctx r params codec s
                 | StreamTypeClient \<Rightarrow> serveClientStream ev h ctx codec s
                 | StreamTypeBidi \<Rightarrow> serveBidiStream ev h ctx codec s
                 | StreamTypeUnary \<Rightarrow> serveUnary ev h ctx r params codec s))"

end
