(* ===== verification/Populate.thy ===== *)
theory Populate
  imports Encoding Status
begin

text \<open>
  Messages as Go values, and what the package \<open>runtime\<close> does with them by reflection: path parameter
  converters (\<open>pathconvert.go\<close>), filling a message from a request (\<open>populate.go\<close>), and turning a
  message into a path and a query (\<open>substitute.go\<close>).

  A value carries its type where reflection asks for it. A struct is its type's name with the values
  of its fields; the record \<open>types\<close> describes the struct types of the application: the fields, and the zero value the
  compiler gives them. Floating-point numbers are of a type \<open>'f\<close>, with their conversions, the
  RFC 3339 parser and the verb \<open>%v\<close> for other kinds in the record \<open>golib\<close>.
\<close>

datatype gtype =
  TString | TBool | TInt nat | TUint nat | TFloat nat | TSlice gtype | TPtr gtype | TStruct string | TTime | TOther string

datatype 'f gval =
    VString string | VBool bool | VInt nat int | VUint nat nat | VFloat nat 'f
  | VSlice gtype "'f gval list" | VPtr gtype "'f gval option" | VStruct string "'f gval list"
  | VTime int | VOther string

record field =
  fl_Name :: string
  fl_exported :: bool
  fl_json :: string \<comment> \<open>the \<open>json\<close> tag\<close>
  fl_type :: gtype

record 'f types =
  fields_of :: "string \<Rightarrow> field list"
  zero_fields :: "string \<Rightarrow> 'f gval list"

record 'f golib =
  ParseFloat :: "string \<Rightarrow> nat \<Rightarrow> num_error + 'f"
  FormatFloat :: "'f \<Rightarrow> nat \<Rightarrow> string"
  round_float :: "nat \<Rightarrow> 'f \<Rightarrow> 'f"
  zero_float :: 'f
  ParseRFC3339 :: "string \<Rightarrow> int option" \<comment> \<open>nanoseconds\<close>
  Sprint :: "'f gval \<Rightarrow> string"

definition zero_time :: int where
  \<comment> \<open>\<open>time.Time{}\<close>, in nanoseconds from the epoch\<close>
  "zero_time = - 62135596800 * 10 ^ 9"

primrec type_of :: "'f gval \<Rightarrow> gtype" where
  "type_of (VString s) = TString" | "type_of (VBool b) = TBool" | "type_of (VInt b i) = TInt b"
| "type_of (VUint b n) = TUint b" | "type_of (VFloat b f) = TFloat b" | "type_of (VSlice t vs) = TSlice t"
| "type_of (VPtr t v) = TPtr t" | "type_of (VStruct s fs) = TStruct s" | "type_of (VTime i) = TTime"
| "type_of (VOther s) = TOther s"

primrec zero :: "'f golib \<Rightarrow> 'f types \<Rightarrow> gtype \<Rightarrow> 'f gval" where
  \<comment> \<open>\<open>reflect.New(t).Elem()\<close>\<close>
  "zero G T TString = VString []" | "zero G T TBool = VBool False" | "zero G T (TInt b) = VInt b 0"
| "zero G T (TUint b) = VUint b 0" | "zero G T (TFloat b) = VFloat b (zero_float G)"
| "zero G T (TSlice t) = VSlice t []" | "zero G T (TPtr t) = VPtr t None"
| "zero G T (TStruct s) = VStruct s (zero_fields T s)" | "zero G T TTime = VTime zero_time"
| "zero G T (TOther s) = VOther s"

section \<open>Pointers\<close>

text \<open>
  Both \<open>FindField\<close> and \<open>setStringValue\<close> follow pointers, allocating nil ones on the way. \<open>settle\<close> is
  the value with these pointers allocated, \<open>inner\<close> what they lead to, \<open>set_inner\<close> stores through them.
\<close>

primrec settle_new :: "'f golib \<Rightarrow> 'f types \<Rightarrow> gtype \<Rightarrow> 'f gval" where
  "settle_new G T (TPtr t) = VPtr t (Some (settle_new G T t))"
| "settle_new G T TString = VString []" | "settle_new G T TBool = VBool False" | "settle_new G T (TInt b) = VInt b 0"
| "settle_new G T (TUint b) = VUint b 0" | "settle_new G T (TFloat b) = VFloat b (zero_float G)"
| "settle_new G T (TSlice t) = VSlice t []"
| "settle_new G T (TStruct s) = VStruct s (zero_fields T s)" | "settle_new G T TTime = VTime zero_time"
| "settle_new G T (TOther s) = VOther s"

fun settle :: "'f golib \<Rightarrow> 'f types \<Rightarrow> 'f gval \<Rightarrow> 'f gval" where
  "settle G T (VPtr t None) = VPtr t (Some (settle_new G T t))"
| "settle G T (VPtr t (Some v)) = VPtr t (Some (settle G T v))"
| "settle G T v = v"

fun inner :: "'f gval \<Rightarrow> 'f gval" where
  "inner (VPtr t (Some v)) = inner v"
| "inner v = v"

fun set_inner :: "'f gval \<Rightarrow> 'f gval \<Rightarrow> 'f gval" where
  "set_inner (VPtr t (Some v)) w = VPtr t (Some (set_inner v w))"
| "set_inner v w = w"

section \<open>Path parameter converters\<close>

definition ParseBool :: "string \<Rightarrow> num_error + bool" where
  \<comment> \<open>\<open>strconv.ParseBool\<close>\<close>
  "ParseBool s =
     (if s \<in> {''1'', ''t'', ''T'', ''true'', ''TRUE'', ''True''} then Inr True
      else if s \<in> {''0'', ''f'', ''F'', ''false'', ''FALSE'', ''False''} then Inr False
      else Inl ErrSyntax)"

definition as_error :: "string \<Rightarrow> string \<Rightarrow> num_error + 'a \<Rightarrow> string + 'a" where
  \<comment> \<open>\<open>fmt.Errorf("parse %q as ...: %w")\<close>\<close>
  "as_error s kind r = (case r of Inl e \<Rightarrow> Inl (''parse '' @ s @ '' as '' @ kind) | Inr x \<Rightarrow> Inr x)"

definition PathString :: "string \<Rightarrow> string + string" where "PathString val = Inr val"
definition PathBool :: "string \<Rightarrow> string + bool" where "PathBool val = as_error val ''bool'' (ParseBool val)"
definition PathInt32 :: "string \<Rightarrow> string + int" where "PathInt32 val = as_error val ''int32'' (parse_int val 32)"
definition PathInt64 :: "string \<Rightarrow> string + int" where "PathInt64 val = as_error val ''int64'' (parse_int val 64)"
definition PathUint32 :: "string \<Rightarrow> string + nat" where "PathUint32 val = as_error val ''uint32'' (parse_uint val 32)"
definition PathUint64 :: "string \<Rightarrow> string + nat" where "PathUint64 val = as_error val ''uint64'' (parse_uint val 64)"

definition PathFloat32 :: "'f golib \<Rightarrow> string \<Rightarrow> string + 'f" where
  "PathFloat32 G val = as_error val ''float32'' (map_sum id (round_float G 32) (ParseFloat G val 32))"

definition PathFloat64 :: "'f golib \<Rightarrow> string \<Rightarrow> string + 'f" where
  "PathFloat64 G val = as_error val ''float64'' (ParseFloat G val 64)"

definition PathBytes :: "(string \<Rightarrow> string option) \<Rightarrow> string \<Rightarrow> string + string" where
  \<comment> \<open>the first argument is \<open>base64.RawURLEncoding.DecodeString\<close>\<close>
  "PathBytes rawurl val =
     (case rawurl val of
        Some b \<Rightarrow> Inr b
      | None \<Rightarrow> (case b64_decode val of Some b \<Rightarrow> Inr b | None \<Rightarrow> Inl (''decode '' @ val @ '' as base64'')))"

definition PathStringSlice :: "string \<Rightarrow> string + string list" where
  "PathStringSlice val = Inr (split_byte val CHR '','')"

fun int64_slice :: "string list \<Rightarrow> string + int list" where
  "int64_slice [] = Inr []"
| "int64_slice (p # ps) =
     (case parse_int (trim_space p) 64 of
        Inl e \<Rightarrow> Inl (''parse '' @ p @ '' as int64'')
      | Inr n \<Rightarrow> (case int64_slice ps of Inl e \<Rightarrow> Inl e | Inr ns \<Rightarrow> Inr (n # ns)))"

definition PathInt64Slice :: "string \<Rightarrow> string + int list" where
  "PathInt64Slice val = int64_slice (split_byte val CHR '','')"

section \<open>Finding a field\<close>

definition json_tag :: "field \<Rightarrow> string" where
  "json_tag sf =
     (case index_byte (fl_json sf) CHR '','' of None \<Rightarrow> fl_json sf | Some j \<Rightarrow> take j (fl_json sf))"

definition field_named :: "string \<Rightarrow> field \<Rightarrow> bool" where
  "field_named nm sf =
     (fl_exported sf \<and> (json_tag sf = nm \<or> (json_tag sf = [] \<and> equal_fold (fl_Name sf) nm)))"

fun find_index_from :: "nat \<Rightarrow> ('a \<Rightarrow> bool) \<Rightarrow> 'a list \<Rightarrow> nat option" where
  "find_index_from i P [] = None"
| "find_index_from i P (x # xs) = (if P x then Some i else find_index_from (Suc i) P xs)"

definition field_index :: "'f types \<Rightarrow> string \<Rightarrow> string \<Rightarrow> nat option" where
  \<comment> \<open>the scan of \<open>FindField\<close> over the fields of a struct type\<close>
  "field_index T s nm = find_index_from 0 (field_named nm) (fields_of T s)"

type_synonym field_cache = "string \<times> string \<rightharpoonup> nat option" \<comment> \<open>\<open>Some None\<close> is the index -1\<close>

definition field_index_cached :: "'f types \<Rightarrow> field_cache \<Rightarrow> string \<Rightarrow> string \<Rightarrow> nat option \<times> field_cache" where
  \<comment> \<open>the same with \<open>fieldCache\<close>\<close>
  "field_index_cached T cache s nm =
     (case cache (s, nm) of
        Some idx \<Rightarrow> (idx, cache)
      | None \<Rightarrow> (let idx = field_index T s nm in (idx, cache((s, nm) \<mapsto> idx))))"

definition FindField :: "'f golib \<Rightarrow> 'f types \<Rightarrow> 'f gval \<Rightarrow> string \<Rightarrow> (string \<times> 'f gval list \<times> nat) option \<times> 'f gval" where
  \<comment> \<open>the struct found behind the pointers, its fields and the index; and the value with the pointers allocated\<close>
  "FindField G T v nm =
     (let v' = settle G T v
      in case inner v' of
           VStruct s fs \<Rightarrow>
             (case field_index T s nm of Some i \<Rightarrow> (Some (s, fs, i), v') | None \<Rightarrow> (None, v'))
         | _ \<Rightarrow> (None, v'))"

section \<open>Setting fields\<close>

datatype 'd set_result = Done | FieldNotFound | Failed "'d goerror"

definition isProtoTimestamp :: "'f types \<Rightarrow> string \<Rightarrow> bool" where
  "isProtoTimestamp T s =
     ((\<exists>f \<in> set (fields_of T s). fl_Name f = ''Seconds'' \<and> fl_type f = TInt 64) \<and>
      (\<exists>f \<in> set (fields_of T s). fl_Name f = ''Nanos'' \<and> fl_type f = TInt 32))"

definition set_field_named :: "'f types \<Rightarrow> string \<Rightarrow> string \<Rightarrow> 'f gval \<Rightarrow> 'f gval list \<Rightarrow> 'f gval list" where
  "set_field_named T s nm w fs =
     (case find_index_from 0 (\<lambda>f. fl_Name f = nm) (fields_of T s) of Some i \<Rightarrow> fs[i := w] | None \<Rightarrow> fs)"

definition wrap_int :: "nat \<Rightarrow> int \<Rightarrow> int" where
  \<comment> \<open>what \<open>SetInt\<close> stores in a \<open>b\<close>-bit integer\<close>
  "wrap_int b i = (i + 2 ^ (b - 1)) mod 2 ^ b - 2 ^ (b - 1)"

definition bytes_value :: "string \<Rightarrow> 'f gval" where
  "bytes_value b = VSlice (TUint 8) (map (\<lambda>c. VUint 8 (of_char c)) b)"

definition invalid :: "string \<Rightarrow> 'd goerror" where
  "invalid text = NewErrorf CodeInvalidArgument text"

definition scalar_value :: "'f golib \<Rightarrow> 'f types \<Rightarrow> string \<Rightarrow> 'f gval \<Rightarrow> string + 'f gval" where
  \<comment> \<open>the switch of \<open>setStringValue\<close> on the kind of the value behind the pointers\<close>
  "scalar_value G T s v =
     (case v of
        VString _ \<Rightarrow> Inr (VString s)
      | VInt b _ \<Rightarrow> map_sum id (\<lambda>n. VInt b (wrap_int b n)) (as_error s ''int'' (parse_int s 64))
      | VUint b _ \<Rightarrow> map_sum id (\<lambda>n. VUint b (n mod 2 ^ b)) (as_error s ''uint'' (parse_uint s 64))
      | VFloat b _ \<Rightarrow> map_sum id (\<lambda>x. VFloat b (round_float G b x)) (as_error s ''float'' (ParseFloat G s 64))
      | VBool _ \<Rightarrow> map_sum id VBool (as_error s ''bool'' (ParseBool s))
      | VSlice t _ \<Rightarrow>
          if t = TUint 8 then
            (case b64_decode s of Some b \<Rightarrow> Inr (bytes_value b) | None \<Rightarrow> Inl (''decode '' @ s @ '' as base64''))
          else Inl ''unsupported slice field type''
      | VTime _ \<Rightarrow> (case ParseRFC3339 G s of Some t \<Rightarrow> Inr (VTime t) | None \<Rightarrow> Inl (''parse '' @ s @ '' as time''))
      | VStruct st fs \<Rightarrow>
          if isProtoTimestamp T st then
            (case ParseRFC3339 G s of
               Some t \<Rightarrow> Inr (VStruct st (set_field_named T st ''Nanos'' (VInt 32 (t mod 10 ^ 9))
                              (set_field_named T st ''Seconds'' (VInt 64 (t div 10 ^ 9)) fs)))
             | None \<Rightarrow> Inl (''parse '' @ s @ '' as timestamp''))
          else Inl ''unsupported struct field type''
      | _ \<Rightarrow> Inl ''unsupported field type'')"

definition setStringValue :: "'f golib \<Rightarrow> 'f types \<Rightarrow> string \<Rightarrow> 'f gval \<Rightarrow> 'd set_result \<times> 'f gval" where
  "setStringValue G T s f =
     (let f' = settle G T f
      in case scalar_value G T s (inner f') of
           Inl text \<Rightarrow> (Failed (invalid text), f')
         | Inr w \<Rightarrow> (Done, set_inner f' w))"

fun at_path :: "'f golib \<Rightarrow> 'f types \<Rightarrow> string list \<Rightarrow> ('f gval \<Rightarrow> 'd set_result \<times> 'f gval) \<Rightarrow> 'f gval
    \<Rightarrow> 'd set_result \<times> 'f gval" where
  \<comment> \<open>\<open>findFieldPath\<close>, and what is done with the field it finds\<close>
  "at_path G T [] g v = g v"
| "at_path G T (part # parts) g v =
     (case FindField G T v part of
        (None, v') \<Rightarrow> (FieldNotFound, v')
      | (Some (s, fs, i), v') \<Rightarrow>
          (let (r, f) = at_path G T parts g (fs ! i) in (r, set_inner v' (VStruct s (fs[i := f])))))"

definition strict_result :: "string \<Rightarrow> bool \<Rightarrow> 'd set_result \<Rightarrow> 'd goerror option" where
  "strict_result nm strict r =
     (case r of
        Done \<Rightarrow> None
      | Failed e \<Rightarrow> Some e
      | FieldNotFound \<Rightarrow> if strict then Some (invalid (''field '' @ nm @ '' not found'')) else None)"

definition setFieldString ::
    "'f golib \<Rightarrow> 'f types \<Rightarrow> string \<Rightarrow> string \<Rightarrow> bool \<Rightarrow> 'f gval \<Rightarrow> 'd goerror option \<times> 'f gval" where
  "setFieldString G T nm val strict root =
     (let (r, v) = at_path G T (split_byte nm CHR ''.'') (setStringValue G T val) root
      in (strict_result nm strict r, v))"

fun set_elems :: "'f golib \<Rightarrow> 'f types \<Rightarrow> gtype \<Rightarrow> string list \<Rightarrow> 'd goerror + 'f gval list" where
  "set_elems G T t [] = Inr []"
| "set_elems G T t (s # ss) =
     (case setStringValue G T s (zero G T t) of
        (Failed e, _) \<Rightarrow> Inl e
      | (_, v) \<Rightarrow> (case set_elems G T t ss of Inl e \<Rightarrow> Inl e | Inr vs \<Rightarrow> Inr (v # vs)))"

definition set_strings :: "'f golib \<Rightarrow> 'f types \<Rightarrow> string list \<Rightarrow> 'f gval \<Rightarrow> 'd set_result \<times> 'f gval" where
  "set_strings G T vals f =
     (case f of
        VSlice t old \<Rightarrow>
          (case set_elems G T t vals of Inl e \<Rightarrow> (Failed e, f) | Inr vs \<Rightarrow> (Done, VSlice t vs))
      | _ \<Rightarrow> setStringValue G T (last vals) f)"

definition setFieldStrings ::
    "'f golib \<Rightarrow> 'f types \<Rightarrow> string \<Rightarrow> string list \<Rightarrow> bool \<Rightarrow> 'f gval \<Rightarrow> 'd goerror option \<times> 'f gval" where
  "setFieldStrings G T nm vals strict root =
     (if vals = [] then (None, root)
      else let (r, v) = at_path G T (split_byte nm CHR ''.'') (set_strings G T vals) root
           in (strict_result nm strict r, v))"


fun set_params :: "'f golib \<Rightarrow> 'f types \<Rightarrow> (string \<times> string) list \<Rightarrow> 'f gval \<Rightarrow> 'd goerror option \<times> 'f gval" where
  "set_params G T [] v = (None, v)"
| "set_params G T ((nm, val) # ps) v =
     (case setFieldString G T nm val True v of
        (Some e, v') \<Rightarrow> (Some e, v')
      | (None, v') \<Rightarrow> set_params G T ps v')"

fun set_query :: "'f golib \<Rightarrow> 'f types \<Rightarrow> (string \<Rightarrow> bool) \<Rightarrow> header \<Rightarrow> 'f gval \<Rightarrow> 'd goerror option \<times> 'f gval" where
  "set_query G T skip [] v = (None, v)"
| "set_query G T skip ((nm, vals) # q) v =
     (if skip nm then set_query G T skip q v
      else case setFieldStrings G T nm vals False v of
             (Some e, v') \<Rightarrow> (Some e, v')
           | (None, v') \<Rightarrow> set_query G T skip q v')"

definition nil_pointer :: "'f gval \<Rightarrow> bool" where
  "nil_pointer v = (case v of VPtr t (Some _) \<Rightarrow> False | _ \<Rightarrow> True)"

type_synonym 'f decoder = "string \<Rightarrow> 'f gval \<Rightarrow> string option \<times> 'f gval" \<comment> \<open>\<open>Codec.Unmarshal\<close> into a value\<close>

definition SetFieldFromBody ::
    "'f golib \<Rightarrow> 'f types \<Rightarrow> 'f decoder \<Rightarrow> string \<Rightarrow> string \<Rightarrow> 'f gval \<Rightarrow> 'd goerror option \<times> 'f gval" where
  "SetFieldFromBody G T dec nm body v =
     (case FindField G T v nm of
        (None, v') \<Rightarrow> (Some (invalid (''body field '' @ nm @ '' not found'')), v')
      | (Some (s, fs, i), v') \<Rightarrow>
          (let (err, f) = (case fs ! i of
                 VPtr t old \<Rightarrow>
                   (let (err, w) = dec body (case old of Some x \<Rightarrow> x | None \<Rightarrow> zero G T t)
                    in (err, VPtr t (Some w)))
               | f \<Rightarrow> dec body f)
           in (map_option (\<lambda>e. invalid (''decode request body into '' @ nm @ '': '' @ e)) err,
               set_inner v' (VStruct s (fs[i := f])))))"

definition PopulateMessage ::
    "'f golib \<Rightarrow> 'f types \<Rightarrow> 'f decoder \<Rightarrow> 'f gval \<Rightarrow> (string \<times> string) list \<Rightarrow> header \<Rightarrow> string \<Rightarrow> string
     \<Rightarrow> 'd goerror option \<times> 'f gval" where
  \<comment> \<open>the lists of parameters and query values are in the order the maps are visited\<close>
  "PopulateMessage G T dec msg ps query body bodyField =
     (if nil_pointer msg then (Some (NewErrorf CodeInternal ''populate: expected non-nil pointer''), msg)
      else case set_params G T ps msg of
             (Some e, v) \<Rightarrow> (Some e, v)
           | (None, v) \<Rightarrow>
               if bodyField = ''*'' then
                 (case v of
                    VPtr t (Some m) \<Rightarrow>
                      (let (err, m') = dec body m
                       in (map_option (\<lambda>e. invalid (''decode request body: '' @ e)) err, VPtr t (Some m')))
                  | _ \<Rightarrow> (None, v))
               else
                 (case (if bodyField \<noteq> [] then SetFieldFromBody G T dec bodyField body v else (None, v)) of
                    (Some e, v) \<Rightarrow> (Some e, v)
                  | (None, v) \<Rightarrow>
                      set_query G T (\<lambda>nm. map_of ps nm \<noteq> None \<or> nm = bodyField) query v))"

definition PopulateQuery ::
    "'f golib \<Rightarrow> 'f types \<Rightarrow> 'f gval \<Rightarrow> header \<Rightarrow> string list \<Rightarrow> 'd goerror option \<times> 'f gval" where
  "PopulateQuery G T msg query bound =
     (if nil_pointer msg then (Some (NewErrorf CodeInternal ''populate: expected non-nil pointer''), msg)
      else set_query G T (\<lambda>nm. nm \<in> set bound) query msg)"

fun extract_parts :: "'f golib \<Rightarrow> 'f types \<Rightarrow> 'f gval \<Rightarrow> string list \<Rightarrow> 'f gval option" where
  "extract_parts G T v [] = Some v"
| "extract_parts G T v (part # parts) =
     (case fst (FindField G T v part) of
        None \<Rightarrow> None
      | Some (s, fs, i) \<Rightarrow> extract_parts G T (fs ! i) parts)"

definition extractField :: "'f golib \<Rightarrow> 'f types \<Rightarrow> 'f gval \<Rightarrow> string \<Rightarrow> 'd goerror + 'f gval" where
  \<comment> \<open>\<open>kernel/handler.go\<close>; a nil message has no field, since it cannot be set\<close>
  "extractField G T msg nm =
     (case (case msg of VPtr t None \<Rightarrow> None | _ \<Rightarrow> extract_parts G T msg (split_byte nm CHR ''.'')) of
        None \<Rightarrow> Inl (NewErrorf CodeInternal (''response field '' @ nm @ '' not found''))
      | Some v \<Rightarrow> Inr v)"

section \<open>From a message to a path and a query\<close>

definition ProtoName :: "field \<Rightarrow> string" where
  "ProtoName sf =
     (let nm = takeWhile (\<lambda>c. c \<noteq> CHR '','') (fl_json sf)
      in if nm = [] \<or> nm = ''-'' then fl_Name sf else nm)"

definition struct_behind :: "'f gval \<Rightarrow> (string \<times> 'f gval list) option" where
  \<comment> \<open>one pointer is followed\<close>
  "struct_behind v =
     (case v of
        VStruct s fs \<Rightarrow> Some (s, fs)
      | VPtr t (Some (VStruct s fs)) \<Rightarrow> Some (s, fs)
      | _ \<Rightarrow> None)"

definition fieldValueByName :: "'f types \<Rightarrow> string \<Rightarrow> 'f gval list \<Rightarrow> string \<Rightarrow> 'f gval option" where
  "fieldValueByName T s fs nm =
     map_option (\<lambda>i. fs ! i)
       (find_index_from 0 (\<lambda>sf. fl_exported sf \<and> (ProtoName sf = nm \<or> fl_Name sf = nm)) (fields_of T s))"

definition reflectValueToString :: "'f golib \<Rightarrow> 'f gval \<Rightarrow> string" where
  "reflectValueToString G fv =
     (case fv of
        VBool b \<Rightarrow> if b then ''true'' else ''false''
      | VInt bits i \<Rightarrow> format_int i
      | VUint bits n \<Rightarrow> format_nat n
      | VFloat bits x \<Rightarrow> FormatFloat G x (if bits = 32 then 32 else 64)
      | _ \<Rightarrow> Sprint G fv)"

definition value_string :: "'f golib \<Rightarrow> 'f gval \<Rightarrow> string" where
  "value_string G fv = (case fv of VString s \<Rightarrow> s | _ \<Rightarrow> reflectValueToString G fv)"

function subst_loop :: "'f golib \<Rightarrow> 'f types \<Rightarrow> string \<Rightarrow> 'f gval list \<Rightarrow> string \<Rightarrow> 'd goerror + string \<times> string list" where
  "subst_loop G T st fs rest =
     (case index_byte rest CHR ''{'' of
        None \<Rightarrow> Inr (rest, [])
      | Some start \<Rightarrow>
          (case index_byte (drop start rest) CHR ''}'' of
             None \<Rightarrow> Inl (PlainError ''unclosed brace'')
           | Some e \<Rightarrow>
               (let inn = take (e - 1) (drop (start + 1) rest);
                    nm = (case index_byte inn CHR ''='' of Some eq \<Rightarrow> take eq inn | None \<Rightarrow> inn)
                in case fieldValueByName T st fs nm of
                     None \<Rightarrow> Inl (invalid (''path parameter '' @ nm @ '' not found''))
                   | Some val \<Rightarrow>
                       (case subst_loop G T st fs (drop (start + e + 1) rest) of
                          Inl err \<Rightarrow> Inl err
                        | Inr (path, bound) \<Rightarrow> Inr (take start rest @ value_string G val @ path, nm # bound)))))"
  by pat_completeness auto
termination
  by (relation "measure (\<lambda>(G, T, st, fs, rest). length rest)") (auto dest!: index_byte_Some)

declare subst_loop.simps [simp del]

definition SubstitutePathParamsBound ::
    "'f golib \<Rightarrow> 'f types \<Rightarrow> string \<Rightarrow> 'f gval option \<Rightarrow> 'd goerror + string \<times> string list" where
  "SubstitutePathParamsBound G T template req =
     (case Option.bind req struct_behind of
        None \<Rightarrow> Inr (template, [])
      | Some (s, fs) \<Rightarrow>
          if CHR ''{'' \<notin> set template then Inr (template, []) else subst_loop G T s fs template)"

definition SubstitutePathParams where
  "SubstitutePathParams G T template req = map_sum id fst (SubstitutePathParamsBound G T template req)"

definition query_add :: "header \<Rightarrow> string \<Rightarrow> string \<Rightarrow> header" where
  \<comment> \<open>\<open>url.Values.Add\<close>: the key as it is\<close>
  "query_add q k v = alist_put k ((case map_of q k of None \<Rightarrow> [] | Some vs \<Rightarrow> vs) @ [v]) q"

definition field_query :: "'f golib \<Rightarrow> string \<Rightarrow> 'f gval \<Rightarrow> header \<Rightarrow> header" where
  "field_query G nm fv q =
     (case (case fv of VPtr t v \<Rightarrow> v | _ \<Rightarrow> Some fv) of
        None \<Rightarrow> q
      | Some (VSlice t vs) \<Rightarrow> fold (\<lambda>e q. query_add q nm (value_string G e)) vs q
      | Some w \<Rightarrow> alist_put nm [value_string G w] q)"

fun fields_query :: "'f golib \<Rightarrow> string list \<Rightarrow> field list \<Rightarrow> 'f gval list \<Rightarrow> header \<Rightarrow> header" where
  "fields_query G bound (sf # sfs) (fv # fvs) q =
     fields_query G bound sfs fvs
       (if \<not> fl_exported sf \<or> ProtoName sf \<in> set bound then q else field_query G (ProtoName sf) fv q)"
| "fields_query G bound _ _ q = q"

definition MessageToQuery :: "'f golib \<Rightarrow> 'f types \<Rightarrow> 'f gval \<Rightarrow> string list \<Rightarrow> header" where
  "MessageToQuery G T req bound =
     (case struct_behind req of
        None \<Rightarrow> []
      | Some (s, fs) \<Rightarrow> fields_query G bound (fields_of T s) fs [])"

definition ExtractFieldValue :: "'f types \<Rightarrow> 'f gval \<Rightarrow> string \<Rightarrow> ('d goerror + 'f gval) option" where
  \<comment> \<open>\<open>None\<close> is the panic of reflection on something that is not a struct\<close>
  "ExtractFieldValue T req nm =
     (let missing = Inl (invalid (''field '' @ nm @ '' not found''))
      in case req of
           VPtr t None \<Rightarrow> Some missing
         | _ \<Rightarrow>
             map_option (\<lambda>(s, fs). case fieldValueByName T s fs nm of None \<Rightarrow> missing | Some v \<Rightarrow> Inr v)
               (struct_behind req))"

end
