(* ===== verification/Url.thy ===== *)
theory Url
  imports Base64 "HOL-Library.Char_ord" "HOL-Library.List_Lexorder"
begin

text \<open>
  The query strings of \<open>net/url\<close>: what the client writes (\<open>Values.Encode\<close>, \<open>QueryEscape\<close>) and what
  the server reads back (\<open>URL.Query\<close>, which drops the pairs it cannot decode).
\<close>

section \<open>Escaping\<close>

definition unreserved :: "char \<Rightarrow> bool" where
  "unreserved c =
     (byte_in 48 57 c \<or> byte_in 65 90 c \<or> byte_in 97 122 c \<or> c \<in> {CHR ''-'', CHR ''_'', CHR ''.'', CHR ''~''})"

definition hex_char :: "nat \<Rightarrow> char" where
  "hex_char n = (if n < 10 then nat_byte (48 + n) else nat_byte (55 + n))"

definition hex_value :: "char \<Rightarrow> nat option" where
  "hex_value c =
     (if byte_in 48 57 c then Some (byte_nat c - 48)
      else if byte_in 97 102 c then Some (byte_nat c - 87)
      else if byte_in 65 70 c then Some (byte_nat c - 55)
      else None)"

definition escape_byte :: "char \<Rightarrow> string" where
  "escape_byte c =
     (if unreserved c then [c]
      else if c = CHR '' '' then ''+''
      else [CHR ''%'', hex_char (byte_nat c div 16), hex_char (byte_nat c mod 16)])"

definition QueryEscape :: "string \<Rightarrow> string" where
  "QueryEscape s = concat (map escape_byte s)"

fun QueryUnescape :: "string \<Rightarrow> string option" where
  "QueryUnescape [] = Some []"
| "QueryUnescape (c # cs) =
     (if c = CHR ''%'' then
        (case cs of
           a # b # rest \<Rightarrow>
             (case (hex_value a, hex_value b) of
                (Some m, Some n) \<Rightarrow> map_option ((#) (nat_byte (16 * m + n))) (QueryUnescape rest)
              | _ \<Rightarrow> None)
         | _ \<Rightarrow> None)
      else map_option ((#) (if c = CHR ''+'' then CHR '' '' else c)) (QueryUnescape cs))"

lemma nibble [simp]: "byte_nat c div 16 < 16"
  using byte_nat_less [of c] by (simp add: less_mult_imp_div_less)

lemma hex_value_char [simp]: "i < 16 \<Longrightarrow> hex_value (hex_char i) = Some i"
  by (auto simp: hex_value_def hex_char_def byte_in_def nat_byte_def byte_nat_def)

lemma hex_char_unreserved [simp]: "i < 16 \<Longrightarrow> unreserved (hex_char i)"
  by (auto simp: unreserved_def hex_char_def byte_in_def nat_byte_def)

lemma not_unreserved:
  "\<not> unreserved (CHR ''%'')" "\<not> unreserved (CHR ''+'')" "\<not> unreserved (CHR ''&'')"
  "\<not> unreserved (CHR ''='')" "\<not> unreserved (CHR '';'')"
  by (simp_all add: unreserved_def byte_in_def)

lemma QueryUnescape_byte: "QueryUnescape (escape_byte c @ s) = map_option ((#) c) (QueryUnescape s)"
proof -
  have "nat_byte (16 * (byte_nat c div 16) + byte_nat c mod 16) = c" by simp
  moreover have "unreserved c \<Longrightarrow> c \<noteq> CHR ''%'' \<and> c \<noteq> CHR ''+''" using not_unreserved by blast
  ultimately show ?thesis by (auto simp: escape_byte_def)
qed

lemma QueryUnescape_QueryEscape: "QueryUnescape (QueryEscape s) = Some s"
  by (induction s) (simp_all add: QueryEscape_def QueryUnescape_byte)

lemma escape_byte_mem: "d \<in> set (escape_byte c) \<Longrightarrow> unreserved d \<or> d = CHR ''+'' \<or> d = CHR ''%''"
  by (auto simp: escape_byte_def split: if_splits)

lemma QueryEscape_mem: "d \<in> set (QueryEscape s) \<Longrightarrow> unreserved d \<or> d = CHR ''+'' \<or> d = CHR ''%''"
  using escape_byte_mem by (auto simp: QueryEscape_def)

lemma QueryEscape_separators:
  "CHR ''&'' \<notin> set (QueryEscape s)" "CHR ''='' \<notin> set (QueryEscape s)" "CHR '';'' \<notin> set (QueryEscape s)"
  using QueryEscape_mem [of _ s] not_unreserved by fastforce+

lemma QueryEscape_Nil_iff: "QueryEscape s = [] \<longleftrightarrow> s = []"
  by (cases s) (auto simp: QueryEscape_def escape_byte_def)

section \<open>Encoding and parsing\<close>

definition query_pairs :: "header \<Rightarrow> string list" where
  "query_pairs q =
     concat (map (\<lambda>(k, vs). map (\<lambda>v. QueryEscape k @ ''='' @ QueryEscape v) vs) q)"

definition query_Encode :: "header \<Rightarrow> string" where
  \<comment> \<open>\<open>Values.Encode\<close>: sorted by key\<close>
  "query_Encode q = join_with ''&'' (query_pairs (sort_key fst q))"

definition parse_pair :: "header \<Rightarrow> string \<Rightarrow> header" where
  "parse_pair q s =
     (if contains_byte s CHR '';'' \<or> s = [] then q
      else
        let (key, val) = (case index_byte s CHR ''='' of None \<Rightarrow> (s, []) | Some i \<Rightarrow> (take i s, drop (Suc i) s))
        in case (QueryUnescape key, QueryUnescape val) of
             (Some k, Some v) \<Rightarrow> alist_put k ((case map_of q k of None \<Rightarrow> [] | Some vs \<Rightarrow> vs) @ [v]) q
           | _ \<Rightarrow> q)"

definition ParseQuery :: "string \<Rightarrow> header" where
  "ParseQuery s = foldl parse_pair [] (split_byte s CHR ''&'')"

lemma parse_pair_escaped:
  "parse_pair q (QueryEscape k @ ''='' @ QueryEscape v) =
     alist_put k ((case map_of q k of None \<Rightarrow> [] | Some vs \<Rightarrow> vs) @ [v]) q"
  using QueryEscape_separators [of k] QueryEscape_separators [of v]
  by (simp add: parse_pair_def contains_byte_def index_byte_append_first QueryUnescape_QueryEscape)

lemma parse_values:
  "k \<notin> fst ` set q \<Longrightarrow>
   foldl parse_pair (q @ [(k, us)]) (map (\<lambda>v. QueryEscape k @ ''='' @ QueryEscape v) vs) = q @ [(k, us @ vs)]"
  by (induction vs arbitrary: us)
    (simp_all add: parse_pair_escaped [simplified] alist_put_last map_of_eq_None_iff [THEN iffD2] map_add_def)

lemma parse_entry:
  assumes "k \<notin> fst ` set q" "vs \<noteq> []"
  shows "foldl parse_pair q (map (\<lambda>v. QueryEscape k @ ''='' @ QueryEscape v) vs) = q @ [(k, vs)]"
proof (cases vs)
  case (Cons v ws)
  with assms(1) have "map_of q k = None" by (simp add: map_of_eq_None_iff)
  with Cons assms(1) show ?thesis
    using parse_values [OF assms(1), of "[v]" ws] by (simp add: parse_pair_escaped [simplified] alist_put_new)
qed (use assms in simp)

lemma parse_pairs:
  assumes "distinct (map fst (r @ q))" "\<And>k vs. (k, vs) \<in> set q \<Longrightarrow> vs \<noteq> []"
  shows "foldl parse_pair r (query_pairs q) = r @ q"
  using assms
proof (induction q arbitrary: r)
  case (Cons e q)
  obtain k vs where e: "e = (k, vs)" by fastforce
  from Cons.prems e have "k \<notin> fst ` set r" "vs \<noteq> []" by auto
  note parse_entry [OF this]
  moreover from Cons.prems e have "foldl parse_pair (r @ [(k, vs)]) (query_pairs q) = (r @ [(k, vs)]) @ q"
    by (intro Cons.IH) auto
  ultimately show ?case by (simp add: query_pairs_def e)
qed (simp add: query_pairs_def)

lemma split_byte_join:
  assumes "\<And>s. s \<in> set ss \<Longrightarrow> c \<notin> set s" "ss \<noteq> []"
  shows "split_byte (join_with [c] ss) c = ss"
  using assms by (intro split_join_byte) auto

text \<open>What the client encodes is what the server parses, keys sorted.\<close>

lemma ParseQuery_Encode:
  assumes "distinct (map fst q)" "\<And>k vs. (k, vs) \<in> set q \<Longrightarrow> vs \<noteq> []"
  shows "ParseQuery (query_Encode q) = sort_key fst q"
proof (cases "query_pairs (sort_key fst q)")
  case Nil
  have "sort_key fst q = []"
  proof (rule ccontr)
    assume "sort_key fst q \<noteq> []"
    then obtain k vs where "(k, vs) \<in> set (sort_key fst q)" by (metis list.set_intros(1) neq_Nil_conv surj_pair)
    with assms(2) [of k vs] Nil show False by (fastforce simp: query_pairs_def)
  qed
  with Nil show ?thesis by (simp add: ParseQuery_def query_Encode_def parse_pair_def)
next
  case (Cons p ps)
  have "CHR ''&'' \<notin> set s" if "s \<in> set (query_pairs (sort_key fst q))" for s
    using that QueryEscape_separators by (fastforce simp: query_pairs_def)
  then have "split_byte (query_Encode q) CHR ''&'' = query_pairs (sort_key fst q)"
    unfolding query_Encode_def using Cons by (intro split_byte_join) auto
  moreover have "distinct (map fst (sort_key fst q))"
    using assms(1) by (simp add: distinct_map)
  ultimately show ?thesis
    using parse_pairs [of "[]" "sort_key fst q"] assms(2) by (simp add: ParseQuery_def)
qed

end
