(* ===== verification/Client.thy ===== *)
theory Client
  imports Handler Populate Url
begin

text \<open>
  The unary side of the generated clients, \<open>client/client.go\<close>, \<open>interceptor.go\<close>, \<open>retry.go\<close> and
  \<open>unary.go\<close>: configuration and its options, deadlines, retries, and a call from its request message
  to the decoded response.

  An attempt runs on a \<open>call_state\<close>: the messages by address (the caller's response message is
  an address among them) and a network \<open>'n\<close>. The HTTP client is a function on the network; what
  \<open>Do\<close> returns is an error, or a response with the error reading its body ends in, if any. Time,
  \<open>ctx.Err\<close>, the timer of a backoff (whether the context ended first) and the random jitter are in
  the record \<open>clock\<close>; floating-point numbers are of the type \<open>'f\<close> and compared and multiplied by
  its functions.
\<close>

record outRequest =
  out_Method :: string
  out_URL :: string
  out_Header :: header
  out_Body :: "string option"

type_synonym ('c, 'd, 'n) http_client =
  "'c Context \<Rightarrow> outRequest \<Rightarrow> 'n \<Rightarrow> ('d goerror + response \<times> 'd goerror option) \<times> 'n"

record ('c, 'f, 'd, 's) clock =
  ck_now :: "'s \<Rightarrow> int"
  ck_ctxErr :: "'c Context \<Rightarrow> 's \<Rightarrow> 'd goerror option"
  ck_sleep :: "'c Context \<Rightarrow> int \<Rightarrow> 's \<Rightarrow> bool \<times> 's" \<comment> \<open>whether the context ended first\<close>
  ck_jitter :: "'f \<Rightarrow> int \<Rightarrow> 's \<Rightarrow> int \<times> 's"
      \<comment> \<open>\<open>time.Duration(float64(wait) * (1 - jitter + rand.Float64()*2*jitter))\<close>\<close>
  ck_scale :: "int \<Rightarrow> 'f \<Rightarrow> int" \<comment> \<open>\<open>time.Duration(float64(backoff) * multiplier)\<close>\<close>
  ck_less :: "'f \<Rightarrow> 'f \<Rightarrow> bool"
  ck_le :: "'f \<Rightarrow> 'f \<Rightarrow> bool"
  ck_float :: "nat \<Rightarrow> 'f" \<comment> \<open>the constants 0, 1 and 2\<close>

record ('f, 'n) call_state =
  cs_msgs :: "nat \<Rightarrow> 'f gval"
  cs_net :: 'n

definition on_net :: "('n \<Rightarrow> 'a \<times> 'n) \<Rightarrow> ('f, 'n) call_state \<Rightarrow> 'a \<times> ('f, 'n) call_state" where
  "on_net f s = (let (x, n) = f (cs_net s) in (x, s\<lparr>cs_net := n\<rparr>))"

definition call_clock :: "('c, 'f, 'd, 'n) clock \<Rightarrow> ('c, 'f, 'd, ('g, 'n) call_state) clock" where
  "call_clock K =
     \<lparr>ck_now = \<lambda>s. ck_now K (cs_net s), ck_ctxErr = \<lambda>ctx s. ck_ctxErr K ctx (cs_net s),
      ck_sleep = \<lambda>ctx d. on_net (ck_sleep K ctx d), ck_jitter = \<lambda>x d. on_net (ck_jitter K x d),
      ck_scale = ck_scale K, ck_less = ck_less K, ck_le = ck_le K, ck_float = ck_float K\<rparr>"

section \<open>Retry policies\<close>

record 'f RetryPolicy =
  MaxAttempts :: int
  InitialBackoff :: int
  MaxBackoff :: int
  BackoffMultiplier :: 'f
  Jitter :: 'f
  Idempotent :: bool

definition normalize :: "('c, 'f, 'd, 's) clock \<Rightarrow> 'f RetryPolicy \<Rightarrow> 'f RetryPolicy" where
  \<comment> \<open>a NaN is neither below nor above a bound, so it stays\<close>
  "normalize K p =
     (let p = (if MaxAttempts p \<le> 0 then p\<lparr>MaxAttempts := 3\<rparr> else p);
          p = (if InitialBackoff p \<le> 0 then p\<lparr>InitialBackoff := 100 * Millisecond\<rparr> else p);
          p = (if MaxBackoff p \<le> 0 then p\<lparr>MaxBackoff := Second\<rparr> else p);
          p = (if ck_le K (BackoffMultiplier p) (ck_float K 0)
               then p\<lparr>BackoffMultiplier := ck_float K 2\<rparr> else p);
          p = (if ck_less K (Jitter p) (ck_float K 0) then p\<lparr>Jitter := ck_float K 0\<rparr> else p)
      in if ck_less K (ck_float K 1) (Jitter p) then p\<lparr>Jitter := ck_float K 1\<rparr> else p)"

section \<open>Configuration\<close>

datatype ServerStreamTransport = ServerStreamSSE | ServerStreamWebSocket

text \<open>
  The part of the configuration an attempt reads comes first: an interceptor is handed the
  configuration as an opaque pointer it can only pass on.
\<close>

record ('c, 'd, 'n) callConfig =
  cfg_codec :: codec
  cfg_httpClient :: "('c, 'd, 'n) http_client"
  cfg_headers :: header

record ('c, 'f, 'd, 'n) unaryCall =
  uc_ctx :: "'c Context"
  uc_method :: string
  uc_path :: string
  uc_body :: "string option"
  uc_req :: "'f gval option"
  uc_resp :: nat
  uc_cfg :: "('c, 'd, 'n) callConfig"

type_synonym ('c, 'f, 'd, 'n) call_invoker =
  "(('c, 'f, 'd, 'n) unaryCall, 'd, ('f, 'n) call_state) UnaryInvoker"

text \<open>The state a client's streams work on: a response body, a request stream, a WebSocket.\<close>

record 'd clientConn =
  cc_body :: "'d reader"
  cc_nd :: "'d ndjsonWriteStream"
  cc_ws :: "'d wsconn"
  cc_hung :: bool \<comment> \<open>a call on the stream did not return\<close>

record ('c, 'f, 'd, 'n) clientConfig = "('c, 'd, 'n) callConfig" +
  cfg_reqType :: gtype
  cfg_serverStreamTransport :: ServerStreamTransport
  cfg_streamInterceptors :: "('c, 'f gval, 'd, 'd clientConn) StreamInterceptor list"
  cfg_unaryInterceptors :: "(('c, 'f, 'd, 'n) call_invoker \<Rightarrow> ('c, 'f, 'd, 'n) call_invoker) list"
  cfg_retryPolicy :: "'f RetryPolicy option"
  cfg_timeout :: int
  cfg_deadline :: int \<comment> \<open>nanoseconds; \<open>zero_time\<close> is the zero time\<close>

type_synonym ('c, 'f, 'd, 'n) ClientOption =
  "('c, 'f, 'd, 'n) clientConfig \<Rightarrow> ('c, 'f, 'd, 'n) clientConfig"

record ('c, 'f, 'd, 'n) client_env =
  ce_lib :: "'f gval serializers"
  ce_go :: "'f golib"
  ce_types :: "'f types"
  ce_wire :: "'d protowire"
  ce_json :: json_reader
  ce_clock :: "('c, 'f, 'd, 'n) clock"
  ce_DefaultClient :: "('c, 'd, 'n) http_client"
  ce_badRequest :: "string \<Rightarrow> string \<Rightarrow> 'd goerror option" \<comment> \<open>the method and URL \<open>http.NewRequest\<close> refuses\<close>
  ce_formatRFC3339 :: "int \<Rightarrow> string"
  ce_Dial :: "('c, 'd, 'n) http_client \<Rightarrow> header \<Rightarrow> string \<Rightarrow> 'c Context \<Rightarrow> 'n \<Rightarrow> ('d goerror + 'd wsconn) \<times> 'n"
  ce_buffered :: "string \<Rightarrow> nat" \<comment> \<open>how much of a body \<open>bufio\<close> holds already\<close>

definition defaultClientConfig :: "('c, 'f, 'd, 'n) client_env \<Rightarrow> ('c, 'f, 'd, 'n) clientConfig" where
  "defaultClientConfig E =
     \<lparr>cfg_codec = JSONCodec, cfg_httpClient = ce_DefaultClient E, cfg_headers = [],
      cfg_reqType = TOther ''nil'', cfg_serverStreamTransport = ServerStreamSSE, cfg_streamInterceptors = [],
      cfg_unaryInterceptors = [], cfg_retryPolicy = None, cfg_timeout = 0, cfg_deadline = zero_time\<rparr>"

definition client_WithCodec :: "codec \<Rightarrow> ('c, 'f, 'd, 'n) ClientOption" where
  "client_WithCodec c cfg = cfg\<lparr>cfg_codec := c\<rparr>"

definition WithHTTPClient :: "('c, 'd, 'n) http_client \<Rightarrow> ('c, 'f, 'd, 'n) ClientOption" where
  "WithHTTPClient hc cfg = cfg\<lparr>cfg_httpClient := hc\<rparr>"

definition WithHeader :: "string \<Rightarrow> string \<Rightarrow> ('c, 'f, 'd, 'n) ClientOption" where
  "WithHeader k v cfg = cfg\<lparr>cfg_headers := header_add (cfg_headers cfg) k v\<rparr>"

definition WithServerStreamTransport :: "ServerStreamTransport \<Rightarrow> ('c, 'f, 'd, 'n) ClientOption" where
  "WithServerStreamTransport t cfg = cfg\<lparr>cfg_serverStreamTransport := t\<rparr>"

definition client_WithStreamInterceptors ::
    "('c, 'f gval, 'd, 'd clientConn) StreamInterceptor list \<Rightarrow> ('c, 'f, 'd, 'n) ClientOption" where
  "client_WithStreamInterceptors is cfg =
     cfg\<lparr>cfg_streamInterceptors := cfg_streamInterceptors cfg @ is\<rparr>"

definition client_WithUnaryInterceptors ::
    "(('c, 'f, 'd, 'n) call_invoker \<Rightarrow> ('c, 'f, 'd, 'n) call_invoker) list \<Rightarrow> ('c, 'f, 'd, 'n) ClientOption" where
  "client_WithUnaryInterceptors is cfg = cfg\<lparr>cfg_unaryInterceptors := cfg_unaryInterceptors cfg @ is\<rparr>"

definition WithRetryPolicy :: "('c, 'f, 'd, 'n) clock \<Rightarrow> 'f RetryPolicy \<Rightarrow> ('c, 'f, 'd, 'n) ClientOption" where
  "WithRetryPolicy K p cfg = cfg\<lparr>cfg_retryPolicy := Some (normalize K p)\<rparr>"

definition WithTimeout :: "int \<Rightarrow> ('c, 'f, 'd, 'n) ClientOption" where
  "WithTimeout d cfg = cfg\<lparr>cfg_timeout := d\<rparr>"

definition WithDeadline :: "int \<Rightarrow> ('c, 'f, 'd, 'n) ClientOption" where
  "WithDeadline t cfg = cfg\<lparr>cfg_deadline := t\<rparr>"

definition apply_options :: "('c, 'f, 'd, 'n) ClientOption list \<Rightarrow> ('c, 'f, 'd, 'n) ClientOption" where
  "apply_options opts cfg = fold (\<lambda>opt cfg. opt cfg) opts cfg"

definition context_WithDeadline :: "int \<Rightarrow> 'c Context \<Rightarrow> 'c Context" where
  "context_WithDeadline t ctx =
     ctx\<lparr>ctxDeadline := Some (case ctxDeadline ctx of None \<Rightarrow> t | Some t' \<Rightarrow> min t' t)\<rparr>"

definition applyDeadline ::
    "('c, 'f, 'd, 'n) client_env \<Rightarrow> int \<Rightarrow> ('c, 'f, 'd, 'n) clientConfig \<Rightarrow> 'c Context
     \<Rightarrow> ('c, 'f, 'd, 'n) clientConfig \<times> 'c Context" where
  "applyDeadline E now cfg ctx =
     (if cfg_timeout cfg > 0 then
        (cfg\<lparr>cfg_headers := header_set (cfg_headers cfg) HeaderGrpcTimeout (FormatGrpcTimeout (cfg_timeout cfg))\<rparr>,
         context_WithTimeout now (cfg_timeout cfg) ctx)
      else if cfg_deadline cfg \<noteq> zero_time then
        (cfg\<lparr>cfg_headers := header_set (cfg_headers cfg) HeaderGrpcDeadline (ce_formatRFC3339 E (cfg_deadline cfg))\<rparr>,
         context_WithDeadline (cfg_deadline cfg) ctx)
      else (cfg, ctx))"

record ('c, 'f, 'd, 'n) ClientBase =
  cb_baseURL :: string
  cb_cfg :: "('c, 'f, 'd, 'n) clientConfig"

definition trim_right_byte :: "string \<Rightarrow> char \<Rightarrow> string" where
  \<comment> \<open>\<open>strings.TrimRight\<close> of one byte\<close>
  "trim_right_byte s c = rev (dropWhile (\<lambda>x. x = c) (rev s))"

definition NewClientBase ::
    "('c, 'f, 'd, 'n) client_env \<Rightarrow> string \<Rightarrow> ('c, 'f, 'd, 'n) ClientOption list \<Rightarrow> ('c, 'f, 'd, 'n) ClientBase" where
  "NewClientBase E baseURL opts =
     \<lparr>cb_baseURL = trim_right_byte baseURL CHR ''/'', cb_cfg = apply_options opts (defaultClientConfig E)\<rparr>"

section \<open>Retries\<close>

definition backoff_wait :: "('c, 'f, 'd, 's) clock \<Rightarrow> 'f RetryPolicy \<Rightarrow> int \<Rightarrow> 's \<Rightarrow> int \<times> 's" where
  "backoff_wait K p backoff s =
     (if ck_less K (ck_float K 0) (Jitter p) then ck_jitter K (Jitter p) backoff s else (backoff, s))"

fun retry_loop ::
    "('c, 'f, 'd, 's) clock \<Rightarrow> 'f RetryPolicy \<Rightarrow> bool \<Rightarrow> 'c Context \<Rightarrow> ('s \<Rightarrow> ((int \<times> 'd goerror option) \<times> 's) option)
     \<Rightarrow> nat \<Rightarrow> int \<Rightarrow> int \<times> 'd goerror option \<Rightarrow> 's \<Rightarrow> ((int \<times> 'd goerror option) \<times> 's) option" where
  \<comment> \<open>the number of attempts left, the backoff, and the result of the last attempt\<close>
  "retry_loop K p idempotent ctx attempt 0 backoff final s = Some (final, s)"
| "retry_loop K p idempotent ctx attempt (Suc left) backoff final s =
     (case attempt s of
        None \<Rightarrow> None
      | Some ((n, None), s) \<Rightarrow> Some ((n, None), s)
      | Some ((n, Some err), s) \<Rightarrow>
          if \<not> idempotent \<or> status_Code (Some err) \<noteq> CodeUnavailable \<or> left = 0 then Some ((n, Some err), s)
          else
            let (wait, s) = backoff_wait K p backoff s;
                (ended, s) = ck_sleep K ctx wait s
            in if ended then Some ((n, ck_ctxErr K ctx s), s)
               else
                 let backoff = ck_scale K backoff (BackoffMultiplier p)
                 in retry_loop K p idempotent ctx attempt left
                      (if backoff > MaxBackoff p then MaxBackoff p else backoff) (n, Some err) s)"

definition retryInvoker ::
    "('c, 'f, 'd, 's) clock \<Rightarrow> 'f RetryPolicy \<Rightarrow> (('c, 'g, 'd, 'n) unaryCall, 'd, 's) UnaryInvoker
     \<Rightarrow> (('c, 'g, 'd, 'n) unaryCall, 'd, 's) UnaryInvoker" where
  "retryInvoker K p next call s =
     (let idempotent = (Idempotent p \<or> uc_method call = ''GET'' \<or> uc_method call = ''HEAD'');
          attempts = (if MaxAttempts p < 1 then 1 else MaxAttempts p)
      in retry_loop K p idempotent (uc_ctx call) (next call) (nat attempts) (InitialBackoff p) (0, None) s)"

section \<open>A call\<close>

definition http_NewRequest ::
    "('c, 'f, 'd, 'n) client_env \<Rightarrow> string \<Rightarrow> string \<Rightarrow> string option \<Rightarrow> 'd goerror + outRequest" where
  \<comment> \<open>\<open>http.NewRequestWithContext\<close>\<close>
  "http_NewRequest E method url body =
     (case ce_badRequest E method url of
        Some e \<Rightarrow> Inl e
      | None \<Rightarrow> Inr \<lparr>out_Method = (if method = [] then ''GET'' else method), out_URL = url, out_Header = [], out_Body = body\<rparr>)"

definition with_headers :: "header \<Rightarrow> (string \<times> string) list \<Rightarrow> outRequest \<Rightarrow> outRequest" where
  \<comment> \<open>the configured headers are added, then the framework's own are set\<close>
  "with_headers hs sets r =
     r\<lparr>out_Header := fold (\<lambda>(k, v) h. header_set h k v) sets (add_all hs (out_Header r))\<rparr>"

definition invokeUnary ::
    "('c, 'f, 'd, 'n) client_env \<Rightarrow> string \<Rightarrow> ('c, 'f, 'd, 'n) call_invoker" where
  "invokeUnary E baseURL call s =
     (let cfg = uc_cfg call; codec = cfg_codec cfg
      in case http_NewRequest E (uc_method call) (baseURL @ uc_path call) (uc_body call) of
           Inl e \<Rightarrow> Some ((0, Some e), s)
         | Inr r \<Rightarrow>
             (let sets = (if uc_body call \<noteq> None then [(HeaderContentType, Name codec)] else []) @ [(HeaderAccept, Name codec)];
                  (got, s) = on_net (cfg_httpClient cfg (uc_ctx call) (with_headers (cfg_headers cfg) sets r)) s
              in case got of
                   Inl e \<Rightarrow>
                     (let ended = ck_ctxErr (ce_clock E) (uc_ctx call) (cs_net s)
                      in Some ((0, Some
                           (if ended = Some ContextDeadlineExceeded
                            then NewErrorf CodeDeadlineExceeded ''context deadline exceeded''
                            else if ended = Some ContextCanceled then NewErrorf CodeCanceled ''context canceled''
                            else e)), s))
                 | Inr (resp, broken) \<Rightarrow>
                     if resp_StatusCode resp \<noteq> 200 then
                       map_option (\<lambda>e. ((0, Some e), s)) (FromHTTP (ce_wire E) (ce_json E) resp)
                     else
                       (case broken of
                          Some e \<Rightarrow> Some ((0, Some (NewErrorf CodeInternal (''read response: '' @ error_text e))), s)
                        | None \<Rightarrow>
                            (case Unmarshal (ce_lib E) codec (resp_Body resp) (cs_msgs s (uc_resp call)) of
                               (err, msg) \<Rightarrow>
                                 (let s = s\<lparr>cs_msgs := (cs_msgs s)(uc_resp call := msg)\<rparr>
                                  in case err of
                                       Some e \<Rightarrow> Some ((0, Some (NewErrorf CodeInternal (''decode response: '' @ e))), s)
                                     | None \<Rightarrow> Some ((int (length (resp_Body resp)), None), s))))))"

definition buildInvoker ::
    "('c, 'f, 'd, 'n) client_env \<Rightarrow> string \<Rightarrow> ('c, 'f, 'd, 'n) clientConfig \<Rightarrow> ('c, 'f, 'd, 'n) call_invoker" where
  "buildInvoker E baseURL cfg =
     (let chained = client_ChainUnaryInterceptors (cfg_unaryInterceptors cfg) (invokeUnary E baseURL)
      in case cfg_retryPolicy cfg of
           Some p \<Rightarrow> retryInvoker (call_clock (ce_clock E)) p chained
         | None \<Rightarrow> chained)"

definition nil_any :: "'f gval" where
  \<comment> \<open>the nil interface, as a codec and reflection get it\<close>
  "nil_any = VOther ''<nil>''"

definition the_message :: "'f gval option \<Rightarrow> 'f gval" where
  "the_message req = (case req of Some v \<Rightarrow> v | None \<Rightarrow> nil_any)"

definition encode_message :: "('c, 'f, 'd, 'n) client_env \<Rightarrow> codec \<Rightarrow> 'f gval \<Rightarrow> 'd goerror + string" where
  "encode_message E codec v =
     map_sum (\<lambda>e. NewErrorf CodeInternal (''encode request: '' @ e)) id (Marshal (ce_lib E) codec v)"

definition encode_call ::
    "('c, 'f, 'd, 'n) client_env \<Rightarrow> codec \<Rightarrow> string \<Rightarrow> string \<Rightarrow> 'f gval option
     \<Rightarrow> ('d goerror + string \<times> string option) option" where
  \<comment> \<open>the path with its query, and the body; \<open>None\<close> is a panic of reflection\<close>
  "encode_call E codec path body req =
     (case SubstitutePathParamsBound (ce_go E) (ce_types E) path req of
        Inl e \<Rightarrow> Some (Inl e)
      | Inr (path, bound) \<Rightarrow>
          if body = ''*'' then
            Some (map_sum id (\<lambda>data. (path, Some data)) (encode_message E codec (the_message req)))
          else if body = [] then
            (case req of
               None \<Rightarrow> Some (Inr (path, None))
             | Some v \<Rightarrow>
                 (let query = MessageToQuery (ce_go E) (ce_types E) v bound
                  in Some (Inr (if query \<noteq> [] then path @ ''?'' @ query_Encode query else path, None))))
          else
            map_option (\<lambda>field. case field of
                Inl e \<Rightarrow> Inl e
              | Inr v \<Rightarrow> map_sum id (\<lambda>data. (path, Some data)) (encode_message E codec v))
              (ExtractFieldValue (ce_types E) (the_message req) body))"

definition DoUnary ::
    "('c, 'f, 'd, 'n) client_env \<Rightarrow> ('c, 'f, 'd, 'n) ClientBase \<Rightarrow> 'c Context \<Rightarrow> string \<Rightarrow> string \<Rightarrow> string
     \<Rightarrow> 'f gval option \<Rightarrow> nat \<Rightarrow> ('c, 'f, 'd, 'n) ClientOption list \<Rightarrow> ('f, 'n) call_state
     \<Rightarrow> (('d goerror option \<times> ('c, 'f, 'd, 'n) ClientBase) \<times> ('f, 'n) call_state) option" where
  \<comment> \<open>the client is returned too: without options the call's header map is the client's own.
      \<open>None\<close>: the call panics or does not return.\<close>
  "DoUnary E c ctx method path body req resp opts s =
     (let cfg = (if opts \<noteq> [] then apply_options opts (cb_cfg c) else cb_cfg c)
      in case encode_call E (cfg_codec cfg) path body req of
           None \<Rightarrow> None
         | Some (Inl e) \<Rightarrow> Some ((Some e, c), s)
         | Some (Inr (path, data)) \<Rightarrow>
             (let (cfg, ctx) = applyDeadline E (ck_now (ce_clock E) (cs_net s)) cfg ctx;
                  c = (if opts \<noteq> [] then c else c\<lparr>cb_cfg := (cb_cfg c)\<lparr>cfg_headers := cfg_headers cfg\<rparr>\<rparr>);
                  call = \<lparr>uc_ctx = ctx, uc_method = method, uc_path = path, uc_body = data, uc_req = req, uc_resp = resp,
                          uc_cfg = callConfig.truncate cfg\<rparr>
              in map_option (\<lambda>((n, err), s). ((err, c), s)) (buildInvoker E (cb_baseURL c) cfg call s)))"

section \<open>Codes of errors for hooks\<close>

fun isContextErr :: "'d goerror \<Rightarrow> 'd goerror \<Rightarrow> bool" where
  \<comment> \<open>down the chain of \<open>Unwrap\<close>\<close>
  "isContextErr (RpcError c msg None meta ds) target = False"
| "isContextErr (RpcError c msg (Some e) meta ds) target = isContextErr e target"
| "isContextErr (WrapError txt e) target = isContextErr e target"
| "isContextErr e target = (e = target)"

definition codeOf :: "'d goerror option \<Rightarrow> code" where
  "codeOf err =
     (case err of
        None \<Rightarrow> CodeOK
      | Some e \<Rightarrow>
          if isContextErr e ContextDeadlineExceeded then CodeDeadlineExceeded
          else if isContextErr e ContextCanceled then CodeCanceled
          else status_Code err)"

end
