(* ===== verification/HandlerSpec.thy ===== *)
theory HandlerSpec
  imports Handler
begin

text \<open>
  Properties of the HTTP handler: its header scan and negotiation, errors written by the server and
  read by the client, and requests an interceptor rejects.
\<close>

text \<open>
  The allocation-free scan of a comma-separated header is the textbook one: split at commas,
  trim each part, compare without case.
\<close>

theorem headerContainsFold_split:
  assumes "token \<noteq> []"
  shows "headerContainsFold v token =
    list_ex (\<lambda>part. equal_fold (trim_space part) token) (split_byte v CHR '','')"
proof (induction "length v" arbitrary: v rule: less_induct)
  case less
  have ne: "fold_norm token \<noteq> []" using assms by (subst fold_norm.simps) simp
  show ?case
  proof (cases "v = []")
    case True
    with ne show ?thesis by (simp add: headerContainsFold.simps equal_fold_def)
  next
    case False
    show ?thesis
    proof (cases "index_byte v CHR '',''")
      case None
      then have "split_byte v CHR '','' = [v]" by (simp add: split_byte_absent index_byte_None)
      with None False show ?thesis
        by (simp add: headerContainsFold.simps [of v] headerContainsFold.simps [of "[]"])
    next
      case (Some i)
      note i = index_byte_Some [OF Some]
      have "v = take i v @ CHR '','' # drop (Suc i) v" using index_byte_split [OF Some] .
      then have "split_byte v CHR '','' = take i v # split_byte (drop (Suc i) v) CHR '',''"
        using split_byte_append [of "CHR '',''" "take i v" "drop (Suc i) v"] i by metis
      moreover have "headerContainsFold (drop (Suc i) v) token =
          list_ex (\<lambda>part. equal_fold (trim_space part) token) (split_byte (drop (Suc i) v) CHR '','')"
        by (rule less) (use i in auto)
      ultimately show ?thesis using Some False by (simp add: headerContainsFold.simps [of v])
    qed
  qed
qed

lemma headerContainsFold_split_witness:
  "headerContainsFold ''keep-alive, Upgrade'' ''upgrade'' =
     list_ex (\<lambda>part. equal_fold (trim_space part) ''upgrade'') [''keep-alive'', '' Upgrade'']"
  using headerContainsFold_split [of "''upgrade''" "''keep-alive, Upgrade''"] by simp

lemma canonical_names [simp]:
  "canonical_key HeaderContentType = HeaderContentType"
  "canonical_key HeaderAccept = HeaderAccept"
  "canonical_key HeaderGrpcStatusDetails = HeaderGrpcStatusDetails"
  "canonical_key HeaderGrpcTimeout = HeaderGrpcTimeout"
  "canonical_key HeaderGrpcDeadline = HeaderGrpcDeadline"
  by code_simp+

lemma CodecForContentType_default [simp]:
  "CodecForContentType [] = JSONCodec" "CodecForContentType ''*/*'' = JSONCodec"
proof -
  have "media_type ''*/*'' = ''*/*''"
    using trim_space_framed(1) [of "''*/*''"]
    by (simp add: media_type_def framed_def printing_def byte_in_def)
  then show "CodecForContentType [] = JSONCodec" "CodecForContentType ''*/*'' = JSONCodec"
    by (simp_all add: CodecForContentType_def media_type_def equal_fold_def fold_norm_ascii byte_in_def
        lower_ascii_def)
qed

text \<open>
  The negotiation inlined in the handler agrees with \<open>CodecForRequest\<close> for every request
  without an encoding parameter whose content type, if there is one, is not empty. They differ
  when the header is there but empty: the handler then never looks at the accepted types.
\<close>

theorem codecFromRequest_CodecForRequest:
  "(case query of None \<Rightarrow> [] | Some q \<Rightarrow> query_get q ''encoding'') = [] \<Longrightarrow>
     (if map_of (rq_Header r) HeaderContentType = None \<or> header_get (rq_Header r) HeaderContentType \<noteq> []
      then codecFromRequest r query =
        CodecForRequest (header_get (rq_Header r) HeaderContentType) (header_get (rq_Header r) HeaderAccept)
      else codecFromRequest r query = JSONCodec \<and>
        CodecForRequest (header_get (rq_Header r) HeaderContentType) (header_get (rq_Header r) HeaderAccept) =
          CodecForContentType (header_get (rq_Header r) HeaderAccept))"
proof -
  let ?ct = "header_get (rq_Header r) HeaderContentType" and ?acc = "header_get (rq_Header r) HeaderAccept"
  assume enc: "(case query of None \<Rightarrow> [] | Some q \<Rightarrow> query_get q ''encoding'') = []"
  show ?thesis
  proof (cases "map_of (rq_Header r) HeaderContentType = None")
    case True
    then have "?ct = []" by (simp add: header_get_def header_values_def)
    with True enc show ?thesis by (simp add: codecFromRequest_def CodecForRequest_def Let_def)
  next
    case False
    with enc have "codecFromRequest r query = CodecForContentType ?ct"
      by (simp add: codecFromRequest_def Let_def)
    then show ?thesis using False by (auto simp: CodecForRequest_def)
  qed
qed

lemma codecFromRequest_CodecForRequest_witness:
  "codecFromRequest \<lparr>rq_Method = ''GET'', rq_Path = ''/'', rq_Query = None,
      rq_Header = [(HeaderContentType, [[] ]), (HeaderAccept, [ContentTypeProtobuf])],
      rq_Cookies = [], rq_Body = None, rq_ProtoMajor = 1, rq_Proto = [], rq_RemoteAddr = [],
      rq_Context = undefined\<rparr> None = JSONCodec \<and>
   CodecForRequest [] ContentTypeProtobuf = CodecForContentType ContentTypeProtobuf"
  using codecFromRequest_CodecForRequest [of None "\<lparr>rq_Method = ''GET'', rq_Path = ''/'', rq_Query = None,
      rq_Header = [(HeaderContentType, [[] ]), (HeaderAccept, [ContentTypeProtobuf])],
      rq_Cookies = [], rq_Body = None, rq_ProtoMajor = 1, rq_Proto = [], rq_RemoteAddr = [],
      rq_Context = undefined\<rparr>"]
  by (simp add: header_get_def header_values_def)

subsection \<open>Errors over HTTP\<close>

lemma header_get_add_other:
  "canonical_key k' \<noteq> k \<Longrightarrow> canonical_key k = k \<Longrightarrow> header_get (header_add h k' v) k = header_get h k"
  by (simp add: header_get_def header_values_def header_add_def)

lemma header_get_fold_add_other:
  assumes "canonical_key k' \<noteq> k" "canonical_key k = k"
  shows "header_get (fold (\<lambda>v h. header_add h k' v) vs h) k = header_get h k"
proof (induction vs arbitrary: h)
  case Nil
  show ?case by simp
next
  case (Cons v vs)
  then show ?case using assms by (simp add: header_get_add_other)
qed

lemma header_get_add_all_other:
  assumes "k \<notin> canonical_key ` fst ` set from" "canonical_key k = k"
  shows "header_get (add_all from h) k = header_get h k"
  using assms(1) unfolding add_all_def
proof (induction "from" arbitrary: h)
  case Nil
  then show ?case by simp
next
  case (Cons x "from")
  obtain k' vs where x: "x = (k', vs)" by (cases x)
  have "header_get (fold (\<lambda>v h. header_add h k' v) vs h) k = header_get h k"
    using Cons.prems assms(2) x by (intro header_get_fold_add_other) auto
  with Cons x show ?case by simp
qed

definition fresh_writer :: "'d writer \<Rightarrow> bool" where
  "fresh_writer w = (w_header w = [] \<and> w_sent w = None \<and> w_body w = [] \<and> w_left w = None)"

definition response_of :: "'d writer \<Rightarrow> string \<Rightarrow> response" where
  \<comment> \<open>what the client gets to see; \<open>status\<close> is the status line\<close>
  "response_of w status =
     (case w_sent w of
        Some (c, h) \<Rightarrow> \<lparr>resp_StatusCode = c, resp_Status = status, resp_Header = h, resp_Body = w_body w\<rparr>
      | None \<Rightarrow> \<lparr>resp_StatusCode = 200, resp_Status = status, resp_Header = w_header w, resp_Body = w_body w\<rparr>)"

definition error_headers :: "('m, 'd) env \<Rightarrow> 'd goerror \<Rightarrow> header" where
  "error_headers ev r =
     (let h = header_set (add_all (Meta r) []) HeaderContentType ContentTypeJSON
      in if err_details r \<noteq> [] then
           (case MarshalStatus (ev_wire ev) r of
              Some data \<Rightarrow> header_set h HeaderGrpcStatusDetails (b64_encode data) | None \<Rightarrow> h)
         else h)"

lemma writeError_response:
  assumes "fresh_writer w"
  shows "response_of (writeError ev err w) status =
    \<lparr>resp_StatusCode = HTTPStatus (status_Code (Some err)), resp_Status = status,
     resp_Header = error_headers ev (rpc_error err),
     resp_Body = ev_json ev [(''code'', code_String (status_Code (Some err))), (''message'', Message (rpc_error err))]\<rparr>"
proof -
  obtain e where "w = \<lparr>w_header = [], w_sent = None, w_body = [], w_left = None, w_error = e\<rparr>"
    using assms by (cases w) (simp add: fresh_writer_def)
  then show ?thesis
    by (cases "err_details (rpc_error err) = []"; cases "MarshalStatus (ev_wire ev) (rpc_error err)";
        simp add: writeError_def error_headers_def update_header_def response_of_def WriteHeader_def Write_def Let_def)
qed

lemma rpc_error_code: "err_code (rpc_error err) = status_Code (Some err)"
  by (cases "FromError err") (simp_all add: rpc_error_def status_Code_def NewError_def)

definition valid_text :: "string \<Rightarrow> string" where
  \<comment> \<open>every byte that belongs to no rune replaced by U+FFFD\<close>
  "valid_text s = concat (rune_strings s)"

lemma valid_text_Nil_iff [simp]: "valid_text s = [] \<longleftrightarrow> s = []"
proof (cases "s = []")
  case False
  then have "rune_strings s = rune_error # rune_strings (drop 1 s) \<or>
      rune_strings s = take (utf8_len s) s # rune_strings (drop (utf8_len s) s) \<and> utf8_len s \<noteq> 0"
    by (subst (1 3) rune_strings.simps) simp
  with False show ?thesis by (auto simp: valid_text_def rune_error_def)
qed (simp add: valid_text_def rune_strings.simps)

lemma valid_text_ascii: "ascii s \<Longrightarrow> valid_text s = s"
  by (simp add: valid_text_def rune_strings_ascii)

lemma code_String_valid: "c \<in> set all_codes \<Longrightarrow> valid_text (code_String c) = code_String c"
proof -
  have "list_all (\<lambda>c. valid_text (code_String c) = code_String c) all_codes" by code_simp
  then show "c \<in> set all_codes \<Longrightarrow> valid_text (code_String c) = code_String c" by (simp add: list_all_iff)
qed

definition json_members :: "(string \<times> string) list \<Rightarrow> (string \<times> member_value) list" where
  \<comment> \<open>what is read back of an object with string values: JSON text is UTF-8\<close>
  "json_members ms = map (\<lambda>(k, v). (valid_text k, StringMember (valid_text v))) ms"

lemma decode_error_members:
  "decode_members ([], []) (json_members [(''code'', c), (''message'', m)]) = Some (valid_text c, valid_text m)"
proof -
  have "valid_text ''code'' = ''code''" "valid_text ''message'' = ''message''" by code_simp+
  then show ?thesis by (simp add: json_members_def)
qed

text \<open>
  C14. An error crosses HTTP: what the server writes for an error, the client reads as an RPC error
  with the same code, message and detail payloads, for every code, and with the HTTP status of the
  code. The client finds the code and the message under the JSON keys the server wrote them
  under. Without details the message comes from the JSON body, so a byte of it that is no UTF-8
  arrives as U+FFFD; with details the header carries it as it is. The message must not be empty,
  the JSON library must read back the members of an object it wrote, and the error's own headers
  must leave the details header alone.
\<close>

theorem FromHTTP_writeError:
  assumes "fresh_writer w" "wire_laws (ev_wire ev)" "details_ok (ev_wire ev) (err_details (rpc_error err))"
    and "\<And>ms. json (ev_json ev ms) = Some (json_members ms)"
    and "status_Code (Some err) \<in> set all_codes"
    and "Message (rpc_error err) \<noteq> []" "length (Message (rpc_error err)) < 2 ^ 64"
    and "HeaderGrpcStatusDetails \<notin> canonical_key ` fst ` set (Meta (rpc_error err))"
  shows "\<exists>e. FromHTTP (ev_wire ev) json (response_of (writeError ev err w) status) = Some e \<and>
    err_code e = status_Code (Some err) \<and>
    Message e =
      (if err_details (rpc_error err) = [] then valid_text (Message (rpc_error err)) else Message (rpc_error err)) \<and>
    err_details e = err_details (rpc_error err) \<and>
    resp_StatusCode (response_of (writeError ev err w) status) = HTTPStatus (err_code e)"
proof -
  let ?r = "rpc_error err" and ?c = "status_Code (Some err)"
  note c = CodeFromString_code_String [OF assms(5)] code_String_valid [OF assms(5)]
  note read = assms(4) decode_error_members
  have range: "- (2 ^ 31) \<le> ?c" "?c < 2 ^ 31" using assms(5) by (simp_all add: all_codes_range)
  have base: "header_get (header_set (add_all (Meta ?r) []) HeaderContentType ContentTypeJSON)
      HeaderGrpcStatusDetails = []"
    using header_get_add_all_other [OF assms(8), of "[]"]
    by (simp add: header_get_set_other) (simp add: header_get_def header_values_def)
  show ?thesis
  proof (cases "err_details ?r = []")
    case True
    with base c assms(6) show ?thesis
      unfolding writeError_response [OF assms(1)]
      by (simp add: FromHTTP_def error_headers_def Message_def read)
  next
    case False
    let ?st = "\<lparr>st_Code = to_int32 (err_code ?r), st_Message = Message ?r, st_Details = err_details ?r\<rparr>"
    have c32: "to_int32 (err_code ?r) = ?c" using to_int32_id [OF range] by (simp add: rpc_error_code)
    from marshalStatus_roundtrip [OF assms(2), of ?st] assms(3,7) range c32 obtain data where
      data: "MarshalStatus (ev_wire ev) ?r = Some data" "data \<noteq> []"
      "unmarshalStatus (ev_wire ev) data = Some (Inr ?st)"
      by (auto simp: MarshalStatus_def)
    have get: "header_get (error_headers ev ?r) HeaderGrpcStatusDetails = b64_encode data"
      using False data by (simp add: error_headers_def Let_def)
    show ?thesis
      using c assms(6) data get c32 False
      unfolding writeError_response [OF assms(1)]
      by (simp add: FromHTTP_def Message_def read)
  qed
qed

text \<open>A JSON library of the kind the theorem asks for, with texts written after their lengths.\<close>

definition sized_text :: "string \<Rightarrow> string" where
  "sized_text s = replicate (length s) CHR ''a'' @ CHR ''b'' # s"

definition sized_read :: "string \<Rightarrow> string \<times> string" where
  "sized_read s =
     (let n = length (takeWhile (\<lambda>x. x = CHR ''a'') s); r = drop (Suc n) s in (take n r, drop n r))"

lemma sized_read_text [simp]: "sized_read (sized_text s @ t) = (s, t)"
proof -
  have "takeWhile (\<lambda>x. x = CHR ''a'') (sized_text s @ t) = replicate (length s) CHR ''a''"
    by (simp add: sized_text_def, subst takeWhile_append2) auto
  then show ?thesis
    by (simp add: sized_read_def sized_text_def Let_def)
qed

definition members_text :: "(string \<times> string) list \<Rightarrow> string" where
  "members_text ms = concat (map (\<lambda>(k, v). sized_text (valid_text k) @ sized_text (valid_text v)) ms)"

fun read_members :: "nat \<Rightarrow> string \<Rightarrow> (string \<times> member_value) list" where
  "read_members 0 s = []"
| "read_members (Suc n) s =
     (if s = [] then []
      else let (k, s) = sized_read s; (v, s) = sized_read s in (k, StringMember v) # read_members n s)"

definition members_read :: json_reader where
  "members_read s = Some (read_members (length s) s)"

lemma read_members_text: "length ms \<le> n \<Longrightarrow> read_members n (members_text ms) = json_members ms"
proof (induction ms arbitrary: n)
  case Nil
  then show ?case by (cases n) (simp_all add: members_text_def json_members_def)
next
  case (Cons m ms)
  obtain k v where m: "m = (k, v)" by (cases m)
  from Cons.prems obtain n' where n: "n = Suc n'" "length ms \<le> n'" by (cases n) auto
  have "members_text (m # ms) = sized_text (valid_text k) @ sized_text (valid_text v) @ members_text ms"
    by (simp add: m members_text_def)
  moreover have "sized_text s \<noteq> []" for s by (simp add: sized_text_def)
  ultimately show ?case using n Cons.IH [OF n(2)] by (simp add: m json_members_def)
qed

lemma members_read_text: "members_read (members_text ms) = Some (json_members ms)"
proof -
  have "length ms \<le> length (members_text ms)"
    by (induction ms) (auto simp: members_text_def sized_text_def)
  then show ?thesis by (simp add: members_read_def read_members_text)
qed

definition text_env :: "(unit, string) env" where
  "text_env = \<lparr>ev_lib = undefined, ev_wire = std_wire, ev_json = members_text,
     ev_populate = (\<lambda>m ps hs q b c. (None, m)), ev_extractField = (\<lambda>m f. Inr m), ev_new = (\<lambda>t. ()),
     ev_asEvent = (\<lambda>m. None), ev_rfc3339 = (\<lambda>s. None), ev_now = 0\<rparr>"

lemma text_env_sel [simp]:
  "ev_wire text_env = std_wire" "ev_json text_env = members_text"
  by (simp_all add: text_env_def)

lemma FromHTTP_writeError_witness:
  "\<exists>e. FromHTTP std_wire members_read
        (response_of (writeError text_env
           (WrapError ''call: no'' (RpcError 5 ''no'' None (Some [(''X-A'', [''1''])]) []))
           plain_writer) ''404 Not Found'') = Some e \<and>
     err_code e = 5 \<and> Message e = ''no'' \<and> err_details e = []"
proof -
  let ?e = "WrapError ''call: no'' (RpcError 5 ''no'' None (Some [(''X-A'', [''1''])]) []) :: string goerror"
  have "canonical_key ''X-A'' = ''X-A''" "HeaderGrpcStatusDetails \<noteq> ''X-A''" "valid_text ''no'' = ''no''"
    by code_simp+
  moreover have "rpc_error ?e = RpcError 5 ''no'' None (Some [(''X-A'', [''1''])]) []"
    by (simp add: rpc_error_def)
  moreover have "status_Code (Some ?e) = 5" by (simp add: status_Code_def)
  moreover have "fresh_writer plain_writer" by (simp add: fresh_writer_def plain_writer_def)
  moreover have "(5::int) \<in> set all_codes" by code_simp
  ultimately show ?thesis
    using FromHTTP_writeError [of plain_writer text_env ?e members_read "''404 Not Found''"] std_wire_laws
    by (auto simp: members_read_text Message_def Meta_def details_ok_def)
qed

section \<open>Interceptors around a request\<close>

lemma request_ctx_meta:
  "Ctx_Meta (request_ctx ev h r params body) =
     \<lparr>mHeader = Some (rq_Header r), mQuery = rq_Query r, mBody = body, mCookies = rq_Cookies r, mParams = params\<rparr>"
  by (simp add: request_ctx_def Ctx_Meta_def NewCtx_def WithPeer_def WithSpec_def WithProtocol_def Let_def)

lemma NewHandler_sel [simp]:
  "h_operation (NewHandler e) = e" "h_spec (NewHandler e) = op_specCache e"
  "h_streamInterceptors (NewHandler e) = op_streamInterceptors e"
  by (simp_all add: NewHandler_def)

lemma authorizeStream_cases:
  "authorizeStream (NewHandler e) ctx =
     (if op_interceptors e = [] then (None, ctx)
      else case ChainUnaryInterceptors (op_interceptors e) (\<lambda>ctx req. (Inr None, snd ctx)) ctx None of
             (Inl err, st) \<Rightarrow> (Some err, (fst ctx, st))
           | (Inr _, st) \<Rightarrow> (None, (fst ctx, st)))"
  by (simp add: authorizeStream_def NewHandler_def)

text \<open>
  C34. What the whole chain of interceptors rejects never reaches the handler: if the interceptors, all of them, answer
  a request's context with an error whatever they are wrapped around, that error alone is written, for all four stream
  modes, wherever in the chain it comes from and whatever the earlier interceptors made of the context. A unary operation
  decodes the request first, so a bad request is answered before any interceptor sees it.
\<close>

theorem ServeHTTPWithParams_rejected:
  assumes "read_body (NewHandler e) r = Inr body" "ctx = request_ctx ev (NewHandler e) r params body"
    and "op_streamType e \<noteq> StreamTypeUnary \<longrightarrow>
      (\<forall>next. fst (ChainUnaryInterceptors (op_interceptors e) next ctx None) = Inl err)"
    and "op_streamType e = StreamTypeUnary \<longrightarrow>
      (\<forall>req next. fst (ChainUnaryInterceptors (op_interceptors e) next (SetRequest (Some (AnyRequest_Any req)) ctx) (Some req)) = Inl err)"
  shows "ServeHTTPWithParams ev (NewHandler e) r params s =
    (if op_streamType e \<noteq> StreamTypeUnary then on_writer (writeError ev err) s
     else if \<not> op_hasNewRequest e then panic s
     else on_writer (writeError ev
       (case newRequest (ev_populate ev) (ev_new ev) e ctx r params (codecFromRequest r (rq_Query r)) of
          Inl bad \<Rightarrow> bad | Inr req \<Rightarrow> err)) s)"
proof (cases "op_streamType e = StreamTypeUnary")
  case True
  with assms(4) have "fst (h_unary (NewHandler e) (SetRequest (Some (AnyRequest_Any req)) ctx) (Some req)) = Inl err" for req
    by (simp add: NewHandler_def)
  with True show ?thesis
    by (simp add: ServeHTTPWithParams_def assms(1,2) serveUnary_def Let_def split: sum.split)
next
  case False
  with assms(3) have reject: "fst (ChainUnaryInterceptors (op_interceptors e) next ctx None) = Inl err" for "next" by blast
  have "op_interceptors e \<noteq> []"
    using reject [of "\<lambda>_ _. (Inr None, None)"] by (auto simp: unary.chain_Nil)
  with reject [of "\<lambda>ctx req. (Inr None, snd ctx)"] obtain ctx' where
    "authorizeStream (NewHandler e) (request_ctx ev (NewHandler e) r params body) = (Some err, ctx')"
    unfolding authorizeStream_cases assms(2) [symmetric]
    by (cases "ChainUnaryInterceptors (op_interceptors e) (\<lambda>ctx req. (Inr None, snd ctx)) ctx None") auto
  with False show ?thesis
    by (cases "op_streamType e")
       (simp_all add: ServeHTTPWithParams_def assms(1) serveServerStream_def serveClientStream_def serveBidiStream_def Let_def)
qed

text \<open>
  C35. For a streaming operation the unary interceptors are a gate and nothing else. When they let
  every call through and leave the shared state alone, the request is served as if there were none:
  the handler sees nothing of the context they derive, so claims an authenticator attaches to it are lost.
\<close>

theorem ServeHTTPWithParams_gate:
  assumes "op_streamType e \<noteq> StreamTypeUnary"
    and "\<And>ctx. \<exists>x. ChainUnaryInterceptors (op_interceptors e) (\<lambda>ctx req. (Inr None, snd ctx)) ctx None = (Inr x, snd ctx)"
  shows "ServeHTTPWithParams ev (NewHandler e) r params s =
    ServeHTTPWithParams ev (NewHandler (e\<lparr>op_interceptors := []\<rparr>)) r params s"
proof -
  let ?h = "NewHandler e" and ?h' = "NewHandler (e\<lparr>op_interceptors := []\<rparr>)"
  have auth: "authorizeStream ?h ctx = (None, ctx)" for ctx
  proof -
    obtain x where "ChainUnaryInterceptors (op_interceptors e) (\<lambda>ctx req. (Inr None, snd ctx)) ctx None = (Inr x, snd ctx)"
      using assms(2) by blast
    then show ?thesis by (simp add: authorizeStream_cases)
  qed
  have auth': "authorizeStream ?h' ctx = (None, ctx)" for ctx
    by (simp add: authorizeStream_cases)
  have wrap: "wrapStream ?h' s = wrapStream ?h s" for s by (simp add: wrapStream_def)
  have new: "newRequest p n (e\<lparr>op_interceptors := []\<rparr>) = newRequest p n e" for p n
    by (rule ext)+ (simp add: newRequest_def Let_def cong: option.case_cong prod.case_cong sum.case_cong)
  have decode: "decodeRequest l n (e\<lparr>op_interceptors := []\<rparr>) = decodeRequest l n e" for l n
    by (rule ext)+ (simp add: decodeRequest_def Let_def cong: option.case_cong prod.case_cong sum.case_cong if_cong)
  have ws: "serveServerStreamWS ev ?h' = serveServerStreamWS ev ?h"
    by (rule ext)+ (simp add: serveServerStreamWS_def wrap decode Let_def cong: option.case_cong prod.case_cong sum.case_cong if_cong)
  have resp: "writeResponse ev ?h' = writeResponse ev ?h"
    by (rule ext)+ (simp add: writeResponse_def Let_def cong: option.case_cong prod.case_cong sum.case_cong if_cong)
  have ctx: "request_ctx ev ?h' = request_ctx ev ?h"
    by (rule ext)+ (simp add: request_ctx_def)
  have body: "read_body ?h' = read_body ?h"
    by (rule ext)+ (simp add: read_body_def)
  have "serveServerStream ev ?h = serveServerStream ev ?h'"
    by (rule ext)+ (simp add: serveServerStream_def auth auth' wrap new ws Let_def cong: option.case_cong prod.case_cong sum.case_cong if_cong)
  moreover have "serveClientStream ev ?h = serveClientStream ev ?h'"
    by (rule ext)+ (simp add: serveClientStream_def auth auth' wrap resp Let_def cong: option.case_cong prod.case_cong sum.case_cong if_cong)
  moreover have "serveBidiStream ev ?h = serveBidiStream ev ?h'"
    by (rule ext)+ (simp add: serveBidiStream_def auth auth' wrap Let_def cong: option.case_cong prod.case_cong sum.case_cong if_cong)
  ultimately show ?thesis
    using assms(1) by (cases "op_streamType e") (simp_all add: ServeHTTPWithParams_def ctx body Let_def
      cong: option.case_cong prod.case_cong sum.case_cong if_cong StreamType.case_cong)
qed

definition text_conn :: "string conn_state" where
  "text_conn = \<lparr>cn_writer = plain_writer, cn_flusher = True, cn_body = \<lparr>rd_bytes = [], rd_end = EOF\<rparr>,
     cn_accept = Inl (PlainError ''no upgrade''), cn_ws = None, cn_panic = False\<rparr>"

definition text_request :: "(unit, string) HttpRequest" where
  "text_request = \<lparr>rq_Method = ''POST'', rq_Path = ''/'', rq_Query = None, rq_Header = [], rq_Cookies = [],
     rq_Body = None, rq_ProtoMajor = 1, rq_Proto = ''HTTP/1.1'', rq_RemoteAddr = [],
     rq_Context = \<lparr>ctxDeadline = None, requestMetaValue = None, claimsValue = None, otherValues = (\<lambda>k. None)\<rparr>\<rparr>"

definition echo_stream :: "(unit, unit, string, string conn_state) clientStreamFunc" where
  "echo_stream ctx stream s = (Inr (Some (NewResponse ())), s)"

definition guarded :: "(unit, unit, string) UnaryInterceptor list \<Rightarrow> (unit, unit, string, string conn_state) Operation" where
  "guarded is = empty_operation
     \<lparr>op_streamType := StreamTypeClient, op_clientStream := Some echo_stream, op_interceptors := is\<rparr>"

definition signs_in :: "(unit, unit, string) UnaryInterceptor" where
  "signs_in nxt ctx req = nxt ((fst ctx)\<lparr>claimsValue := Some ()\<rparr>, snd ctx) req"

definition guests_only :: "(unit, unit, string) UnaryInterceptor" where
  "guests_only nxt ctx req =
     (if claimsValue (fst ctx) = None then nxt ctx req else (Inl (NewErrorf CodePermissionDenied ''no''), snd ctx))"

lemma ServeHTTPWithParams_rejected_witness:
  "ServeHTTPWithParams text_env (NewHandler (guarded [signs_in, guests_only])) text_request None text_conn =
    on_writer (writeError text_env (NewErrorf CodePermissionDenied ''no'')) text_conn"
proof -
  have "ChainUnaryInterceptors [signs_in, guests_only] nxt ctx req =
      (Inl (NewErrorf CodePermissionDenied ''no''), snd ctx)" for nxt ctx req
    by (simp add: ChainUnaryInterceptors_def signs_in_def guests_only_def)
  then show ?thesis
    using ServeHTTPWithParams_rejected [of "guarded [signs_in, guests_only]" text_request None
        "request_ctx text_env (NewHandler (guarded [signs_in, guests_only])) text_request None None" text_env None
        "NewErrorf CodePermissionDenied ''no''" text_conn]
    by (simp add: guarded_def read_body_def)
qed

lemma ServeHTTPWithParams_gate_witness:
  "ServeHTTPWithParams text_env (NewHandler (guarded [\<lambda>nxt ctx req. nxt ((fst ctx)\<lparr>claimsValue := Some ()\<rparr>, snd ctx) req]))
      text_request None text_conn =
   ServeHTTPWithParams text_env (NewHandler (guarded [])) text_request None text_conn"
  using ServeHTTPWithParams_gate
    [of "guarded [\<lambda>nxt ctx req. nxt ((fst ctx)\<lparr>claimsValue := Some ()\<rparr>, snd ctx) req]"
      text_env text_request None text_conn]
  by (simp add: guarded_def ChainUnaryInterceptors_def)

end
