(* ===== verification/PopulateSpec.thy ===== *)
theory PopulateSpec
  imports Populate "HOL-Library.Multiset"
begin

text \<open>
  Properties of the reflection on messages: the field cache is invisible, a message survives its trip
  through a query, and two ways in which the reflection path differs from the generated one.
\<close>

fun lookups :: "'f types \<Rightarrow> field_cache \<Rightarrow> (string \<times> string) list \<Rightarrow> nat option list" where
  "lookups T c [] = []"
| "lookups T c ((s, nm) # ks) = (let (i, c') = field_index_cached T c s nm in i # lookups T c' ks)"

definition cache_ok :: "'f types \<Rightarrow> field_cache \<Rightarrow> bool" where
  "cache_ok T c = (\<forall>s nm idx. c (s, nm) = Some idx \<longrightarrow> idx = field_index T s nm)"

lemma cached_ok: "cache_ok T c \<Longrightarrow> field_index_cached T c s nm = (i, c') \<Longrightarrow> i = field_index T s nm \<and> cache_ok T c'"
  by (auto simp: cache_ok_def field_index_cached_def Let_def split: option.splits if_splits)

lemma lookups_ok: "cache_ok T c \<Longrightarrow> lookups T c ks = map (\<lambda>(s, nm). field_index T s nm) ks"
proof (induction ks arbitrary: c)
  case Nil
  show ?case by simp
next
  case (Cons k ks)
  obtain s nm where k: "k = (s, nm)" by (cases k)
  obtain i c' where "field_index_cached T c s nm = (i, c')" by fastforce
  with cached_ok [OF Cons.prems this] Cons.IH [of c'] show ?case by (simp add: k)
qed

text \<open>
  The cache of field positions is invisible: whatever fields of whatever types are looked up one
  after the other, misses included, each answer is that of a scan of the struct type.
\<close>

theorem field_cache_transparent:
  "lookups T Map.empty ks = map (\<lambda>(s, nm). field_index T s nm) ks"
  by (rule lookups_ok) (simp add: cache_ok_def)

lemma find_index_from_Some:
  "find_index_from k P xs = Some i \<Longrightarrow> k \<le> i \<and> i < k + length xs \<and> P (xs ! (i - k)) \<and> (\<forall>j. k \<le> j \<and> j < i \<longrightarrow> \<not> P (xs ! (j - k)))"
proof (induction k P xs rule: find_index_from.induct)
  case (1 k P)
  then show ?case by simp
next
  case (2 k P x xs)
  show ?case
  proof (cases "P x")
    case True
    with "2.prems" show ?thesis by auto
  next
    case False
    with 2 have "Suc k \<le> i \<and> i < Suc k + length xs \<and> P (xs ! (i - Suc k)) \<and>
        (\<forall>j. Suc k \<le> j \<and> j < i \<longrightarrow> \<not> P (xs ! (j - Suc k)))" by simp
    with False show ?thesis
      by (auto simp: nth_Cons' less_Suc_eq_le Suc_le_eq)
  qed
qed

lemma find_index_from_unique:
  assumes "i < length xs" "P (xs ! i)" "\<And>j. j < length xs \<Longrightarrow> P (xs ! j) \<Longrightarrow> j = i"
  shows "find_index_from 0 P xs = Some i"
proof -
  have "find_index_from k P xs = None \<Longrightarrow> \<forall>x \<in> set xs. \<not> P x" for k
    by (induction k P xs rule: find_index_from.induct) (auto split: if_splits)
  then have "find_index_from 0 P xs \<noteq> None" using assms(1,2) nth_mem by blast
  then obtain j where j: "find_index_from 0 P xs = Some j" by blast
  from find_index_from_Some [OF this] have "j < length xs" "P (xs ! j)" by simp_all
  with assms(3) j show ?thesis by simp
qed

section \<open>Setting one field\<close>

lemma FindField_struct:
  "FindField G T (VPtr t (Some (VStruct s fs))) nm =
     (case field_index T s nm of
        Some i \<Rightarrow> (Some (s, fs, i), VPtr t (Some (VStruct s fs)))
      | None \<Rightarrow> (None, VPtr t (Some (VStruct s fs))))"
  by (simp add: FindField_def Let_def)

lemma setFieldStrings_field:
  assumes "CHR ''.'' \<notin> set nm" "field_index T s nm = Some i" "vals \<noteq> []"
    and "set_strings G T vals (fs ! i) = (Done :: 'd set_result, w)"
  shows "setFieldStrings G T nm vals strict (VPtr t (Some (VStruct s fs))) =
    (None :: 'd goerror option, VPtr t (Some (VStruct s (fs[i := w]))))"
  using assms
  by (simp add: setFieldStrings_def split_byte_absent FindField_struct strict_result_def)

lemma setFieldString_field:
  assumes "CHR ''.'' \<notin> set nm" "field_index T s nm = Some i"
    and "setStringValue G T val (fs ! i) = (Done :: 'd set_result, w)"
  shows "setFieldString G T nm val strict (VPtr t (Some (VStruct s fs))) =
    (None :: 'd goerror option, VPtr t (Some (VStruct s (fs[i := w]))))"
  using assms
  by (simp add: setFieldString_def split_byte_absent FindField_struct strict_result_def)

lemma set_query_fields:
  assumes "distinct (map fst q)" "list_all (\<lambda>(nm, vals). \<not> skip nm \<and> CHR ''.'' \<notin> set nm \<and> vals \<noteq> [] \<and>
      (\<exists>i. field_index T s nm = Some i \<and> i < length fs \<and> set_strings G T vals (fs ! i) = (Done :: 'd set_result, target i))) q"
    and inj: "inj_on (field_index T s) (fst ` set q)"
  shows "set_query G T skip q (VPtr t (Some (VStruct s fs))) =
    (None :: 'd goerror option, VPtr t (Some (VStruct s
      (map (\<lambda>i. if Some i \<in> field_index T s ` fst ` set q then target i else fs ! i) [0..<length fs]))))"
  using assms
proof (induction q arbitrary: fs)
  case Nil
  then show ?case by (simp add: map_nth)
next
  case (Cons x q)
  obtain nm vals where x: "x = (nm, vals)" by (cases x)
  from Cons.prems(2) x obtain i where i: "\<not> skip nm" "CHR ''.'' \<notin> set nm" "vals \<noteq> []"
    "field_index T s nm = Some i" "i < length fs" "set_strings G T vals (fs ! i) = (Done :: 'd set_result, target i)" by auto
  note set = setFieldStrings_field [OF i(2,4,3,6), of False t]
  let ?fs = "fs[i := target i]"
  have other: "field_index T s nm' \<noteq> Some i" if "nm' \<in> fst ` set q" for nm'
  proof
    assume "field_index T s nm' = Some i"
    with i(4) inj_onD [OF Cons.prems(3), of nm' nm] that x have "nm' = nm" by auto
    with that Cons.prems(1) x show False by auto
  qed
  have "set_query G T skip q (VPtr t (Some (VStruct s ?fs))) =
      (None :: 'd goerror option, VPtr t (Some (VStruct s
        (map (\<lambda>i. if Some i \<in> field_index T s ` fst ` set q then target i else ?fs ! i) [0..<length ?fs]))))"
  proof (rule Cons.IH)
    show "distinct (map fst q)" "inj_on (field_index T s) (fst ` set q)"
      using Cons.prems(1,3) by (auto simp: inj_on_def)
    show "list_all (\<lambda>(nm, vals). \<not> skip nm \<and> CHR ''.'' \<notin> set nm \<and> vals \<noteq> [] \<and>
      (\<exists>j. field_index T s nm = Some j \<and> j < length ?fs \<and> set_strings G T vals (?fs ! j) = (Done :: 'd set_result, target j))) q"
      unfolding list_all_iff
    proof
      fix y assume y: "y \<in> set q"
      obtain nm' vals' where y': "y = (nm', vals')" by (cases y)
      have "list_all (\<lambda>(nm, vals). \<not> skip nm \<and> CHR ''.'' \<notin> set nm \<and> vals \<noteq> [] \<and>
          (\<exists>i. field_index T s nm = Some i \<and> i < length fs \<and>
            set_strings G T vals (fs ! i) = (Done :: 'd set_result, target i))) q"
        using Cons.prems(2) by simp
      with y y' obtain j where j: "\<not> skip nm'" "CHR ''.'' \<notin> set nm'" "vals' \<noteq> []"
        "field_index T s nm' = Some j" "j < length fs"
        "set_strings G T vals' (fs ! j) = (Done :: 'd set_result, target j)"
        unfolding list_all_iff by blast
      moreover from other [of nm'] y y' j(4) have "j \<noteq> i" by force
      ultimately show "case y of (nm, vals) \<Rightarrow> \<not> skip nm \<and> CHR ''.'' \<notin> set nm \<and> vals \<noteq> [] \<and>
          (\<exists>j. field_index T s nm = Some j \<and> j < length ?fs \<and>
            set_strings G T vals (?fs ! j) = (Done :: 'd set_result, target j))"
        by (simp add: y')
    qed
  qed
  moreover have "map (\<lambda>j. if Some j \<in> field_index T s ` fst ` set q then target j else ?fs ! j) [0..<length ?fs] =
      map (\<lambda>j. if Some j \<in> field_index T s ` fst ` set (x # q) then target j else fs ! j) [0..<length fs]"
    using i(4,5) x by (intro map_cong) (auto simp: nth_list_update)
  ultimately show ?case using set i(1) by (simp add: x)
qed

section \<open>Values that survive a query\<close>

fun scalar_ok :: "'f gval \<Rightarrow> bool" where
  "scalar_ok (VString s) = True"
| "scalar_ok (VBool b) = True"
| "scalar_ok (VInt b i) = (0 < b \<and> b \<le> 64 \<and> - (2 ^ (b - 1)) \<le> i \<and> i < 2 ^ (b - 1))"
| "scalar_ok (VUint b n) = (b \<le> 64 \<and> n < 2 ^ b)"
| "scalar_ok v = False"

fun query_ok :: "'f gval \<Rightarrow> bool" where
  "query_ok (VPtr t None) = True"
| "query_ok (VPtr t (Some v)) = (scalar_ok v \<and> type_of v = t)"
| "query_ok (VSlice t vs) = list_all (\<lambda>v. scalar_ok v \<and> type_of v = t) vs"
| "query_ok v = scalar_ok v"

fun field_vals :: "'f golib \<Rightarrow> 'f gval \<Rightarrow> string list" where
  \<comment> \<open>the values a field puts into the query\<close>
  "field_vals G (VPtr t None) = []"
| "field_vals G (VPtr t (Some (VSlice t' vs))) = map (value_string G) vs"
| "field_vals G (VPtr t (Some v)) = [value_string G v]"
| "field_vals G (VSlice t vs) = map (value_string G) vs"
| "field_vals G v = [value_string G v]"

lemma wrap_int_id:
  assumes "0 < b" "- (2 ^ (b - 1)) \<le> i" "i < 2 ^ (b - 1)"
  shows "wrap_int b i = i"
proof -
  have "(2::int) ^ b = 2 * 2 ^ (b - 1)" using assms(1) by (cases b) simp_all
  with assms show ?thesis by (simp add: wrap_int_def)
qed

lemma scalar_value_string:
  assumes "scalar_ok v"
  shows "scalar_value G T (value_string G v) (zero G T (type_of v)) = Inr v"
proof (cases v)
  case (VInt b i)
  have "b \<le> 64" using assms VInt by simp
  then have "(2::int) ^ (b - 1) \<le> 2 ^ 63" by (intro power_increasing) auto
  with assms VInt have "parse_int (format_int i) 64 = Inr i" by (intro parse_int_format) auto
  with assms VInt show ?thesis
    by (simp add: scalar_value_def value_string_def reflectValueToString_def as_error_def wrap_int_id)
next
  case (VUint b n)
  have "(2::nat) ^ b \<le> 2 ^ 64" using assms VUint by (intro power_increasing) simp_all
  with assms VUint have "parse_uint (format_nat n) 64 = Inr n" by (intro parse_uint_format) simp
  with assms VUint show ?thesis
    by (simp add: scalar_value_def value_string_def reflectValueToString_def as_error_def)
qed (use assms in \<open>auto simp: scalar_value_def value_string_def reflectValueToString_def as_error_def ParseBool_def\<close>)

lemma scalar_settle [simp]:
  assumes "scalar_ok v"
  shows "settle G T (zero G T (type_of v)) = zero G T (type_of v)"
    "inner (zero G T (type_of v)) = zero G T (type_of v)"
    "set_inner (zero G T (type_of v)) w = w" "settle_new G T (type_of v) = zero G T (type_of v)"
  using assms by (cases v; simp)+

lemma setStringValue_scalar:
  "scalar_ok v \<Longrightarrow> setStringValue G T (value_string G v) (zero G T (type_of v)) = (Done, v)"
  by (simp add: setStringValue_def scalar_value_string)

lemma set_elems_scalars:
  "list_all (\<lambda>v. scalar_ok v \<and> type_of v = t) vs \<Longrightarrow> set_elems G T t (map (value_string G) vs) = Inr vs"
  by (induction vs) (auto simp: setStringValue_scalar)

lemma set_strings_scalar:
  assumes "scalar_ok v"
  shows "set_strings G T [value_string G v] (zero G T (type_of v)) = (Done, v)"
  using setStringValue_scalar [OF assms, of G T] assms by (cases v) (simp_all add: set_strings_def)

lemma set_strings_vals:
  assumes "query_ok v" "field_vals G v \<noteq> []"
  shows "set_strings G T (field_vals G v) (zero G T (type_of v)) = (Done, v)"
proof (cases v)
  case (VPtr t w)
  with assms obtain u where u: "w = Some u" "scalar_ok u" "type_of u = t" by (cases w) auto
  then have "field_vals G v = [value_string G u]" using VPtr by (cases u) auto
  then show ?thesis using u VPtr
    by (auto simp: set_strings_def setStringValue_def scalar_value_string)
next
  case (VSlice t vs)
  with assms show ?thesis by (simp add: set_strings_def set_elems_scalars)
qed (use assms set_strings_scalar [of v G T] in auto)

lemma no_vals: "query_ok v \<Longrightarrow> field_vals G v = [] \<Longrightarrow> zero G T (type_of v) = v"
  by (cases v rule: query_ok.cases) (auto elim: scalar_ok.elims)


section \<open>The query of a message\<close>

lemma query_add_fold:
  assumes "nm \<notin> fst ` set q"
  shows "fold (\<lambda>e q. query_add q nm (f e)) vs q = (if vs = [] then q else q @ [(nm, map f vs)])"
proof (induction vs rule: rev_induct)
  case Nil
  show ?case by simp
next
  case (snoc v vs)
  have none: "map_of q nm = None" using assms by (simp add: map_of_eq_None_iff)
  show ?case
  proof (cases "vs = []")
    case True
    then show ?thesis using none assms by (simp add: query_add_def alist_put_new)
  next
    case False
    with snoc none assms show ?thesis by (simp add: query_add_def alist_put_last map_add_def)
  qed
qed

lemma field_query_append:
  assumes "nm \<notin> fst ` set q"
  shows "field_query G nm fv q = (if field_vals G fv = [] then q else q @ [(nm, field_vals G fv)])"
  using assms
  by (cases "(G, fv)" rule: field_vals.cases)
     (simp_all add: field_query_def query_add_fold alist_put_new)

definition entries :: "'f golib \<Rightarrow> string list \<Rightarrow> field list \<Rightarrow> 'f gval list \<Rightarrow> header" where
  "entries G bound sfs fvs =
     [(ProtoName sf, field_vals G fv). (sf, fv) \<leftarrow> zip sfs fvs,
        fl_exported sf \<and> ProtoName sf \<notin> set bound \<and> field_vals G fv \<noteq> []]"

lemma fields_query_entries:
  "distinct (map ProtoName (filter fl_exported sfs)) \<Longrightarrow>
   (\<forall>sf \<in> set sfs. fl_exported sf \<longrightarrow> ProtoName sf \<notin> fst ` set q) \<Longrightarrow>
   fields_query G bound sfs fvs q = q @ entries G bound sfs fvs"
proof (induction G bound sfs fvs q rule: fields_query.induct)
  case (1 G bound sf sfs fv fvs q)
  show ?case
  proof (cases "\<not> fl_exported sf \<or> ProtoName sf \<in> set bound")
    case True
    with 1 show ?thesis by (auto simp: entries_def split: if_splits)
  next
    case False
    with "1.prems" have new: "ProtoName sf \<notin> fst ` set q" by simp
    have "ProtoName sf' \<noteq> ProtoName sf" if "sf' \<in> set sfs" "fl_exported sf'" for sf'
      using "1.prems"(1) False that by (auto simp: image_iff)
    then have "\<forall>sf' \<in> set sfs. fl_exported sf' \<longrightarrow> ProtoName sf' \<notin> fst ` set (field_query G (ProtoName sf) fv q)"
      using "1.prems" False by (auto simp: field_query_append [OF new])
    with 1 False show ?thesis by (simp add: field_query_append [OF new] entries_def)
  qed
qed (simp_all add: entries_def)

lemma json_tag_takeWhile: "json_tag sf = takeWhile (\<lambda>c. c \<noteq> CHR '','') (fl_json sf)"
proof (cases "index_byte (fl_json sf) CHR '',''")
  case None
  then have "takeWhile (\<lambda>c. c \<noteq> CHR '','') (fl_json sf) = fl_json sf"
    by (auto simp: takeWhile_eq_all_conv index_byte_None)
  then show ?thesis unfolding json_tag_def None option.case by (rule sym)
next
  case (Some i)
  note i = index_byte_Some [OF Some]
  have "takeWhile (\<lambda>c. c \<noteq> CHR '','') (fl_json sf) = take i (fl_json sf)"
    using i by (subst takeWhile_eq_take_P_nth [of i]) (auto simp: in_set_conv_nth)
  with Some show ?thesis by (simp add: json_tag_def)
qed

lemma ProtoName_tag: "json_tag sf \<noteq> [] \<Longrightarrow> json_tag sf \<noteq> ''-'' \<Longrightarrow> ProtoName sf = json_tag sf"
  by (simp add: ProtoName_def json_tag_takeWhile Let_def)

lemma distinct_filter_nth:
  "distinct (map f (filter P xs)) \<Longrightarrow> i < length xs \<Longrightarrow> j < length xs \<Longrightarrow> P (xs ! i) \<Longrightarrow> P (xs ! j) \<Longrightarrow>
   f (xs ! i) = f (xs ! j) \<Longrightarrow> i = j"
proof (induction xs arbitrary: i j)
  case Nil
  then show ?case by simp
next
  case (Cons x xs)
  have new: "f y \<noteq> f x" if "P x" "y \<in> set xs" "P y" for y using Cons.prems(1) that by (auto simp: image_iff)
  have rest: "distinct (map f (filter P xs))" using Cons.prems(1) by (simp split: if_splits)
  show ?case
  proof (cases i; cases j)
    fix i' j' assume ij: "i = Suc i'" "j = Suc j'"
    then have "i' = j'" using Cons.prems Cons.IH [OF rest, of i' j'] by simp
    with ij show ?thesis by simp
  next
    fix j' assume ij: "i = 0" "j = Suc j'"
    with Cons.prems new [of "xs ! j'"] show ?thesis by simp
  next
    fix i' assume ij: "i = Suc i'" "j = 0"
    with Cons.prems new [of "xs ! i'"] show ?thesis by simp
  qed simp
qed

definition tags_ok :: "'f types \<Rightarrow> string \<Rightarrow> bool" where
  \<comment> \<open>what \<open>protoc-gen-go\<close> gives every field of a message\<close>
  "tags_ok T s =
     ((\<forall>sf \<in> set (fields_of T s). fl_exported sf \<longrightarrow>
        json_tag sf \<noteq> [] \<and> json_tag sf \<noteq> ''-'' \<and> CHR ''.'' \<notin> set (json_tag sf)) \<and>
      distinct (map json_tag (filter fl_exported (fields_of T s))))"

lemma field_index_tag:
  assumes "tags_ok T s" "i < length (fields_of T s)" "fl_exported (fields_of T s ! i)"
  shows "field_index T s (json_tag (fields_of T s ! i)) = Some i"
  unfolding field_index_def
proof (rule find_index_from_unique)
  show "i < length (fields_of T s)" by fact
  show "field_named (json_tag (fields_of T s ! i)) (fields_of T s ! i)"
    using assms(3) by (simp add: field_named_def)
next
  fix j assume j: "j < length (fields_of T s)" "field_named (json_tag (fields_of T s ! i)) (fields_of T s ! j)"
  then have "json_tag (fields_of T s ! j) = json_tag (fields_of T s ! i)" "fl_exported (fields_of T s ! j)"
    using assms(1) by (auto simp: field_named_def tags_ok_def)
  with assms j show "j = i" by (intro distinct_filter_nth [of json_tag fl_exported "fields_of T s"]) (auto simp: tags_ok_def)
qed

lemma tags_ok_names: "tags_ok T s \<Longrightarrow> distinct (map ProtoName (filter fl_exported (fields_of T s)))"
proof -
  assume ok: "tags_ok T s"
  then have "map ProtoName (filter fl_exported (fields_of T s)) = map json_tag (filter fl_exported (fields_of T s))"
    by (intro map_cong) (auto simp: tags_ok_def ProtoName_tag)
  then show ?thesis using ok unfolding tags_ok_def by (subst \<open>map ProtoName _ = _\<close>) blast
qed


lemma entries_mem:
  assumes "length fvs = length sfs"
  shows "(nm, vals) \<in> set (entries G bound sfs fvs) \<longleftrightarrow>
    (\<exists>i < length sfs. fl_exported (sfs ! i) \<and> ProtoName (sfs ! i) \<notin> set bound \<and> nm = ProtoName (sfs ! i) \<and>
      vals = field_vals G (fvs ! i) \<and> vals \<noteq> [])"
proof -
  have "(nm, vals) \<in> set (entries G bound sfs fvs) \<longleftrightarrow>
      (\<exists>(sf, fv) \<in> set (zip sfs fvs). fl_exported sf \<and> ProtoName sf \<notin> set bound \<and> nm = ProtoName sf \<and>
        vals = field_vals G fv \<and> vals \<noteq> [])"
    by (auto simp: entries_def)
  then show ?thesis using assms by (auto simp: set_zip)
qed

lemma entries_distinct:
  "distinct (map ProtoName (filter fl_exported sfs)) \<Longrightarrow> distinct (map fst (entries G bound sfs fvs))"
proof (induction sfs arbitrary: fvs)
  case Nil
  show ?case by (simp add: entries_def)
next
  case (Cons sf sfs)
  show ?case
  proof (cases fvs)
    case Nil
    then show ?thesis by (simp add: entries_def)
  next
    case (Cons fv fvs')
    have "distinct (map ProtoName (filter fl_exported sfs))" using Cons.prems by (simp split: if_splits)
    note IH = Cons.IH [OF this, of fvs']
    have "ProtoName sf \<notin> fst ` set (entries G bound sfs fvs')" if "fl_exported sf"
      using Cons.prems that by (auto simp: entries_def image_iff dest: set_zip_leftD)
    with IH show ?thesis by (auto simp: \<open>fvs = _\<close> entries_def)
  qed
qed

definition visible :: "'f types \<Rightarrow> string list \<Rightarrow> string \<Rightarrow> nat \<Rightarrow> bool" where
  "visible T bound s i = (fl_exported (fields_of T s ! i) \<and> json_tag (fields_of T s ! i) \<notin> set bound)"

definition queryable :: "'f golib \<Rightarrow> 'f types \<Rightarrow> string list \<Rightarrow> string \<Rightarrow> 'f gval list \<Rightarrow> bool" where
  \<comment> \<open>the fields a query has to carry are strings, booleans and integers, pointers to these, and
      slices of these\<close>
  "queryable G T bound s fs =
     (tags_ok T s \<and> length fs = length (fields_of T s) \<and> length (zero_fields T s) = length fs \<and>
      (\<forall>i < length fs. visible T bound s i \<longrightarrow>
         query_ok (fs ! i) \<and> zero_fields T s ! i = zero G T (type_of (fs ! i))))"

lemma queryable_names:
  assumes "queryable G T bound s fs" "i < length fs" "fl_exported (fields_of T s ! i)"
  shows "ProtoName (fields_of T s ! i) = json_tag (fields_of T s ! i)"
    "CHR ''.'' \<notin> set (json_tag (fields_of T s ! i))"
    "field_index T s (json_tag (fields_of T s ! i)) = Some i"
proof -
  have sf: "fields_of T s ! i \<in> set (fields_of T s)" and ok: "tags_ok T s"
    using assms by (simp_all add: queryable_def)
  with assms(3) show "ProtoName (fields_of T s ! i) = json_tag (fields_of T s ! i)"
    "CHR ''.'' \<notin> set (json_tag (fields_of T s ! i))"
    unfolding tags_ok_def using ProtoName_tag by blast+
  show "field_index T s (json_tag (fields_of T s ! i)) = Some i"
    using field_index_tag [OF ok] assms by (simp add: queryable_def)
qed

lemma query_entry:
  assumes "queryable G T bound s fs"
  shows "(nm, vals) \<in> set (entries G bound (fields_of T s) fs) \<longleftrightarrow>
    (\<exists>i < length fs. visible T bound s i \<and> nm = json_tag (fields_of T s ! i) \<and>
      vals = field_vals G (fs ! i) \<and> vals \<noteq> [])"
proof -
  have len: "length fs = length (fields_of T s)" using assms by (simp add: queryable_def)
  show ?thesis
    unfolding entries_mem [OF len] visible_def len [symmetric]
    using queryable_names(1) [OF assms] by (metis (no_types, lifting))
qed

lemma query_entry_set:
  assumes "queryable G T bound s fs" "(nm, vals) \<in> set (entries G bound (fields_of T s) fs)"
  shows "nm \<notin> set bound \<and> CHR ''.'' \<notin> set nm \<and> vals \<noteq> [] \<and>
    (\<exists>i. field_index T s nm = Some i \<and> i < length (zero_fields T s) \<and>
      set_strings G T vals (zero_fields T s ! i) = (Done :: 'd set_result, fs ! i))"
proof -
  from assms obtain i where i: "i < length fs" "visible T bound s i" "nm = json_tag (fields_of T s ! i)"
    "vals = field_vals G (fs ! i)" "vals \<noteq> []" unfolding query_entry [OF assms(1)] by blast
  with assms(1) have "query_ok (fs ! i)" "zero_fields T s ! i = zero G T (type_of (fs ! i))"
    "length (zero_fields T s) = length fs" by (auto simp: queryable_def)
  with i set_strings_vals [of "fs ! i" G T] queryable_names(2,3) [OF assms(1) i(1)] show ?thesis
    by (simp add: visible_def)
qed

lemma query_entry_index:
  assumes "queryable G T bound s fs" "nm \<in> fst ` set (entries G bound (fields_of T s) fs)"
  shows "\<exists>i < length fs. visible T bound s i \<and> field_vals G (fs ! i) \<noteq> [] \<and>
    field_index T s nm = Some i \<and> nm = json_tag (fields_of T s ! i)"
proof -
  from assms(2) obtain vals where "(nm, vals) \<in> set (entries G bound (fields_of T s) fs)" by auto
  then obtain i where "i < length fs" "visible T bound s i" "nm = json_tag (fields_of T s ! i)"
    "vals = field_vals G (fs ! i)" "vals \<noteq> []" unfolding query_entry [OF assms(1)] by blast
  with queryable_names(3) [OF assms(1)] show ?thesis by (auto simp: visible_def)
qed

lemma query_entry_of_index:
  assumes "queryable G T bound s fs" "i < length fs"
  shows "Some i \<in> field_index T s ` fst ` set (entries G bound (fields_of T s) fs) \<longleftrightarrow>
    visible T bound s i \<and> field_vals G (fs ! i) \<noteq> []"
proof
  assume "Some i \<in> field_index T s ` fst ` set (entries G bound (fields_of T s) fs)"
  then obtain nm where nm: "nm \<in> fst ` set (entries G bound (fields_of T s) fs)" "field_index T s nm = Some i"
    by (metis imageE)
  from query_entry_index [OF assms(1) nm(1)] nm(2) show "visible T bound s i \<and> field_vals G (fs ! i) \<noteq> []" by auto
next
  assume i: "visible T bound s i \<and> field_vals G (fs ! i) \<noteq> []"
  then have "(json_tag (fields_of T s ! i), field_vals G (fs ! i)) \<in> set (entries G bound (fields_of T s) fs)"
    unfolding query_entry [OF assms(1)] using assms(2) by blast
  moreover have "field_index T s (json_tag (fields_of T s ! i)) = Some i"
    using queryable_names(3) [OF assms] i by (simp add: visible_def)
  ultimately show "Some i \<in> field_index T s ` fst ` set (entries G bound (fields_of T s) fs)"
    by (metis fst_conv imageI)
qed

lemma set_query_MessageToQuery:
  assumes "queryable G T bound s fs"
    and "mset q = mset (MessageToQuery G T (VPtr t (Some (VStruct s fs))) bound)"
    and "length z = length fs" "\<And>i. i < length fs \<Longrightarrow> visible T bound s i \<Longrightarrow> z ! i = zero_fields T s ! i"
    and "\<And>nm. nm \<notin> set bound \<Longrightarrow> (\<exists>i < length fs. visible T bound s i \<and> nm = json_tag (fields_of T s ! i)) \<Longrightarrow> \<not> skip nm"
  shows "set_query G T skip q (VPtr t (Some (VStruct s z))) =
    (None :: 'd goerror option, VPtr t (Some (VStruct s
      (map (\<lambda>i. if visible T bound s i then fs ! i else z ! i) [0..<length fs]))))"
proof -
  let ?sfs = "fields_of T s"
  have ok: "tags_ok T s" "length (zero_fields T s) = length fs"
    using assms(1) by (auto simp: queryable_def)
  have "MessageToQuery G T (VPtr t (Some (VStruct s fs))) bound = entries G bound ?sfs fs"
    using fields_query_entries [OF tags_ok_names [OF ok(1)], of "[]" G bound fs]
    by (simp add: MessageToQuery_def struct_behind_def)
  with assms(2) have q: "mset q = mset (entries G bound ?sfs fs)" by simp
  then have set_q: "set q = set (entries G bound ?sfs fs)" by (metis set_mset_mset)
  have dist: "distinct (map fst q)"
    using q entries_distinct [OF tags_ok_names [OF ok(1)]] by (metis mset_map mset_eq_imp_distinct_iff)
  have all: "list_all (\<lambda>(nm, vals). \<not> skip nm \<and> CHR ''.'' \<notin> set nm \<and> vals \<noteq> [] \<and>
      (\<exists>i. field_index T s nm = Some i \<and> i < length z \<and>
        set_strings G T vals (z ! i) = (Done :: 'd set_result, fs ! i))) q"
    unfolding list_all_iff set_q
  proof clarify
    fix nm vals assume mem: "(nm, vals) \<in> set (entries G bound ?sfs fs)"
    then have mem': "nm \<in> fst ` set (entries G bound ?sfs fs)" by force
    from query_entry_index [OF assms(1) mem'] obtain i where i: "i < length fs" "visible T bound s i"
      "field_index T s nm = Some i" "nm = json_tag (?sfs ! i)" by blast
    note entry = query_entry_set [OF assms(1) mem]
    from i assms(5) entry have "\<not> skip nm" by blast
    moreover have "set_strings G T vals (z ! i) = (Done :: 'd set_result, fs ! i)"
      using entry i assms(4) [OF i(1,2)] by auto
    ultimately show "\<not> skip nm \<and> CHR ''.'' \<notin> set nm \<and> vals \<noteq> [] \<and>
      (\<exists>i. field_index T s nm = Some i \<and> i < length z \<and> set_strings G T vals (z ! i) = (Done :: 'd set_result, fs ! i))"
      using entry i assms(3) by auto
  qed
  have inj: "inj_on (field_index T s) (fst ` set q)"
    unfolding set_q using query_entry_index [OF assms(1)] by (intro inj_onI) (metis option.inject)
  have "map (\<lambda>i. if Some i \<in> field_index T s ` fst ` set q then fs ! i else z ! i) [0..<length z] =
      map (\<lambda>i. if visible T bound s i then fs ! i else z ! i) [0..<length fs]"
    unfolding set_q assms(3)
  proof (intro map_cong refl)
    fix i assume "i \<in> set [0..<length fs]"
    then have i: "i < length fs" by simp
    have "z ! i = fs ! i" if "visible T bound s i" "field_vals G (fs ! i) = []"
      using assms(1,4) i that no_vals [of "fs ! i" G T] by (simp add: queryable_def)
    then show "(if Some i \<in> field_index T s ` fst ` set (entries G bound ?sfs fs) then fs ! i else z ! i) =
        (if visible T bound s i then fs ! i else z ! i)"
      unfolding query_entry_of_index [OF assms(1) i] by auto
  qed
  with set_query_fields [OF dist all inj, of t] show ?thesis by simp
qed

text \<open>
  A request sent as a query arrives unharmed. For a message whose unbound fields are strings,
  booleans, integers of any width, pointers to them or slices of them, the server fills an empty message from the query
  the client made of it, in whatever order it visits the query's keys: every field that is not
  path-bound has the client's value, and the path-bound ones are left for the path.
\<close>

theorem PopulateQuery_MessageToQuery:
  assumes "queryable G T bound s fs"
    and "mset q = mset (MessageToQuery G T (VPtr t (Some (VStruct s fs))) bound)"
  shows "PopulateQuery G T (VPtr t (Some (VStruct s (zero_fields T s)))) q bound =
    (None :: 'd goerror option, VPtr t (Some (VStruct s
      (map (\<lambda>i. if visible T bound s i then fs ! i else zero_fields T s ! i) [0..<length fs]))))"
  using assms
  by (simp add: PopulateQuery_def nil_pointer_def) (rule set_query_MessageToQuery, auto simp: queryable_def)


section \<open>Where the reflection path differs from the generated one\<close>

lemma parse_int_bits:
  assumes "parse_int s b = Inr n" "0 < b'"
  shows "parse_int s b' =
    (if - (2 ^ (b' - 1)) \<le> n \<and> n < 2 ^ (b' - 1) then Inr n else Inl ErrRange)"
proof -
  have less: "int m < 2 ^ k \<longleftrightarrow> m < 2 ^ k" for m k by (metis of_nat_less_iff of_nat_numeral of_nat_power)
  have le: "int m \<le> 2 ^ k \<longleftrightarrow> m \<le> 2 ^ k" for m k by (metis of_nat_le_iff of_nat_numeral of_nat_power)
  have pos: "- (2 ^ k) \<le> int m" for m k by (rule order_trans [of _ 0]) simp_all
  have neg: "- int m < 2 ^ k" for m k by (rule le_less_trans [of _ 0]) simp_all
  let ?neg = "has_prefix s ''-''"
  let ?body = "if ?neg \<or> has_prefix s ''+'' then tl s else s"
  from assms(1) obtain d where d: "parse_uint ?body b = Inr d" "n = (if ?neg then - int d else int d)"
    by (auto simp: parse_int_def Let_def split: sum.splits if_splits)
  from d(1) have "digits_value 0 ?body = Some d" "?body \<noteq> []" unfolding parse_uint_value by blast+
  then have uint: "parse_uint ?body b' = (if d < 2 ^ b' then Inr d else Inl ErrRange)"
    by (rule parse_uint_number)
  have fits: "d < 2 ^ b'" if "d \<le> 2 ^ (b' - 1)"
    using that by (rule le_less_trans) (use assms(2) in simp)
  show ?thesis
  proof (cases "d < 2 ^ b'")
    case True
    with d uint show ?thesis
      by (cases ?neg) (simp_all add: parse_int_def Let_def less le pos neg not_le not_less)
  next
    case False
    with fits have "2 ^ (b' - 1) < d" by (metis not_le)
    with d uint False show ?thesis
      by (cases ?neg) (simp_all add: parse_int_def Let_def less le pos neg not_le not_less)
  qed
qed

text \<open>
  A number that does not fit is not refused but cut: \<open>setStringValue\<close> parses every integer with 64
  bits and stores its low bits, so a 32-bit field takes a value that differs from the request's without an
  error. The converter the generated code uses refuses it.
\<close>

theorem setStringValue_truncates:
  assumes "- (2 ^ 63) \<le> n" "n < 2 ^ 63"
  shows "setStringValue G T (format_int n) (VInt 32 old) = (Done, VInt 32 (wrap_int 32 n)) \<and>
    - (2 ^ 31) \<le> wrap_int 32 n \<and> wrap_int 32 n < 2 ^ 31 \<and>
    PathInt32 (format_int n) =
      (if wrap_int 32 n = n then Inr n else Inl (''parse '' @ format_int n @ '' as int32''))"
proof -
  have parse: "parse_int (format_int n) 64 = Inr n" using assms by (intro parse_int_format) simp_all
  have wrap: "- (2 ^ 31) \<le> wrap_int 32 n" "wrap_int 32 n < 2 ^ 31"
    unfolding wrap_int_def by simp_all
  have "parse_int (format_int n) 32 = (if wrap_int 32 n = n then Inr n else Inl ErrRange)"
  proof (cases "- (2 ^ 31) \<le> n \<and> n < 2 ^ 31")
    case True
    then have "parse_int (format_int n) 32 = Inr n" by (intro parse_int_format) simp_all
    moreover have "wrap_int 32 n = n" using True by (intro wrap_int_id) simp_all
    ultimately show ?thesis by simp
  next
    case False
    moreover from this wrap have "wrap_int 32 n \<noteq> n" by auto
    ultimately show ?thesis using parse_int_bits [OF parse, of 32] by auto
  qed
  then show ?thesis
    using parse wrap by (auto simp: setStringValue_def scalar_value_def as_error_def PathInt32_def)
qed

text \<open>
  A query can overwrite a path parameter. Names are compared literally to skip what the path has
  bound, but a field without a json tag is found under any spelling of its Go name, so the same name in other letter
  case reaches the field a second time, after the path.
\<close>

theorem query_overrides_path:
  assumes "field_index T s nm = Some i" "field_index T s nm' = Some i" "nm' \<noteq> nm" "i < length fs"
    and "CHR ''.'' \<notin> set nm" "CHR ''.'' \<notin> set nm'" "fs ! i = VString old" "nm' \<noteq> []"
  shows "PopulateMessage G T dec (VPtr t (Some (VStruct s fs))) [(nm, a)] [(nm', [b])] body [] =
    (None :: 'd goerror option, VPtr t (Some (VStruct s (fs[i := VString b]))))"
proof -
  have set: "setStringValue G T x (VString y) = (Done :: 'd set_result, VString x)" for x y
    by (simp add: setStringValue_def scalar_value_def)
  have "setFieldString G T nm a True (VPtr t (Some (VStruct s fs))) =
      (None :: 'd goerror option, VPtr t (Some (VStruct s (fs[i := VString a]))))"
    by (rule setFieldString_field [OF assms(5,1)]) (simp add: set assms(7))
  moreover have "setFieldStrings G T nm' [b] False (VPtr t (Some (VStruct s (fs[i := VString a])))) =
      (None :: 'd goerror option, VPtr t (Some (VStruct s (fs[i := VString b]))))"
    by (subst setFieldStrings_field [OF assms(6,2), of "[b]" G _ "VString b"])
       (simp_all add: set_strings_def set assms(4))
  ultimately show ?thesis using assms(3,8) by (simp add: PopulateMessage_def nil_pointer_def)
qed


section \<open>Witnesses\<close>

definition book_types :: "unit types" where
  "book_types = \<lparr>fields_of = (\<lambda>s. if s = ''Book'' then
       [\<lparr>fl_Name = ''state'', fl_exported = False, fl_json = [], fl_type = TOther ''state''\<rparr>,
        \<lparr>fl_Name = ''Id'', fl_exported = True, fl_json = ''id,omitempty'', fl_type = TString\<rparr>,
        \<lparr>fl_Name = ''Page'', fl_exported = True, fl_json = ''page,omitempty'', fl_type = TInt 32\<rparr>,
        \<lparr>fl_Name = ''Tags'', fl_exported = True, fl_json = ''tags,omitempty'', fl_type = TSlice TString\<rparr>]
       else [\<lparr>fl_Name = ''Owner'', fl_exported = True, fl_json = [], fl_type = TString\<rparr>]),
     zero_fields = (\<lambda>s. if s = ''Book'' then [VOther ''state'', VString [], VInt 32 0, VSlice TString []]
       else [VString []])\<rparr>"

definition no_lib :: "unit golib" where
  "no_lib = \<lparr>ParseFloat = (\<lambda>s b. Inl ErrSyntax), FormatFloat = (\<lambda>f b. []), round_float = (\<lambda>b f. f),
     zero_float = (), ParseRFC3339 = (\<lambda>s. None), Sprint = (\<lambda>v. [])\<rparr>"

lemma book_tags:
  "json_tag \<lparr>fl_Name = nm, fl_exported = e, fl_json = ''id,omitempty'', fl_type = t\<rparr> = ''id''"
  "json_tag \<lparr>fl_Name = nm, fl_exported = e, fl_json = ''page,omitempty'', fl_type = t\<rparr> = ''page''"
  "json_tag \<lparr>fl_Name = nm, fl_exported = e, fl_json = ''tags,omitempty'', fl_type = t\<rparr> = ''tags''"
  by (simp_all add: json_tag_takeWhile)

lemma book_queryable:
  "queryable no_lib book_types [''id''] ''Book''
     [VOther ''state'', VString ''7'', VInt 32 (- 3), VSlice TString [VString ''a'', VString []]]"
  by (simp add: queryable_def tags_ok_def book_types_def book_tags visible_def numeral_eq_Suc
      All_less_Suc)

definition book :: "unit gval list" where
  "book = [VOther ''state'', VString ''7'', VInt 32 (- 3), VSlice TString [VString ''a'', VString []]]"

lemma PopulateQuery_MessageToQuery_witness:
  "PopulateQuery no_lib book_types (VPtr (TStruct ''Book'') (Some (VStruct ''Book'' (zero_fields book_types ''Book''))))
     (rev (MessageToQuery no_lib book_types (VPtr (TStruct ''Book'') (Some (VStruct ''Book'' book))) [''id''])) [''id''] =
   (None :: unit goerror option, VPtr (TStruct ''Book'') (Some (VStruct ''Book''
      [VOther ''state'', VString [], VInt 32 (- 3), VSlice TString [VString ''a'', VString []]])))"
proof -
  have "map (\<lambda>i. if visible book_types [''id''] ''Book'' i then book ! i else zero_fields book_types ''Book'' ! i)
      [0..<length book] = [VOther ''state'', VString [], VInt 32 (- 3), VSlice TString [VString ''a'', VString []]]"
    by (simp add: visible_def book_types_def book_def book_tags upt_rec)
  then show ?thesis
    using PopulateQuery_MessageToQuery [OF book_queryable [folded book_def],
      of "rev (MessageToQuery no_lib book_types (VPtr (TStruct ''Book'') (Some (VStruct ''Book'' book))) [''id''])"
        "TStruct ''Book''"]
    by simp
qed

lemma setStringValue_truncates_witness:
  "setStringValue no_lib book_types (format_int 4294967303) (VInt 32 0) = (Done :: unit set_result, VInt 32 7) \<and>
   PathInt32 (format_int 4294967303) = Inl (''parse '' @ format_int 4294967303 @ '' as int32'')"
  using setStringValue_truncates [of 4294967303 no_lib book_types 0] by (simp add: wrap_int_def)

lemma query_overrides_path_witness:
  "PopulateMessage no_lib book_types (\<lambda>b v. (None, v)) (VPtr (TStruct ''Claim'') (Some (VStruct ''Claim'' [VString []])))
      [(''owner'', ''alice'')] [(''OWNER'', [''mallory''])] [] [] =
    (None :: unit goerror option, VPtr (TStruct ''Claim'') (Some (VStruct ''Claim'' [VString ''mallory''])))"
proof -
  have "field_index book_types ''Claim'' ''owner'' = Some 0" "field_index book_types ''Claim'' ''OWNER'' = Some 0"
    by code_simp+
  then show ?thesis
  using query_overrides_path [of book_types "''Claim''" "''owner''" 0 "''OWNER''" "[VString []]" "[]" no_lib
      "\<lambda>b v. (None, v)" "TStruct ''Claim''" "''alice''" "''mallory''" "[]"]
    by simp
qed

end
