(* ===== verification/ClientSpec.thy ===== *)
theory ClientSpec
  imports Client HandlerSpec PopulateSpec
begin

text \<open>
  What the unary client promises: how often and after which errors a call is tried, that calls
  return, what of a call stays behind in the client, and what the server receives of a call's
  query and deadline.
\<close>

section \<open>Retries\<close>

text \<open>To state what an invoker did, its state is paired with the log of the errors it returned.\<close>

definition logged :: "('s \<Rightarrow> ((int \<times> 'd goerror option) \<times> 's) option)
    \<Rightarrow> 'd goerror option list \<times> 's \<Rightarrow> ((int \<times> 'd goerror option) \<times> 'd goerror option list \<times> 's) option" where
  "logged attempt = (\<lambda>(log, s). map_option (\<lambda>((n, err), s). ((n, err), (log @ [err], s))) (attempt s))"

definition beside :: "('s \<Rightarrow> 'a \<times> 's) \<Rightarrow> 'l \<times> 's \<Rightarrow> 'a \<times> 'l \<times> 's" where
  "beside f = (\<lambda>(l, s). let (x, s) = f s in (x, (l, s)))"

definition logged_clock :: "('c, 'f, 'd, 's) clock \<Rightarrow> ('c, 'f, 'd, 'd goerror option list \<times> 's) clock" where
  "logged_clock K =
     \<lparr>ck_now = \<lambda>s. ck_now K (snd s), ck_ctxErr = \<lambda>ctx s. ck_ctxErr K ctx (snd s),
      ck_sleep = \<lambda>ctx d. beside (ck_sleep K ctx d), ck_jitter = \<lambda>x d. beside (ck_jitter K x d),
      ck_scale = ck_scale K, ck_less = ck_less K, ck_le = ck_le K, ck_float = ck_float K\<rparr>"

definition transient :: "'d goerror option \<Rightarrow> bool" where
  "transient err = (err \<noteq> None \<and> status_Code err = CodeUnavailable)"

lemma logged_clock_simps [simp]:
  "ck_ctxErr (logged_clock K) ctx (l, s) = ck_ctxErr K ctx s"
  "ck_sleep (logged_clock K) ctx d = beside (ck_sleep K ctx d)"
  "ck_jitter (logged_clock K) x d = beside (ck_jitter K x d)"
  "ck_scale (logged_clock K) = ck_scale K" "ck_less (logged_clock K) = ck_less K"
  "ck_float (logged_clock K) = ck_float K"
  by (simp_all add: logged_clock_def)

lemma beside_pair: "f s = (x, s') \<Longrightarrow> beside f (l, s) = (x, (l, s'))"
  by (simp add: beside_def)

lemma logged_Some: "attempt s = Some ((n, err), s') \<Longrightarrow> logged attempt (l, s) = Some ((n, err), (l @ [err], s'))"
  by (simp add: logged_def)

lemma retry_loop_log:
  assumes "retry_loop K p idem ctx attempt left b prev s = Some ((n, err), s')"
  shows "\<exists>log. (\<forall>l. retry_loop (logged_clock K) p idem ctx (logged attempt) left b prev (l, s) =
        Some ((n, err), (l @ log, s'))) \<and>
     length log \<le> left \<and> (left \<noteq> 0 \<longrightarrow> log \<noteq> []) \<and> (\<not> idem \<longrightarrow> length log \<le> 1) \<and>
     (\<forall>e \<in> set (butlast log). transient e) \<and>
     (left \<noteq> 0 \<longrightarrow> err = last log \<or> transient (last log) \<and> length log < left \<and> err = ck_ctxErr K ctx s')"
  using assms
proof (induction left arbitrary: b prev s)
  case 0
  then show ?case by (intro exI [of _ "[]"]) simp
next
  case (Suc left)
  obtain n1 e1 s1 where a: "attempt s = Some ((n1, e1), s1)"
    using Suc.prems by (auto split: option.splits)
  show ?case
  proof (cases "\<not> transient e1 \<or> \<not> idem \<or> left = 0")
    case True
    with a Suc.prems have "n = n1" "err = e1" "s' = s1"
      by (auto simp: transient_def split: option.splits if_splits)
    with True a show ?thesis
      by (intro exI [of _ "[e1]"]) (auto simp: logged_Some transient_def split: option.splits)
  next
    case False
    then obtain x where x: "e1 = Some x" "status_Code (Some x) = CodeUnavailable" "idem" "left \<noteq> 0"
      by (auto simp: transient_def)
    obtain wt s2 where w: "backoff_wait K p b s1 = (wt, s2)" by fastforce
    obtain ended s3 where e: "ck_sleep K ctx wt s2 = (ended, s3)" by fastforce
    from w have wl: "backoff_wait (logged_clock K) p b (l, s1) = (wt, (l, s2))" for l
      by (auto simp: backoff_wait_def beside_pair split: if_splits)
    show ?thesis
    proof (cases ended)
      case True
      with a x w e Suc.prems have "n = n1" "err = ck_ctxErr K ctx s3" "s' = s3" by auto
      moreover have "retry_loop (logged_clock K) p idem ctx (logged attempt) (Suc left) b prev (l, s) =
          Some ((n1, ck_ctxErr K ctx s3), (l @ [e1], s3))" for l
        using a x True by (simp add: logged_Some wl beside_pair [where f = "ck_sleep K ctx wt", OF e])
      ultimately show ?thesis using x by (intro exI [of _ "[e1]"]) (auto simp: transient_def)
    next
      case False
      let ?b = "ck_scale K b (BackoffMultiplier p)"
      let ?b = "if ?b > MaxBackoff p then MaxBackoff p else ?b"
      from False a x w e Suc.prems have "retry_loop K p idem ctx attempt left ?b (n1, e1) s3 = Some ((n, err), s')"
        by (simp add: Let_def)
      from Suc.IH [OF this] obtain log where
        run: "\<And>l. retry_loop (logged_clock K) p idem ctx (logged attempt) left ?b (n1, e1) (l, s3) =
            Some ((n, err), (l @ log, s'))" and
        log: "length log \<le> left" "log \<noteq> []" "\<forall>e \<in> set (butlast log). transient e"
          "err = last log \<or> transient (last log) \<and> length log < left \<and> err = ck_ctxErr K ctx s'"
        using x by blast
      have "retry_loop (logged_clock K) p idem ctx (logged attempt) (Suc left) b prev (l, s) =
          Some ((n, err), (l @ e1 # log, s'))" for l
        using a x False e run [of "l @ [e1]"]
        by (simp add: logged_Some wl beside_pair [where f = "ck_sleep K ctx wt", OF e] Let_def)
      with x log show ?thesis by (intro exI [of _ "e1 # log"]) (auto simp: transient_def)
    qed
  qed
qed

text \<open>
  C18. A retried call makes at least one attempt and at most \<open>MaxAttempts\<close>; exactly one if the method
  is not idempotent; it goes on only after an \<open>Unavailable\<close> error; and it ends with the last
  attempt's result, unless the context ends while it waits, when it returns the context's error.
\<close>

theorem retry_attempts:
  assumes "retryInvoker K p next call s = Some ((n, err), s')"
  shows "\<exists>log. retryInvoker (logged_clock K) p (\<lambda>call. logged (next call)) call ([], s) =
        Some ((n, err), (log, s')) \<and>
     1 \<le> length log \<and> int (length log) \<le> max 1 (MaxAttempts p) \<and>
     (\<not> Idempotent p \<and> uc_method call \<notin> {''GET'', ''HEAD''} \<longrightarrow> length log = 1) \<and>
     (\<forall>e \<in> set (butlast log). transient e) \<and>
     (err = last log \<or>
      transient (last log) \<and> int (length log) < MaxAttempts p \<and> err = ck_ctxErr K (uc_ctx call) s')"
proof -
  let ?idem = "Idempotent p \<or> uc_method call = ''GET'' \<or> uc_method call = ''HEAD''"
  let ?n = "nat (if MaxAttempts p < 1 then 1 else MaxAttempts p)"
  have "retry_loop K p ?idem (uc_ctx call) (next call) ?n (InitialBackoff p) (0, None) s = Some ((n, err), s')"
    using assms by (simp add: retryInvoker_def Let_def)
  from retry_loop_log [OF this] obtain log where
    l: "(\<forall>l. retry_loop (logged_clock K) p ?idem (uc_ctx call) (logged (next call)) ?n (InitialBackoff p) (0, None) (l, s) =
        Some ((n, err), (l @ log, s'))) \<and>
     length log \<le> ?n \<and> (?n \<noteq> 0 \<longrightarrow> log \<noteq> []) \<and> (\<not> ?idem \<longrightarrow> length log \<le> 1) \<and> (\<forall>e \<in> set (butlast log). transient e) \<and>
     (?n \<noteq> 0 \<longrightarrow> err = last log \<or> transient (last log) \<and> length log < ?n \<and> err = ck_ctxErr K (uc_ctx call) s')" ..
  have "?n \<noteq> 0" by simp
  with l have log: "length log \<le> ?n" "log \<noteq> []" "\<not> ?idem \<longrightarrow> length log \<le> 1" "\<forall>e \<in> set (butlast log). transient e"
      "err = last log \<or> transient (last log) \<and> length log < ?n \<and> err = ck_ctxErr K (uc_ctx call) s'"
    by blast+
  from l have run: "retry_loop (logged_clock K) p ?idem (uc_ctx call) (logged (next call)) ?n (InitialBackoff p) (0, None) ([], s) =
      Some ((n, err), (log, s'))" by (metis append_Nil)
  have once: "length log = 1" if "\<not> ?idem"
    using that log(2,3) by (cases log) auto
  have "1 \<le> length log" using log(2) by (cases log) auto
  moreover have "int (length log) \<le> max 1 (MaxAttempts p)" using log(1) by (auto split: if_splits)
  moreover have "length log < ?n \<longrightarrow> int (length log) < MaxAttempts p" using log(2) by (auto split: if_splits)
  moreover have "retryInvoker (logged_clock K) p (\<lambda>call. logged (next call)) call ([], s) = Some ((n, err), (log, s'))"
    using run by (simp add: retryInvoker_def)
  moreover have "\<not> Idempotent p \<and> uc_method call \<notin> {''GET'', ''HEAD''} \<longrightarrow> length log = 1"
    using once by blast
  ultimately show ?thesis using log(4,5) by blast
qed

section \<open>Calls return\<close>


lemma retry_loop_returns:
  assumes "\<And>s. attempt s \<noteq> None"
  shows "retry_loop K p idem ctx attempt left b prev s \<noteq> None"
proof (induction left arbitrary: b prev s)
  case 0
  then show ?case by simp
next
  case (Suc left)
  obtain n e s1 where "attempt s = Some ((n, e), s1)" using assms [of s] by fastforce
  then show ?case using Suc.IH by (auto simp: Let_def split: option.split prod.split)
qed

lemma retryInvoker_returns: "(\<And>s. next call s \<noteq> None) \<Longrightarrow> retryInvoker K p next call s \<noteq> None"
  unfolding retryInvoker_def Let_def by (rule retry_loop_returns)

lemma invokeUnary_returns:
  assumes "\<And>data. unmarshalStatus (ce_wire E) data \<noteq> None"
  shows "invokeUnary E url call s \<noteq> None"
proof -
  have "FromHTTP (ce_wire E) (ce_json E) resp \<noteq> None" for resp
    using assms by (simp add: FromHTTP_def Let_def del: not_None_eq split: option.split sum.split prod.split)
  then show ?thesis
    by (simp add: invokeUnary_def Let_def split: sum.split prod.split option.split)
qed

definition lively :: "(('x, 'd, 'w) UnaryInvoker \<Rightarrow> ('x, 'd, 'w) UnaryInvoker) \<Rightarrow> bool" where
  \<comment> \<open>an interceptor that returns whenever the next invoker does\<close>
  "lively i = (\<forall>next. (\<forall>call s. next call s \<noteq> None) \<longrightarrow> (\<forall>call s. i next call s \<noteq> None))"

lemma chain_returns:
  assumes "\<forall>i \<in> set is. lively i" "\<And>call s. h call s \<noteq> None"
  shows "client_ChainUnaryInterceptors is h call s \<noteq> None"
  using assms
proof (induction "is" arbitrary: call s)
  case (Cons i "is")
  then show ?case unfolding invokers.chain_Cons by (auto simp: lively_def)
qed (simp add: invokers.chain_Nil)

lemma encode_call_returns:
  assumes "body \<in> {''*'', []} \<or> (\<exists>t. req = Some (VPtr t None)) \<or> (\<exists>v. req = Some v \<and> struct_behind v \<noteq> None)"
  shows "encode_call E codec path body req \<noteq> None"
  using assms
  by (auto simp: encode_call_def ExtractFieldValue_def the_message_def Let_def
      split: sum.split option.split gval.split)

text \<open>
  C20. A call returns: as long as the wire format's tags take at least a byte (no status header a server sends can
  hang its client), the interceptors return whenever what they wrap does, and the body mapping does not
  ask for a field of something that is not a struct, \<open>DoUnary\<close> comes back, whatever the network does.
\<close>

theorem DoUnary_returns:
  assumes "\<And>data num typ n. ConsumeTag (ce_wire E) data = Some (num, typ, n) \<Longrightarrow> 0 < n"
    and "\<forall>i \<in> set (cfg_unaryInterceptors (apply_options opts (cb_cfg c))). lively i"
    and "body \<in> {''*'', []} \<or> (\<exists>t. req = Some (VPtr t None)) \<or> (\<exists>v. req = Some v \<and> struct_behind v \<noteq> None)"
  shows "DoUnary E c ctx method path body req resp opts s \<noteq> None"
proof -
  let ?cfg = "apply_options opts (cb_cfg c)"
  have cfg: "(if opts \<noteq> [] then ?cfg else cb_cfg c) = ?cfg" by (simp add: apply_options_def)
  have same: "cfg_unaryInterceptors cfg' = cfg_unaryInterceptors cfg" if "applyDeadline E now cfg ctx = (cfg', ctx')" for now cfg cfg' ctx'
    using that by (auto simp: applyDeadline_def split: if_splits)
  have raw: "invokeUnary E url call s \<noteq> None" for url call s
    by (intro invokeUnary_returns) (simp add: unmarshalStatus_def unmarshal_loop_returns [OF assms(1)] del: not_None_eq)
  have invoke: "buildInvoker E url cfg call s \<noteq> None" if "\<forall>i \<in> set (cfg_unaryInterceptors cfg). lively i" for url cfg call s
  proof -
    have "client_ChainUnaryInterceptors (cfg_unaryInterceptors cfg) (invokeUnary E url) call s \<noteq> None" for s
      using that raw by (rule chain_returns)
    then show ?thesis
      unfolding buildInvoker_def Let_def by (simp add: retryInvoker_returns del: not_None_eq split: option.split)
  qed
  show ?thesis
    using encode_call_returns [OF assms(3), of E "cfg_codec ?cfg" path] assms(2) invoke same
    unfolding DoUnary_def cfg
    by (simp add: Let_def del: not_None_eq split: option.split sum.split prod.split)
qed

section \<open>What a call sends\<close>

definition headers_ok :: "header \<Rightarrow> bool" where
  \<comment> \<open>as \<open>Header.Add\<close> and \<open>Set\<close> build a map\<close>
  "headers_ok hs = (distinct (map fst hs) \<and> (\<forall>k \<in> fst ` set hs. canonical_key k = k))"

lemma header_values_fold_add:
  "header_values (fold (\<lambda>v h. header_add h k' v) vs h) k =
     (if canonical_key k = canonical_key k' then header_values h k @ vs else header_values h k)"
proof (induction vs arbitrary: h)
  case (Cons v vs)
  then show ?case by (auto simp: header_values_add) (simp_all add: header_values_def)
qed simp

lemma header_values_add_all:
  assumes "headers_ok hs" "canonical_key k = k"
  shows "header_values (add_all hs h) k = header_values h k @ header_values hs k"
  using assms unfolding add_all_def
proof (induction hs arbitrary: h)
  case Nil
  then show ?case by (simp add: header_values_def)
next
  case (Cons x hs)
  obtain k' vs where x: "x = (k', vs)" by fastforce
  with Cons.prems have "headers_ok hs" "canonical_key k' = k'" "k' \<notin> fst ` set hs"
    by (auto simp: headers_ok_def)
  note ok = this
  from ok have "map_of hs k' = None" by (simp add: map_of_eq_None_iff)
  then have "header_values (x # hs) k = (if k = k' then vs else header_values hs k)" "header_values hs k' = []"
    using Cons.prems(2) ok by (auto simp: x header_values_def)
  then show ?case using Cons.IH [OF ok(1) Cons.prems(2)] Cons.prems(2) ok(2)
    by (auto simp: x header_values_fold_add)
qed

definition recording :: "response \<Rightarrow> ('c, 'd, outRequest list) http_client" where
  \<comment> \<open>a transport that keeps the requests it gets\<close>
  "recording resp ctx r reqs = (Inr (resp, None), reqs @ [r])"

definition plain_client :: "response \<Rightarrow> ('c, 'f, 'd, outRequest list) clientConfig \<Rightarrow> bool" where
  "plain_client resp cfg =
     (cfg_httpClient cfg = recording resp \<and> cfg_unaryInterceptors cfg = [] \<and> cfg_retryPolicy cfg = None)"

definition sent ::
    "('c, 'f, 'd, outRequest list) client_env \<Rightarrow> ('c, 'f, 'd, outRequest list) ClientBase \<Rightarrow> 'c Context \<Rightarrow> string
     \<Rightarrow> ('c, 'f, 'd, outRequest list) ClientOption list \<Rightarrow> ('f, outRequest list) call_state
     \<Rightarrow> (('c, 'f, 'd, outRequest list) ClientBase \<times> outRequest) option" where
  \<comment> \<open>the client after a \<open>GET\<close> without request message, and the request it sent\<close>
  "sent E c ctx path opts s =
     map_option (\<lambda>((err, c), s). (c, last (cs_net s))) (DoUnary E c ctx ''GET'' path [] None 0 opts s)"

lemma applyDeadline_plain [simp]:
  "plain_client resp (fst (applyDeadline E now cfg ctx)) = plain_client resp cfg"
  "cfg_codec (fst (applyDeadline E now cfg ctx)) = cfg_codec cfg"
  by (simp_all add: applyDeadline_def plain_client_def)

lemma invokeUnary_recording:
  assumes "cfg_httpClient (uc_cfg call) = recording resp" "resp_StatusCode resp = 200"
    "ce_badRequest E (uc_method call) (url @ uc_path call) = None"
  shows "\<exists>r s'. invokeUnary E url call s = Some (r, s') \<and>
    last (cs_net s') = with_headers (cfg_headers (uc_cfg call))
      ((if uc_body call \<noteq> None then [(HeaderContentType, Name (cfg_codec (uc_cfg call)))] else []) @
        [(HeaderAccept, Name (cfg_codec (uc_cfg call)))])
      \<lparr>out_Method = (if uc_method call = [] then ''GET'' else uc_method call), out_URL = url @ uc_path call,
        out_Header = [], out_Body = uc_body call\<rparr>"
  using assms
  by (cases "Unmarshal (ce_lib E) (cfg_codec (uc_cfg call)) (resp_Body resp) (cs_msgs s (uc_resp call))")
    (auto simp: invokeUnary_def http_NewRequest_def on_net_def recording_def Let_def split: option.split)

lemma sent_request:
  assumes "plain_client resp (apply_options opts (cb_cfg c))" "resp_StatusCode resp = 200"
    "ce_badRequest E ''GET'' (cb_baseURL c @ path) = None"
  shows "\<exists>now. let cfg = fst (applyDeadline E now (apply_options opts (cb_cfg c)) ctx) in
    sent E c ctx path opts s = Some (if opts \<noteq> [] then c else c\<lparr>cb_cfg := (cb_cfg c)\<lparr>cfg_headers := cfg_headers cfg\<rparr>\<rparr>,
      with_headers (cfg_headers cfg) [(HeaderAccept, Name (cfg_codec cfg))]
        \<lparr>out_Method = ''GET'', out_URL = cb_baseURL c @ path, out_Header = [], out_Body = None\<rparr>)"
proof (rule exI)
  let ?now = "ck_now (ce_clock E) (cs_net s)"
  let ?cfg0 = "apply_options opts (cb_cfg c)"
  obtain cfg ctx' where ad: "applyDeadline E ?now ?cfg0 ctx = (cfg, ctx')" by fastforce
  let ?call = "\<lparr>uc_ctx = ctx', uc_method = ''GET'', uc_path = path, uc_body = None, uc_req = None, uc_resp = 0,
     uc_cfg = callConfig.truncate cfg\<rparr>"
  have plain: "plain_client resp cfg" "cfg_codec cfg = cfg_codec ?cfg0"
    using applyDeadline_plain(1) [where resp = resp and E = E and now = ?now and cfg = ?cfg0 and ctx = ctx]
      applyDeadline_plain(2) [where E = E and now = ?now and cfg = ?cfg0 and ctx = ctx] assms(1) by (simp_all add: ad)
  have cfg: "(if opts \<noteq> [] then ?cfg0 else cb_cfg c) = ?cfg0" by (simp add: apply_options_def)
  have enc: "encode_call E codec path [] None = Some (Inr (path, None))" for codec
    by (simp add: encode_call_def SubstitutePathParamsBound_def)
  have build: "buildInvoker E (cb_baseURL c) cfg = invokeUnary E (cb_baseURL c)"
    using plain(1) by (simp add: buildInvoker_def plain_client_def invokers.chain_Nil)
  obtain r s' where inv: "invokeUnary E (cb_baseURL c) ?call s = Some (r, s')"
    and out: "last (cs_net s') = with_headers (cfg_headers cfg) [(HeaderAccept, Name (cfg_codec cfg))]
        \<lparr>out_Method = ''GET'', out_URL = cb_baseURL c @ path, out_Header = [], out_Body = None\<rparr>"
    using invokeUnary_recording [of ?call resp E "cb_baseURL c" s] plain(1) assms(2,3)
    by (auto simp: plain_client_def callConfig.defs)
  show "let cfg = fst (applyDeadline E ?now ?cfg0 ctx) in
    sent E c ctx path opts s = Some (if opts \<noteq> [] then c else c\<lparr>cb_cfg := (cb_cfg c)\<lparr>cfg_headers := cfg_headers cfg\<rparr>\<rparr>,
      with_headers (cfg_headers cfg) [(HeaderAccept, Name (cfg_codec cfg))]
        \<lparr>out_Method = ''GET'', out_URL = cb_baseURL c @ path, out_Header = [], out_Body = None\<rparr>)"
    using inv out by (cases r) (simp add: sent_def DoUnary_def cfg enc ad build Let_def)
qed

lemma sent_header:
  assumes "headers_ok hs" "canonical_key k = k" "k \<noteq> HeaderAccept" "out_Header r = []"
  shows "header_get (out_Header (with_headers hs [(HeaderAccept, n)] r)) k = header_get hs k"
  using assms header_values_add_all [OF assms(1,2), of "[]"]
  by (simp add: with_headers_def header_get_set_other) (simp add: header_get_def header_values_def)

lemma header_get_Nil [simp]: "header_get [] k = []"
  by (simp add: header_get_def header_values_def)

lemma headers_ok_set: "headers_ok hs \<Longrightarrow> canonical_key k = k \<Longrightarrow> headers_ok (header_set hs k v)"
  by (auto simp: headers_ok_def header_set_def distinct_alist_put)

text \<open>
  C23. A timeout reaches the server: of a call with timeout \<open>d\<close> the handler computes a deadline that is no
  shorter and less than one unit of the header's precision longer, whatever other headers and whatever deadline
  the client has.
\<close>

theorem timeout_propagates:
  assumes "plain_client resp (apply_options opts (cb_cfg c))" "resp_StatusCode resp = 200"
    and "ce_badRequest E ''GET'' (cb_baseURL c @ path) = None"
    and "headers_ok (cfg_headers (apply_options opts (cb_cfg c)))"
    and "cfg_timeout (apply_options opts (cb_cfg c)) = d" "0 < d" "d < 2 ^ 63"
  shows "\<exists>c' r d' u unit. sent E c ctx path opts s = Some (c', r) \<and>
    deadlineFromRequest rfc3339 now (\<lparr>rq_Method = ''GET'', rq_Path = path, rq_Query = None, rq_Header = out_Header r,
        rq_Cookies = [], rq_Body = None, rq_ProtoMajor = 1, rq_Proto = ''HTTP/1.1'', rq_RemoteAddr = addr,
        rq_Context = ctx'\<rparr>) = Some d' \<and>
    d \<le> d' \<and> d' \<le> max_int64 \<and> (u, unit) \<in> set timeout_units \<and> last (FormatGrpcTimeout d) = unit \<and> d' < d + u"
proof -
  let ?hs = "cfg_headers (apply_options opts (cb_cfg c))"
  let ?set = "header_set ?hs HeaderGrpcTimeout (FormatGrpcTimeout d)"
  obtain c' n where sent: "sent E c ctx path opts s = Some (c', with_headers ?set [(HeaderAccept, n)]
      \<lparr>out_Method = ''GET'', out_URL = cb_baseURL c @ path, out_Header = [], out_Body = None\<rparr>)" (is "_ = Some (c', ?r)")
    using sent_request [OF assms(1-3), of ctx s] assms(5,6) by (auto simp: applyDeadline_def Let_def)
  have "header_get (out_Header ?r) HeaderGrpcTimeout = FormatGrpcTimeout d"
    using headers_ok_set [OF assms(4)] by (subst sent_header) simp_all
  moreover obtain d' u unit where d': "ParseGrpcTimeout (FormatGrpcTimeout d) = Some d'" "d \<le> d'" "d' \<le> max_int64"
      "(u, unit) \<in> set timeout_units" "last (FormatGrpcTimeout d) = unit" "d' < d + u"
    using ParseGrpcTimeout_Format [OF assms(6,7)] by blast
  moreover have "FormatGrpcTimeout d \<noteq> []" using d'(1) by (auto simp: ParseGrpcTimeout_def)
  ultimately show ?thesis
    using sent by (intro exI [of _ c'] exI [of _ ?r] exI [of _ d'] exI [of _ u] exI [of _ unit])
      (simp add: deadlineFromRequest_def)
qed

text \<open>
  C31. A call without options leaves its deadline header in the client: a client with a default timeout
  sends a per-call deadline with the timeout turned off as meant, but once it has made a call
  without options the same call carries the old timeout as well, and the server follows that one.
\<close>

theorem stale_timeout:
  fixes c :: "('c, 'f, 'd, outRequest list) ClientBase"
  assumes "plain_client resp (cb_cfg c)" "resp_StatusCode resp = 200"
    and "ce_badRequest E ''GET'' (cb_baseURL c @ path) = None"
    and "cfg_headers (cb_cfg c) = []" "0 < cfg_timeout (cb_cfg c)" "t \<noteq> zero_time"
  shows "\<exists>c1 r1 r2 r3. sent E c ctx path [] s = Some (c1, r1) \<and>
    sent E c ctx path [WithTimeout 0, WithDeadline t] s' = Some (c, r2) \<and>
    sent E c1 ctx path [WithTimeout 0, WithDeadline t] s' = Some (c1, r3) \<and>
    header_get (out_Header r2) HeaderGrpcTimeout = [] \<and>
    header_get (out_Header r2) HeaderGrpcDeadline = ce_formatRFC3339 E t \<and>
    header_get (out_Header r3) HeaderGrpcTimeout = FormatGrpcTimeout (cfg_timeout (cb_cfg c)) \<and>
    header_get (out_Header r3) HeaderGrpcDeadline = ce_formatRFC3339 E t"
proof -
  let ?opts = "[WithTimeout 0, WithDeadline t] :: ('c, 'f, 'd, outRequest list) ClientOption list"
  let ?set = "header_set [] HeaderGrpcTimeout (FormatGrpcTimeout (cfg_timeout (cb_cfg c)))"
  let ?dl = "\<lambda>hs. header_set hs HeaderGrpcDeadline (ce_formatRFC3339 E t)"
  let ?r = "\<lambda>hs. with_headers hs [(HeaderAccept, Name (cfg_codec (cb_cfg c)))]
      \<lparr>out_Method = ''GET'', out_URL = cb_baseURL c @ path, out_Header = [], out_Body = None\<rparr>"
  define c1 where "c1 = c\<lparr>cb_cfg := (cb_cfg c)\<lparr>cfg_headers := ?set\<rparr>\<rparr>"
  have plain: "plain_client resp (apply_options ?opts (cb_cfg c))" "plain_client resp (apply_options ?opts (cb_cfg c1))"
    "plain_client resp (apply_options [] (cb_cfg c))"
    using assms(1) by (simp_all add: plain_client_def apply_options_def WithTimeout_def WithDeadline_def c1_def)
  have url: "ce_badRequest E ''GET'' (cb_baseURL c1 @ path) = None" using assms(3) by (simp add: c1_def)
  have "sent E c ctx path [] s = Some (c1, ?r ?set)"
    using sent_request [OF plain(3) assms(2,3), of ctx s] assms(4,5)
    by (auto simp: applyDeadline_def apply_options_def c1_def Let_def)
  moreover have "sent E c ctx path ?opts s' = Some (c, ?r (?dl []))"
    using sent_request [OF plain(1) assms(2,3), of ctx s'] assms(4,6)
    by (auto simp: applyDeadline_def apply_options_def WithTimeout_def WithDeadline_def Let_def)
  moreover have "sent E c1 ctx path ?opts s' = Some (c1, ?r (?dl ?set))"
    using sent_request [OF plain(2) assms(2) url, of ctx s'] assms(6)
    by (auto simp: applyDeadline_def apply_options_def WithTimeout_def WithDeadline_def c1_def Let_def)
  moreover have "headers_ok ?set" "headers_ok (?dl [])" "headers_ok (?dl ?set)"
    by (simp_all add: headers_ok_set headers_ok_def [of "[]"])
  ultimately show ?thesis
    by (intro exI [of _ c1] exI [of _ "?r ?set"] exI [of _ "?r (?dl [])"] exI [of _ "?r (?dl ?set)"])
      (simp add: sent_header header_get_set_other)
qed

section \<open>The query of a call, read by the server\<close>

lemma encode_call_query:
  assumes "SubstitutePathParamsBound (ce_go E) (ce_types E) template (Some (VPtr t (Some (VStruct s fs)))) =
      (Inr (path, bound) :: 'd goerror + string \<times> string list)"
    and "queryable (ce_go E) (ce_types E) bound s fs"
  shows "\<exists>raw. encode_call E codec template [] (Some (VPtr t (Some (VStruct s fs)))) =
      Some (Inr (if raw = [] then path else path @ ''?'' @ raw, None) :: 'd goerror + string \<times> string option) \<and>
    mset (ParseQuery raw) = mset (MessageToQuery (ce_go E) (ce_types E) (VPtr t (Some (VStruct s fs))) bound)"
proof -
  let ?G = "ce_go E" and ?T = "ce_types E"
  let ?q = "MessageToQuery ?G ?T (VPtr t (Some (VStruct s fs))) bound"
  have tags: "tags_ok ?T s" using assms(2) by (simp add: queryable_def)
  have q: "?q = entries ?G bound (fields_of ?T s) fs"
    using fields_query_entries [OF tags_ok_names [OF tags], of "[]" ?G bound fs]
    by (simp add: MessageToQuery_def struct_behind_def)
  have "distinct (map fst ?q)" "vs \<noteq> []" if "(k, vs) \<in> set ?q" for k vs
    using that entries_distinct [OF tags_ok_names [OF tags]] query_entry_set [OF assms(2)] unfolding q by fastforce+
  then have parse: "ParseQuery (query_Encode ?q) = sort_key fst ?q"
    using entries_distinct [OF tags_ok_names [OF tags]] unfolding q by (intro ParseQuery_Encode) auto
  have "query_Encode ?q = [] \<longleftrightarrow> ?q = []"
  proof
    assume "query_Encode ?q = []"
    with parse have "sort_key fst ?q = []" by (simp add: ParseQuery_def parse_pair_def)
    then show "?q = []" by (metis length_0_conv length_sort)
  qed (simp add: query_Encode_def query_pairs_def)
  then have "encode_call E codec template [] (Some (VPtr t (Some (VStruct s fs)))) =
      Some (Inr (if query_Encode ?q = [] then path else path @ ''?'' @ query_Encode ?q, None) :: 'd goerror + string \<times> string option)"
    using assms(1) by (simp add: encode_call_def Let_def)
  with parse show ?thesis by (intro exI [of _ "query_Encode ?q"]) simp
qed


section \<open>A client to apply the theorems to\<close>

definition calm_clock :: "(unit, unit, string, 'n) clock" where
  "calm_clock =
     \<lparr>ck_now = \<lambda>s. 0, ck_ctxErr = \<lambda>ctx s. None, ck_sleep = \<lambda>ctx d s. (False, s), ck_jitter = \<lambda>x d s. (d, s),
      ck_scale = \<lambda>d x. 2 * d, ck_less = \<lambda>x y. False, ck_le = \<lambda>x y. True, ck_float = \<lambda>n. ()\<rparr>"

lemma calm_clock_sel [simp]:
  "ck_ctxErr calm_clock ctx s = None" "ck_sleep calm_clock ctx d s = (False, s)" "ck_scale calm_clock d x = 2 * d"
  "ck_less calm_clock x y = False"
  by (simp_all add: calm_clock_def)

definition page :: response where
  "page = \<lparr>resp_StatusCode = 200, resp_Status = ''200 OK'', resp_Header = [], resp_Body = ''{}''\<rparr>"

definition gval_lib :: "unit gval serializers" where
  \<comment> \<open>every message is written as an empty object\<close>
  "gval_lib =
     \<lparr>isProto = \<lambda>_. False, typeName = \<lambda>_. ''Message'',
      jsonMarshal = \<lambda>_. Inr ''{}'', jsonUnmarshal = \<lambda>_ v. (None, v), jsonv2Marshal = \<lambda>_. Inr ''{}'',
      jsonv2Unmarshal = \<lambda>_ v. (None, v), xmlMarshal = \<lambda>_. Inr ''{}'', xmlUnmarshal = \<lambda>_ v. (None, v),
      protojsonMarshal = \<lambda>_. Inr ''{}'', protojsonUnmarshal = \<lambda>_ v. (None, v),
      protoMarshal = \<lambda>_. Inr ''{}'', protoUnmarshal = \<lambda>_ v. (None, v),
      otherMarshal = \<lambda>_ _. Inr ''{}'', otherUnmarshal = \<lambda>_ _ v. (None, v),
      jsonDecode = \<lambda>_ v. (None, v), jsonv2Read = \<lambda>_ v. (None, v), xmlDecode = \<lambda>_ v. (None, v),
      otherDecode = \<lambda>_ _ v. (None, v), b64Error = \<lambda>_. ''illegal base64 data''\<rparr>"

definition book_env :: "(unit, unit, string, outRequest list) client_env" where
  "book_env =
     \<lparr>ce_lib = gval_lib, ce_go = no_lib, ce_types = book_types, ce_wire = std_wire, ce_json = members_read,
      ce_clock = calm_clock, ce_DefaultClient = recording page, ce_badRequest = \<lambda>m u. None,
      ce_formatRFC3339 = \<lambda>t. ''2030-01-01T00:00:00Z'', ce_Dial = \<lambda>hc h u ctx n. (Inl (PlainError ''no dial''), n),
      ce_buffered = \<lambda>b. 0\<rparr>"

definition book_client :: "(unit, unit, string, outRequest list) ClientBase" where
  "book_client = NewClientBase book_env ''http://books/'' [WithTimeout (5 * Second)]"

definition no_ctx :: "unit Context" where
  "no_ctx = \<lparr>ctxDeadline = None, requestMetaValue = None, claimsValue = None, otherValues = \<lambda>k. None\<rparr>"

lemma book_client_sel [simp]:
  "plain_client page (cb_cfg book_client)" "cfg_headers (cb_cfg book_client) = []"
  "cfg_timeout (cb_cfg book_client) = 5000000000" "ce_badRequest book_env m u = None"
  "ce_wire book_env = std_wire" "ce_go book_env = no_lib" "ce_types book_env = book_types"
  "resp_StatusCode page = 200" "cfg_unaryInterceptors (cb_cfg book_client) = []"
  by (simp_all add: book_client_def NewClientBase_def apply_options_def WithTimeout_def defaultClientConfig_def
      book_env_def plain_client_def page_def)

definition flaky :: "(('c, 'f, 'd, 'n) unaryCall, 'd, nat) UnaryInvoker" where
  \<comment> \<open>unavailable twice, then well\<close>
  "flaky call n = Some ((0, if n < 2 then Some (NewErrorf CodeUnavailable ''busy'') else None), Suc n)"

definition patient :: "unit RetryPolicy" where
  "patient = normalize (calm_clock :: (unit, unit, string, nat) clock)
     \<lparr>MaxAttempts = 0, InitialBackoff = 0, MaxBackoff = 0, BackoffMultiplier = (), Jitter = (), Idempotent = False\<rparr>"

definition get_call :: "(unit, unit, string, unit) unaryCall" where
  "get_call = \<lparr>uc_ctx = no_ctx, uc_method = ''GET'', uc_path = ''/'', uc_body = None, uc_req = None, uc_resp = 0,
     uc_cfg = \<lparr>cfg_codec = JSONCodec, cfg_httpClient = \<lambda>ctx r n. (Inl EOF, n), cfg_headers = []\<rparr>\<rparr>"

lemma patient_sel [simp]:
  "MaxAttempts patient = 3" "InitialBackoff patient = 100000000" "\<not> Idempotent patient"
  by (simp_all add: patient_def normalize_def Let_def calm_clock_def)

lemma retry_attempts_witness:
  "\<exists>log. retryInvoker (logged_clock calm_clock) patient (\<lambda>call. logged (flaky call)) get_call ([], 0) =
      Some ((0, None), (log, 3)) \<and> 1 \<le> length log \<and> length log \<le> 3 \<and> (\<forall>e \<in> set (butlast log). transient e)"
proof -
  have "retryInvoker calm_clock patient flaky get_call 0 = Some ((0, None), 3)"
    by (simp add: retryInvoker_def get_call_def flaky_def backoff_wait_def eval_nat_numeral status_Code_def NewErrorf_def Let_def)
  from retry_attempts [OF this] show ?thesis by (auto simp: max_def)
qed

lemma DoUnary_returns_witness:
  "DoUnary book_env book_client no_ctx ''GET'' ''/books'' [] None 0 [WithHeader ''X-A'' ''1'']
     \<lparr>cs_msgs = \<lambda>a. nil_any, cs_net = []\<rparr> \<noteq> None"
  using std_wire_tags
  by (intro DoUnary_returns) (auto simp: apply_options_def WithHeader_def)

lemma timeout_propagates_witness:
  "\<exists>c' r d'. sent book_env book_client no_ctx ''/books'' [] \<lparr>cs_msgs = \<lambda>a. nil_any, cs_net = []\<rparr> = Some (c', r) \<and>
    deadlineFromRequest (\<lambda>v. None) 0 (text_request\<lparr>rq_Method := ''GET'', rq_Path := ''/books'', rq_Header := out_Header r\<rparr>) =
      Some d' \<and> 5000000000 \<le> d'"
  using timeout_propagates [of page "[]" book_client book_env "''/books''" 5000000000 no_ctx
      "\<lparr>cs_msgs = \<lambda>a. nil_any, cs_net = []\<rparr>" "\<lambda>v. None" 0 "[]" "rq_Context text_request"]
  by (simp add: apply_options_def headers_ok_def text_request_def) blast

lemma stale_timeout_witness:
  "\<exists>c1 r1 r3. sent book_env book_client no_ctx ''/books'' [] \<lparr>cs_msgs = \<lambda>a. nil_any, cs_net = []\<rparr> = Some (c1, r1) \<and>
    sent book_env c1 no_ctx ''/books'' [WithTimeout 0, WithDeadline 1900000000000000000]
      \<lparr>cs_msgs = \<lambda>a. nil_any, cs_net = []\<rparr> = Some (c1, r3) \<and>
    header_get (out_Header r3) HeaderGrpcTimeout = FormatGrpcTimeout 5000000000"
proof -
  let ?s = "\<lparr>cs_msgs = \<lambda>a. nil_any, cs_net = []\<rparr>"
  have "(1900000000000000000 :: int) \<noteq> zero_time" by (simp add: zero_time_def)
  then show ?thesis
    using stale_timeout [of page book_client book_env "''/books''" 1900000000000000000 no_ctx ?s ?s]
    unfolding book_client_sel by auto
qed

section \<open>Recovery\<close>

definition recovers ::
    "('c, 'f, 'd, 's) clock \<Rightarrow> 'f RetryPolicy \<Rightarrow> 'c Context \<Rightarrow> ('s \<Rightarrow> nat) \<Rightarrow> ('s \<Rightarrow> ((int \<times> 'd goerror option) \<times> 's) option) \<Rightarrow> bool" where
  \<comment> \<open>\<open>due\<close> bounds the attempts that still fail, with \<open>Unavailable\<close>; waiting neither raises it nor outlasts the context\<close>
  "recovers K p ctx due attempt =
     (\<forall>s. (\<exists>n e s'. attempt s = Some ((n, e), s') \<and>
             (e = None \<or> transient e \<and> due s' < due s)) \<and>
          (\<forall>b. due (snd (backoff_wait K p b s)) \<le> due s \<and> \<not> fst (ck_sleep K ctx b s) \<and> due (snd (ck_sleep K ctx b s)) \<le> due s))"

lemma retry_loop_recovers:
  assumes "recovers K p ctx due attempt"
  shows "due s < left \<Longrightarrow> \<exists>n s'. retry_loop K p True ctx attempt left b prev s = Some ((n, None), s')"
proof (induction left arbitrary: b prev s)
  case (Suc left)
  from assms obtain n e s1 where a: "attempt s = Some ((n, e), s1)" "e = None \<or> transient e \<and> due s1 < due s"
    unfolding recovers_def by metis
  show ?case
  proof (cases e)
    case None
    with a(1) show ?thesis by simp
  next
    case (Some err)
    with a(2) have tr: "status_Code (Some err) = CodeUnavailable" "due s1 < due s" by (auto simp: transient_def)
    obtain wt s2 where w: "backoff_wait K p b s1 = (wt, s2)" by fastforce
    obtain ended s3 where z: "ck_sleep K ctx wt s2 = (ended, s3)" by fastforce
    from assms w z have "\<not> ended" "due s2 \<le> due s1" "due s3 \<le> due s2"
      unfolding recovers_def by (metis fst_conv snd_conv)+
    with tr(2) Suc.prems have "due s3 < left" "left \<noteq> 0" by auto
    with Suc.IH [of s3] a(1) Some tr(1) w z \<open>\<not> ended\<close> show ?thesis by (simp add: Let_def)
  qed
qed simp

text \<open>
  C19. Retrying gets through: if fewer attempts fail than the policy allows, each with \<open>Unavailable\<close>, and the context
  outlasts the waiting, then a call that may be repeated returns the success of the attempt that follows.
\<close>

theorem retry_recovers:
  assumes "recovers K p (uc_ctx call) due (next call)" "int (due s) < MaxAttempts p"
    and "Idempotent p \<or> uc_method call \<in> {''GET'', ''HEAD''}"
  shows "\<exists>n s'. retryInvoker K p next call s = Some ((n, None), s')"
proof -
  have "due s < nat (if MaxAttempts p < 1 then 1 else MaxAttempts p)" using assms(2) by auto
  from retry_loop_recovers [OF assms(1) this] assms(3) show ?thesis by (auto simp: retryInvoker_def Let_def)
qed

lemma retry_recovers_witness:
  "\<exists>n s'. retryInvoker calm_clock patient flaky get_call 0 = Some ((n, None :: string goerror option), s')"
proof (rule retry_recovers)
  show "recovers calm_clock patient (uc_ctx get_call) (\<lambda>n. 2 - n) (flaky get_call :: nat \<Rightarrow> ((int \<times> string goerror option) \<times> nat) option)"
    by (auto simp: recovers_def flaky_def transient_def status_Code_def NewErrorf_def backoff_wait_def)
qed (simp_all add: get_call_def)

end
