(* ===== verification/PathSpec.thy ===== *)
theory PathSpec
  imports PatternSpec ClientSpec
begin

text \<open>
  Paths, written by the client and read by the server: a message's fields fill the parameters of a template
  (\<open>runtime/substitute.go\<close>), the path matches the template's pattern (\<open>routing/pattern.go\<close>), and the values captured
  from it fill the same fields again (\<open>runtime/populate.go\<close>).
\<close>

section \<open>Values a parameter can take\<close>

definition path_part :: "string \<Rightarrow> bool" where
  "path_part v = (v \<noteq> [] \<and> CHR ''/'' \<notin> set v)"

fun fits_expr :: "bool \<Rightarrow> exprSeg list \<Rightarrow> string list \<Rightarrow> bool" where
  \<comment> \<open>the first argument: is this the last segment of the pattern?\<close>
  "fits_expr final [] parts = (parts = [])"
| "fits_expr final (es # ess) parts =
     (if es_multi es then final
      else case parts of
             [] \<Rightarrow> False
           | v # vs \<Rightarrow> (es_wildcard es \<or> v = es_literal es) \<and> fits_expr final ess vs)"

definition fits :: "bool \<Rightarrow> param \<Rightarrow> string \<Rightarrow> bool" where
  "fits final p v =
     (if p_resource p then list_all path_part (split_byte v CHR ''/'') \<and> fits_expr final (p_expr p) (split_byte v CHR ''/'')
      else path_part v)"

fun fits_segments :: "(string \<Rightarrow> string) \<Rightarrow> segment list \<Rightarrow> bool" where
  "fits_segments \<sigma> [] = True"
| "fits_segments \<sigma> (seg # segs) =
     ((case seg_param seg of None \<Rightarrow> True | Some p \<Rightarrow> fits (segs = []) p (\<sigma> (p_name p))) \<and> fits_segments \<sigma> segs)"

definition seg_text :: "(string \<Rightarrow> string) \<Rightarrow> segment \<Rightarrow> string" where
  "seg_text \<sigma> seg = (case seg_param seg of None \<Rightarrow> seg_literal seg | Some p \<Rightarrow> \<sigma> (p_name p))"

definition fill_segments :: "(string \<Rightarrow> string) \<Rightarrow> segment list \<Rightarrow> string" where
  "fill_segments \<sigma> segs = concat (map (\<lambda>seg. ''/'' @ seg_text \<sigma> seg) segs)"

definition fill :: "(string \<Rightarrow> string) \<Rightarrow> Pattern \<Rightarrow> string" where
  \<comment> \<open>the pattern's template with values in place of its parameters\<close>
  "fill \<sigma> p = fill_segments \<sigma> (segments p) @ (if pat_verb p = [] then [] else '':'' @ pat_verb p)"

lemma fill_segments_simps [simp]:
  "fill_segments \<sigma> [] = []"
  "fill_segments \<sigma> (seg # segs) = CHR ''/'' # seg_text \<sigma> seg @ fill_segments \<sigma> segs"
  by (simp_all add: fill_segments_def)

lemma at_boundary_fill: "at_boundary (fill_segments \<sigma> segs)"
  by (cases segs) (simp_all add: at_boundary_def)

section \<open>Reading a path\<close>

lemma takeWhile_part:
  assumes "CHR ''/'' \<notin> set v" "at_boundary rest"
  shows "takeWhile not_slash (v @ rest) = v \<and> dropWhile not_slash (v @ rest) = rest"
proof -
  have "\<forall>c \<in> set v. not_slash c" using assms(1) by (auto simp: not_slash_def)
  moreover have "takeWhile not_slash rest = [] \<and> dropWhile not_slash rest = rest"
    using assms(2) by (cases rest) (auto simp: at_boundary_def not_slash_def)
  ultimately show ?thesis by simp
qed

lemma skip_slashes_part: "path_part v \<Longrightarrow> skip_slashes (v @ s) = v @ s"
  by (cases v) (auto simp: path_part_def skip_slashes_def)

lemma skip_slashes_Cons [simp]: "skip_slashes (CHR ''/'' # s) = skip_slashes s"
  by (simp add: skip_slashes_def)

lemma join_boundary: "at_boundary rest \<Longrightarrow> at_boundary ((if vs = [] then [] else ''/'' @ join_with ''/'' vs) @ rest)"
  by (simp add: at_boundary_def)

lemma join_Cons: "join_with ''/'' (v # vs) = v @ (if vs = [] then [] else ''/'' @ join_with ''/'' vs)"
  by (cases vs) simp_all

lemma slice_append [simp]: "slice (v @ rest) rest = v"
  by (simp add: slice_def)

lemma matchExpr_fits:
  assumes "fits_expr final ess parts" "list_all path_part parts" "at_boundary rest" "final \<Longrightarrow> rest = []"
    and "cur = (if parts = [] then rest else join_with ''/'' parts @ rest) \<or>
      cur = (if parts = [] then rest else CHR ''/'' # join_with ''/'' parts @ rest)"
  shows "matchExpr_loop ess (v @ rest) cur = Some (v, rest)"
  using assms
proof (induction ess arbitrary: parts cur)
  case Nil
  then show ?case by auto
next
  case (Cons es ess)
  show ?case
  proof (cases "es_multi es")
    case True
    with Cons.prems show ?thesis by simp
  next
    case False
    with Cons.prems obtain w ws where parts: "parts = w # ws" "es_wildcard es \<or> w = es_literal es"
      "fits_expr final ess ws" "path_part w" "list_all path_part ws" by (auto split: list.splits)
    let ?more = "(if ws = [] then [] else ''/'' @ join_with ''/'' ws) @ rest"
    have skip: "skip_slashes cur = w @ ?more"
      using Cons.prems(5) skip_slashes_part [OF parts(4), of ?more] by (auto simp: parts(1) join_Cons)
    have more: "at_boundary ?more" using Cons.prems(3) by (rule join_boundary)
    have "CHR ''/'' \<notin> set w" using parts(4) by (simp add: path_part_def)
    from takeWhile_part [OF this more] have dw: "dropWhile not_slash (w @ ?more) = ?more" by blast
    have IH: "matchExpr_loop ess (v @ rest) ?more = Some (v, rest)"
      by (rule Cons.IH [OF parts(3,5) Cons.prems(3,4)]) auto
    show ?thesis
    proof (cases "es_wildcard es")
      case True
      with False skip dw IH show ?thesis by simp
    next
      case lit: False
      then have "w = es_literal es" using parts(2) by simp
      with False lit skip IH more show ?thesis by (simp add: Let_def)
    qed
  qed
qed

lemma matchResource_fits:
  assumes "fits final p v" "p_resource p" "at_boundary rest" "final \<Longrightarrow> rest = []"
  shows "matchResourceExpr (p_expr p) (v @ rest) = Some (v, rest)"
proof -
  let ?parts = "split_byte v CHR ''/''"
  have "join_with ''/'' ?parts = v" by (rule join_split_byte)
  with assms show ?thesis
    unfolding matchResourceExpr_def fits_def by (intro matchExpr_fits [of final _ ?parts]) simp_all
qed

lemma fits_head:
  assumes "fits final p v"
  shows "v \<noteq> [] \<and> hd v \<noteq> CHR ''/''"
proof (cases "p_resource p")
  case True
  let ?parts = "split_byte v CHR ''/''"
  obtain w ws where parts: "?parts = w # ws" by (cases ?parts) auto
  with assms True have "path_part w" by (simp add: fits_def)
  moreover have "v = w @ (if ws = [] then [] else ''/'' @ join_with ''/'' ws)"
    using join_split_byte [of "CHR ''/''" v] unfolding parts join_Cons by simp
  ultimately show ?thesis by (cases w) (auto simp: path_part_def)
next
  case False
  with assms show ?thesis by (cases v) (auto simp: fits_def path_part_def)
qed

definition bind_names :: "(string \<Rightarrow> string) \<Rightarrow> string list \<Rightarrow> params \<Rightarrow> params" where
  "bind_names \<sigma> names ps =
     (if names = [] then ps else Some (\<lambda>n. if n \<in> set names then Some (\<sigma> n) else params_make ps n))"

lemma bind_names_Cons:
  "bind_names \<sigma> (n # names) ps = bind_names \<sigma> names (Some ((params_make ps)(n \<mapsto> \<sigma> n)))"
  by (auto simp: bind_names_def fun_eq_iff)

lemma matchSegments_fill:
  "list_all printable segs \<Longrightarrow> fits_segments \<sigma> segs \<Longrightarrow>
   matchSegments segs (fill_segments \<sigma> segs) ps = Some ([], bind_names \<sigma> (pattern_names segs) ps)"
proof (induction segs arbitrary: ps)
  case Nil
  show ?case by (simp add: bind_names_def)
next
  case (Cons seg segs)
  let ?rest = "fill_segments \<sigma> segs"
  have IH: "matchSegments segs ?rest ps = Some ([], bind_names \<sigma> (pattern_names segs) ps)" for ps
    using Cons by simp
  show ?case
  proof (cases "seg_param seg")
    case None
    then have lit: "path_part (seg_literal seg)"
      using Cons.prems(1) by (simp add: printable_def segment_ok_def path_part_def)
    with None IH at_boundary_fill [of \<sigma> segs] show ?thesis
      by (simp add: seg_text_def skip_slashes_part Let_def)
  next
    case (Some p)
    let ?v = "\<sigma> (p_name p)"
    have fit: "fits (segs = []) p ?v" using Cons.prems(2) Some by simp
    have skip: "skip_slashes (?v @ ?rest) = ?v @ ?rest"
      using fits_head [OF fit] by (cases ?v) (auto simp: skip_slashes_def)
    show ?thesis
    proof (cases "p_resource p")
      case True
      with Some skip IH matchResource_fits [OF fit True at_boundary_fill, of \<sigma>] show ?thesis
        by (simp add: seg_text_def Let_def bind_names_Cons)
    next
      case False
      then have v: "?v \<noteq> []" "CHR ''/'' \<notin> set ?v" using fit by (simp_all add: fits_def path_part_def)
      with False Some skip IH takeWhile_part [OF v(2) at_boundary_fill, of \<sigma> segs] show ?thesis
        by (simp add: seg_text_def Let_def bind_names_Cons)
    qed
  qed
qed

lemma last_segment_suffix:
  assumes "CHR ''/'' \<notin> set v"
  shows "has_suffix (last_segment (s @ v)) v"
proof -
  have "\<forall>c \<in> set (rev v). not_slash c" using assms by (auto simp: not_slash_def)
  then have "takeWhile not_slash (rev v @ rev s) = rev v @ takeWhile not_slash (rev s)" by (intro takeWhile_append2) blast
  then show ?thesis by (simp add: last_segment_def)
qed

lemma Match_fill:
  assumes "list_all printable (segments p)" "pattern_ok p" "fits_segments \<sigma> (segments p)"
  shows "Match p (fill \<sigma> p) = Some (bind_names \<sigma> (pattern_names (segments p)) None)"
proof -
  have "CHR ''/'' \<notin> set ('':'' @ pat_verb p)" using assms(2) by (simp add: pattern_ok_def)
  from last_segment_suffix [OF this, of "fill_segments \<sigma> (segments p)"]
  have "pat_verb p \<noteq> [] \<Longrightarrow> has_suffix (last_segment (fill \<sigma> p)) ('':'' @ pat_verb p)" by (simp add: fill_def)
  moreover have "pat_verb p \<noteq> [] \<Longrightarrow> take (length (fill \<sigma> p) - length (pat_verb p) - 1) (fill \<sigma> p) = fill_segments \<sigma> (segments p)"
    by (simp add: fill_def)
  moreover have "pat_verb p = [] \<Longrightarrow> fill \<sigma> p = fill_segments \<sigma> (segments p)" by (simp add: fill_def)
  ultimately show ?thesis
    using matchSegments_fill [OF assms(1,3), of None]
    by (simp add: Match_def Let_def skip_slashes_def)
qed

section \<open>Writing a path\<close>

lemma index_close: "CHR ''}'' \<notin> set s \<Longrightarrow> index_byte (CHR ''{'' # s @ CHR ''}'' # t) CHR ''}'' = Some (Suc (length s))"
  using index_byte_append_first [of "CHR ''}''" "CHR ''{'' # s" t] by simp

lemma braced_name:
  assumes "printable seg" "seg_param seg = Some p"
  shows "CHR ''}'' \<notin> set (render_inner p) \<and>
    (case index_byte (render_inner p) CHR ''='' of Some eq \<Rightarrow> take eq (render_inner p) | None \<Rightarrow> render_inner p) = p_name p"
proof -
  have ne: "CHR ''='' \<notin> set (p_name p)" using assms by (simp add: printable_def segment_ok_def)
  have "(case index_byte (render_inner p) CHR ''='' of Some eq \<Rightarrow> take eq (render_inner p) | None \<Rightarrow> render_inner p) = p_name p"
  proof (cases "p_resource p")
    case True
    with index_byte_append_first [OF ne, of "join_with ''/'' (map render_expr (p_expr p))"] show ?thesis
      by (simp add: render_inner_def)
  next
    case False
    with ne show ?thesis by (simp add: render_inner_def index_byte_None [THEN iffD2])
  qed
  with plain_inner [OF assms] show ?thesis by (simp add: plain_def)
qed

lemma subst_literal:
  assumes "CHR ''{'' \<notin> set a"
  shows "subst_loop G T st fs (a @ rest) = map_sum id (map_prod ((@) a) id) (subst_loop G T st fs rest :: 'd goerror + string \<times> string list)"
proof (cases "index_byte rest CHR ''{''")
  case None
  then have "index_byte (a @ rest) CHR ''{'' = None" using assms by (simp add: index_byte_None)
  with None show ?thesis by (simp add: subst_loop.simps)
next
  case (Some i)
  then have i: "index_byte (a @ rest) CHR ''{'' = Some (length a + i)"
    using assms by (induction a) auto
  show ?thesis
    by (subst (1 2) subst_loop.simps) (auto simp: i Some Let_def add.assoc split: option.splits sum.splits prod.splits)
qed

lemma subst_brace:
  assumes "printable seg" "seg_param seg = Some p" "fieldValueByName T st fs (p_name p) = Some val"
  shows "subst_loop G T st fs (render_segment seg @ rest) =
    map_sum id (\<lambda>(path, bound). (value_string G val @ path, p_name p # bound))
      (subst_loop G T st fs rest :: 'd goerror + string \<times> string list)"
proof -
  note name = braced_name [OF assms(1,2)]
  let ?s = "render_segment seg @ rest"
  have seg: "?s = CHR ''{'' # render_inner p @ CHR ''}'' # rest" by (simp add: render_segment_inner [OF assms(2)])
  have s: "index_byte ?s CHR ''{'' = Some 0" by (simp add: seg)
  have e: "index_byte (drop 0 ?s) CHR ''}'' = Some (Suc (length (render_inner p)))"
    using index_close [of "render_inner p" rest] name by (simp add: seg)
  have inn: "take (Suc (length (render_inner p)) - 1) (drop (0 + 1) ?s) = render_inner p" by (simp add: seg)
  have more: "drop (0 + Suc (length (render_inner p)) + 1) ?s = rest" by (simp add: seg)
  show ?thesis
    unfolding subst_loop.simps [of G T st fs ?s] s option.case e Let_def inn more conjunct2 [OF name] assms(3)
    by (auto simp: s split: sum.splits)
qed

lemma subst_segments:
  assumes "list_all printable segs" "CHR ''{'' \<notin> set tail"
    and "\<And>n. n \<in> set (pattern_names segs) \<Longrightarrow> \<exists>val. fieldValueByName T st fs n = Some val \<and> value_string G val = \<sigma> n"
  shows "subst_loop G T st fs (concat (map (\<lambda>seg. ''/'' @ render_segment seg) segs) @ tail) =
    (Inr (fill_segments \<sigma> segs @ tail, pattern_names segs) :: 'd goerror + string \<times> string list)"
  using assms
proof (induction segs)
  case Nil
  then show ?case by (simp add: subst_loop.simps index_byte_None [THEN iffD2])
next
  case (Cons seg segs)
  let ?rest = "concat (map (\<lambda>seg. ''/'' @ render_segment seg) segs) @ tail"
  have IH: "subst_loop G T st fs ?rest = (Inr (fill_segments \<sigma> segs @ tail, pattern_names segs) :: 'd goerror + string \<times> string list)"
    by (rule Cons.IH) (use Cons.prems in \<open>auto split: option.splits\<close>)
  have slash: "subst_loop G T st fs (CHR ''/'' # s) = map_sum id (map_prod ((#) CHR ''/'') id) (subst_loop G T st fs s :: 'd goerror + string \<times> string list)" for s
    using subst_literal [of "''/''" G T st fs s] by (simp add: append_Cons [abs_def])
  show ?case
  proof (cases "seg_param seg")
    case None
    then have "CHR ''{'' \<notin> set (seg_literal seg)" using Cons.prems(1) by (auto simp: printable_def plain_def)
    moreover have "render_segment seg = seg_literal seg" "seg_text \<sigma> seg = seg_literal seg"
      using None by (simp_all add: render_segment_def seg_text_def)
    moreover have "subst_loop G T st fs (seg_literal seg @ ?rest) =
        map_sum id (map_prod ((@) (seg_literal seg)) id) (subst_loop G T st fs ?rest :: 'd goerror + string \<times> string list)"
      by (rule subst_literal) fact
    ultimately show ?thesis using IH None by (simp add: slash)
  next
    case (Some p)
    with Cons.prems(3) obtain val where val: "fieldValueByName T st fs (p_name p) = Some val" "value_string G val = \<sigma> (p_name p)" by auto
    have "printable seg" using Cons.prems(1) by simp
    have "subst_loop G T st fs (render_segment seg @ ?rest) =
        map_sum id (\<lambda>(path, bound). (value_string G val @ path, p_name p # bound))
          (subst_loop G T st fs ?rest :: 'd goerror + string \<times> string list)"
      by (rule subst_brace) fact+
    with IH val(2) Some show ?thesis by (simp add: slash seg_text_def)
  qed
qed

lemma Substitute_render:
  assumes "list_all printable (segments p)" "pattern_ok p" "struct_behind v = Some (s, fs)"
    and "\<And>n. n \<in> set (pattern_names (segments p)) \<Longrightarrow> \<exists>val. fieldValueByName T s fs n = Some val \<and> value_string G val = \<sigma> n"
  shows "SubstitutePathParamsBound G T (render p) (Some v) =
    (Inr (fill \<sigma> p, pattern_names (segments p)) :: 'd goerror + string \<times> string list)"
proof -
  let ?verb = "if pat_verb p = [] then [] else '':'' @ pat_verb p"
  have verb: "CHR ''{'' \<notin> set ?verb" using assms(2) by (simp add: pattern_ok_def)
  from subst_segments [OF assms(1) verb assms(4)]
  have loop: "subst_loop G T s fs (render p) = (Inr (fill \<sigma> p, pattern_names (segments p)) :: 'd goerror + string \<times> string list)"
    by (simp add: render_def fill_def)
  have "subst_loop G T s fs (render p) = (Inr (render p, []) :: 'd goerror + string \<times> string list)" if "CHR ''{'' \<notin> set (render p)"
    using that by (simp add: subst_loop.simps index_byte_None [THEN iffD2])
  with loop assms(3) show ?thesis by (simp add: SubstitutePathParamsBound_def)
qed


section \<open>A request on the wire\<close>

text \<open>
  What \<open>net/http\<close> makes of the target of a request line, for a target without escapes or a fragment.
\<close>

definition parse_target :: "string \<Rightarrow> string \<times> string" where
  "parse_target u = (case index_byte u CHR ''?'' of None \<Rightarrow> (u, []) | Some i \<Rightarrow> (take i u, drop (Suc i) u))"

lemma parse_target_query:
  assumes "CHR ''?'' \<notin> set path"
  shows "parse_target (if query = [] then path else path @ ''?'' @ query) = (path, query)"
  using assms index_byte_append_first [OF assms, of query]
  by (simp add: parse_target_def index_byte_None [THEN iffD2])

lemma fold_update:
  assumes "distinct (map ix q)" "\<forall>x \<in> set q. ix x < length fs"
  shows "fold (\<lambda>x fs. fs[ix x := f (ix x)]) q fs = map (\<lambda>i. if i \<in> ix ` set q then f i else fs ! i) [0..<length fs]"
  using assms
proof (induction q arbitrary: fs)
  case Nil
  show ?case by (simp add: map_nth)
next
  case (Cons x q)
  then have "fold (\<lambda>x fs. fs[ix x := f (ix x)]) q (fs[ix x := f (ix x)]) =
      map (\<lambda>i. if i \<in> ix ` set q then f i else fs[ix x := f (ix x)] ! i) [0..<length fs]" by simp
  moreover have "(if i \<in> ix ` set q then f i else fs[ix x := f (ix x)] ! i) =
      (if i \<in> ix ` set (x # q) then f i else fs ! i)" if "i < length fs" for i
    using that by (auto simp: nth_list_update)
  ultimately show ?case by simp
qed

lemma set_params_fields:
  assumes "distinct (map (\<lambda>(nm, val). the (field_index T s nm)) ps)"
    and "\<forall>(nm, val) \<in> set ps. CHR ''.'' \<notin> set nm \<and>
      (\<exists>i. field_index T s nm = Some i \<and> i < length fs \<and> setStringValue G T val (fs ! i) = (Done :: 'd set_result, f i))"
  shows "set_params G T ps (VPtr t (Some (VStruct s fs))) =
    (None :: 'd goerror option, VPtr t (Some (VStruct s
      (fold (\<lambda>x fs. fs[the (field_index T s (fst x)) := f (the (field_index T s (fst x)))]) ps fs))))"
  using assms
proof (induction ps arbitrary: fs)
  case Nil
  show ?case by simp
next
  case (Cons x ps)
  obtain nm val where x: "x = (nm, val)" by (cases x)
  from Cons.prems(2) x obtain i where i: "CHR ''.'' \<notin> set nm" "field_index T s nm = Some i" "i < length fs"
    "setStringValue G T val (fs ! i) = (Done :: 'd set_result, f i)" by auto
  have "\<forall>(nm', val') \<in> set ps. CHR ''.'' \<notin> set nm' \<and> (\<exists>j. field_index T s nm' = Some j \<and> j < length (fs[i := f i]) \<and>
      setStringValue G T val' (fs[i := f i] ! j) = (Done :: 'd set_result, f j))"
  proof clarify
    fix nm' val' assume y: "(nm', val') \<in> set ps"
    with Cons.prems(2) obtain j where j: "CHR ''.'' \<notin> set nm'" "field_index T s nm' = Some j" "j < length fs"
      "setStringValue G T val' (fs ! j) = (Done :: 'd set_result, f j)" by auto
    moreover have "j \<noteq> i" using Cons.prems(1) y i(2) j(2) by (force simp: x)
    ultimately show "CHR ''.'' \<notin> set nm' \<and> (\<exists>j. field_index T s nm' = Some j \<and> j < length (fs[i := f i]) \<and>
        setStringValue G T val' (fs[i := f i] ! j) = (Done :: 'd set_result, f j))" by auto
  qed
  then have "set_params G T ps (VPtr t (Some (VStruct s (fs[i := f i])))) =
      (None :: 'd goerror option, VPtr t (Some (VStruct s
        (fold (\<lambda>x fs. fs[the (field_index T s (fst x)) := f (the (field_index T s (fst x)))]) ps (fs[i := f i])))))"
    using Cons.prems(1) by (intro Cons.IH) simp_all
  with setFieldString_field [OF i(1,2,4), of True t] i(2) show ?case by (simp add: x)
qed

definition path_field :: "'f golib \<Rightarrow> 'f types \<Rightarrow> string \<Rightarrow> 'f gval list \<Rightarrow> string \<Rightarrow> bool" where
  \<comment> \<open>a field the path can carry: a string, boolean or integer under its \<open>json\<close> name, which is no other field's Go name\<close>
  "path_field G T s fs n =
     ((\<forall>sf \<in> set (fields_of T s). fl_exported sf \<and> fl_Name sf = n \<longrightarrow> json_tag sf = n) \<and>
      (case field_index T s n of
         None \<Rightarrow> False
       | Some i \<Rightarrow> json_tag (fields_of T s ! i) = n \<and> i < length fs \<and> scalar_ok (fs ! i) \<and>
           zero_fields T s ! i = zero G T (type_of (fs ! i))))"

definition path_value :: "'f golib \<Rightarrow> 'f types \<Rightarrow> string \<Rightarrow> 'f gval list \<Rightarrow> string \<Rightarrow> string" where
  \<comment> \<open>the text of a field in a path\<close>
  "path_value G T s fs n = (case field_index T s n of None \<Rightarrow> [] | Some i \<Rightarrow> value_string G (fs ! i))"

lemma path_field_index:
  assumes "path_field G T s fs n"
  shows "\<exists>i. field_index T s n = Some i \<and> i < length fs \<and> fl_exported (fields_of T s ! i) \<and>
    json_tag (fields_of T s ! i) = n \<and> scalar_ok (fs ! i) \<and> zero_fields T s ! i = zero G T (type_of (fs ! i))"
proof -
  from assms obtain i where i: "field_index T s n = Some i" "json_tag (fields_of T s ! i) = n" "i < length fs"
    "scalar_ok (fs ! i)" "zero_fields T s ! i = zero G T (type_of (fs ! i))"
    by (auto simp: path_field_def split: option.splits)
  from find_index_from_Some [OF i(1) [unfolded field_index_def]] have "field_named n (fields_of T s ! i)" by simp
  then have "fl_exported (fields_of T s ! i)" by (simp add: field_named_def)
  with i show ?thesis by blast
qed

lemma path_field_value:
  assumes "queryable G T bound s fs" "path_field G T s fs n"
  shows "\<exists>val. fieldValueByName T s fs n = Some val \<and> value_string G val = path_value G T s fs n"
proof -
  from path_field_index [OF assms(2)] obtain i where i: "field_index T s n = Some i" "i < length fs"
    "fl_exported (fields_of T s ! i)" "json_tag (fields_of T s ! i) = n" by blast
  have ok: "tags_ok T s" and len: "length fs = length (fields_of T s)" using assms(1) by (auto simp: queryable_def)
  have "find_index_from 0 (\<lambda>sf. fl_exported sf \<and> (ProtoName sf = n \<or> fl_Name sf = n)) (fields_of T s) = Some i"
  proof (rule find_index_from_unique)
    show "i < length (fields_of T s)" using i(2) len by simp
    show "fl_exported (fields_of T s ! i) \<and> (ProtoName (fields_of T s ! i) = n \<or> fl_Name (fields_of T s ! i) = n)"
      using i queryable_names(1) [OF assms(1) i(2,3)] by simp
  next
    fix j assume j: "j < length (fields_of T s)"
      "fl_exported (fields_of T s ! j) \<and> (ProtoName (fields_of T s ! j) = n \<or> fl_Name (fields_of T s ! j) = n)"
    then have "json_tag (fields_of T s ! j) = n"
      using queryable_names(1) [OF assms(1), of j] len assms(2) nth_mem [OF j(1)] unfolding path_field_def by metis
    with i j ok len show "j = i"
      by (intro distinct_filter_nth [of json_tag fl_exported "fields_of T s"]) (simp_all add: tags_ok_def)
  qed
  with i(1) show ?thesis by (simp add: fieldValueByName_def path_value_def)
qed

lemma path_value_set:
  assumes "queryable G T bound s fs" "path_field G T s fs n"
  shows "CHR ''.'' \<notin> set n \<and> (\<exists>i. field_index T s n = Some i \<and> i < length (zero_fields T s) \<and>
    setStringValue G T (path_value G T s fs n) (zero_fields T s ! i) = (Done :: 'd set_result, fs ! i))"
proof -
  from path_field_index [OF assms(2)] obtain i where i: "field_index T s n = Some i" "i < length fs"
    "fl_exported (fields_of T s ! i)" "json_tag (fields_of T s ! i) = n" "scalar_ok (fs ! i)"
    "zero_fields T s ! i = zero G T (type_of (fs ! i))" by blast
  moreover have "length (zero_fields T s) = length fs" using assms(1) by (simp add: queryable_def)
  ultimately show ?thesis
    using queryable_names(2) [OF assms(1) i(2,3)] setStringValue_scalar [OF i(5), of G T] by (auto simp: path_value_def)
qed


lemma bind_names_None: "params_make (bind_names \<sigma> names None) = (\<lambda>n. if n \<in> set names then Some (\<sigma> n) else None)"
  by (auto simp: bind_names_def)

lemma set_params_path:
  assumes "queryable G T bound s fs" "\<And>n. n \<in> set names \<Longrightarrow> path_field G T s fs n"
    and "distinct (map fst l)" "map_of l = (\<lambda>n. if n \<in> set names then Some (path_value G T s fs n) else None)"
  shows "set_params G T l (VPtr t (Some (VStruct s (zero_fields T s)))) =
    (None :: 'd goerror option, VPtr t (Some (VStruct s
      (map (\<lambda>i. if Some i \<in> field_index T s ` set names then fs ! i else zero_fields T s ! i) [0..<length fs]))))"
proof -
  let ?z = "zero_fields T s" and ?ix = "\<lambda>x. the (field_index T s (fst x))"
  have len: "length ?z = length fs" using assms(1) by (simp add: queryable_def)
  have mem: "fst x \<in> set names \<and> snd x = path_value G T s fs (fst x)" if "x \<in> set l" for x
  proof -
    have "map_of l (fst x) = Some (snd x)" using assms(3) that by (cases x) simp
    then show ?thesis unfolding assms(4) by (auto split: if_splits)
  qed
  have dom: "fst ` set l = set names"
  proof -
    have "dom (map_of l) = set names" unfolding assms(4) by (auto split: if_splits)
    then show ?thesis by (simp add: dom_map_of_conv_image_fst)
  qed
  have ix: "field_index T s (fst x) = Some (?ix x) \<and> ?ix x < length fs" if "x \<in> set l" for x
  proof -
    from mem [OF that] have "fst x \<in> set names" by blast
    from path_field_index [OF assms(2) [OF this]] show ?thesis by force
  qed
  have tag: "json_tag (fields_of T s ! ?ix x) = fst x" if "x \<in> set l" for x
  proof -
    from mem [OF that] have "fst x \<in> set names" by blast
    from path_field_index [OF assms(2) [OF this]] show ?thesis by force
  qed
  have dist: "distinct (map ?ix l)"
  proof -
    have "inj_on ?ix (set l)"
    proof (rule inj_onI)
      fix x y assume xy: "x \<in> set l" "y \<in> set l" "?ix x = ?ix y"
      from tag [OF xy(1)] tag [OF xy(2)] have "fst x = fst y" unfolding xy(3) by (rule trans [OF sym])
      with mem [OF xy(1)] mem [OF xy(2)] show "x = y" by (simp add: prod_eq_iff)
    qed
    with assms(3) show ?thesis unfolding distinct_map by blast
  qed
  have "\<forall>(nm, val) \<in> set l. CHR ''.'' \<notin> set nm \<and> (\<exists>i. field_index T s nm = Some i \<and> i < length ?z \<and>
      setStringValue G T val (?z ! i) = (Done :: 'd set_result, fs ! i))"
  proof clarify
    fix nm val assume "(nm, val) \<in> set l"
    from mem [OF this] path_value_set [OF assms(1) assms(2), of nm]
    show "CHR ''.'' \<notin> set nm \<and> (\<exists>i. field_index T s nm = Some i \<and> i < length ?z \<and>
        setStringValue G T val (?z ! i) = (Done :: 'd set_result, fs ! i))" by simp
  qed
  moreover have "distinct (map (\<lambda>(nm, val). the (field_index T s nm)) l)"
    using dist by (simp add: case_prod_unfold)
  ultimately have "set_params G T l (VPtr t (Some (VStruct s ?z))) =
      (None :: 'd goerror option, VPtr t (Some (VStruct s (fold (\<lambda>x fs'. fs'[?ix x := fs ! ?ix x]) l ?z))))"
    by (intro set_params_fields [where f = "(!) fs"])
  moreover have "fold (\<lambda>x fs'. fs'[?ix x := fs ! ?ix x]) l ?z =
      map (\<lambda>i. if i \<in> ?ix ` set l then fs ! i else ?z ! i) [0..<length fs]"
    using fold_update [OF dist, of ?z "(!) fs"] ix len by simp
  moreover have "i \<in> ?ix ` set l \<longleftrightarrow> Some i \<in> field_index T s ` set names" for i
    unfolding dom [symmetric]
  proof
    assume "i \<in> ?ix ` set l"
    then obtain x where "x \<in> set l" "i = ?ix x" by blast
    with ix [of x] show "Some i \<in> field_index T s ` fst ` set l" by (metis imageI)
  next
    assume "Some i \<in> field_index T s ` fst ` set l"
    then obtain x where x: "x \<in> set l" "Some i = field_index T s (fst x)" by blast
    then have "i = ?ix x" by (metis option.sel)
    with x(1) show "i \<in> ?ix ` set l" by (rule rev_image_eqI)
  qed
  ultimately show ?thesis by simp
qed

lemma bound_names:
  assumes "queryable G T bound s fs" "\<And>n. n \<in> set names \<Longrightarrow> path_field G T s fs n"
  shows "i < length fs \<Longrightarrow> fl_exported (fields_of T s ! i) \<Longrightarrow>
      Some i \<in> field_index T s ` set names \<longleftrightarrow> json_tag (fields_of T s ! i) \<in> set names"
    and "Some i \<in> field_index T s ` set names \<Longrightarrow> fl_exported (fields_of T s ! i)"
proof -
  have index: "json_tag (fields_of T s ! i) \<in> set names \<and> fl_exported (fields_of T s ! i)"
    if "Some i \<in> field_index T s ` set names"
  proof -
    from that obtain n where n: "n \<in> set names" "field_index T s n = Some i" by (metis imageE)
    with path_field_index [OF assms(2) [OF n(1)]] show ?thesis by auto
  qed
  then show "Some i \<in> field_index T s ` set names \<Longrightarrow> fl_exported (fields_of T s ! i)" by blast
  assume "i < length fs" "fl_exported (fields_of T s ! i)"
  from queryable_names(3) [OF assms(1) this] index
  show "Some i \<in> field_index T s ` set names \<longleftrightarrow> json_tag (fields_of T s ! i) \<in> set names" by (metis imageI)
qed

definition received :: "'f types \<Rightarrow> string \<Rightarrow> 'f gval list \<Rightarrow> 'f gval list" where
  \<comment> \<open>the client's fields, less the unexported ones\<close>
  "received T s fs =
     map (\<lambda>i. if fl_exported (fields_of T s ! i) then fs ! i else zero_fields T s ! i) [0..<length fs]"

definition path_filled :: "'f types \<Rightarrow> string \<Rightarrow> 'f gval list \<Rightarrow> string list \<Rightarrow> 'f gval list" where
  \<comment> \<open>an empty message with the fields of the path filled in\<close>
  "path_filled T s fs names =
     map (\<lambda>i. if Some i \<in> field_index T s ` set names then fs ! i else zero_fields T s ! i) [0..<length fs]"

lemma query_completes:
  assumes "queryable G T names s fs" "\<And>n. n \<in> set names \<Longrightarrow> path_field G T s fs n"
    and "mset q = mset (MessageToQuery G T (VPtr t (Some (VStruct s fs))) names)"
    and "\<And>nm. nm \<notin> set names \<Longrightarrow> nm \<noteq> [] \<Longrightarrow> \<not> skip nm"
  shows "set_query G T skip q (VPtr t (Some (VStruct s (path_filled T s fs names)))) =
    (None :: 'd goerror option, VPtr t (Some (VStruct s (received T s fs))))"
proof -
  let ?z' = "path_filled T s fs names"
  have "set_query G T skip q (VPtr t (Some (VStruct s ?z'))) =
      (None :: 'd goerror option, VPtr t (Some (VStruct s
        (map (\<lambda>i. if visible T names s i then fs ! i else ?z' ! i) [0..<length fs]))))"
  proof (rule set_query_MessageToQuery [OF assms(1,3)])
    show "?z' ! i = zero_fields T s ! i" if "i < length fs" "visible T names s i" for i
      using that bound_names(1) [OF assms(1,2) that(1), of names] by (auto simp: visible_def path_filled_def)
    show "\<not> skip nm" if "nm \<notin> set names" "\<exists>i < length fs. visible T names s i \<and> nm = json_tag (fields_of T s ! i)" for nm
      using that assms(1) by (intro assms(4)) (auto simp: queryable_def visible_def tags_ok_def)
  qed (simp add: path_filled_def)
  moreover have "map (\<lambda>i. if visible T names s i then fs ! i else ?z' ! i) [0..<length fs] = received T s fs"
    unfolding received_def
  proof (intro map_cong refl)
    fix i assume "i \<in> set [0..<length fs]"
    then have i: "i < length fs" by simp
    show "(if visible T names s i then fs ! i else ?z' ! i) =
        (if fl_exported (fields_of T s ! i) then fs ! i else zero_fields T s ! i)"
      using bound_names(1) [OF assms(1,2) i] bound_names(2) [OF assms(1,2), of names i] i
      by (auto simp: visible_def path_filled_def)
  qed
  ultimately show ?thesis by simp
qed

lemma call_on_the_wire:
  assumes "list_all printable (segments p)" "pattern_ok p"
    and "queryable (ce_go E) (ce_types E) (pattern_names (segments p)) s fs"
    and "list_all (path_field (ce_go E) (ce_types E) s fs) (pattern_names (segments p))"
    and "fits_segments (path_value (ce_go E) (ce_types E) s fs) (segments p)"
    and "set (fill (path_value (ce_go E) (ce_types E) s fs) p) \<inter> {CHR ''?'', CHR ''#'', CHR ''%''} = {}"
  shows "\<exists>u. encode_call E codec (render p) [] (Some (VPtr t (Some (VStruct s fs)))) =
      Some (Inr (u, None) :: 'd goerror + string \<times> string option) \<and>
    fst (parse_target u) = fill (path_value (ce_go E) (ce_types E) s fs) p \<and>
    Match p (fst (parse_target u)) =
      Some (bind_names (path_value (ce_go E) (ce_types E) s fs) (pattern_names (segments p)) None) \<and>
    mset (ParseQuery (snd (parse_target u))) =
      mset (MessageToQuery (ce_go E) (ce_types E) (VPtr t (Some (VStruct s fs))) (pattern_names (segments p)))"
proof -
  let ?G = "ce_go E" and ?T = "ce_types E" and ?names = "pattern_names (segments p)"
  let ?\<sigma> = "path_value ?G ?T s fs" and ?v = "VPtr t (Some (VStruct s fs))"
  have pf: "path_field ?G ?T s fs n" if "n \<in> set ?names" for n using assms(4) that by (simp add: list_all_iff)
  have subst: "SubstitutePathParamsBound ?G ?T (render p) (Some ?v) = (Inr (fill ?\<sigma> p, ?names) :: 'd goerror + string \<times> string list)"
    by (rule Substitute_render [OF assms(1,2)]) (auto simp: struct_behind_def intro: path_field_value [OF assms(3) pf])
  from encode_call_query [OF this assms(3), of codec] obtain query where query:
    "encode_call E codec (render p) [] (Some ?v) =
      Some (Inr (if query = [] then fill ?\<sigma> p else fill ?\<sigma> p @ ''?'' @ query, None) :: 'd goerror + string \<times> string option)"
    "mset (ParseQuery query) = mset (MessageToQuery ?G ?T ?v ?names)" by blast
  let ?u = "if query = [] then fill ?\<sigma> p else fill ?\<sigma> p @ ''?'' @ query"
  have target: "parse_target ?u = (fill ?\<sigma> p, query)" using assms(6) by (intro parse_target_query) auto
  show ?thesis
    by (intro exI [of _ ?u] conjI) (simp_all only: target fst_conv snd_conv query Match_fill [OF assms(1,2,5)])
qed

text \<open>
  C2. A call without a body reaches the server whole. The client fills the template of a route with the fields of a
  message and puts the other fields into the query; the server matches the path against the route's pattern and fills an
  empty message from the parameters it captured and the query it parsed, in whatever order it visits either. If the
  message's fields can travel (strings, booleans, integers, pointers to them, slices of them; in the path values that
  fit their parameters and need no escaping), the handler's message is the client's.
\<close>

theorem request_over_the_wire:
  assumes "list_all printable (segments p)" "pattern_ok p"
    and "queryable (ce_go E) (ce_types E) (pattern_names (segments p)) s fs"
    and "list_all (path_field (ce_go E) (ce_types E) s fs) (pattern_names (segments p))"
    and "fits_segments (path_value (ce_go E) (ce_types E) s fs) (segments p)"
    and "set (fill (path_value (ce_go E) (ce_types E) s fs) p) \<inter> {CHR ''?'', CHR ''#'', CHR ''%''} = {}"
  shows "\<exists>u ps. encode_call E codec (render p) [] (Some (VPtr t (Some (VStruct s fs)))) =
      Some (Inr (u, None) :: 'd goerror + string \<times> string option) \<and>
    Match p (fst (parse_target u)) = Some ps \<and>
    (\<forall>l q. distinct (map fst l) \<and> map_of l = params_make ps \<and> mset q = mset (ParseQuery (snd (parse_target u))) \<longrightarrow>
       PopulateMessage (ce_go E) (ce_types E) dec (VPtr t (Some (VStruct s (zero_fields (ce_types E) s)))) l q body [] =
       (None :: 'd goerror option, VPtr t (Some (VStruct s (received (ce_types E) s fs)))))"
proof -
  let ?G = "ce_go E" and ?T = "ce_types E" and ?names = "pattern_names (segments p)" and ?z = "zero_fields (ce_types E) s"
  let ?\<sigma> = "path_value ?G ?T s fs"
  have pf: "path_field ?G ?T s fs n" if "n \<in> set ?names" for n using assms(4) that by (simp add: list_all_iff)
  from call_on_the_wire [OF assms, of codec t] obtain u where
    u: "encode_call E codec (render p) [] (Some (VPtr t (Some (VStruct s fs)))) =
        Some (Inr (u, None) :: 'd goerror + string \<times> string option)"
      "Match p (fst (parse_target u)) = Some (bind_names ?\<sigma> ?names None)"
      "mset (ParseQuery (snd (parse_target u))) = mset (MessageToQuery ?G ?T (VPtr t (Some (VStruct s fs))) ?names)" by blast
  have "PopulateMessage ?G ?T dec (VPtr t (Some (VStruct s ?z))) l q body [] =
      (None :: 'd goerror option, VPtr t (Some (VStruct s (received ?T s fs))))"
    if l: "distinct (map fst l)" "map_of l = params_make (bind_names ?\<sigma> ?names None)"
      and q: "mset q = mset (ParseQuery (snd (parse_target u)))" for l q
  proof -
    have ps: "map_of l = (\<lambda>n. if n \<in> set ?names then Some (?\<sigma> n) else None)" using l(2) by (simp add: bind_names_None)
    have "set_params ?G ?T l (VPtr t (Some (VStruct s ?z))) =
        (None :: 'd goerror option, VPtr t (Some (VStruct s (path_filled ?T s fs ?names))))"
      unfolding path_filled_def by (rule set_params_path [OF assms(3) pf l(1) ps])
    moreover have "set_query ?G ?T (\<lambda>nm. map_of l nm \<noteq> None \<or> nm = []) q (VPtr t (Some (VStruct s (path_filled ?T s fs ?names)))) =
        (None :: 'd goerror option, VPtr t (Some (VStruct s (received ?T s fs))))"
      by (rule query_completes [OF assms(3) pf]) (simp_all add: q u(3) ps)
    ultimately show ?thesis by (simp add: PopulateMessage_def nil_pointer_def)
  qed
  with u(1,2) show ?thesis
    by (intro exI [of _ u] exI [of _ "bind_names ?\<sigma> ?names None"]) (simp del: bind_names_None)
qed

section \<open>A request to apply the theorem to\<close>

definition book_pattern :: Pattern where
  "book_pattern =
     \<lparr>raw = ''/books/{id}:read'', segments = [\<lparr>seg_literal = ''books'', seg_param = None\<rparr>,
        \<lparr>seg_literal = [], seg_param = Some \<lparr>p_name = ''id'', p_resource = False, p_expr = []\<rparr>\<rparr>], pat_verb = ''read''\<rparr>"

lemma book_names: "pattern_names (segments book_pattern) = [''id'']"
  by (simp add: book_pattern_def)

lemma book_path_field: "path_field no_lib book_types ''Book'' book ''id''"
  by code_simp

lemma book_path_value: "path_value no_lib book_types ''Book'' book ''id'' = ''7''"
  by code_simp

lemma book_received: "received book_types ''Book'' book = book"
  by (simp add: received_def book_types_def book_def upt_rec)

lemma book_env_sel: "ce_go book_env = no_lib" "ce_types book_env = book_types"
  by (simp_all add: book_env_def)

lemma request_over_the_wire_witness:
  "\<exists>u ps. encode_call book_env JSONCodec (render book_pattern) [] (Some (VPtr (TStruct ''Book'') (Some (VStruct ''Book'' book)))) =
      Some (Inr (u, None) :: string goerror + string \<times> string option) \<and>
    Match book_pattern (fst (parse_target u)) = Some ps \<and>
    (\<forall>l q. distinct (map fst l) \<and> map_of l = params_make ps \<and> mset q = mset (ParseQuery (snd (parse_target u))) \<longrightarrow>
       PopulateMessage no_lib book_types (\<lambda>b v. (None, v))
         (VPtr (TStruct ''Book'') (Some (VStruct ''Book'' (zero_fields book_types ''Book'')))) l q [] [] =
       (None :: string goerror option, VPtr (TStruct ''Book'') (Some (VStruct ''Book'' book))))"
proof -
  have "list_all printable (segments book_pattern)" "pattern_ok book_pattern" by code_simp+
  moreover have "fits_segments (path_value no_lib book_types ''Book'' book) (segments book_pattern)"
    by (simp add: book_pattern_def book_path_value fits_def path_part_def)
  moreover have "fill (path_value no_lib book_types ''Book'' book) book_pattern = ''/books/7:read''"
    by (simp add: book_pattern_def book_path_value fill_def seg_text_def)
  ultimately show ?thesis
    using request_over_the_wire [of book_pattern book_env "''Book''" book JSONCodec "TStruct ''Book''" "\<lambda>b v. (None, v)" "[]"]
      book_queryable [folded book_def] book_path_field
    unfolding book_env_sel book_names book_received by simp
qed

end
