(* ===== verification/RouteTree.thy ===== *)
theory RouteTree
  imports Pattern
begin

text \<open>
  The per-method radix tree of \<open>routing/route_tree.go\<close>.

  A Go node is reached through a pointer and changed in place: \<open>insert\<close> walks down with
  \<open>node = node.addLiteralChild(...)\<close> and adds the terminal at the node it ends on. The model
  passes what is still to be done at the node an \<open>add\<dots>Child\<close> call returns as a function \<open>k\<close>,
  and rebuilds the path above it.
\<close>

datatype nodeKind = nodeLiteral | nodeParam | nodeResource

datatype 'h routeNode =
  RouteNode (kind: nodeKind) (prefix: string) (name: string) (expr: "exprSeg list")
    (terminals: "(string \<times> 'h) list") (children: "'h routeNode list")

definition literalNode :: "string \<Rightarrow> 'h routeNode" where
  "literalNode pre = RouteNode nodeLiteral pre [] [] [] []"

definition newRouteTree :: "'h routeNode" where
  \<comment> \<open>the root: \<open>&routeNode{}\<close>, a literal node with the empty prefix\<close>
  "newRouteTree = RouteNode nodeLiteral [] [] [] [] []"

fun commonPrefixLen :: "string \<Rightarrow> string \<Rightarrow> nat" where
  "commonPrefixLen (a # as) (b # bs) = (if a = b then Suc (commonPrefixLen as bs) else 0)"
| "commonPrefixLen _ _ = 0"

fun exprEqual :: "exprSeg list \<Rightarrow> exprSeg list \<Rightarrow> bool" where
  "exprEqual [] [] = True"
| "exprEqual (a # as) (b # bs) = (a = b \<and> exprEqual as bs)"
| "exprEqual _ _ = False"

definition stripTrailingSlashes :: "string \<Rightarrow> string" where
  "stripTrailingSlashes s = rev (dropWhile (\<lambda>c. c = CHR ''/'') (rev s))"

section \<open>Insertion\<close>

fun insertBeforeNonLiteral :: "'h routeNode \<Rightarrow> 'h routeNode list \<Rightarrow> 'h routeNode list" where
  "insertBeforeNonLiteral child [] = [child]"
| "insertBeforeNonLiteral child (c # cs) =
     (if kind c \<noteq> nodeLiteral then child # c # cs else c # insertBeforeNonLiteral child cs)"

lemma commonPrefixLen_Nil [simp]: "commonPrefixLen [] b = 0" "commonPrefixLen a [] = 0"
  by (cases a; simp)+

lemma commonPrefixLen_le: "commonPrefixLen a b \<le> length a" "commonPrefixLen a b \<le> length b"
  by (induction a b rule: commonPrefixLen.induct) auto

lemma drop_common_shorter:
  "0 < commonPrefixLen a pre \<Longrightarrow> length pre - commonPrefixLen a pre < length pre"
  by (cases pre) auto

function (sequential) addLiteralChild ::
    "('h routeNode \<Rightarrow> 'h routeNode) \<Rightarrow> string \<Rightarrow> 'h routeNode \<Rightarrow> 'h routeNode"
  and addLiteralChildren ::
    "('h routeNode \<Rightarrow> 'h routeNode) \<Rightarrow> string \<Rightarrow> 'h routeNode list \<Rightarrow> 'h routeNode list option" where
  "addLiteralChild k pre (RouteNode kd p nm ex ts cs) =
     (case addLiteralChildren k pre cs of
        Some cs' \<Rightarrow> RouteNode kd p nm ex ts cs'
      | None \<Rightarrow> RouteNode kd p nm ex ts (insertBeforeNonLiteral (k (literalNode pre)) cs))"
| "addLiteralChildren k pre [] = None"
| "addLiteralChildren k pre (child # cs) =
     (if kind child \<noteq> nodeLiteral then map_option ((#) child) (addLiteralChildren k pre cs)
      else
        let common = commonPrefixLen (prefix child) pre
        in if common = 0 then map_option ((#) child) (addLiteralChildren k pre cs)
           else if common = length (prefix child) \<and> common = length pre then Some (k child # cs)
           else if common = length (prefix child) then
             Some (addLiteralChild k (drop common pre) child # cs)
           else
             let split = RouteNode nodeLiteral (drop common (prefix child)) [] []
                           (terminals child) (children child);
                 child' = RouteNode (kind child) (take common (prefix child)) (name child)
                            (expr child) [] [split]
             in if common = length pre then Some (k child' # cs)
                else Some (addLiteralChild k (drop common pre) child' # cs))"
  by pat_completeness auto

termination
  by (relation "measures
        [\<lambda>x. case x of Inl (k, pre, n) \<Rightarrow> length pre | Inr (k, pre, cs) \<Rightarrow> length pre,
         \<lambda>x. case x of Inl (k, pre, n) \<Rightarrow> size n | Inr (k, pre, cs) \<Rightarrow> size_list size cs]")
     (auto simp: Let_def drop_common_shorter)

fun addParamChildren ::
    "('h routeNode \<Rightarrow> 'h routeNode) \<Rightarrow> string \<Rightarrow> 'h routeNode list \<Rightarrow> 'h routeNode list" where
  "addParamChildren k nm [] = [k (RouteNode nodeParam [] nm [] [] [])]"
| "addParamChildren k nm (child # cs) =
     (if kind child = nodeParam \<and> name child = nm then k child # cs
      else child # addParamChildren k nm cs)"

definition addParamChild ::
    "('h routeNode \<Rightarrow> 'h routeNode) \<Rightarrow> string \<Rightarrow> 'h routeNode \<Rightarrow> 'h routeNode" where
  "addParamChild k nm n =
     RouteNode (kind n) (prefix n) (name n) (expr n) (terminals n) (addParamChildren k nm (children n))"

fun addResourceChildren ::
    "('h routeNode \<Rightarrow> 'h routeNode) \<Rightarrow> string \<Rightarrow> exprSeg list \<Rightarrow> 'h routeNode list \<Rightarrow> 'h routeNode list" where
  "addResourceChildren k nm ex [] = [k (RouteNode nodeResource [] nm ex [] [])]"
| "addResourceChildren k nm ex (child # cs) =
     (if kind child = nodeResource \<and> name child = nm \<and> exprEqual (expr child) ex then k child # cs
      else child # addResourceChildren k nm ex cs)"

definition addResourceChild ::
    "('h routeNode \<Rightarrow> 'h routeNode) \<Rightarrow> string \<Rightarrow> exprSeg list \<Rightarrow> 'h routeNode \<Rightarrow> 'h routeNode" where
  "addResourceChild k nm ex n =
     RouteNode (kind n) (prefix n) (name n) (expr n) (terminals n)
       (addResourceChildren k nm ex (children n))"

definition addTerminal :: "string \<Rightarrow> 'h \<Rightarrow> 'h routeNode \<Rightarrow> 'h routeNode" where
  "addTerminal verb h n =
     (if \<exists>t \<in> set (terminals n). fst t = verb then n
      else RouteNode (kind n) (prefix n) (name n) (expr n) (terminals n @ [(verb, h)]) (children n))"

definition flushLiteral ::
    "('h routeNode \<Rightarrow> 'h routeNode) \<Rightarrow> string \<Rightarrow> 'h routeNode \<Rightarrow> 'h routeNode" where
  "flushLiteral k lit n = (if lit \<noteq> [] then addLiteralChild k lit n else k n)"

primrec insertSegments ::
    "segment list \<Rightarrow> string \<Rightarrow> string \<Rightarrow> 'h \<Rightarrow> 'h routeNode \<Rightarrow> 'h routeNode" where
  \<comment> \<open>segments left, the literal buffer \<open>lit\<close>, the verb and handler of the terminal\<close>
  "insertSegments [] lit verb h n = flushLiteral (addTerminal verb h) lit n"
| "insertSegments (seg # segs) lit verb h n =
     (case seg_param seg of
        Some p \<Rightarrow>
          flushLiteral
            (\<lambda>n. if p_resource p
                 then addResourceChild (insertSegments segs [] verb h) (p_name p) (p_expr p) n
                 else addParamChild (insertSegments segs [] verb h) (p_name p) n)
            lit n
      | None \<Rightarrow> insertSegments segs (lit @ ''/'' @ seg_literal seg) verb h n)"

definition tree_insert :: "Pattern \<Rightarrow> 'h \<Rightarrow> 'h routeNode \<Rightarrow> 'h routeNode" where
  "tree_insert pattern h root = insertSegments (segments pattern) [] (pat_verb pattern) h root"

section \<open>Lookup\<close>

text \<open>
  The parameter map is one shared Go map: a node that is handed a non-nil map writes into that
  map, also when the match below it then fails; a node that is handed nil allocates a map its
  caller never sees unless the match succeeds. The second result is the map the call returns; on
  failure with a non-nil argument it is the same map with the writes made on the way.
\<close>

fun matchTerminal :: "(string \<times> 'h) list \<Rightarrow> string \<Rightarrow> 'h option" where
  \<comment> \<open>with the path already stripped of trailing slashes\<close>
  "matchTerminal [] path = None"
| "matchTerminal ((verb, h) # ts) path =
     (if verb = [] then (if path = [] then Some h else matchTerminal ts path)
      else if has_suffix path ('':'' @ verb) \<and> take (length path - length verb - 1) path = []
        then Some h
      else matchTerminal ts path)"

fun matchCaptureTerminal :: "(string \<times> 'h) list \<Rightarrow> string \<Rightarrow> string \<Rightarrow> ('h \<times> string) option" where
  \<comment> \<open>\<open>matchParamTerminal\<close> and \<open>matchResourceTerminal\<close>: the handler and the value stored under
      the node's name; \<open>rest\<close> already stripped of trailing slashes\<close>
  "matchCaptureTerminal [] value rest = None"
| "matchCaptureTerminal ((verb, h) # ts) value rest =
     (if verb = [] then (if rest = [] then Some (h, value) else matchCaptureTerminal ts value rest)
      else if rest = [] \<and> has_suffix value ('':'' @ verb)
        then Some (h, take (length value - length verb - 1) value)
      else matchCaptureTerminal ts value rest)"

definition capture_lookup ::
    "string \<Rightarrow> (string \<times> 'h) list \<Rightarrow> (params \<Rightarrow> 'h option \<times> params)
     \<Rightarrow> string \<Rightarrow> string \<Rightarrow> params \<Rightarrow> 'h option \<times> params" where
  \<comment> \<open>the common tail of the \<open>nodeParam\<close> and \<open>nodeResource\<close> cases: terminals first, then
      the children (\<open>below\<close>), then \<open>delete(params, n.name)\<close>\<close>
  "capture_lookup nm ts below value rest params =
     (let m = params_make params
      in case matchCaptureTerminal ts value (stripTrailingSlashes rest) of
           Some (h, v) \<Rightarrow> (Some h, Some (m(nm \<mapsto> v)))
         | None \<Rightarrow>
             (case below (Some (m(nm \<mapsto> value))) of
                (Some h, ps) \<Rightarrow> (Some h, ps)
              | (None, ps) \<Rightarrow> (None, Some ((params_make ps)(nm := None)))))"

primrec node_lookup :: "'h routeNode \<Rightarrow> string \<Rightarrow> params \<Rightarrow> 'h option \<times> params"
  and children_lookup :: "'h routeNode list \<Rightarrow> string \<Rightarrow> params \<Rightarrow> 'h option \<times> params" where
  "node_lookup (RouteNode kd p nm ex ts cs) path params =
     (case kd of
        nodeLiteral \<Rightarrow>
          if \<not> has_prefix path p then (None, params)
          else
            let path = drop (length p) path
            in (case matchTerminal ts (stripTrailingSlashes path) of
                  Some h \<Rightarrow> (Some h, params)
                | None \<Rightarrow> children_lookup cs path params)
      | nodeParam \<Rightarrow>
          let path = skip_slashes path;
              seg = takeWhile not_slash path;
              rest = dropWhile not_slash path
          in if seg = [] then (None, params)
             else capture_lookup nm ts (children_lookup cs rest) seg rest params
      | nodeResource \<Rightarrow>
          (case matchResourceExpr ex (skip_slashes path) of
             None \<Rightarrow> (None, params)
           | Some (value, rest) \<Rightarrow>
               capture_lookup nm ts (children_lookup cs rest) value rest params))"
| "children_lookup [] path params = (None, params)"
| "children_lookup (c # cs) path params =
     (case node_lookup c path params of
        (Some h, ps) \<Rightarrow> (Some h, ps)
      | (None, ps) \<Rightarrow> children_lookup cs path (if params = None then None else ps))"

definition tree_lookup :: "'h routeNode \<Rightarrow> string \<Rightarrow> 'h option \<times> params" where
  "tree_lookup root path = node_lookup root path None"

end
