(* ===== verification/RouteTreeSpec.thy ===== *)
theory RouteTreeSpec
  imports RouteTree
begin

text \<open>
  What insertion into the radix tree does: the tree is a map from routes (the steps a path takes,
  and the verb) to handlers. \<open>node_routes\<close> reads the routes off a node, \<open>wf_node\<close> is the
  invariant that no two children start with the same step and no node has two terminals of one
  verb, and every step of \<open>tree_insert\<close> keeps the invariant and registers its route unless it is
  there already.
\<close>

datatype step = StepByte char | StepParam string | StepResource string "exprSeg list"

type_synonym route_key = "step list \<times> string"

definition segment_steps :: "segment \<Rightarrow> step list" where
  "segment_steps seg =
     (case seg_param seg of
        None \<Rightarrow> map StepByte (''/'' @ seg_literal seg)
      | Some p \<Rightarrow> [if p_resource p then StepResource (p_name p) (p_expr p) else StepParam (p_name p)])"

definition pattern_key :: "Pattern \<Rightarrow> route_key" where
  "pattern_key p = (concat (map segment_steps (segments p)), pat_verb p)"

definition own_steps :: "'h routeNode \<Rightarrow> step list" where
  "own_steps n =
     (case kind n of
        nodeLiteral \<Rightarrow> map StepByte (prefix n)
      | nodeParam \<Rightarrow> [StepParam (name n)]
      | nodeResource \<Rightarrow> [StepResource (name n) (expr n)])"

definition under :: "step list \<Rightarrow> (route_key \<times> 'h) list \<Rightarrow> (route_key \<times> 'h) list" where
  "under pre rs = map (\<lambda>((st, v), h). ((pre @ st, v), h)) rs"

definition terminal_routes :: "(string \<times> 'h) list \<Rightarrow> (route_key \<times> 'h) list" where
  "terminal_routes ts = map (\<lambda>(v, h). (([], v), h)) ts"

primrec node_routes :: "'h routeNode \<Rightarrow> (route_key \<times> 'h) list"
  and children_routes :: "'h routeNode list \<Rightarrow> (route_key \<times> 'h) list" where
  "node_routes (RouteNode kd p nm ex ts cs) =
     under (own_steps (RouteNode kd p nm ex [] [] :: 'h routeNode)) (terminal_routes ts @ children_routes cs)"
| "children_routes [] = []"
| "children_routes (c # cs) = node_routes c @ children_routes cs"

definition below :: "'h routeNode \<Rightarrow> (route_key \<times> 'h) list" where
  "below n = terminal_routes (terminals n) @ children_routes (children n)"

lemma node_routes_below: "node_routes n = under (own_steps n) (below n)"
  by (cases n) (simp add: below_def own_steps_def split: nodeKind.split)

primrec wf_node :: "'h routeNode \<Rightarrow> bool"
  and wf_children :: "'h routeNode list \<Rightarrow> bool" where
  "wf_node (RouteNode kd p nm ex ts cs) = (distinct (map fst ts) \<and> wf_children cs)"
| "wf_children [] = True"
| "wf_children (c # cs) =
     (wf_node c \<and> own_steps c \<noteq> [] \<and> hd (own_steps c) \<notin> (\<lambda>d. hd (own_steps d)) ` set cs
      \<and> wf_children cs)"

lemma wf_node_iff: "wf_node n \<longleftrightarrow> distinct (map fst (terminals n)) \<and> wf_children (children n)"
  by (cases n) simp

definition first_wins :: "('k \<rightharpoonup> 'h) \<Rightarrow> 'k \<Rightarrow> 'h \<Rightarrow> ('k \<rightharpoonup> 'h)" where
  "first_wins m k h = (case m k of None \<Rightarrow> m(k \<mapsto> h) | Some _ \<Rightarrow> m)"

definition same_head :: "'h routeNode \<Rightarrow> 'h routeNode \<Rightarrow> bool" where
  "same_head a b = (kind a = kind b \<and> prefix a = prefix b \<and> name a = name b \<and> expr a = expr b)"

lemma same_head_own_steps: "same_head a b \<Longrightarrow> own_steps a = own_steps b"
  by (simp add: same_head_def own_steps_def split: nodeKind.split)

text \<open>What a change \<open>k\<close> of a node has to do to register a route below it.\<close>

definition registers :: "('h routeNode \<Rightarrow> 'h routeNode) \<Rightarrow> step list \<Rightarrow> string \<Rightarrow> 'h \<Rightarrow> bool" where
  "registers k st v h =
     (\<forall>n. wf_node n \<longrightarrow>
        wf_node (k n) \<and> same_head n (k n) \<and>
        map_of (below (k n)) = first_wins (map_of (below n)) (st, v) h)"

lemma registersD:
  assumes "registers k st v h" "wf_node n"
  shows "wf_node (k n)" "same_head n (k n)"
    "map_of (below (k n)) = first_wins (map_of (below n)) (st, v) h"
    "own_steps (k n) = own_steps n"
  using assms same_head_own_steps [of n "k n"] by (auto simp: registers_def)

section \<open>Lookup in route lists\<close>

lemma map_of_under:
  "map_of (under pre rs) (st, v) =
     (if take (length pre) st = pre then map_of rs (drop (length pre) st, v) else None)"
proof (induction rs)
  case Nil
  then show ?case by (simp add: under_def)
next
  case (Cons r rs)
  obtain st' v' h where r: "r = ((st', v'), h)" by (metis surj_pair)
  have "(pre @ st' = st) = (take (length pre) st = pre \<and> st' = drop (length pre) st)"
    by (metis append_eq_conv_conj)
  with Cons show ?case by (auto simp: under_def r)
qed

lemma under_under: "under a (under b rs) = under (a @ b) rs"
  by (auto simp: under_def)

lemma map_of_terminal_routes:
  "map_of (terminal_routes ts) (st, v) = (if st = [] then map_of ts v else None)"
  by (induction ts) (auto simp: terminal_routes_def)

lemma map_of_children_empty [simp]: "wf_children cs \<Longrightarrow> map_of (children_routes cs) ([], v) = None"
  by (induction cs) (auto simp: node_routes_below map_of_under map_add_def)

lemma map_of_children_other:
  "wf_children cs \<Longrightarrow> s \<notin> (\<lambda>d. hd (own_steps d)) ` set cs \<Longrightarrow>
   map_of (children_routes cs) (s # st, v) = None"
proof (induction cs)
  case Nil
  then show ?case by simp
next
  case (Cons c cs)
  from Cons.prems obtain a as where "own_steps c = a # as" "a \<noteq> s"
    by (cases "own_steps c") auto
  with Cons show ?case by (simp add: node_routes_below map_of_under map_add_def)
qed

lemma map_of_children_Cons:
  assumes "wf_children (c # cs)"
  shows "map_of (children_routes (c # cs)) (s # st, v) =
    (if hd (own_steps c) = s then map_of (node_routes c) (s # st, v)
     else map_of (children_routes cs) (s # st, v))"
proof -
  from assms obtain a as where own: "own_steps c = a # as" by (cases "own_steps c") auto
  show ?thesis
  proof (cases "a = s")
    case True
    with assms own have "map_of (children_routes cs) (s # st, v) = None"
      by (intro map_of_children_other) auto
    with True own show ?thesis by (simp add: map_add_def split: option.splits)
  next
    case False
    with own have "map_of (node_routes c) (s # st, v) = None"
      by (simp add: node_routes_below map_of_under)
    with False own show ?thesis by (simp add: map_add_def)
  qed
qed

lemma map_of_below_Cons [simp]:
  "map_of (below n) (s # st, v) = map_of (children_routes (children n)) (s # st, v)"
  by (simp add: below_def map_add_def map_of_terminal_routes split: option.splits)

lemma map_of_below_Nil:
  "wf_node n \<Longrightarrow> map_of (below n) ([], v) = map_of (terminals n) v"
  by (simp add: below_def wf_node_iff map_add_def map_of_terminal_routes split: option.splits)

text \<open>Two route lists agree with an added route when they do so on every key.\<close>

lemma first_wins_ext:
  assumes "\<And>st' v'. m' (st', v') =
     (if st' = st \<and> v' = v then (case m (st, v) of None \<Rightarrow> Some h | Some x \<Rightarrow> Some x) else m (st', v'))"
  shows "m' = first_wins m (st, v) h"
  using assms by (auto simp: first_wins_def fun_eq_iff split: option.splits)

lemma first_wins_apply:
  "first_wins m (st, v) h (st', v') =
     (if st' = st \<and> v' = v then (case m (st, v) of None \<Rightarrow> Some h | Some x \<Rightarrow> Some x) else m (st', v'))"
  by (auto simp: first_wins_def split: option.splits)

section \<open>Each step of an insertion registers its part of the route\<close>

lemma map_of_addTerminal:
  "map_of (terminals (addTerminal v h n)) = first_wins (map_of (terminals n)) v h"
proof (cases "v \<in> fst ` set (terminals n)")
  case True
  then obtain x where "map_of (terminals n) v = Some x"
    by (cases "map_of (terminals n) v") (auto simp: map_of_eq_None_iff)
  with True show ?thesis by (auto simp: addTerminal_def first_wins_def)
next
  case False
  then have "map_of (terminals n) v = None" by (simp add: map_of_eq_None_iff)
  with False show ?thesis
    by (auto simp: addTerminal_def first_wins_def map_add_def fun_eq_iff split: option.splits)
qed

lemma registers_addTerminal: "registers (addTerminal v h) [] v h"
  unfolding registers_def
proof (intro allI impI conjI)
  fix n :: "'a routeNode"
  assume wf: "wf_node n"
  show wf': "wf_node (addTerminal v h n)"
    using wf by (auto simp: wf_node_iff addTerminal_def)
  show "same_head n (addTerminal v h n)"
    by (simp add: same_head_def addTerminal_def)
  show "map_of (below (addTerminal v h n)) = first_wins (map_of (below n)) ([], v) h"
  proof (rule first_wins_ext)
    fix st' v'
    have cs: "children (addTerminal v h n) = children n" by (simp add: addTerminal_def)
    show "map_of (below (addTerminal v h n)) (st', v') =
       (if st' = [] \<and> v' = v then case map_of (below n) ([], v) of None \<Rightarrow> Some h | Some x \<Rightarrow> Some x
        else map_of (below n) (st', v'))"
    proof (cases st')
      case Nil
      then show ?thesis
        using wf wf' by (auto simp: map_of_below_Nil map_of_addTerminal first_wins_def split: option.splits)
    next
      case (Cons s st)
      then show ?thesis by (simp add: cs)
    qed
  qed
qed

lemma map_of_node_routes_first_wins:
  assumes "own_steps n' = own_steps n" "map_of (below n') = first_wins (map_of (below n)) (st, v) h"
  shows "map_of (node_routes n') = first_wins (map_of (node_routes n)) (own_steps n @ st, v) h"
proof (rule first_wins_ext)
  fix st' v'
  show "map_of (node_routes n') (st', v') =
    (if st' = own_steps n @ st \<and> v' = v
     then case map_of (node_routes n) (own_steps n @ st, v) of None \<Rightarrow> Some h | Some x \<Rightarrow> Some x
     else map_of (node_routes n) (st', v'))"
  proof (cases "\<exists>r. st' = own_steps n @ r")
    case True
    then show ?thesis by (auto simp: node_routes_below assms map_of_under first_wins_apply)
  next
    case False
    then have "take (length (own_steps n)) st' \<noteq> own_steps n" by (metis append_take_drop_id)
    with False show ?thesis by (simp add: node_routes_below assms map_of_under)
  qed
qed

lemma registers_node_routes:
  assumes "registers k st v h" "wf_node n"
  shows "map_of (node_routes (k n)) = first_wins (map_of (node_routes n)) (own_steps n @ st, v) h"
  using registersD [OF assms] by (intro map_of_node_routes_first_wins) auto

abbreviation heads :: "'h routeNode list \<Rightarrow> step set" where
  "heads cs \<equiv> (\<lambda>c. hd (own_steps c)) ` set cs"

text \<open>Replacing the first child, changing the tail, adding a child.\<close>

lemma children_replace:
  assumes wf: "wf_children (c # cs)" "wf_children (c' # cs)"
    and hd: "hd (own_steps c) = s" "hd (own_steps c') = s"
    and up: "map_of (node_routes c') = first_wins (map_of (node_routes c)) (s # st, v) h"
  shows "map_of (children_routes (c' # cs)) = first_wins (map_of (children_routes (c # cs))) (s # st, v) h"
proof (rule first_wins_ext)
  fix st' v'
  show "map_of (children_routes (c' # cs)) (st', v') =
    (if st' = s # st \<and> v' = v
     then case map_of (children_routes (c # cs)) (s # st, v) of None \<Rightarrow> Some h | Some x \<Rightarrow> Some x
     else map_of (children_routes (c # cs)) (st', v'))"
  proof (cases st')
    case Nil
    then show ?thesis using map_of_children_empty [OF wf(1)] map_of_children_empty [OF wf(2)]
      by (simp del: children_routes.simps)
  next
    case (Cons a as)
    then show ?thesis
      using hd up by (simp del: children_routes.simps add: map_of_children_Cons [OF wf(1)]
          map_of_children_Cons [OF wf(2)] first_wins_apply)
  qed
qed

lemma children_tail:
  assumes wf: "wf_children (c # cs)" "wf_children (c # cs')"
    and hd: "hd (own_steps c) \<noteq> s"
    and up: "map_of (children_routes cs') = first_wins (map_of (children_routes cs)) (s # st, v) h"
  shows "map_of (children_routes (c # cs')) = first_wins (map_of (children_routes (c # cs))) (s # st, v) h"
proof (rule first_wins_ext)
  fix st' v'
  show "map_of (children_routes (c # cs')) (st', v') =
    (if st' = s # st \<and> v' = v
     then case map_of (children_routes (c # cs)) (s # st, v) of None \<Rightarrow> Some h | Some x \<Rightarrow> Some x
     else map_of (children_routes (c # cs)) (st', v'))"
  proof (cases st')
    case Nil
    then show ?thesis using map_of_children_empty [OF wf(1)] map_of_children_empty [OF wf(2)]
      by (simp del: children_routes.simps)
  next
    case (Cons a as)
    then show ?thesis
      using hd up by (simp del: children_routes.simps add: map_of_children_Cons [OF wf(1)]
          map_of_children_Cons [OF wf(2)] first_wins_apply)
  qed
qed

lemma children_new:
  assumes wf: "wf_children (c # cs)" "s \<notin> heads cs"
    and hd: "hd (own_steps c) = s"
    and new: "map_of (node_routes c) = [(s # st, v) \<mapsto> h]"
  shows "map_of (children_routes (c # cs)) = first_wins (map_of (children_routes cs)) (s # st, v) h"
proof (rule first_wins_ext)
  fix st' v'
  have wf': "wf_children cs" using wf by simp
  have old: "map_of (children_routes cs) (s # st'', v'') = None" for st'' v''
    using wf by (intro map_of_children_other) auto
  show "map_of (children_routes (c # cs)) (st', v') =
    (if st' = s # st \<and> v' = v
     then case map_of (children_routes cs) (s # st, v) of None \<Rightarrow> Some h | Some x \<Rightarrow> Some x
     else map_of (children_routes cs) (st', v'))"
  proof (cases st')
    case Nil
    then show ?thesis using map_of_children_empty [OF wf(1)] map_of_children_empty [OF wf']
      by (simp del: children_routes.simps)
  next
    case (Cons a as)
    then show ?thesis
      using hd new old by (auto simp del: children_routes.simps simp add: map_of_children_Cons [OF wf(1)])
  qed
qed

lemma registers_fresh:
  assumes "registers k st v h" "wf_node n" "below n = []"
  shows "map_of (node_routes (k n)) = [(own_steps n @ st, v) \<mapsto> h]"
  using registers_node_routes [OF assms(1,2)] assms(3)
  by (simp add: node_routes_below [of n] under_def first_wins_def)

section \<open>Parameter and resource children\<close>

text \<open>Both \<open>addParamChild\<close> and \<open>addResourceChild\<close> update the child with one given step.\<close>

fun upsertChild ::
    "('h routeNode \<Rightarrow> 'h routeNode) \<Rightarrow> step \<Rightarrow> 'h routeNode \<Rightarrow> 'h routeNode list \<Rightarrow> 'h routeNode list" where
  "upsertChild k s fresh [] = [k fresh]"
| "upsertChild k s fresh (c # cs) =
     (if own_steps c = [s] then k c # cs else c # upsertChild k s fresh cs)"

lemma exprEqual_iff [simp]: "exprEqual a b \<longleftrightarrow> a = b"
  by (induction a b rule: exprEqual.induct) auto

lemma own_steps_param: "own_steps c = [StepParam nm] \<longleftrightarrow> kind c = nodeParam \<and> name c = nm"
  by (auto simp: own_steps_def split: nodeKind.splits)

lemma own_steps_resource:
  "own_steps c = [StepResource nm ex] \<longleftrightarrow> kind c = nodeResource \<and> name c = nm \<and> expr c = ex"
  by (auto simp: own_steps_def split: nodeKind.splits)

lemma addParamChildren_upsert:
  "addParamChildren k nm cs = upsertChild k (StepParam nm) (RouteNode nodeParam [] nm [] [] []) cs"
  by (induction cs) (auto simp: own_steps_param)

lemma addResourceChildren_upsert:
  "addResourceChildren k nm ex cs =
     upsertChild k (StepResource nm ex) (RouteNode nodeResource [] nm ex [] []) cs"
  by (induction cs) (auto simp: own_steps_resource)

definition capture_step :: "step \<Rightarrow> bool" where
  "capture_step s = (case s of StepByte _ \<Rightarrow> False | _ \<Rightarrow> True)"

lemma hd_own_steps_capture:
  "capture_step s \<Longrightarrow> own_steps c \<noteq> [] \<Longrightarrow> hd (own_steps c) = s \<longleftrightarrow> own_steps c = [s]"
  by (cases "prefix c") (auto simp: own_steps_def capture_step_def split: nodeKind.splits)

lemma upsertChild_registers:
  assumes k: "registers k st v h"
    and fresh: "wf_node fresh" "below fresh = []" "own_steps fresh = [s]"
    and s: "capture_step s"
    and wf: "wf_children cs"
  shows "wf_children (upsertChild k s fresh cs) \<and> heads (upsertChild k s fresh cs) = insert s (heads cs) \<and>
    map_of (children_routes (upsertChild k s fresh cs)) =
      first_wins (map_of (children_routes cs)) (s # st, v) h"
  using wf
proof (induction cs)
  case Nil
  have "map_of (children_routes [k fresh]) = first_wins (map_of (children_routes [])) (s # st, v) h"
    using registersD [OF k fresh(1)] registers_fresh [OF k fresh(1,2)] fresh(3)
    by (intro children_new) auto
  then show ?case using registersD [OF k fresh(1)] fresh(3) by simp
next
  case (Cons c cs)
  then have wfc: "wf_node c" "own_steps c \<noteq> []" by simp_all
  show ?case
  proof (cases "own_steps c = [s]")
    case True
    have "map_of (node_routes (k c)) = first_wins (map_of (node_routes c)) (s # st, v) h"
      using registers_node_routes [OF k wfc(1)] True by simp
    moreover have "wf_children (k c # cs)"
      using Cons.prems registersD [OF k wfc(1)] by simp
    ultimately show ?thesis
      using True Cons.prems registersD [OF k wfc(1)]
      by (auto simp del: children_routes.simps intro!: children_replace)
  next
    case False
    with s wfc have ne: "hd (own_steps c) \<noteq> s" by (simp add: hd_own_steps_capture)
    from Cons have IH: "wf_children (upsertChild k s fresh cs)"
      "heads (upsertChild k s fresh cs) = insert s (heads cs)"
      "map_of (children_routes (upsertChild k s fresh cs)) =
         first_wins (map_of (children_routes cs)) (s # st, v) h" by auto
    have "wf_children (c # upsertChild k s fresh cs)"
      using Cons.prems IH(1,2) ne by auto
    then show ?thesis
      using False Cons.prems IH ne
      by (auto simp del: children_routes.simps wf_children.simps intro!: children_tail)
  qed
qed

lemma registers_upsert:
  assumes k: "registers k st v h"
    and fresh: "wf_node fresh" "below fresh = []" "own_steps fresh = [s]"
    and s: "capture_step s"
    and f: "\<And>n. f n = RouteNode (kind n) (prefix n) (name n) (expr n) (terminals n)
                     (upsertChild k s fresh (children n))"
  shows "registers f (s # st) v h"
  unfolding registers_def
proof (intro allI impI conjI)
  fix n :: "'a routeNode"
  assume wf: "wf_node n"
  then have wfc: "wf_children (children n)" by (simp add: wf_node_iff)
  note up = upsertChild_registers [OF k fresh s wfc]
  show wf': "wf_node (f n)" using wf up by (simp add: f wf_node_iff)
  show "same_head n (f n)" by (simp add: f same_head_def)
  show "map_of (below (f n)) = first_wins (map_of (below n)) (s # st, v) h"
  proof (rule first_wins_ext)
    fix st' v'
    show "map_of (below (f n)) (st', v') =
       (if st' = s # st \<and> v' = v
        then case map_of (below n) (s # st, v) of None \<Rightarrow> Some h | Some x \<Rightarrow> Some x
        else map_of (below n) (st', v'))"
    proof (cases st')
      case Nil
      then show ?thesis using wf wf' by (simp add: map_of_below_Nil) (simp add: f)
    next
      case (Cons a as)
      then show ?thesis using up by (simp add: first_wins_apply) (simp add: f first_wins_apply)
    qed
  qed
qed

lemma registers_addParamChild:
  assumes "registers k st v h"
  shows "registers (addParamChild k nm) (StepParam nm # st) v h"
  by (rule registers_upsert [OF assms, where fresh = "RouteNode nodeParam [] nm [] [] []"])
     (simp_all add: below_def own_steps_def terminal_routes_def capture_step_def addParamChild_def
       addParamChildren_upsert)

lemma registers_addResourceChild:
  assumes "registers k st v h"
  shows "registers (addResourceChild k nm ex) (StepResource nm ex # st) v h"
  by (rule registers_upsert [OF assms, where fresh = "RouteNode nodeResource [] nm ex [] []"])
     (simp_all add: below_def own_steps_def terminal_routes_def capture_step_def addResourceChild_def
       addResourceChildren_upsert)

section \<open>Literal children: sharing and splitting prefixes\<close>

lemma take_commonPrefixLen: "take (commonPrefixLen a b) a = take (commonPrefixLen a b) b"
  by (induction a b rule: commonPrefixLen.induct) auto

lemma commonPrefixLen_zero_iff:
  "a \<noteq> [] \<Longrightarrow> b \<noteq> [] \<Longrightarrow> commonPrefixLen a b = 0 \<longleftrightarrow> hd a \<noteq> hd b"
  by (cases a; cases b) auto

lemma below_literalNode [simp]: "below (literalNode pre) = []" "wf_node (literalNode pre)"
    "own_steps (literalNode pre) = map StepByte pre"
  by (simp_all add: literalNode_def below_def terminal_routes_def own_steps_def)

lemma own_steps_literal: "kind c = nodeLiteral \<Longrightarrow> own_steps c = map StepByte (prefix c)"
  by (simp add: own_steps_def)

lemma own_steps_not_literal:
  "kind c \<noteq> nodeLiteral \<Longrightarrow> own_steps c \<noteq> [] \<and> hd (own_steps c) \<noteq> StepByte b"
  by (cases "kind c") (auto simp: own_steps_def)

lemma insertBeforeNonLiteral_registers:
  assumes "wf_children cs" "s \<notin> heads cs" "wf_node c" "own_steps c \<noteq> []" "hd (own_steps c) = s"
    and new: "map_of (node_routes c) = [(s # st, v) \<mapsto> h]"
  shows "wf_children (insertBeforeNonLiteral c cs) \<and> heads (insertBeforeNonLiteral c cs) = insert s (heads cs) \<and>
    map_of (children_routes (insertBeforeNonLiteral c cs)) =
      first_wins (map_of (children_routes cs)) (s # st, v) h"
  using assms(1,2)
proof (induction cs)
  case Nil
  have "map_of (children_routes [c]) = first_wins (map_of (children_routes [])) (s # st, v) h"
    using assms(3-) by (intro children_new) auto
  with assms(3-) show ?case by simp
next
  case (Cons d cs)
  show ?case
  proof (cases "kind d = nodeLiteral")
    case True
    with Cons have IH: "wf_children (insertBeforeNonLiteral c cs)"
      "heads (insertBeforeNonLiteral c cs) = insert s (heads cs)"
      "map_of (children_routes (insertBeforeNonLiteral c cs)) =
         first_wins (map_of (children_routes cs)) (s # st, v) h" by auto
    from IH(1,2) Cons.prems have "wf_children (d # insertBeforeNonLiteral c cs)" by auto
    with True IH Cons.prems show ?thesis
      by (auto simp del: children_routes.simps wf_children.simps intro!: children_tail)
  next
    case False
    from Cons.prems assms(3-) have "wf_children (c # d # cs)" by auto
    with False Cons.prems assms(3-) show ?thesis
      by (auto simp del: children_routes.simps wf_children.simps intro!: children_new)
  qed
qed

lemma literal_replace:
  assumes wf: "wf_children (c # cs)"
    and c0: "node_routes c0 = node_routes c" "own_steps c0 \<noteq> []" "hd (own_steps c0) = hd (own_steps c)"
    and c': "wf_node c'" "same_head c0 c'"
      "map_of (below c') = first_wins (map_of (below c0)) (st', v) h"
    and st: "own_steps c0 @ st' = s # st" "hd (own_steps c) = s"
  shows "wf_children (c' # cs) \<and> heads (c' # cs) = heads (c # cs) \<and>
    map_of (children_routes (c' # cs)) = first_wins (map_of (children_routes (c # cs))) (s # st, v) h"
proof -
  have own: "own_steps c' = own_steps c0" using c'(2) same_head_own_steps by metis
  have "map_of (node_routes c') = first_wins (map_of (node_routes c)) (s # st, v) h"
    using map_of_node_routes_first_wins [OF own c'(3)] c0(1) st(1) by simp
  moreover have "wf_children (c' # cs)" using wf c' c0 own by simp
  ultimately show ?thesis
    using wf own c0 st(2)
    by (auto simp del: children_routes.simps wf_children.simps intro!: children_replace)
qed

definition splitNode :: "nat \<Rightarrow> 'h routeNode \<Rightarrow> 'h routeNode" where
  "splitNode common c =
     RouteNode (kind c) (take common (prefix c)) (name c) (expr c) []
       [RouteNode nodeLiteral (drop common (prefix c)) [] [] (terminals c) (children c)]"

lemma splitNode:
  assumes "kind c = nodeLiteral" "wf_node c" "0 < common" "common < length (prefix c)"
  shows "node_routes (splitNode common c) = node_routes c" "wf_node (splitNode common c)"
    "own_steps (splitNode common c) = map StepByte (take common (prefix c))"
    "own_steps (splitNode common c) \<noteq> []"
    "hd (own_steps (splitNode common c)) = hd (own_steps c)"
proof -
  have pre: "map StepByte (take common (prefix c)) @ map StepByte (drop common (prefix c)) = own_steps c"
    using assms(1) by (simp add: own_steps_def flip: map_append)
  have "node_routes (splitNode common c) =
      under (map StepByte (take common (prefix c))) (under (map StepByte (drop common (prefix c))) (below c))"
    using assms(1) by (simp add: splitNode_def own_steps_def below_def terminal_routes_def)
  then show "node_routes (splitNode common c) = node_routes c"
    by (simp add: under_under pre node_routes_below)
  show "own_steps (splitNode common c) = map StepByte (take common (prefix c))"
    using assms(1) by (simp add: splitNode_def own_steps_def)
  show "wf_node (splitNode common c)"
    using assms by (simp add: splitNode_def own_steps_def wf_node_iff)
  show "own_steps (splitNode common c) \<noteq> []" "hd (own_steps (splitNode common c)) = hd (own_steps c)"
    using assms by (cases "prefix c"; cases common; simp add: splitNode_def own_steps_def)+
qed

lemma literal_skip:
  assumes wf: "wf_children (child # cs)"
    and ne: "hd (own_steps child) \<noteq> s"
    and tail: "case r of
         None \<Rightarrow> s \<notin> heads cs
       | Some cs' \<Rightarrow> wf_children cs' \<and> heads cs' = heads cs \<and>
           map_of (children_routes cs') = first_wins (map_of (children_routes cs)) (s # st, v) h"
  shows "case map_option ((#) child) r of
         None \<Rightarrow> s \<notin> heads (child # cs)
       | Some cs' \<Rightarrow> wf_children cs' \<and> heads cs' = heads (child # cs) \<and>
           map_of (children_routes cs') = first_wins (map_of (children_routes (child # cs))) (s # st, v) h"
proof (cases r)
  case None
  with tail ne show ?thesis by auto
next
  case (Some cs')
  with tail have cs': "wf_children cs'" "heads cs' = heads cs"
    "map_of (children_routes cs') = first_wins (map_of (children_routes cs)) (s # st, v) h"
    by auto
  with wf have "wf_children (child # cs')" by simp
  with children_tail [OF wf this ne cs'(3)] Some cs'(2) show ?thesis
    by (simp del: children_routes.simps wf_children.simps)
qed

lemma addLiteralChild_registers_step:
  assumes k: "registers k st v h" and pre: "pre = a # as" and wf: "wf_node n"
    and cs: "case addLiteralChildren k pre (children n) of
         None \<Rightarrow> StepByte a \<notin> heads (children n)
       | Some cs' \<Rightarrow> wf_children cs' \<and> heads cs' = heads (children n) \<and>
           map_of (children_routes cs') =
             first_wins (map_of (children_routes (children n))) (map StepByte pre @ st, v) h"
  shows "wf_node (addLiteralChild k pre n) \<and> same_head n (addLiteralChild k pre n) \<and>
      map_of (below (addLiteralChild k pre n)) = first_wins (map_of (below n)) (map StepByte pre @ st, v) h"
proof -
  obtain kd p nm ex ts cs0 where n: "n = RouteNode kd p nm ex ts cs0" by (cases n) auto
  define cs' where "cs' = children (addLiteralChild k pre n)"
  have eq: "addLiteralChild k pre n = RouteNode kd p nm ex ts cs'"
    by (simp add: cs'_def n split: option.split)
  have wfc: "wf_children cs0" using wf by (simp add: n)
  have cs': "wf_children cs' \<and>
    map_of (children_routes cs') = first_wins (map_of (children_routes cs0)) (map StepByte pre @ st, v) h"
  proof (cases "addLiteralChildren k pre cs0")
    case None
    have "map_of (node_routes (k (literalNode pre))) = [(map StepByte pre @ st, v) \<mapsto> h]"
      using registers_fresh [OF k] by simp
    then show ?thesis
      using insertBeforeNonLiteral_registers [OF wfc, of "StepByte a" "k (literalNode pre)"
          "map StepByte as @ st" v h] None cs registersD [OF k, of "literalNode pre"]
      by (simp add: cs'_def n pre)
  next
    case (Some cs'')
    with cs show ?thesis by (simp add: cs'_def n)
  qed
  have "map_of (below (RouteNode kd p nm ex ts cs')) =
      first_wins (map_of (below n)) (map StepByte pre @ st, v) h"
  proof (rule first_wins_ext)
    fix st' v'
    show "map_of (below (RouteNode kd p nm ex ts cs')) (st', v') =
       (if st' = map StepByte pre @ st \<and> v' = v
        then case map_of (below n) (map StepByte pre @ st, v) of None \<Rightarrow> Some h | Some x \<Rightarrow> Some x
        else map_of (below n) (st', v'))"
      using cs' wf pre unfolding n
      by (cases st') (simp_all add: map_of_below_Nil first_wins_apply)
  qed
  with cs' wf show ?thesis unfolding eq by (simp add: n same_head_def)
qed

lemma addLiteral_registers_aux:
  fixes n :: "'h routeNode" and cs :: "'h routeNode list"
  shows "registers k st v h \<Longrightarrow> pre \<noteq> [] \<Longrightarrow> wf_node n \<Longrightarrow>
      wf_node (addLiteralChild k pre n) \<and> same_head n (addLiteralChild k pre n) \<and>
      map_of (below (addLiteralChild k pre n)) =
        first_wins (map_of (below n)) (map StepByte pre @ st, v) h"
    and "registers k st v h \<Longrightarrow> pre \<noteq> [] \<Longrightarrow> wf_children cs \<Longrightarrow>
      (case addLiteralChildren k pre cs of
         None \<Rightarrow> StepByte (hd pre) \<notin> heads cs
       | Some cs' \<Rightarrow> wf_children cs' \<and> heads cs' = heads cs \<and>
           map_of (children_routes cs') =
             first_wins (map_of (children_routes cs)) (map StepByte pre @ st, v) h)"
proof (induction k pre n and k pre cs rule: addLiteralChild_addLiteralChildren.induct)
  case (1 k pre kd p nm ex ts cs)
  obtain a as where pre: "pre = a # as" using 1 by (cases pre) auto
  show ?case
    by (rule addLiteralChild_registers_step [OF 1(2) pre 1(4)])
       (use 1 pre in \<open>simp split: option.splits\<close>)
next
  case (2 k pre)
  then show ?case by simp
next
  case (3 k pre child cs)
  obtain a as where pre: "pre = a # as" using 3 by (cases pre) auto
  then have hdp: "hd pre = a" by simp
  have wf: "wf_node child" "own_steps child \<noteq> []" "wf_children cs" "hd (own_steps child) \<notin> heads cs"
    using 3(7) by simp_all
  define common where "common = commonPrefixLen (prefix child) pre"
  have common_le: "common \<le> length (prefix child)" "common \<le> length pre"
    by (simp_all add: common_def commonPrefixLen_le)
  have take_eq: "take common (prefix child) = take common pre"
    by (simp add: common_def take_commonPrefixLen)
  have skip: "?case" if "hd (own_steps child) \<noteq> StepByte a"
    "addLiteralChildren k pre (child # cs) = map_option ((#) child) (addLiteralChildren k pre cs)"
    "case addLiteralChildren k pre cs of
       None \<Rightarrow> StepByte (hd pre) \<notin> heads cs
     | Some cs' \<Rightarrow> wf_children cs' \<and> heads cs' = heads cs \<and>
         map_of (children_routes cs') =
           first_wins (map_of (children_routes cs)) (map StepByte pre @ st, v) h"
    unfolding that(2)
    using literal_skip [OF 3(7) that(1), where r = "addLiteralChildren k pre cs"
        and st = "map StepByte as @ st" and v = v and h = h] that(3)
    unfolding pre list.map list.sel append.simps by blast
  show ?case
  proof (cases "kind child = nodeLiteral")
    case False
    then show ?thesis
      using 3 wf own_steps_not_literal [OF False] by (intro skip) simp_all
  next
    case lit: True
    have pne: "prefix child \<noteq> []" using wf(2) lit by (simp add: own_steps_def)
    have own: "own_steps child = map StepByte (prefix child)" using lit by (rule own_steps_literal)
    show ?thesis
    proof (cases "common = 0")
      case True
      then show ?thesis
        using 3 wf lit pne own hdp
        by (intro skip) (auto simp: common_def commonPrefixLen_zero_iff hd_map Let_def)
    next
      case pos: False
      have hd: "hd (own_steps child) = StepByte a"
        using pos pne own pre commonPrefixLen_zero_iff [OF pne, of pre] by (auto simp: common_def hd_map)
      show ?thesis
      proof (cases "common = length (prefix child)")
        case full: True
        have pre_eq: "pre = prefix child @ drop common pre"
          using take_eq full by (metis append_take_drop_id take_all_iff order_refl)
        show ?thesis
        proof (cases "common = length pre")
          case True
          have "prefix child = pre" using pre_eq True by simp
          then have "own_steps child @ st = StepByte a # map StepByte as @ st" using own pre by simp
          from literal_replace [OF 3(7) refl wf(2) refl registersD(1-3) [OF 3(5) wf(1)] this hd]
          show ?thesis using lit full True pos pre
            by (simp add: common_def Let_def del: children_routes.simps wf_children.simps)
        next
          case False
          have dne: "drop common pre \<noteq> []" using False common_le by simp
          have IH: "wf_node (addLiteralChild k (drop common pre) child)"
            "same_head child (addLiteralChild k (drop common pre) child)"
            "map_of (below (addLiteralChild k (drop common pre) child)) =
               first_wins (map_of (below child)) (map StepByte (drop common pre) @ st, v) h"
            using 3(3) [OF _ common_def] lit pos full False dne 3(5) wf(1) by auto
          have "own_steps child @ (map StepByte (drop common pre) @ st) = StepByte a # map StepByte as @ st"
            using own pre_eq pre by (metis append_assoc append_Cons list.simps(9) map_append)
          from literal_replace [OF 3(7) refl wf(2) refl IH this hd] show ?thesis
            using lit full False pos pre
            by (simp add: common_def Let_def del: children_routes.simps wf_children.simps)
        qed
      next
        case False
        with common_le have lt: "common < length (prefix child)" by simp
        let ?c = "splitNode common child"
        have c: "node_routes ?c = node_routes child" "wf_node ?c"
          "own_steps ?c = map StepByte (take common pre)" "own_steps ?c \<noteq> []"
          "hd (own_steps ?c) = hd (own_steps child)"
          using splitNode [OF lit wf(1) _ lt] pos take_eq by auto
        show ?thesis
        proof (cases "common = length pre")
          case True
          have "own_steps ?c @ st = StepByte a # map StepByte as @ st" using c(3) True pre by simp
          from literal_replace [OF 3(7) c(1,4,5) registersD(1-3) [OF 3(5) c(2)] this hd]
          show ?thesis using lit False True pos pre
            by (simp add: common_def Let_def splitNode_def del: children_routes.simps wf_children.simps)
        next
          case short: False
          have dne: "drop common pre \<noteq> []" using short common_le by simp
          have IH: "wf_node (addLiteralChild k (drop common pre) ?c)"
            "same_head ?c (addLiteralChild k (drop common pre) ?c)"
            "map_of (below (addLiteralChild k (drop common pre) ?c)) =
               first_wins (map_of (below ?c)) (map StepByte (drop common pre) @ st, v) h"
            using 3(4) [OF _ common_def _ _ _ refl] lit pos False short dne 3(5) c(2)
            by (auto simp: splitNode_def)
          have "own_steps ?c @ (map StepByte (drop common pre) @ st) = StepByte a # map StepByte as @ st"
            using c(3) pre by (simp flip: map_append append_assoc)
          from literal_replace [OF 3(7) c(1,4,5) IH this hd] show ?thesis
            using lit False short pos pre
            by (simp add: common_def Let_def splitNode_def del: children_routes.simps wf_children.simps)
        qed
      qed
    qed
  qed
qed

lemma registers_addLiteralChild:
  assumes "registers k st v h" "pre \<noteq> []"
  shows "registers (addLiteralChild k pre) (map StepByte pre @ st) v h"
  unfolding registers_def using addLiteral_registers_aux(1) [OF assms] by blast

lemma registers_flushLiteral:
  assumes "registers k st v h"
  shows "registers (flushLiteral k lit) (map StepByte lit @ st) v h"
proof (cases "lit = []")
  case True
  then have "flushLiteral k lit = k" by (simp add: flushLiteral_def fun_eq_iff)
  with True assms show ?thesis by simp
next
  case False
  then have "flushLiteral k lit = addLiteralChild k lit" by (simp add: flushLiteral_def fun_eq_iff)
  with registers_addLiteralChild [OF assms False] show ?thesis by simp
qed

lemma segment_steps_simps:
  "seg_param seg = None \<Longrightarrow> segment_steps seg = map StepByte (''/'' @ seg_literal seg)"
  "seg_param seg = Some p \<Longrightarrow> segment_steps seg =
     [if p_resource p then StepResource (p_name p) (p_expr p) else StepParam (p_name p)]"
  by (simp_all add: segment_steps_def)

lemma registers_insertSegments:
  "registers (insertSegments segs lit verb h) (map StepByte lit @ concat (map segment_steps segs)) verb h"
proof (induction segs arbitrary: lit)
  case Nil
  have "insertSegments [] lit verb h = flushLiteral (addTerminal verb h) lit" by (simp add: fun_eq_iff)
  with registers_flushLiteral [OF registers_addTerminal [of verb h], of lit] show ?case by simp
next
  case (Cons seg segs)
  show ?case
  proof (cases "seg_param seg")
    case None
    then have "insertSegments (seg # segs) lit verb h = insertSegments segs (lit @ ''/'' @ seg_literal seg) verb h"
      by (simp add: fun_eq_iff)
    with Cons [of "lit @ ''/'' @ seg_literal seg"] None show ?thesis by (simp add: segment_steps_simps)
  next
    case (Some p)
    let ?k = "\<lambda>n. if p_resource p
       then addResourceChild (insertSegments segs [] verb h) (p_name p) (p_expr p) n
       else addParamChild (insertSegments segs [] verb h) (p_name p) n"
    have "registers ?k (segment_steps seg @ concat (map segment_steps segs)) verb h"
      using registers_addResourceChild [OF Cons [of "[]"], of "p_name p" "p_expr p"]
        registers_addParamChild [OF Cons [of "[]"], of "p_name p"] Some
      by (cases "p_resource p") (simp_all add: segment_steps_simps)
    from registers_flushLiteral [OF this, of lit]
    have "registers (flushLiteral ?k lit)
        (map StepByte lit @ segment_steps seg @ concat (map segment_steps segs)) verb h" .
    moreover have "insertSegments (seg # segs) lit verb h = flushLiteral ?k lit"
      using Some by (simp add: fun_eq_iff)
    ultimately show ?thesis by simp
  qed
qed

lemma registers_tree_insert:
  "registers (tree_insert p h) (fst (pattern_key p)) (snd (pattern_key p)) h"
proof -
  have "tree_insert p h = (\<lambda>n. insertSegments (segments p) [] (pat_verb p) h n)"
    by (simp add: tree_insert_def fun_eq_iff)
  with registers_insertSegments [of "segments p" "[]" "pat_verb p" h] show ?thesis
    by (simp add: pattern_key_def)
qed

definition tree_of :: "(Pattern \<times> 'h) list \<Rightarrow> 'h routeNode" where
  "tree_of rs = fold (\<lambda>(p, h). tree_insert p h) rs newRouteTree"

lemma wf_newRouteTree [simp]: "wf_node newRouteTree"
  by (simp add: newRouteTree_def)

lemma newRouteTree_head: "same_head newRouteTree n \<Longrightarrow> kind n = nodeLiteral \<and> prefix n = []"
  by (simp add: same_head_def newRouteTree_def)

lemma node_routes_root: "same_head newRouteTree n \<Longrightarrow> node_routes n = below n"
  using newRouteTree_head [of n] by (simp add: node_routes_below own_steps_def under_def)

lemma same_head_trans: "same_head a b \<Longrightarrow> same_head b c \<Longrightarrow> same_head a c"
  by (simp add: same_head_def)

theorem tree_insert_routes:
  assumes "wf_node root" "same_head newRouteTree root"
  shows "wf_node (tree_insert p h root) \<and> same_head newRouteTree (tree_insert p h root) \<and>
    map_of (node_routes (tree_insert p h root)) = first_wins (map_of (node_routes root)) (pattern_key p) h"
proof -
  note r = registersD [OF registers_tree_insert assms(1), of p h]
  have head: "same_head newRouteTree (tree_insert p h root)"
    using same_head_trans [OF assms(2) r(2)] .
  show ?thesis
    using r head by (simp add: node_routes_root [OF assms(2)] node_routes_root [OF head])
qed

theorem tree_of_routes:
  "wf_node (tree_of rs) \<and> same_head newRouteTree (tree_of rs) \<and>
   map_of (node_routes (tree_of rs)) = map_of (map (\<lambda>(p, h). (pattern_key p, h)) rs)"
proof (induction rs rule: rev_induct)
  case Nil
  show ?case by (simp add: tree_of_def newRouteTree_def same_head_def own_steps_def under_def terminal_routes_def)
next
  case (snoc r rs)
  obtain p h where r: "r = (p, h)" by (cases r)
  have "tree_of (rs @ [r]) = tree_insert p h (tree_of rs)" by (simp add: tree_of_def r)
  with tree_insert_routes [of "tree_of rs" p h] snoc show ?case
    by (auto simp: r first_wins_def fun_eq_iff map_add_def split: option.splits)
qed

end
