(* ===== verification/RouteLookup.thy ===== *)
theory RouteLookup
  imports RouteTreeSpec PatternSpec
begin

text \<open>
  What lookup in the radix tree computes: the first route of \<open>node_routes\<close>, in the tree's
  order, along whose steps the path runs (\<open>route_run\<close>), with the parameters it binds.
\<close>

section \<open>Running a path along the steps of one route\<close>

definition literal_end :: "string \<Rightarrow> string \<Rightarrow> bool" where
  "literal_end verb path =
     (if verb = [] then path = []
      else has_suffix path ('':'' @ verb) \<and> take (length path - length verb - 1) path = [])"

definition capture_end :: "string \<Rightarrow> string \<Rightarrow> string \<Rightarrow> string option" where
  "capture_end verb value rest =
     (if verb = [] then (if rest = [] then Some value else None)
      else if rest = [] \<and> has_suffix value ('':'' @ verb)
        then Some (take (length value - length verb - 1) value)
      else None)"

type_synonym bindings = "(string \<times> string) list"

definition capture_run ::
    "string \<Rightarrow> (string \<Rightarrow> bindings option) \<Rightarrow> bool \<Rightarrow> string \<Rightarrow> string \<Rightarrow> string \<Rightarrow> bindings option" where
  \<comment> \<open>at the last step the verb is taken off the value, else the value is bound as it is\<close>
  "capture_run nm run final verb value rest =
     (if final then map_option (\<lambda>x. [(nm, x)]) (capture_end verb value (stripTrailingSlashes rest))
      else map_option ((#) (nm, value)) (run rest))"

fun route_run :: "step list \<Rightarrow> string \<Rightarrow> string \<Rightarrow> bindings option" where
  "route_run [] verb path = (if literal_end verb (stripTrailingSlashes path) then Some [] else None)"
| "route_run (StepByte b # st) verb path =
     (case path of [] \<Rightarrow> None | c # rest \<Rightarrow> if b = c then route_run st verb rest else None)"
| "route_run (StepParam nm # st) verb path =
     (let path = skip_slashes path; seg = takeWhile not_slash path
      in if seg = [] then None
         else capture_run nm (route_run st verb) (st = []) verb seg (dropWhile not_slash path))"
| "route_run (StepResource nm ex # st) verb path =
     (case matchResourceExpr ex (skip_slashes path) of
        None \<Rightarrow> None
      | Some (value, rest) \<Rightarrow> capture_run nm (route_run st verb) (st = []) verb value rest)"

fun first_run ::
    "(step list \<Rightarrow> string \<Rightarrow> 'b option) \<Rightarrow> (route_key \<times> 'h) list \<Rightarrow> ('h \<times> 'b) option" where
  "first_run f [] = None"
| "first_run f (((st, v), h) # rs) =
     (case f st v of None \<Rightarrow> first_run f rs | Some b \<Rightarrow> Some (h, b))"

lemma first_run_append:
  "first_run f (xs @ ys) = (case first_run f xs of None \<Rightarrow> first_run f ys | Some r \<Rightarrow> Some r)"
  by (induction xs) (auto split: option.splits)

lemma first_run_under: "first_run f (under pre rs) = first_run (\<lambda>st v. f (pre @ st) v) rs"
  by (induction rs) (auto simp: under_def split: option.splits)

lemma first_run_cong:
  "(\<And>st v h. ((st, v), h) \<in> set rs \<Longrightarrow> f st v = g st v) \<Longrightarrow> first_run f rs = first_run g rs"
proof (induction rs)
  case Nil
  then show ?case by simp
next
  case (Cons r rs)
  obtain st v h where r: "r = ((st, v), h)" by (metis surj_pair)
  have "first_run f rs = first_run g rs" using Cons by (meson list.set_intros(2))
  moreover have "f st v = g st v" using Cons.prems [of st v h] r by simp
  ultimately show ?case by (simp add: r split: option.split)
qed

lemma first_run_map_option:
  "first_run (\<lambda>st v. map_option g (f st v)) rs = map_option (apsnd g) (first_run f rs)"
  by (induction rs) (auto split: option.splits)

lemma first_run_None [simp]: "first_run (\<lambda>st v. None) rs = None"
  by (induction rs) auto

lemma first_run_SomeD:
  "first_run f rs = Some (h, b) \<Longrightarrow> \<exists>st v. ((st, v), h) \<in> set rs \<and> f st v = Some b"
proof (induction rs)
  case Nil
  then show ?case by simp
next
  case (Cons r rs)
  obtain st v h' where r: "r = ((st, v), h')" by (metis surj_pair)
  show ?case
  proof (cases "f st v")
    case None
    with Cons r show ?thesis by auto
  next
    case (Some b')
    with Cons.prems r show ?thesis by auto
  qed
qed

lemma first_run_NoneD: "first_run f rs = None \<Longrightarrow> ((st, v), h) \<in> set rs \<Longrightarrow> f st v = None"
  by (induction rs) (auto split: option.splits)

lemma route_run_bytes:
  "route_run (map StepByte p @ st) verb path =
     (if has_prefix path p then route_run st verb (drop (length p) path) else None)"
proof (induction p arbitrary: path)
  case Nil
  then show ?case by simp
next
  case (Cons b p)
  then show ?case by (cases path) auto
qed

lemma matchTerminal_first_run:
  "first_run (\<lambda>st v. route_run st v path) (terminal_routes ts) =
     map_option (\<lambda>h. (h, [])) (matchTerminal ts (stripTrailingSlashes path))"
  by (induction ts "stripTrailingSlashes path" rule: matchTerminal.induct)
     (auto simp: terminal_routes_def literal_end_def)

lemma matchCaptureTerminal_first_run:
  "first_run (\<lambda>st v. capture_run nm (run v) (st = []) v value rest) (terminal_routes ts) =
     map_option (\<lambda>(h, x). (h, [(nm, x)])) (matchCaptureTerminal ts value (stripTrailingSlashes rest))"
  by (induction ts "value" "stripTrailingSlashes rest" rule: matchCaptureTerminal.induct)
     (auto simp: terminal_routes_def capture_run_def capture_end_def)

lemma children_routes_steps:
  "wf_children cs \<Longrightarrow> ((st, v), h) \<in> set (children_routes cs) \<Longrightarrow> st \<noteq> []"
  by (induction cs) (auto simp: node_routes_below under_def)

section \<open>Parameters\<close>

definition bind_params :: "params \<Rightarrow> bindings \<Rightarrow> params" where
  "bind_params ps bs =
     (if bs = [] then ps else Some (fold (\<lambda>(k, v) m. m(k \<mapsto> v)) bs (params_make ps)))"

lemma bind_params_Cons: "bind_params ps ((k, v) # bs) = bind_params (Some ((params_make ps)(k \<mapsto> v))) bs"
  by (simp add: bind_params_def)

lemma bind_params_Nil [simp]: "bind_params ps [] = ps"
  by (simp add: bind_params_def)

text \<open>No name is captured twice on the way down.\<close>

primrec names_ok :: "string set \<Rightarrow> 'h routeNode \<Rightarrow> bool"
  and names_children :: "string set \<Rightarrow> 'h routeNode list \<Rightarrow> bool" where
  "names_ok S (RouteNode kd p nm ex ts cs) =
     ((kd = nodeLiteral \<or> nm \<notin> S) \<and> names_children (if kd = nodeLiteral then S else insert nm S) cs)"
| "names_children S [] = True"
| "names_children S (c # cs) = (names_ok S c \<and> names_children S cs)"

abbreviation params_within :: "params \<Rightarrow> string set \<Rightarrow> bool" where
  "params_within ps S \<equiv> dom (params_make ps) \<subseteq> S"

section \<open>Lookup finds the first route that runs\<close>

definition found :: "('h \<times> bindings) option \<Rightarrow> 'h option \<times> params \<Rightarrow> bool" where
  \<comment> \<open>the handler of the result agrees\<close>
  "found r res = (fst res = map_option fst r)"

definition found_params :: "params \<Rightarrow> ('h \<times> bindings) option \<Rightarrow> 'h option \<times> params \<Rightarrow> bool" where
  \<comment> \<open>and so do the parameters\<close>
  "found_params ps r res =
     (case r of
        Some (h, bs) \<Rightarrow> res = (Some h, bind_params ps bs)
      | None \<Rightarrow> fst res = None \<and> (ps \<noteq> None \<longrightarrow> snd res = ps))"

lemma found_params_found: "found_params ps r res \<Longrightarrow> found r res"
  by (auto simp: found_params_def found_def split: option.splits)

lemma capture_routes:
  assumes "wf_children cs"
  shows "first_run (\<lambda>st v. capture_run nm (\<lambda>p. route_run st v p) (st = []) v value rest)
      (terminal_routes ts @ children_routes cs) =
    (case matchCaptureTerminal ts value (stripTrailingSlashes rest) of
       Some (h, x) \<Rightarrow> Some (h, [(nm, x)])
     | None \<Rightarrow> map_option (apsnd ((#) (nm, value)))
                 (first_run (\<lambda>st v. route_run st v rest) (children_routes cs)))"
proof -
  have ts: "first_run (\<lambda>st v. capture_run nm (\<lambda>p. route_run st v p) (st = []) v value rest) (terminal_routes ts)
    = map_option (\<lambda>(h, x). (h, [(nm, x)])) (matchCaptureTerminal ts value (stripTrailingSlashes rest))"
    by (subst matchCaptureTerminal_first_run [symmetric, where run = "\<lambda>v p. route_run [] v p"],
        rule first_run_cong) (auto simp: terminal_routes_def)
  have cs: "first_run (\<lambda>st v. capture_run nm (\<lambda>p. route_run st v p) (st = []) v value rest) (children_routes cs)
    = map_option (apsnd ((#) (nm, value))) (first_run (\<lambda>st v. route_run st v rest) (children_routes cs))"
    by (subst first_run_map_option [symmetric], rule first_run_cong)
       (use children_routes_steps [OF assms] in \<open>auto simp: capture_run_def\<close>)
  show ?thesis
    by (simp add: first_run_append ts cs split: option.splits)
qed

lemma capture_lookup_found:
  assumes "wf_children cs"
    and "\<And>ps. found (first_run (\<lambda>st v. route_run st v rest) (children_routes cs)) (sub ps)"
  shows "found (first_run (\<lambda>st v. capture_run nm (\<lambda>p. route_run st v p) (st = []) v value rest)
      (terminal_routes ts @ children_routes cs)) (capture_lookup nm ts sub value rest params)"
  unfolding capture_routes [OF assms(1)]
  using assms(2) [of "Some ((params_make params)(nm \<mapsto> value))"]
  by (auto simp: capture_lookup_def found_def Let_def option.map_comp comp_def split: option.splits prod.splits)

lemma capture_lookup_found_params:
  assumes "wf_children cs" "nm \<notin> dom (params_make params)"
    and IH: "found_params (Some ((params_make params)(nm \<mapsto> value)))
          (first_run (\<lambda>st v. route_run st v rest) (children_routes cs))
          (sub (Some ((params_make params)(nm \<mapsto> value))))"
  shows "found_params params (first_run (\<lambda>st v. capture_run nm (\<lambda>p. route_run st v p) (st = []) v value rest)
      (terminal_routes ts @ children_routes cs)) (capture_lookup nm ts sub value rest params)"
proof -
  have "(params_make params)(nm := None) = params_make params"
    using assms(2) by (auto simp: fun_eq_iff domIff)
  then have restore: "Some (((params_make params)(nm \<mapsto> value))(nm := None)) = params" if "params \<noteq> None"
    using that by (cases params) simp_all
  show ?thesis
    unfolding capture_routes [OF assms(1)] capture_lookup_def Let_def
    using IH restore
    by (auto simp: found_params_def bind_params_Cons split: option.splits prod.splits)
qed

lemma node_routes_runs:
  "first_run (\<lambda>st v. route_run st v path) (node_routes (RouteNode nodeLiteral p nm ex ts cs)) =
     (if \<not> has_prefix path p then None
      else case matchTerminal ts (stripTrailingSlashes (drop (length p) path)) of
             Some h \<Rightarrow> Some (h, [])
           | None \<Rightarrow> first_run (\<lambda>st v. route_run st v (drop (length p) path)) (children_routes cs))"
  "first_run (\<lambda>st v. route_run st v path) (node_routes (RouteNode nodeParam p nm ex ts cs)) =
     (let path = skip_slashes path; seg = takeWhile not_slash path
      in if seg = [] then None
         else first_run (\<lambda>st v. capture_run nm (route_run st v) (st = []) v seg (dropWhile not_slash path))
                (terminal_routes ts @ children_routes cs))"
  "first_run (\<lambda>st v. route_run st v path) (node_routes (RouteNode nodeResource p nm ex ts cs)) =
     (case matchResourceExpr ex (skip_slashes path) of
        None \<Rightarrow> None
      | Some (value, rest) \<Rightarrow>
          first_run (\<lambda>st v. capture_run nm (route_run st v) (st = []) v value rest)
            (terminal_routes ts @ children_routes cs))"
  by (auto simp: first_run_under own_steps_def route_run_bytes Let_def first_run_append
      matchTerminal_first_run split: option.splits)

text \<open>A list of children, from the same fact on each child.\<close>

lemma children_found:
  assumes "wf_children cs"
    and "\<And>c ps. c \<in> set cs \<Longrightarrow> wf_node c \<Longrightarrow>
      found (first_run (\<lambda>st v. route_run st v path) (node_routes c)) (node_lookup c path ps)"
  shows "found (first_run (\<lambda>st v. route_run st v path) (children_routes cs)) (children_lookup cs path ps)"
  using assms
proof (induction cs arbitrary: ps)
  case Nil
  then show ?case by (simp add: found_def)
next
  case (Cons c cs)
  have c: "found (first_run (\<lambda>st v. route_run st v path) (node_routes c)) (node_lookup c path ps)"
    and cs: "found (first_run (\<lambda>st v. route_run st v path) (children_routes cs)) (children_lookup cs path ps)"
    for ps
    using Cons by auto
  obtain h ps' where l: "node_lookup c path ps = (h, ps')" by (cases "node_lookup c path ps")
  show ?case
    using c [of ps] cs [of "if ps = None then None else ps'"]
    by (cases h) (auto simp: l found_def first_run_append split: option.splits)
qed

lemma children_found_params:
  assumes "wf_children cs" "names_children S cs" "params_within ps S"
    and "\<And>c. c \<in> set cs \<Longrightarrow> wf_node c \<Longrightarrow> names_ok S c \<Longrightarrow>
      found_params ps (first_run (\<lambda>st v. route_run st v path) (node_routes c)) (node_lookup c path ps)"
  shows "found_params ps (first_run (\<lambda>st v. route_run st v path) (children_routes cs))
    (children_lookup cs path ps)"
  using assms
proof (induction cs)
  case Nil
  then show ?case by (simp add: found_params_def)
next
  case (Cons c cs)
  have c: "found_params ps (first_run (\<lambda>st v. route_run st v path) (node_routes c)) (node_lookup c path ps)"
    and cs: "found_params ps (first_run (\<lambda>st v. route_run st v path) (children_routes cs)) (children_lookup cs path ps)"
    using Cons by auto
  obtain h ps' where l: "node_lookup c path ps = (h, ps')" by (cases "node_lookup c path ps")
  show ?case
    using c cs l by (cases h; cases ps) (auto simp: found_params_def first_run_append split: option.splits)
qed

lemma node_found:
  "wf_node n \<Longrightarrow> found (first_run (\<lambda>st v. route_run st v path) (node_routes n)) (node_lookup n path ps)"
proof (induction n arbitrary: path ps)
  case (RouteNode kd p nm ex ts cs)
  then have wf: "wf_children cs" by simp
  have IH: "found (first_run (\<lambda>st v. route_run st v path) (children_routes cs)) (children_lookup cs path ps)"
    for path ps by (rule children_found [OF wf]) (rule RouteNode.IH)
  show ?case
  proof (cases kd)
    case nodeLiteral
    then show ?thesis
      unfolding nodeLiteral node_routes_runs using IH
      by (auto simp: found_def Let_def simp del: node_routes.simps split: option.splits)
  next
    case nodeParam
    show ?thesis
      unfolding nodeParam node_routes_runs
      using capture_lookup_found [OF wf IH]
      by (auto simp: found_def Let_def simp del: node_routes.simps)
  next
    case nodeResource
    show ?thesis
      unfolding nodeResource node_routes_runs
      using capture_lookup_found [OF wf IH]
      by (auto simp: found_def simp del: node_routes.simps split: option.splits)
  qed
qed

lemma node_found_params:
  "wf_node n \<Longrightarrow> names_ok S n \<Longrightarrow> params_within ps S \<Longrightarrow>
   found_params ps (first_run (\<lambda>st v. route_run st v path) (node_routes n)) (node_lookup n path ps)"
proof (induction n arbitrary: path ps S)
  case (RouteNode kd p nm ex ts cs)
  then have wf: "wf_children cs" by simp
  have IH: "found_params ps (first_run (\<lambda>st v. route_run st v path) (children_routes cs))
      (children_lookup cs path ps)" if "names_children S cs" "params_within ps S" for path ps S
    by (rule children_found_params [OF wf that]) (use RouteNode.IH that in auto)
  have capture: "found_params ps
      (first_run (\<lambda>st v. capture_run nm (\<lambda>p. route_run st v p) (st = []) v value rest)
        (terminal_routes ts @ children_routes cs))
      (capture_lookup nm ts (children_lookup cs rest) value rest ps)" if "kd \<noteq> nodeLiteral" for "value" rest
  proof (rule capture_lookup_found_params [OF wf])
    show "nm \<notin> dom (params_make ps)" using RouteNode.prems that by auto
    show "found_params (Some ((params_make ps)(nm \<mapsto> value)))
      (first_run (\<lambda>st v. route_run st v rest) (children_routes cs))
      (children_lookup cs rest (Some ((params_make ps)(nm \<mapsto> value))))"
      by (rule IH [where S = "insert nm S"]) (use RouteNode.prems that in auto)
  qed
  show ?case
  proof (cases kd)
    case nodeLiteral
    then have "found_params ps
        (first_run (\<lambda>st v. route_run st v (drop (length p) path)) (children_routes cs))
        (children_lookup cs (drop (length p) path) ps)"
      using RouteNode.prems by (intro IH) auto
    then show ?thesis
      unfolding nodeLiteral node_routes_runs
      by (auto simp: found_params_def Let_def simp del: node_routes.simps split: option.splits)
  next
    case nodeParam
    with capture show ?thesis
      unfolding nodeParam node_routes_runs
      by (auto simp: Let_def found_params_def simp del: node_routes.simps)
  next
    case nodeResource
    with capture show ?thesis
      unfolding nodeResource node_routes_runs
      by (auto simp: found_params_def [where r = None] simp del: node_routes.simps split: option.splits)
  qed
qed

section \<open>Insertion of routes that name each parameter once\<close>

definition scope :: "string set \<Rightarrow> 'h routeNode \<Rightarrow> string set" where
  "scope S n = (if kind n = nodeLiteral then S else insert (name n) S)"

lemma names_ok_iff:
  "names_ok S n \<longleftrightarrow> (kind n = nodeLiteral \<or> name n \<notin> S) \<and> names_children (scope S n) (children n)"
  by (cases n) (simp add: scope_def)

definition keeps :: "('h routeNode \<Rightarrow> 'h routeNode) \<Rightarrow> string set \<Rightarrow> bool" where
  "keeps k N = (\<forall>n S. names_ok S n \<and> N \<inter> scope S n = {} \<longrightarrow> names_ok S (k n))"

lemma keepsD: "keeps k N \<Longrightarrow> names_ok S n \<Longrightarrow> N \<inter> scope S n = {} \<Longrightarrow> names_ok S (k n)"
  by (auto simp: keeps_def)

lemma keeps_addTerminal: "keeps (addTerminal v h) N"
  by (simp add: keeps_def names_ok_iff scope_def addTerminal_def)

lemma names_children_insert:
  "names_children S (insertBeforeNonLiteral c cs) \<longleftrightarrow> names_ok S c \<and> names_children S cs"
  by (induction cs) auto

lemma addLiteral_keeps_aux:
  fixes n :: "'h routeNode" and cs :: "'h routeNode list"
  shows "keeps k N \<Longrightarrow> names_ok S n \<Longrightarrow> N \<inter> scope S n = {} \<Longrightarrow> names_ok S (addLiteralChild k pre n)"
    and "keeps k N \<Longrightarrow> names_children S cs \<Longrightarrow> N \<inter> S = {} \<Longrightarrow>
      (case addLiteralChildren k pre cs of None \<Rightarrow> True | Some cs' \<Rightarrow> names_children S cs')"
proof (induction k pre n and k pre cs arbitrary: S and S rule: addLiteralChild_addLiteralChildren.induct)
  case (1 k pre kd p nm ex ts cs)
  let ?S = "if kd = nodeLiteral then S else insert nm S"
  have S: "names_children ?S cs" "N \<inter> ?S = {}" using 1(3,4) by (auto simp: scope_def)
  have "names_ok ?S (k (literalNode pre))"
    by (rule keepsD [OF 1(2)]) (use S in \<open>auto simp: literalNode_def scope_def\<close>)
  with 1(1) [OF 1(2) S] 1(3) S show ?case
    by (auto simp: names_children_insert split: option.splits)
next
  case (2 k pre)
  then show ?case by simp
next
  case (3 k pre child cs)
  have child: "names_ok S child" and cs: "names_children S cs" using 3(6) by auto
  have tail: "case map_option ((#) child) (addLiteralChildren k pre cs) of
      None \<Rightarrow> True | Some cs' \<Rightarrow> names_children S cs'" if
    "case addLiteralChildren k pre cs of None \<Rightarrow> True | Some cs' \<Rightarrow> names_children S cs'"
    using that child by (auto split: option.splits)
  show ?case
  proof (cases "kind child = nodeLiteral")
    case False
    with 3 cs tail show ?thesis by simp
  next
    case lit: True
    define common where "common = commonPrefixLen (prefix child) pre"
    show ?thesis
    proof (cases "common = 0")
      case True
      with 3 cs tail lit show ?thesis by (simp add: common_def Let_def)
    next
      case pos: False
      let ?c = "RouteNode (kind child) (take common (prefix child)) (name child) (expr child) []
        [RouteNode nodeLiteral (drop common (prefix child)) [] [] (terminals child) (children child)]"
      have c: "names_ok S ?c" using child lit by (simp add: names_ok_iff scope_def)
      have scope: "scope S child = S" "scope S ?c = S" using lit by (simp_all add: scope_def)
      have full: "names_ok S (addLiteralChild k (drop common pre) child)"
        if "common = length (prefix child)" "common \<noteq> length pre"
        using 3(3) [OF _ common_def] pos that lit 3(5,7) child scope by auto
      have split: "names_ok S (addLiteralChild k (drop common pre) ?c)"
        if "common \<noteq> length (prefix child)" "common \<noteq> length pre"
        using 3(4) [OF _ common_def _ _ _ refl] pos that lit 3(5,7) c scope by auto
      show ?thesis
        using lit pos keepsD [OF 3(5) child] keepsD [OF 3(5) c] full split scope 3(7) cs
        by (auto simp: common_def [symmetric] Let_def)
    qed
  qed
qed

lemma keeps_flushLiteral: "keeps k N \<Longrightarrow> keeps (flushLiteral k lit) N"
  by (cases "lit = []") (auto simp: keeps_def flushLiteral_def intro!: addLiteral_keeps_aux(1))

lemma keeps_addParamChild:
  assumes "keeps k N" "nm \<notin> N"
  shows "keeps (addParamChild k nm) (insert nm N)"
proof -
  have "names_children S (addParamChildren k nm cs)" if "names_children S cs" "insert nm N \<inter> S = {}" for S cs
    using that
  proof (induction cs)
    case Nil
    with assms show ?case by (auto intro!: keepsD [OF assms(1)] simp: scope_def)
  next
    case (Cons c cs)
    with assms show ?case by (auto intro!: keepsD [OF assms(1)] simp: scope_def)
  qed
  then show ?thesis by (simp add: keeps_def names_ok_iff addParamChild_def scope_def)
qed

lemma keeps_addResourceChild:
  assumes "keeps k N" "nm \<notin> N"
  shows "keeps (addResourceChild k nm ex) (insert nm N)"
proof -
  have "names_children S (addResourceChildren k nm ex cs)"
    if "names_children S cs" "insert nm N \<inter> S = {}" for S cs
    using that
  proof (induction cs)
    case Nil
    with assms show ?case by (auto intro!: keepsD [OF assms(1)] simp: scope_def)
  next
    case (Cons c cs)
    with assms show ?case by (auto intro!: keepsD [OF assms(1)] simp: scope_def)
  qed
  then show ?thesis by (simp add: keeps_def names_ok_iff addResourceChild_def scope_def)
qed

lemma keeps_insertSegments:
  "distinct (pattern_names segs) \<Longrightarrow> keeps (insertSegments segs lit v h) (set (pattern_names segs))"
proof (induction segs arbitrary: lit)
  case Nil
  have "insertSegments [] lit v h = flushLiteral (addTerminal v h) lit" by (simp add: fun_eq_iff)
  then show ?case by (simp add: keeps_flushLiteral keeps_addTerminal)
next
  case (Cons seg segs)
  show ?case
  proof (cases "seg_param seg")
    case None
    then have "insertSegments (seg # segs) lit v h = insertSegments segs (lit @ ''/'' @ seg_literal seg) v h"
      by (simp add: fun_eq_iff)
    with Cons None show ?thesis by simp
  next
    case (Some p)
    let ?k = "\<lambda>n. if p_resource p
       then addResourceChild (insertSegments segs [] v h) (p_name p) (p_expr p) n
       else addParamChild (insertSegments segs [] v h) (p_name p) n"
    have k: "keeps (insertSegments segs [] v h) (set (pattern_names segs))"
      and p: "p_name p \<notin> set (pattern_names segs)" using Cons Some by auto
    have "keeps ?k (insert (p_name p) (set (pattern_names segs)))"
      using keeps_addParamChild [OF k p] keeps_addResourceChild [OF k p]
      by (cases "p_resource p") (simp_all add: keeps_def)
    moreover have "insertSegments (seg # segs) lit v h = flushLiteral ?k lit"
      using Some by (simp add: fun_eq_iff)
    ultimately show ?thesis using Some by (simp add: keeps_flushLiteral)
  qed
qed

lemma names_ok_tree_of:
  "\<forall>(p, h) \<in> set rs. distinct (pattern_names (segments p)) \<Longrightarrow> names_ok {} (tree_of rs)"
proof (induction rs rule: rev_induct)
  case Nil
  then show ?case by (simp add: tree_of_def newRouteTree_def)
next
  case (snoc r rs)
  obtain p h where r: "r = (p, h)" by (cases r)
  have root: "kind (tree_of rs) = nodeLiteral"
    using tree_of_routes [of rs] newRouteTree_head by blast
  have "names_ok {} (tree_insert p h (tree_of rs))"
    unfolding tree_insert_def
    by (rule keepsD [OF keeps_insertSegments]) (use snoc r root in \<open>auto simp: scope_def\<close>)
  then show ?case by (simp add: tree_of_def r)
qed

section \<open>Lookup against the registered routes\<close>

abbreviation keyed :: "(Pattern \<times> 'h) list \<Rightarrow> (route_key \<times> 'h) list" where
  "keyed rs \<equiv> map (\<lambda>(p, h). (pattern_key p, h)) rs"

lemma first_run_iff:
  "first_run f rs \<noteq> None \<longleftrightarrow> (\<exists>k \<in> fst ` set rs. f (fst k) (snd k) \<noteq> None)"
  by (induction rs) (auto split: option.splits)

lemma first_run_map_of:
  "first_run f rs = Some (h, b) \<Longrightarrow> \<exists>st v. map_of rs (st, v) = Some h \<and> f st v = Some b"
proof (induction rs)
  case Nil
  then show ?case by simp
next
  case (Cons r rs)
  obtain st v h' where r: "r = ((st, v), h')" by (metis surj_pair)
  show ?case
  proof (cases "f st v")
    case None
    with Cons.prems r have "first_run f rs = Some (h, b)" by simp
    from Cons.IH [OF this] obtain st' v' where "map_of rs (st', v') = Some h" "f st' v' = Some b" by blast
    moreover from this(2) None have "(st', v') \<noteq> (st, v)" by (metis option.distinct(1) Pair_inject)
    ultimately show ?thesis by (auto simp: r)
  next
    case (Some b')
    with Cons.prems r show ?thesis by auto
  qed
qed

lemma routes_of_tree: "map_of (node_routes (tree_of rs)) = map_of (keyed rs)"
  using tree_of_routes by blast

lemma tree_lookup_found: "found (first_run (\<lambda>st v. route_run st v path) (node_routes (tree_of rs)))
    (tree_lookup (tree_of rs) path)"
  unfolding tree_lookup_def using tree_of_routes by (intro node_found) blast

definition serves :: "Pattern \<Rightarrow> string \<Rightarrow> bool" where
  "serves p path = (route_run (fst (pattern_key p)) (snd (pattern_key p)) path \<noteq> None)"

lemma lookup_complete:
  "(fst (tree_lookup (tree_of rs) path) \<noteq> None) = list_ex (\<lambda>(p, h). serves p path) rs"
proof -
  let ?f = "\<lambda>st v. route_run st v path"
  have keys: "fst ` set (node_routes (tree_of rs)) = fst ` set (keyed rs)"
    by (metis dom_map_of_conv_image_fst routes_of_tree)
  have "first_run ?f (node_routes (tree_of rs)) \<noteq> None \<longleftrightarrow> first_run ?f (keyed rs) \<noteq> None"
    by (simp only: first_run_iff keys)
  moreover have "first_run ?f (keyed rs) \<noteq> None \<longleftrightarrow> list_ex (\<lambda>(p, h). serves p path) rs"
    unfolding first_run_iff serves_def list_ex_iff by force
  ultimately show ?thesis using tree_lookup_found [of path rs] by (simp add: found_def)
qed

text \<open>
  C8. The radix tree finds a handler for a path exactly when the path runs along the steps of some
  registered pattern: splitting and sharing of nodes, the order of registration and backtracking
  lose and add nothing.
\<close>

theorem tree_lookup_complete:
  "(fst (tree_lookup (tree_of rs) path) \<noteq> None) = list_ex (\<lambda>(p, h). serves p path) rs"
  by (rule lookup_complete)

lemma lookup_sound:
  assumes "list_all (\<lambda>(p, h). distinct (pattern_names (segments p))) rs"
    and "tree_lookup (tree_of rs) path = (Some h, ps)"
  shows "\<exists>p bs. (p, h) \<in> set rs \<and> map_of (keyed rs) (pattern_key p) = Some h \<and>
    route_run (fst (pattern_key p)) (snd (pattern_key p)) path = Some bs \<and> ps = bind_params None bs"
proof -
  let ?r = "first_run (\<lambda>st v. route_run st v path) (node_routes (tree_of rs))"
  have "found_params None ?r (tree_lookup (tree_of rs) path)"
    unfolding tree_lookup_def
    using assms(1) tree_of_routes names_ok_tree_of
    by (intro node_found_params [where S = "{}"]) (auto simp: list_all_iff)
  with assms(2) obtain bs where r: "?r = Some (h, bs)" and ps: "ps = bind_params None bs"
    by (auto simp: found_params_def split: option.splits)
  from first_run_map_of [OF r] obtain st v where
    key: "map_of (keyed rs) (st, v) = Some h" and run: "route_run st v path = Some bs"
    by (auto simp: routes_of_tree)
  from map_of_SomeD [OF key] obtain p where "(p, h) \<in> set rs" "pattern_key p = (st, v)" by auto
  with key run ps show ?thesis by (intro exI [of _ p] exI [of _ bs]) simp
qed

text \<open>
  C9. When no pattern repeats a parameter name, the handler the tree returns is the one that was
  registered first for some pattern the path runs along, and the parameters are exactly those
  that pattern captures: no value of a branch that was tried and abandoned is left in the map.
\<close>

theorem tree_lookup_sound:
  assumes "list_all (\<lambda>(p, h). distinct (pattern_names (segments p))) rs"
    and "tree_lookup (tree_of rs) path = (Some h, ps)"
  shows "\<exists>p bs. (p, h) \<in> set rs \<and> map_of (keyed rs) (pattern_key p) = Some h \<and>
    route_run (fst (pattern_key p)) (snd (pattern_key p)) path = Some bs \<and> ps = bind_params None bs"
  using assms by (rule lookup_sound)

section \<open>The tree and \<open>Pattern.Match\<close>\<close>

fun clean_path :: "string \<Rightarrow> bool" where
  \<comment> \<open>no two slashes in a row\<close>
  "clean_path [] = True"
| "clean_path (c # s) = (\<not> (c = CHR ''/'' \<and> has_prefix s ''/'') \<and> clean_path s)"

lemma clean_path_append: "clean_path (a @ b) \<Longrightarrow> clean_path b"
  by (induction a) auto

lemma clean_path_drop: "clean_path s \<Longrightarrow> clean_path (drop n s)"
  by (metis append_take_drop_id clean_path_append)

lemma clean_path_dropWhile: "clean_path s \<Longrightarrow> clean_path (dropWhile P s)"
  by (metis takeWhile_dropWhile_id clean_path_append)

lemma at_boundary_dropWhile: "at_boundary (dropWhile not_slash s)"
  using hd_dropWhile [of not_slash s] by (auto simp: at_boundary_def not_slash_def)

lemma skip_slashes_boundary:
  assumes "clean_path cur" "at_boundary cur" "skip_slashes cur \<noteq> []"
  shows "cur = CHR ''/'' # skip_slashes cur"
  using assms by (cases cur; cases "tl cur") (auto simp: at_boundary_def skip_slashes_def)

lemma strip_all_slashes: "skip_slashes s = [] \<Longrightarrow> stripTrailingSlashes s = []"
  by (auto simp: skip_slashes_def stripTrailingSlashes_def)

lemma matchExpr_boundary:
  "matchExpr_loop ex start cur = Some (v, rest) \<Longrightarrow> ex \<noteq> [] \<or> at_boundary cur \<Longrightarrow> clean_path cur \<Longrightarrow>
   at_boundary rest \<and> clean_path rest"
proof (induction ex start cur rule: matchExpr_loop.induct)
  case (1 start cur)
  then show ?case by simp
next
  case (2 es ess start cur)
  have "clean_path (skip_slashes cur)" using 2(5) by (simp add: skip_slashes_def clean_path_dropWhile)
  with 2 show ?case
    by (auto simp: Let_def at_boundary_dropWhile clean_path_dropWhile clean_path_drop
        at_boundary_def [of "[]"] split: if_splits)
qed

lemma segment_steps_Nil: "concat (map segment_steps segs) = [] \<longleftrightarrow> segs = []"
  by (cases segs) (auto simp: segment_steps_def split: option.splits)

lemma matchSegments_run:
  assumes "matchSegments segs cur ps = Some (rest, ps')" "skip_slashes rest = []"
    and "list_all segment_ok segs" "clean_path cur" "at_boundary cur"
  shows "\<exists>bs. route_run (concat (map segment_steps segs)) [] cur = Some bs \<and> bind_params ps bs = ps'"
  using assms
proof (induction segs arbitrary: cur ps)
  case Nil
  then show ?case by (simp add: literal_end_def strip_all_slashes)
next
  case (Cons seg segs)
  let ?cur = "skip_slashes cur"
  have clean: "clean_path ?cur" using Cons.prems(4) by (simp add: skip_slashes_def clean_path_dropWhile)
  have capture: "\<exists>bs. capture_run nm (route_run (concat (map segment_steps segs)) [])
        (concat (map segment_steps segs) = []) [] v cur' = Some bs \<and> bind_params ps bs = ps'"
    if m: "matchSegments segs cur' (Some ((params_make ps)(nm \<mapsto> v))) = Some (rest, ps')"
      and cur': "clean_path cur'" "at_boundary cur'" for nm v cur'
  proof (cases "segs = []")
    case True
    with m Cons.prems(2) show ?thesis
      by (simp add: capture_run_def capture_end_def strip_all_slashes bind_params_def)
  next
    case False
    from Cons.IH [OF m Cons.prems(2) _ cur'] Cons.prems(3) obtain bs where
      "route_run (concat (map segment_steps segs)) [] cur' = Some bs"
      "bind_params (Some ((params_make ps)(nm \<mapsto> v))) bs = ps'" by auto
    with False show ?thesis
      by (simp add: capture_run_def segment_steps_Nil bind_params_Cons del: concat_eq_Nil_conv)
  qed
  show ?case
  proof (cases "seg_param seg")
    case None
    let ?lit = "seg_literal seg"
    have m: "has_prefix ?cur ?lit" "at_boundary (drop (length ?lit) ?cur)"
      "matchSegments segs (drop (length ?lit) ?cur) ps = Some (rest, ps')"
      using Cons.prems(1) None by (auto simp: Let_def split: if_splits)
    have "?lit \<noteq> []" using Cons.prems(3) None by (simp add: segment_ok_def)
    with m(1) have "?cur \<noteq> []" by (auto simp: has_prefix_iff)
    from skip_slashes_boundary [OF Cons.prems(4,5) this] have cur: "cur = CHR ''/'' # ?cur" .
    have "route_run (map StepByte ?lit @ concat (map segment_steps segs)) [] ?cur =
        route_run (concat (map segment_steps segs)) [] (drop (length ?lit) ?cur)"
      using m(1) by (simp add: route_run_bytes)
    with Cons.IH [OF m(3) Cons.prems(2) _ clean_path_drop [OF clean] m(2)] Cons.prems(3) None
    show ?thesis by (subst cur) (simp add: segment_steps_simps)
  next
    case (Some p)
    show ?thesis
    proof (cases "p_resource p")
      case True
      from Cons.prems(1) Some True obtain v cur' where m: "matchResourceExpr (p_expr p) ?cur = Some (v, cur')"
        "matchSegments segs cur' (Some ((params_make ps)(p_name p \<mapsto> v))) = Some (rest, ps')"
        by (auto simp: Let_def split: option.splits)
      have "p_expr p \<noteq> []" using Cons.prems(3) Some True by (simp add: segment_ok_def)
      with matchExpr_boundary [of "p_expr p" ?cur ?cur v cur'] m(1) clean
      have "at_boundary cur'" "clean_path cur'" by (auto simp: matchResourceExpr_def)
      from capture [OF m(2) this(2,1)] m(1) Some True show ?thesis by (simp add: segment_steps_simps)
    next
      case False
      with Cons.prems(1) Some have m: "takeWhile not_slash ?cur \<noteq> []"
        "matchSegments segs (dropWhile not_slash ?cur)
           (Some ((params_make ps)(p_name p \<mapsto> takeWhile not_slash ?cur))) = Some (rest, ps')"
        by (auto simp: Let_def split: if_splits)
      from capture [OF m(2) clean_path_dropWhile [OF clean] at_boundary_dropWhile] m(1) Some False
      show ?thesis by (simp add: segment_steps_simps Let_def)
    qed
  qed
qed

definition plain_literal :: "string \<Rightarrow> segment" where
  "plain_literal l = \<lparr>seg_literal = l, seg_param = None\<rparr>"

definition plain_param :: "string \<Rightarrow> segment" where
  "plain_param nm = \<lparr>seg_literal = [], seg_param = Some \<lparr>p_name = nm, p_resource = False, p_expr = []\<rparr>\<rparr>"

lemma matchSegments_glued:
  assumes "lits \<noteq> []" "list_all (\<lambda>l. l \<noteq> [] \<and> CHR ''/'' \<notin> set l) lits" "v \<noteq> []" "CHR ''/'' \<notin> set v"
  shows "matchSegments (map plain_literal lits @ [plain_param nm]) (concat (map ((#) CHR ''/'') lits) @ v) ps = None"
  using assms(1,2)
proof (induction lits)
  case (Cons l lits)
  let ?rest = "concat (map ((#) CHR ''/'') lits) @ v"
  have skip: "skip_slashes (CHR ''/'' # l @ ?rest) = l @ ?rest"
    using Cons.prems(2) by (cases l) (auto simp: skip_slashes_def)
  have edge: "at_boundary ?rest \<longleftrightarrow> lits \<noteq> []"
    using assms(3,4) by (cases lits; cases v) (auto simp: at_boundary_def)
  show ?case
    using Cons skip edge by (cases "lits = []") (simp_all add: plain_literal_def Let_def has_prefix_iff)
qed simp

lemma route_run_glued:
  assumes "v \<noteq> []" "CHR ''/'' \<notin> set v"
  shows "route_run (concat (map segment_steps (map plain_literal lits @ [plain_param nm]))) []
    (concat (map ((#) CHR ''/'') lits) @ v) = Some [(nm, v)]"
proof -
  have slash: "not_slash c" if "c \<in> set v" for c using assms(2) that by (auto simp: not_slash_def)
  have v: "skip_slashes v = v" "takeWhile not_slash v = v" "dropWhile not_slash v = []"
    using assms slash by (cases v; auto simp: skip_slashes_def)+
  have last: "route_run [StepParam nm] [] v = Some [(nm, v)]"
    using assms(1) by (simp add: Let_def v capture_run_def capture_end_def stripTrailingSlashes_def)
  have "concat (map segment_steps (map plain_literal lits)) = map StepByte (concat (map ((#) CHR ''/'') lits))"
    by (induction lits) (simp_all add: plain_literal_def segment_steps_simps)
  then have "concat (map segment_steps (map plain_literal lits @ [plain_param nm])) =
      map StepByte (concat (map ((#) CHR ''/'') lits)) @ [StepParam nm]"
    by (simp add: plain_param_def segment_steps_simps)
  then show ?thesis by (simp only: route_run_bytes) (simp add: last del: route_run.simps)
qed

lemma Match_run:
  assumes "list_all segment_ok (segments p)" "pat_verb p = []" "Match p path = Some ps" "clean_path path" "at_boundary path"
  shows "\<exists>bs. route_run (fst (pattern_key p)) (snd (pattern_key p)) path = Some bs \<and> bind_params None bs = ps"
proof -
  from assms(2,3) obtain rest where m: "matchSegments (segments p) path None = Some (rest, ps)"
    "skip_slashes rest = []" by (auto simp: Match_def split: option.splits if_splits)
  from matchSegments_run [OF m assms(1,4,5)] assms(2) show ?thesis by (auto simp: pattern_key_def)
qed

lemma lookup_alone:
  \<comment> \<open>no other route serves the path\<close>
  assumes run: "route_run (fst (pattern_key p)) (snd (pattern_key p)) path = Some bs"
    and "(p, h) \<in> set rs" "list_all (\<lambda>(p, h). distinct (pattern_names (segments p))) rs"
    and alone: "\<And>p' h'. (p', h') \<in> set rs \<Longrightarrow> serves p' path \<Longrightarrow> p' = p \<and> h' = h"
  shows "tree_lookup (tree_of rs) path = (Some h, bind_params None bs)"
proof -
  have "list_ex (\<lambda>(p, h). serves p path) rs" using run assms(2) by (auto simp: list_ex_iff serves_def)
  then obtain h' ps' where l: "tree_lookup (tree_of rs) path = (Some h', ps')"
    using lookup_complete [of rs path] by (cases "tree_lookup (tree_of rs) path") auto
  from lookup_sound [OF assms(3) l] obtain p' bs' where p': "(p', h') \<in> set rs"
    "route_run (fst (pattern_key p')) (snd (pattern_key p')) path = Some bs'" "ps' = bind_params None bs'"
    by blast
  from p'(2) have "serves p' path" by (simp add: serves_def)
  from alone [OF p'(1) this] have eq: "p' = p" "h' = h" by blast+
  from p'(2) run have "bs' = bs" unfolding eq by simp
  then show ?thesis using l p'(3) unfolding eq by simp
qed

text \<open>
  C10. The tree serves every path the template itself matches: if a pattern without a verb was
  registered and \<open>Match\<close> accepts a path without doubled slashes, then lookup finds a handler for
  that path, and when the pattern is the only one the handler is its own, with the parameters
  \<open>Match\<close> binds.
\<close>

theorem tree_lookup_Match:
  assumes "ParsePattern t = Inr p" "pat_verb p = []" "(p, h) \<in> set rs"
    and "Match p path = Some ps" "clean_path path" "has_prefix path ''/''"
  shows "(\<exists>h'. fst (tree_lookup (tree_of rs) path) = Some h') \<and>
    (rs = [(p, h)] \<and> distinct (pattern_names (segments p)) \<longrightarrow> tree_lookup (tree_of rs) path = (Some h, ps))"
proof (intro conjI impI)
  have ok: "list_all segment_ok (segments p)" using parsed_ok [OF assms(1)] by (simp add: pattern_ok_def)
  have start: "at_boundary path" using assms(6) by (cases path) (auto simp: at_boundary_def)
  from Match_run [OF ok assms(2,4,5) start] obtain bs where
    run: "route_run (fst (pattern_key p)) (snd (pattern_key p)) path = Some bs" "bind_params None bs = ps" by blast
  then have "list_ex (\<lambda>(p, h). serves p path) rs" using assms(3) by (auto simp: list_ex_iff serves_def)
  then show "\<exists>h'. fst (tree_lookup (tree_of rs) path) = Some h'" using lookup_complete [of rs path] by auto
  assume one: "rs = [(p, h)] \<and> distinct (pattern_names (segments p))"
  show "tree_lookup (tree_of rs) path = (Some h, ps)"
    unfolding run(2) [symmetric]
  proof (rule lookup_alone [OF run(1) assms(3)])
    show "list_all (\<lambda>(p, h). distinct (pattern_names (segments p))) rs" using one by simp
    show "p' = p \<and> h' = h" if "(p', h') \<in> set rs" for p' h' using one that by simp
  qed
qed

section \<open>Concrete trees\<close>

abbreviation user_pattern :: Pattern where
  "user_pattern \<equiv> \<lparr>raw = ''/user/{id}'', segments =
     [\<lparr>seg_literal = ''user'', seg_param = None\<rparr>,
      \<lparr>seg_literal = [], seg_param = Some \<lparr>p_name = ''id'', p_resource = False, p_expr = []\<rparr>\<rparr>],
     pat_verb = []\<rparr>"

lemma user_pattern_parses: "ParsePattern ''/user/{id}'' = Inr user_pattern"
  by (simp add: go_defs rune_strings_ascii byte_in_def has_suffix_def has_prefix_def)

lemmas tree_eval = tree_of_def newRouteTree_def tree_insert_def tree_lookup_def flushLiteral_def literalNode_def
  addParamChild_def addResourceChild_def addTerminal_def capture_lookup_def stripTrailingSlashes_def

text \<open>
  C33. Where the tree and \<open>Match\<close> part: the literal of a tree node need not end at a slash. Whenever a parameter in braces
  follows literal segments at the end of a template, the tree also serves the paths that append a value to the last
  literal without a slash, which \<open>Match\<close> rejects; when the template is alone, the parameter is bound to that value.
  So a route for \<open>/user/{id}\<close> answers \<open>/users\<close>, with \<open>s\<close> as the \<open>id\<close>.
\<close>

theorem tree_lookup_no_boundary:
  assumes "ParsePattern t = Inr p" "pat_verb p = []" "(p, h) \<in> set rs"
    and "segments p = map plain_literal lits @ [plain_param nm]" "lits \<noteq> []"
    and "list_all (\<lambda>l. CHR ''/'' \<notin> set l) lits" "v \<noteq> []" "CHR ''/'' \<notin> set v"
  shows "Match p (concat (map ((#) CHR ''/'') lits) @ v) = None \<and>
    (\<exists>h'. fst (tree_lookup (tree_of rs) (concat (map ((#) CHR ''/'') lits) @ v)) = Some h') \<and>
    (rs = [(p, h)] \<longrightarrow>
      tree_lookup (tree_of rs) (concat (map ((#) CHR ''/'') lits) @ v) = (Some h, Some [nm \<mapsto> v]))"
proof (intro conjI impI)
  let ?path = "concat (map ((#) CHR ''/'') lits) @ v"
  have "list_all segment_ok (segments p)" using parsed_ok [OF assms(1)] by (simp add: pattern_ok_def)
  then have lits: "list_all (\<lambda>l. l \<noteq> [] \<and> CHR ''/'' \<notin> set l) lits"
    using assms(4,6) by (auto simp: list_all_iff segment_ok_def plain_literal_def)
  from matchSegments_glued [OF assms(5) lits assms(7,8)] show "Match p ?path = None"
    by (simp add: Match_def assms(2,4))
  have run: "route_run (fst (pattern_key p)) (snd (pattern_key p)) ?path = Some [(nm, v)]"
    using route_run_glued [OF assms(7,8)] by (simp add: pattern_key_def assms(2,4))
  then have "list_ex (\<lambda>(p, h). serves p ?path) rs" using assms(3) by (auto simp: list_ex_iff serves_def)
  then show "\<exists>h'. fst (tree_lookup (tree_of rs) ?path) = Some h'" using lookup_complete [of rs ?path] by auto
  assume one: "rs = [(p, h)]"
  have "pattern_names (segments p) = [nm]"
    by (simp add: assms(4) pattern_names_def plain_literal_def plain_param_def map_filter_def)
  then have "tree_lookup (tree_of rs) ?path = (Some h, bind_params None [(nm, v)])"
    using one by (intro lookup_alone [OF run assms(3)]) auto
  then show "tree_lookup (tree_of rs) ?path = (Some h, Some [nm \<mapsto> v])" by (simp add: bind_params_Cons)
qed

lemma tree_lookup_no_boundary_witness:
  "Match user_pattern ''/users'' = None \<and>
   tree_lookup (tree_of [(user_pattern, 7 :: nat)]) ''/users'' = (Some 7, Some [''id'' \<mapsto> ''s''])"
  using tree_lookup_no_boundary [OF user_pattern_parses, of "7 :: nat" "[(user_pattern, 7)]" "[''user'']" "''id''" "''s''"]
  by (simp add: plain_literal_def plain_param_def)

lemma tree_lookup_Match_witness:
  "tree_lookup (tree_of [(user_pattern, 7 :: nat)]) ''/user/42'' = (Some 7, Some [''id'' \<mapsto> ''42''])"
proof -
  have "Match user_pattern ''/user/42'' = Some (Some [''id'' \<mapsto> ''42''])"
    by (simp add: go_defs has_prefix_def)
  from tree_lookup_Match [OF user_pattern_parses _ _ this, of "7 :: nat" "[(user_pattern, 7)]"] show ?thesis
    by (simp add: has_prefix_def)
qed

lemma tree_lookup_sound_witness:
  "\<exists>p bs. (p, 7 :: nat) \<in> set [(user_pattern, 7)] \<and>
     route_run (fst (pattern_key p)) (snd (pattern_key p)) ''/user/42'' = Some bs \<and>
     Some [''id'' \<mapsto> ''42''] = bind_params None bs"
proof -
  have "tree_lookup (tree_of [(user_pattern, 7 :: nat)]) ''/user/42'' = (Some 7, Some [''id'' \<mapsto> ''42''])"
    by (simp add: tree_eval go_defs has_prefix_def)
  from tree_lookup_sound [OF _ this] show ?thesis by auto
qed

end
