(* ===== verification/Mux.thy ===== *)
theory Mux
  imports Handler RouteLookup "HOL-Library.Char_ord" "HOL-Library.List_Lexorder"
begin

text \<open>
  The router of a server, \<open>routing/mux.go\<close>, and the two front doors that split gRPC from the rest,
  \<open>routing/server.go\<close> and \<open>runtime/handler_router.go\<close>.

  The two maps of the mux are association lists: what is stored under a key is \<open>map_of\<close>, and the
  order of the list is one order in which \<open>range\<close> may visit the map. An operation registered twice
  in one service (the same pointer) is out of the model: each operation is a value of its own.
\<close>

type_synonym ('c, 'd) http_handler = "('c, 'd) HttpRequest \<Rightarrow> 'd conn_state \<Rightarrow> 'd conn_state"

record ('c, 'm, 'd) Mux =
  mux_codec :: "codec option"
  mux_interceptors :: "('c, 'm, 'd) UnaryInterceptor list"
  mux_streamInterceptors :: "('c, 'm, 'd, 'd conn_state) StreamInterceptor list"
  mux_notFound :: "('c, 'd) http_handler option"
  mux_exact :: "(string \<times> (string \<times> ('c, 'm, 'd) Handler) list) list"
  mux_wildcard :: "(string \<times> ('c, 'm, 'd) Handler routeNode) list"

definition WithMuxCodec where "WithMuxCodec codec m = m\<lparr>mux_codec := codec\<rparr>"

definition WithMuxUnaryInterceptors where
  "WithMuxUnaryInterceptors is m = m\<lparr>mux_interceptors := mux_interceptors m @ is\<rparr>"

definition WithMuxStreamInterceptors where
  "WithMuxStreamInterceptors is m = m\<lparr>mux_streamInterceptors := mux_streamInterceptors m @ is\<rparr>"

definition WithNotFound where "WithNotFound h m = m\<lparr>mux_notFound := h\<rparr>"

definition NewMux :: "(('c, 'm, 'd) Mux \<Rightarrow> ('c, 'm, 'd) Mux) list \<Rightarrow> ('c, 'm, 'd) Mux" where
  "NewMux opts =
     fold (\<lambda>opt m. opt m) opts
       \<lparr>mux_codec = Some JSONCodec, mux_interceptors = [], mux_streamInterceptors = [],
        mux_notFound = None, mux_exact = [], mux_wildcard = []\<rparr>"

section \<open>Registration\<close>

definition insert_wildcard ::
    "string \<Rightarrow> Pattern \<Rightarrow> ('c, 'm, 'd) Handler \<Rightarrow> ('c, 'm, 'd) Mux \<Rightarrow> ('c, 'm, 'd) Mux" where
  "insert_wildcard method pattern h m =
     (let tree = (case map_of (mux_wildcard m) method of None \<Rightarrow> newRouteTree | Some t \<Rightarrow> t)
      in m\<lparr>mux_wildcard := alist_put method (tree_insert pattern h tree) (mux_wildcard m)\<rparr>)"

definition insert_exact ::
    "string \<Rightarrow> string \<Rightarrow> ('c, 'm, 'd) Handler \<Rightarrow> ('c, 'm, 'd) Mux \<Rightarrow> ('c, 'm, 'd) Mux" where
  "insert_exact method path h m =
     (let byPath = (case map_of (mux_exact m) method of None \<Rightarrow> [] | Some b \<Rightarrow> b);
          byPath = (if map_of byPath path = None then alist_put path h byPath else byPath)
      in m\<lparr>mux_exact := alist_put method byPath (mux_exact m)\<rparr>)"

definition route_method :: "('c, 'm, 'd, 's) Operation \<Rightarrow> string" where
  \<comment> \<open>a WebSocket handshake is a GET request\<close>
  "route_method e = (if op_streamType e = StreamTypeBidi then ''GET'' else op_Method e)"

fun register_ops ::
    "string \<Rightarrow> string \<Rightarrow> ('c, 'm, 'd) Mux \<Rightarrow> ('c, 'm, 'd, 'd conn_state) Operation list
     \<Rightarrow> pattern_error option \<times> ('c, 'm, 'd) Mux \<times> ('c, 'm, 'd, 'd conn_state) Operation list" where
  "register_ops pfx nm m [] = (None, m, [])"
| "register_ops pfx nm m (e # es) =
     (let path = pfx @ op_Path e;
          e = PrepareOperation e nm (mux_codec m) (mux_interceptors m) (mux_streamInterceptors m) path
      in case ParsePattern path of
           Inl err \<Rightarrow> (Some err, m, e # es)
         | Inr pattern \<Rightarrow>
             (let h = NewHandler e;
                  method = route_method e;
                  m = (if contains_byte path CHR ''{'' then insert_wildcard method pattern h m
                       else insert_exact method path h m);
                  (err, m, es) = register_ops pfx nm m es
              in (err, m, e # es)))"

definition Register ::
    "('c, 'm, 'd, 'd conn_state) Service \<Rightarrow> ('c, 'm, 'd) Mux
     \<Rightarrow> pattern_error option \<times> ('c, 'm, 'd) Mux \<times> ('c, 'm, 'd, 'd conn_state) Service" where
  \<comment> \<open>with the service as it is left: its operations are changed in place\<close>
  "Register svc m =
     (let (err, m, es) = register_ops (svc_Prefix svc) (svc_Name svc) m (svc_operations svc)
      in (err, m, svc\<lparr>svc_operations := es\<rparr>))"

section \<open>Dispatch\<close>

definition pathExists :: "('c, 'm, 'd) Mux \<Rightarrow> string \<Rightarrow> bool" where
  "pathExists m path =
     (list_ex (\<lambda>(_, byPath). map_of byPath path \<noteq> None) (mux_exact m) \<or>
      list_ex (\<lambda>(_, tree). fst (tree_lookup tree path) \<noteq> None) (mux_wildcard m))"

definition add_method :: "bool \<Rightarrow> string \<Rightarrow> string list \<Rightarrow> string list" where
  \<comment> \<open>\<open>seen\<close> holds just the methods listed so far\<close>
  "add_method ok method methods = (if ok \<and> method \<notin> set methods then methods @ [method] else methods)"

definition allowedMethods :: "('c, 'm, 'd) Mux \<Rightarrow> string \<Rightarrow> string" where
  "allowedMethods m path =
     (let methods = fold (\<lambda>(method, byPath). add_method (map_of byPath path \<noteq> None) method) (mux_exact m) [];
          methods = fold (\<lambda>(method, tree). add_method (fst (tree_lookup tree path) \<noteq> None) method)
                      (mux_wildcard m) methods
      in join_with '', '' (sort methods))"

definition header_del :: "header \<Rightarrow> string \<Rightarrow> header" where
  "header_del h k = filter (\<lambda>(k', _). k' \<noteq> canonical_key k) h"

definition http_Error :: "string \<Rightarrow> int \<Rightarrow> 'd writer \<Rightarrow> 'd writer" where
  \<comment> \<open>\<open>http.Error\<close>\<close>
  "http_Error text st w =
     snd (Write (text @ [CHR 0x0A]) (WriteHeader st (update_header (\<lambda>h.
       header_set (header_set (header_del h ''Content-Length'') HeaderContentType ''text/plain; charset=utf-8'')
         ''X-Content-Type-Options'' ''nosniff'') w)))"

definition mux_find :: "('c, 'm, 'd) Mux \<Rightarrow> string \<Rightarrow> string \<Rightarrow> (('c, 'm, 'd) Handler \<times> params) option" where
  \<comment> \<open>the exact route of the method, else the radix tree of the method\<close>
  "mux_find m method path =
     (case Option.bind (map_of (mux_exact m) method) (\<lambda>byPath. map_of byPath path) of
        Some h \<Rightarrow> Some (h, None)
      | None \<Rightarrow>
          (case map_of (mux_wildcard m) method of
             None \<Rightarrow> None
           | Some tree \<Rightarrow>
               (case tree_lookup tree path of (Some h, params) \<Rightarrow> Some (h, params) | (None, _) \<Rightarrow> None)))"

definition mux_ServeHTTP :: "('m, 'd) env \<Rightarrow> ('c, 'm, 'd) Mux \<Rightarrow> ('c, 'd) http_handler" where
  "mux_ServeHTTP ev m r s =
     (case mux_find m (rq_Method r) (rq_Path r) of
        Some (h, params) \<Rightarrow> ServeHTTPWithParams ev h r params s
      | None \<Rightarrow>
          if pathExists m (rq_Path r) then
            (let allow = allowedMethods m (rq_Path r)
             in on_writer (\<lambda>w. http_Error ''Method Not Allowed'' 405
                  (update_header (\<lambda>h. header_set h ''Allow'' allow) w)) s)
          else
            (case mux_notFound m of
               Some h \<Rightarrow> h r s
             | None \<Rightarrow> on_writer (http_Error ''404 page not found'' 404) s))"

section \<open>The front door\<close>

type_synonym ('c, 'm, 'd, 'g) grpc_factory =
  "('c, 'm, 'd) UnaryInterceptor list \<Rightarrow> ('c, 'm, 'd, 'd conn_state) StreamInterceptor list
   \<Rightarrow> ('c, 'd) http_handler option \<times> 'g option"

record ('c, 'm, 'd, 'g) Server =
  srv_mux :: "('c, 'm, 'd) Mux"
  srv_grpcHandler :: "('c, 'd) http_handler option"
  srv_grpcRegistrar :: "'g option"
  srv_grpcInit :: "('c, 'm, 'd, 'g) grpc_factory option"
  srv_disableGRPC :: bool
  srv_unaryChains :: "('c, 'm, 'd) UnaryInterceptor list"
  srv_streamChains :: "('c, 'm, 'd, 'd conn_state) StreamInterceptor list"

definition WithUnaryInterceptors where
  "WithUnaryInterceptors is s = s\<lparr>srv_unaryChains := srv_unaryChains s @ is\<rparr>"

definition WithStreamInterceptors where
  "WithStreamInterceptors is s = s\<lparr>srv_streamChains := srv_streamChains s @ is\<rparr>"

definition WithDisableGRPC where "WithDisableGRPC s = s\<lparr>srv_disableGRPC := True\<rparr>"

definition WithGRPCHandler where
  "WithGRPCHandler h reg s = s\<lparr>srv_grpcHandler := h, srv_grpcRegistrar := reg\<rparr>"

definition WithGRPCFactory where "WithGRPCFactory factory s = s\<lparr>srv_grpcInit := factory\<rparr>"

definition NewServer ::
    "('c, 'm, 'd, 'g) grpc_factory option \<Rightarrow> (('c, 'm, 'd, 'g) Server \<Rightarrow> ('c, 'm, 'd, 'g) Server) list
     \<Rightarrow> ('c, 'm, 'd, 'g) Server" where
  \<comment> \<open>the first argument is the variable \<open>DefaultGRPCFactory\<close>\<close>
  "NewServer DefaultGRPCFactory opts =
     (let s = fold (\<lambda>opt s. opt s) opts
            \<lparr>srv_mux = NewMux [], srv_grpcHandler = None, srv_grpcRegistrar = None, srv_grpcInit = None,
             srv_disableGRPC = False, srv_unaryChains = [], srv_streamChains = []\<rparr>;
          s = s\<lparr>srv_mux := NewMux [WithMuxUnaryInterceptors (srv_unaryChains s),
                                   WithMuxStreamInterceptors (srv_streamChains s)]\<rparr>
      in if \<not> srv_disableGRPC s \<and> srv_grpcHandler s = None then
           (let s = (if srv_grpcInit s = None then s\<lparr>srv_grpcInit := DefaultGRPCFactory\<rparr> else s)
            in case srv_grpcInit s of
                 None \<Rightarrow> s
               | Some init \<Rightarrow>
                   (let (h, reg) = init (srv_unaryChains s) (srv_streamChains s)
                    in s\<lparr>srv_grpcHandler := h, srv_grpcRegistrar := reg\<rparr>))
         else s)"

definition is_grpc :: "('c, 'd) HttpRequest \<Rightarrow> bool" where
  "is_grpc r = (rq_ProtoMajor r = 2 \<and> has_prefix (header_get (rq_Header r) HeaderContentType) ContentTypeGRPC)"

definition server_ServeHTTP :: "('m, 'd) env \<Rightarrow> ('c, 'm, 'd, 'g) Server \<Rightarrow> ('c, 'd) http_handler" where
  "server_ServeHTTP ev s r =
     (case srv_grpcHandler s of
        Some h \<Rightarrow> if is_grpc r then h r else mux_ServeHTTP ev (srv_mux s) r
      | None \<Rightarrow> mux_ServeHTTP ev (srv_mux s) r)"

record ('c, 'd) HandlerRouter =
  hr_grpc :: "('c, 'd) http_handler option"
  hr_mux :: "('c, 'd) http_handler"

definition WithGRPC where "WithGRPC h r = r\<lparr>hr_grpc := h\<rparr>"

definition NewHandlerRouter where
  "NewHandlerRouter mux opts = fold (\<lambda>opt r. opt r) opts \<lparr>hr_grpc = None, hr_mux = mux\<rparr>"

definition router_ServeHTTP :: "('c, 'd) HandlerRouter \<Rightarrow> ('c, 'd) http_handler" where
  "router_ServeHTTP rt r =
     (case hr_grpc rt of Some h \<Rightarrow> if is_grpc r then h r else hr_mux rt r | None \<Rightarrow> hr_mux rt r)"

end
