(* ===== verification/MuxSpec.thy ===== *)
theory MuxSpec
  imports Mux HandlerSpec
begin

text \<open>
  Properties of the mux: what registration leaves in its two maps, as a list of routes, and how
  dispatch and the \<open>Allow\<close> header follow from that list alone.
\<close>

section \<open>Methods that serve a path\<close>

definition serving_methods :: "('c, 'm, 'd) Mux \<Rightarrow> string \<Rightarrow> string set" where
  "serving_methods m path =
     {method. \<exists>byPath. (method, byPath) \<in> set (mux_exact m) \<and> map_of byPath path \<noteq> None} \<union>
     {method. \<exists>tree. (method, tree) \<in> set (mux_wildcard m) \<and> fst (tree_lookup tree path) \<noteq> None}"

lemma add_method_fold:
  "set (fold (\<lambda>(k, v). add_method (ok v) k) xs ms) = set ms \<union> {k. \<exists>v. (k, v) \<in> set xs \<and> ok v} \<and>
   (distinct ms \<longrightarrow> distinct (fold (\<lambda>(k, v). add_method (ok v) k) xs ms))"
proof (induction xs arbitrary: ms)
  case Nil
  show ?case by simp
next
  case (Cons x xs)
  obtain k v where x: "x = (k, v)" by (cases x)
  have "set (add_method (ok v) k ms) = set ms \<union> (if ok v then {k} else {})"
    "distinct ms \<longrightarrow> distinct (add_method (ok v) k ms)"
    by (auto simp: add_method_def)
  with Cons.IH [of "add_method (ok v) k ms"] show ?case
    by (auto simp: x split: if_splits)
qed

lemma pathExists_iff: "pathExists m path = (serving_methods m path \<noteq> {})"
  by (fastforce simp: pathExists_def serving_methods_def list_ex_iff)

lemma allowedMethods_set:
  "allowedMethods m path = join_with '', '' (sorted_list_of_set (serving_methods m path))"
proof -
  let ?ex = "fold (\<lambda>(method, byPath). add_method (map_of byPath path \<noteq> None) method) (mux_exact m) []"
  let ?ms = "fold (\<lambda>(method, tree). add_method (fst (tree_lookup tree path) \<noteq> None) method) (mux_wildcard m) ?ex"
  note ex = add_method_fold [of "\<lambda>byPath. map_of byPath path \<noteq> None" "mux_exact m" "[]"]
  note wild = add_method_fold [of "\<lambda>tree. fst (tree_lookup tree path) \<noteq> None" "mux_wildcard m" ?ex]
  have "set ?ms = serving_methods m path"
    unfolding wild [THEN conjunct1] ex [THEN conjunct1] serving_methods_def by simp
  moreover have "distinct ?ms"
    by (rule wild [THEN conjunct2, rule_format], rule ex [THEN conjunct2, rule_format], simp)
  ultimately have "sort ?ms = sorted_list_of_set (serving_methods m path)"
    by (metis sorted_list_of_set_sort_remdups distinct_remdups_id)
  then show ?thesis by (simp add: allowedMethods_def Let_def)
qed

text \<open>
  The \<open>Allow\<close> header lists exactly the methods that serve the path, each once and sorted, so it does
  not depend on the order in which the maps are visited; the 405 branch is taken only when there is one.
\<close>

theorem allowedMethods_sorted:
  "allowedMethods m path = join_with '', '' (sorted_list_of_set (serving_methods m path)) \<and>
   pathExists m path = (serving_methods m path \<noteq> {})"
  by (simp add: allowedMethods_set pathExists_iff)

section \<open>What registration leaves\<close>

type_synonym ('c, 'm, 'd) route = "string \<times> string \<times> Pattern \<times> ('c, 'm, 'd) Handler"

fun op_routes ::
    "string \<Rightarrow> string \<Rightarrow> ('c, 'm, 'd) Mux \<Rightarrow> ('c, 'm, 'd, 'd conn_state) Operation list \<Rightarrow> ('c, 'm, 'd) route list" where
  \<comment> \<open>the routes of a service, up to the first path that does not parse\<close>
  "op_routes pfx nm m [] = []"
| "op_routes pfx nm m (e # es) =
     (let path = pfx @ op_Path e;
          e = PrepareOperation e nm (mux_codec m) (mux_interceptors m) (mux_streamInterceptors m) path
      in case ParsePattern path of
           Inl _ \<Rightarrow> []
         | Inr pattern \<Rightarrow> (route_method e, path, pattern, NewHandler e) # op_routes pfx nm m es)"

definition exact_routes :: "('c, 'm, 'd) route list \<Rightarrow> string \<Rightarrow> (string \<times> ('c, 'm, 'd) Handler) list" where
  "exact_routes rs method = [(path, h). (mth, path, pat, h) \<leftarrow> rs, mth = method \<and> \<not> contains_byte path CHR ''{'']"

definition wildcard_routes :: "('c, 'm, 'd) route list \<Rightarrow> string \<Rightarrow> (Pattern \<times> ('c, 'm, 'd) Handler) list" where
  "wildcard_routes rs method = [(pat, h). (mth, path, pat, h) \<leftarrow> rs, mth = method \<and> contains_byte path CHR ''{'']"

definition exact_of :: "('c, 'm, 'd) Mux \<Rightarrow> string \<Rightarrow> string \<rightharpoonup> ('c, 'm, 'd) Handler" where
  "exact_of m method = (case map_of (mux_exact m) method of None \<Rightarrow> Map.empty | Some byPath \<Rightarrow> map_of byPath)"

definition holds :: "('c, 'm, 'd) route list \<Rightarrow> ('c, 'm, 'd) Mux \<Rightarrow> bool" where
  "holds rs m =
     (distinct (map fst (mux_exact m)) \<and> distinct (map fst (mux_wildcard m)) \<and>
      (\<forall>method. exact_of m method = map_of (exact_routes rs method)) \<and>
      (\<forall>method. map_of (mux_wildcard m) method =
        (if wildcard_routes rs method = [] then None else Some (tree_of (wildcard_routes rs method)))))"

lemma routes_append [simp]:
  "exact_routes (rs @ rs') method = exact_routes rs method @ exact_routes rs' method"
  "wildcard_routes (rs @ rs') method = wildcard_routes rs method @ wildcard_routes rs' method"
  "exact_routes [] method = []" "wildcard_routes [] method = []"
  by (simp_all add: exact_routes_def wildcard_routes_def)

lemma routes_single [simp]:
  "exact_routes [(mth, path, pat, h)] method = (if mth = method \<and> \<not> contains_byte path CHR ''{'' then [(path, h)] else [])"
  "wildcard_routes [(mth, path, pat, h)] method = (if mth = method \<and> contains_byte path CHR ''{'' then [(pat, h)] else [])"
  by (simp_all add: exact_routes_def wildcard_routes_def)

lemma tree_of_snoc: "tree_of (rs @ [(p, h)]) = tree_insert p h (tree_of rs)" "tree_of [] = newRouteTree"
  "tree_of [(p, h)] = tree_insert p h newRouteTree"
  by (simp_all add: tree_of_def)

lemma insert_wildcard_sel [simp]:
  "mux_exact (insert_wildcard method pat h m) = mux_exact m"
  "mux_codec (insert_wildcard method pat h m) = mux_codec m"
  "mux_interceptors (insert_wildcard method pat h m) = mux_interceptors m"
  "mux_streamInterceptors (insert_wildcard method pat h m) = mux_streamInterceptors m"
  "exact_of (insert_wildcard method pat h m) = exact_of m"
  by (simp_all add: insert_wildcard_def exact_of_def Let_def fun_eq_iff)

lemma insert_exact_sel [simp]:
  "mux_wildcard (insert_exact method path h m) = mux_wildcard m"
  "mux_codec (insert_exact method path h m) = mux_codec m"
  "mux_interceptors (insert_exact method path h m) = mux_interceptors m"
  "mux_streamInterceptors (insert_exact method path h m) = mux_streamInterceptors m"
  by (simp_all add: insert_exact_def Let_def)

lemma exact_of_insert_exact:
  "exact_of (insert_exact method path h m) method' =
     (if method' = method \<and> exact_of m method path = None then (exact_of m method)(path \<mapsto> h)
      else exact_of m method')"
  by (auto simp: insert_exact_def exact_of_def Let_def split: option.splits)

lemma holds_insert_wildcard:
  assumes "holds rs m" "contains_byte path CHR ''{''"
  shows "holds (rs @ [(method, path, pat, h)]) (insert_wildcard method pat h m)"
  using assms
  by (auto simp: holds_def insert_wildcard_def exact_of_def Let_def distinct_alist_put tree_of_snoc)

lemma holds_insert_exact:
  assumes "holds rs m" "\<not> contains_byte path CHR ''{''"
  shows "holds (rs @ [(method, path, pat, h)]) (insert_exact method path h m)"
proof -
  have "distinct (map fst (mux_exact (insert_exact method path h m)))"
    using assms(1) by (simp add: insert_exact_def Let_def distinct_alist_put holds_def)
  moreover have "exact_of (insert_exact method path h m) mth = map_of (exact_routes (rs @ [(method, path, pat, h)]) mth)" for mth
    using assms by (auto simp: holds_def exact_of_insert_exact map_add_def fun_eq_iff split: option.splits)
  ultimately show ?thesis using assms by (simp add: holds_def)
qed

definition same_settings :: "('c, 'm, 'd) Mux \<Rightarrow> ('c, 'm, 'd) Mux \<Rightarrow> bool" where
  "same_settings m m' =
     (mux_codec m' = mux_codec m \<and> mux_interceptors m' = mux_interceptors m \<and>
      mux_streamInterceptors m' = mux_streamInterceptors m \<and> mux_notFound m' = mux_notFound m)"

lemma same_settings_insert [simp]:
  "same_settings m (insert_wildcard method pat h m)" "same_settings m (insert_exact method path h m)"
  by (simp_all add: same_settings_def insert_wildcard_def insert_exact_def Let_def)

lemma same_settings_refl [simp]: "same_settings m m"
  by (simp add: same_settings_def)

lemma same_settings_trans: "same_settings m m' \<Longrightarrow> same_settings m' m'' \<Longrightarrow> same_settings m m''"
  by (simp add: same_settings_def)

lemma op_routes_settings: "same_settings m m' \<Longrightarrow> op_routes pfx nm m' es = op_routes pfx nm m es"
  by (induction es) (simp_all add: same_settings_def Let_def cong: sum.case_cong)

lemma register_ops_holds:
  assumes "register_ops pfx nm m es = (err, m', es')" "holds rs m"
  shows "holds (rs @ op_routes pfx nm m es) m' \<and> same_settings m m'"
  using assms
proof (induction es arbitrary: rs m err es')
  case Nil
  then show ?case by simp
next
  case (Cons e es)
  let ?path = "pfx @ op_Path e"
  let ?e = "PrepareOperation e nm (mux_codec m) (mux_interceptors m) (mux_streamInterceptors m) ?path"
  show ?case
  proof (cases "ParsePattern ?path")
    case (Inl e)
    with Cons.prems show ?thesis by (simp add: Let_def)
  next
    case (Inr pat)
    let ?m = "if contains_byte ?path CHR ''{'' then insert_wildcard (route_method ?e) pat (NewHandler ?e) m
      else insert_exact (route_method ?e) ?path (NewHandler ?e) m"
    let ?rs = "rs @ [(route_method ?e, ?path, pat, NewHandler ?e)]"
    obtain err' es'' where rest: "register_ops pfx nm ?m es = (err', m', es'')"
      using Cons.prems(1) Inr by (auto simp: Let_def split: prod.splits)
    have set: "same_settings m ?m" by simp
    have "holds ?rs ?m"
      using Cons.prems(2) holds_insert_wildcard holds_insert_exact by auto
    from Cons.IH [OF rest this] have "holds (?rs @ op_routes pfx nm m es) m'" "same_settings ?m m'"
      unfolding op_routes_settings [OF set] by blast+
    with Inr same_settings_trans [OF set] show ?thesis by (simp add: Let_def)
  qed
qed

definition mux_of :: "('c, 'm, 'd, 'd conn_state) Service list \<Rightarrow> ('c, 'm, 'd) Mux \<Rightarrow> ('c, 'm, 'd) Mux" where
  \<comment> \<open>the services registered one after the other, whether or not \<open>Register\<close> fails\<close>
  "mux_of svcs m = fold (\<lambda>svc m. fst (snd (Register svc m))) svcs m"

definition routes_of :: "('c, 'm, 'd, 'd conn_state) Service list \<Rightarrow> ('c, 'm, 'd) Mux \<Rightarrow> ('c, 'm, 'd) route list" where
  "routes_of svcs m = concat (map (\<lambda>svc. op_routes (svc_Prefix svc) (svc_Name svc) m (svc_operations svc)) svcs)"

definition empty_mux :: "('c, 'm, 'd) Mux \<Rightarrow> bool" where
  "empty_mux m = (mux_exact m = [] \<and> mux_wildcard m = [])"

lemma mux_of_holds_aux:
  "holds rs m \<Longrightarrow> holds (rs @ routes_of svcs m) (mux_of svcs m) \<and> same_settings m (mux_of svcs m)"
proof (induction svcs arbitrary: rs m)
  case Nil
  then show ?case by (simp add: mux_of_def routes_of_def)
next
  case (Cons svc svcs)
  obtain err m' es' where reg: "register_ops (svc_Prefix svc) (svc_Name svc) m (svc_operations svc) = (err, m', es')"
    by (metis prod_cases3)
  note step = register_ops_holds [OF reg Cons.prems]
  have "routes_of svcs m' = routes_of svcs m"
    using op_routes_settings [OF step [THEN conjunct2]] by (simp add: routes_of_def)
  moreover have "mux_of (svc # svcs) m = mux_of svcs m'"
    by (simp add: mux_of_def Register_def reg)
  ultimately show ?case
    using Cons.IH [OF step [THEN conjunct1]] same_settings_trans step by (auto simp: routes_of_def)
qed

lemma mux_of_holds: "empty_mux m \<Longrightarrow> holds (routes_of svcs m) (mux_of svcs m)"
  using mux_of_holds_aux [of "[]" m svcs] by (simp add: holds_def empty_mux_def exact_of_def)

lemma mux_of_settings: "empty_mux m \<Longrightarrow> same_settings m (mux_of svcs m)"
  using mux_of_holds_aux [of "[]" m svcs] by (simp add: holds_def empty_mux_def exact_of_def)

section \<open>Dispatch over the registered routes\<close>

fun route_serves :: "('c, 'm, 'd) route \<Rightarrow> string \<Rightarrow> string \<Rightarrow> bool" where
  "route_serves (method, template, pat, h) method' path =
     (method' = method \<and> (if contains_byte template CHR ''{'' then serves pat path else template = path))"

lemma exact_routes_mem: "(p, h) \<in> set (exact_routes rs method) \<longleftrightarrow>
    (\<exists>pat. (method, p, pat, h) \<in> set rs \<and> \<not> contains_byte p CHR ''{'')"
  by (force simp: exact_routes_def)

lemma wildcard_routes_mem: "(pat, h) \<in> set (wildcard_routes rs method) \<longleftrightarrow>
    (\<exists>p. (method, p, pat, h) \<in> set rs \<and> contains_byte p CHR ''{'')"
  by (force simp: wildcard_routes_def)

lemma exact_served:
  assumes "holds rs m"
  shows "exact_of m mtd path \<noteq> None \<longleftrightarrow>
    (\<exists>pat h. (mtd, path, pat, h) \<in> set rs \<and> \<not> contains_byte path CHR ''{'')"
proof -
  have "exact_of m mtd path \<noteq> None \<longleftrightarrow> path \<in> fst ` set (exact_routes rs mtd)"
    using assms by (simp add: holds_def map_of_eq_None_iff)
  then show ?thesis using exact_routes_mem [of path _ rs mtd] by force
qed

definition wildcard_of :: "('c, 'm, 'd) Mux \<Rightarrow> string \<Rightarrow> string \<Rightarrow> ('c, 'm, 'd) Handler option \<times> params" where
  "wildcard_of m mtd path =
     (case map_of (mux_wildcard m) mtd of None \<Rightarrow> (None, None) | Some tree \<Rightarrow> tree_lookup tree path)"

lemma wildcard_served:
  assumes "holds rs m"
  shows "fst (wildcard_of m mtd path) \<noteq> None \<longleftrightarrow>
    (\<exists>template pat h. (mtd, template, pat, h) \<in> set rs \<and> contains_byte template CHR ''{'' \<and> serves pat path)"
proof -
  have "fst (wildcard_of m mtd path) \<noteq> None \<longleftrightarrow> list_ex (\<lambda>(p, h). serves p path) (wildcard_routes rs mtd)"
    using assms lookup_complete [of "wildcard_routes rs mtd" path]
    by (simp add: holds_def wildcard_of_def)
  also have "\<dots> \<longleftrightarrow> (\<exists>pat h. (pat, h) \<in> set (wildcard_routes rs mtd) \<and> serves pat path)"
    by (auto simp: list_ex_iff)
  finally show ?thesis unfolding wildcard_routes_mem by blast
qed

lemma mux_find_cases:
  "mux_find m mtd path =
     (case exact_of m mtd path of
        Some h \<Rightarrow> Some (h, None)
      | None \<Rightarrow> map_option (\<lambda>h. (h, snd (wildcard_of m mtd path))) (fst (wildcard_of m mtd path)))"
  by (auto simp: mux_find_def exact_of_def wildcard_of_def split: option.splits prod.splits)

lemma mux_find_iff:
  "holds rs m \<Longrightarrow> mux_find m mtd path \<noteq> None \<longleftrightarrow> (\<exists>rt \<in> set rs. route_serves rt mtd path)"
proof -
  assume rs: "holds rs m"
  have "mux_find m mtd path \<noteq> None \<longleftrightarrow> exact_of m mtd path \<noteq> None \<or> fst (wildcard_of m mtd path) \<noteq> None"
    by (auto simp: mux_find_cases split: option.splits)
  also have "\<dots> \<longleftrightarrow> (\<exists>rt \<in> set rs. route_serves rt mtd path)"
    unfolding exact_served [OF rs] wildcard_served [OF rs] by (force split: if_splits)
  finally show ?thesis .
qed

lemma lookup_registered:
  assumes "tree_lookup (tree_of rs) path = (Some h, ps)"
  shows "\<exists>p. (p, h) \<in> set rs \<and> serves p path"
proof -
  obtain bs where "first_run (\<lambda>st v. route_run st v path) (node_routes (tree_of rs)) = Some (h, bs)"
    using tree_lookup_found [of path rs] assms
    by (cases "first_run (\<lambda>st v. route_run st v path) (node_routes (tree_of rs))") (auto simp: found_def)
  from first_run_map_of [OF this] obtain st v where
    "map_of (keyed rs) (st, v) = Some h" "route_run st v path = Some bs" by (auto simp: routes_of_tree)
  moreover from map_of_SomeD [OF this(1)] obtain p where "(p, h) \<in> set rs" "pattern_key p = (st, v)" by auto
  ultimately show ?thesis by (intro exI [of _ p]) (simp add: serves_def)
qed

lemma mux_find_route:
  assumes rs: "holds rs m" and "mux_find m mtd path = Some (h, params)"
  shows "\<exists>template pat. (mtd, template, pat, h) \<in> set rs \<and> route_serves (mtd, template, pat, h) mtd path"
proof (cases "exact_of m mtd path")
  case (Some h')
  then have "map_of (exact_routes rs mtd) path = Some h"
    using assms by (simp add: mux_find_cases holds_def)
  from map_of_SomeD [OF this] show ?thesis unfolding exact_routes_mem by fastforce
next
  case None
  with assms(2) obtain tree where tree: "map_of (mux_wildcard m) mtd = Some tree"
      "tree_lookup tree path = (Some h, params)"
    by (cases "map_of (mux_wildcard m) mtd") (auto simp: mux_find_cases wildcard_of_def prod_eq_iff)
  with rs have "tree = tree_of (wildcard_routes rs mtd)" by (auto simp: holds_def split: if_splits)
  from lookup_registered [OF tree(2) [unfolded this]] obtain pat where "(pat, h) \<in> set (wildcard_routes rs mtd)" "serves pat path"
    by blast
  then show ?thesis unfolding wildcard_routes_mem by fastforce
qed

lemma serving_methods_find:
  "holds rs m \<Longrightarrow> serving_methods m path = {mtd. mux_find m mtd path \<noteq> None}"
proof -
  assume rs: "holds rs m"
  have "(\<exists>byPath. (mtd, byPath) \<in> set (mux_exact m) \<and> map_of byPath path \<noteq> None) \<longleftrightarrow>
      exact_of m mtd path \<noteq> None" for mtd
  proof -
    have "(mtd, bp) \<in> set (mux_exact m) \<longleftrightarrow> map_of (mux_exact m) mtd = Some bp" for bp
      using rs map_of_eq_Some_iff [of "mux_exact m" mtd bp] by (simp add: holds_def)
    then show ?thesis by (simp add: exact_of_def split: option.splits)
  qed
  moreover have "(\<exists>tree. (mtd, tree) \<in> set (mux_wildcard m) \<and> fst (tree_lookup tree path) \<noteq> None) \<longleftrightarrow>
      fst (wildcard_of m mtd path) \<noteq> None" for mtd
  proof -
    have "(mtd, tr) \<in> set (mux_wildcard m) \<longleftrightarrow> map_of (mux_wildcard m) mtd = Some tr" for tr
      using rs map_of_eq_Some_iff [of "mux_wildcard m" mtd tr] by (simp add: holds_def)
    then show ?thesis by (simp add: wildcard_of_def split: option.splits)
  qed
  moreover have "mux_find m mtd path \<noteq> None \<longleftrightarrow>
      exact_of m mtd path \<noteq> None \<or> fst (wildcard_of m mtd path) \<noteq> None" for mtd
    by (auto simp: mux_find_cases split: option.splits)
  ultimately show ?thesis unfolding serving_methods_def by (simp add: Un_def)
qed

lemma mux_unserved:
  assumes "holds rs m" "mux_find m (rq_Method r) (rq_Path r) = None"
  shows "mux_ServeHTTP ev m r s =
    (if \<exists>method. \<exists>rt \<in> set rs. route_serves rt method (rq_Path r)
     then on_writer (\<lambda>w. http_Error ''Method Not Allowed'' 405
       (update_header (\<lambda>h. header_set h ''Allow'' (join_with '', '' (sorted_list_of_set
         {method. \<exists>rt \<in> set rs. route_serves rt method (rq_Path r)}))) w)) s
     else case mux_notFound m of Some h \<Rightarrow> h r s | None \<Rightarrow> on_writer (http_Error ''404 page not found'' 404) s)"
proof -
  have methods: "serving_methods m (rq_Path r) = {method. \<exists>rt \<in> set rs. route_serves rt method (rq_Path r)}"
    unfolding serving_methods_find [OF assms(1)] mux_find_iff [OF assms(1)] ..
  then have "pathExists m (rq_Path r) = (\<exists>method. \<exists>rt \<in> set rs. route_serves rt method (rq_Path r))"
    unfolding pathExists_iff by blast
  then show ?thesis using assms(2) by (simp add: mux_ServeHTTP_def allowedMethods_set methods)
qed

text \<open>
  C1. What a mux does with a request depends only on the routes its services registered. If one of the
  request's method serves the path, the request goes to the handler of such a route; if only routes of other methods do,
  it is answered 405 with their methods, each once and sorted; otherwise it is not found.
\<close>

theorem mux_dispatch:
  assumes "empty_mux m\<^sub>0" "m = mux_of svcs m\<^sub>0" "rs = routes_of svcs m\<^sub>0"
  shows "if \<exists>rt \<in> set rs. route_serves rt (rq_Method r) (rq_Path r)
    then \<exists>template pat h params. (rq_Method r, template, pat, h) \<in> set rs \<and>
      route_serves (rq_Method r, template, pat, h) (rq_Method r) (rq_Path r) \<and>
      mux_ServeHTTP ev m r s = ServeHTTPWithParams ev h r params s
    else if \<exists>method. \<exists>rt \<in> set rs. route_serves rt method (rq_Path r)
    then mux_ServeHTTP ev m r s = on_writer (\<lambda>w. http_Error ''Method Not Allowed'' 405
      (update_header (\<lambda>h. header_set h ''Allow'' (join_with '', '' (sorted_list_of_set
        {method. \<exists>rt \<in> set rs. route_serves rt method (rq_Path r)}))) w)) s
    else mux_ServeHTTP ev m r s =
      (case mux_notFound m\<^sub>0 of Some h \<Rightarrow> h r s | None \<Rightarrow> on_writer (http_Error ''404 page not found'' 404) s)"
proof -
  have rs: "holds rs m" using mux_of_holds [OF assms(1)] assms by simp
  have notFound: "mux_notFound m = mux_notFound m\<^sub>0"
    using mux_of_settings [OF assms(1)] assms(2) by (simp add: same_settings_def)
  show ?thesis
  proof (cases "mux_find m (rq_Method r) (rq_Path r)")
    case None
    then have none: "\<not> (\<exists>rt \<in> set rs. route_serves rt (rq_Method r) (rq_Path r))"
      using mux_find_iff [OF rs] by blast
    show ?thesis unfolding if_not_P [OF none] mux_unserved [OF rs None] notFound by simp
  next
    case (Some hp)
    obtain h params where hp: "hp = (h, params)" by (cases hp)
    from mux_find_route [OF rs Some [unfolded hp]] obtain template pat where rt:
      "(rq_Method r, template, pat, h) \<in> set rs"
      "route_serves (rq_Method r, template, pat, h) (rq_Method r) (rq_Path r)" by blast
    then have "\<exists>rt \<in> set rs. route_serves rt (rq_Method r) (rq_Path r)" by blast
    moreover have "mux_ServeHTTP ev m r s = ServeHTTPWithParams ev h r params s"
      using Some hp by (simp add: mux_ServeHTTP_def)
    ultimately show ?thesis using rt by (subst if_P) blast+
  qed
qed

definition text_service :: "(unit, unit, string, string conn_state) Service" where
  "text_service = NewService ''T'' [(guarded [])\<lparr>op_Method := ''GET'', op_Path := ''/a''\<rparr>]"

lemma parse_a: "ParsePattern ''/a'' = Inr \<lparr>raw = ''/a'', segments = [\<lparr>seg_literal = ''a'', seg_param = None\<rparr>], pat_verb = []\<rparr>"
  by code_simp

lemma mux_dispatch_witness:
  "mux_ServeHTTP text_env (mux_of [text_service] (NewMux [])) (text_request\<lparr>rq_Path := ''/a''\<rparr>) text_conn =
     on_writer (\<lambda>w. http_Error ''Method Not Allowed'' 405
       (update_header (\<lambda>h. header_set h ''Allow'' ''GET'') w)) text_conn"
proof -
  obtain pat h where rs: "routes_of [text_service] (NewMux []) = [(''GET'', ''/a'', pat, h)]"
    using parse_a
    by (simp add: routes_of_def text_service_def NewService_def route_method_def PrepareOperation_fields
        guarded_def Let_def)
  have "\<not> contains_byte ''/a'' CHR ''{''" by code_simp
  with mux_dispatch [of "NewMux []" "mux_of [text_service] (NewMux [])" "[text_service]" _
      "text_request\<lparr>rq_Path := ''/a''\<rparr>" text_env text_conn, OF _ refl rs [symmetric]]
  show ?thesis by (simp add: NewMux_def empty_mux_def text_request_def)
qed

text \<open>
  A path registered without parameters takes precedence over every template that serves it, and of
  several registrations of the same method and path the first one stays; a duplicate is not an error.
\<close>

theorem mux_exact_first:
  assumes "empty_mux m\<^sub>0" "map_of (exact_routes (routes_of svcs m\<^sub>0) (rq_Method r)) (rq_Path r) = Some h"
  shows "mux_ServeHTTP ev (mux_of svcs m\<^sub>0) r s = ServeHTTPWithParams ev h r None s"
proof -
  have "exact_of (mux_of svcs m\<^sub>0) (rq_Method r) (rq_Path r) = Some h"
    using mux_of_holds [OF assms(1), of svcs] assms(2) by (simp add: holds_def)
  then show ?thesis by (simp add: mux_ServeHTTP_def mux_find_cases)
qed

lemma mux_exact_first_witness:
  "\<exists>h. mux_ServeHTTP text_env (mux_of [text_service, text_service] (NewMux []))
       (text_request\<lparr>rq_Method := ''GET'', rq_Path := ''/a''\<rparr>) text_conn =
     ServeHTTPWithParams text_env h (text_request\<lparr>rq_Method := ''GET'', rq_Path := ''/a''\<rparr>) None text_conn"
proof -
  have "\<not> contains_byte ''/a'' CHR ''{''" by code_simp
  then obtain h where "map_of (exact_routes (routes_of [text_service, text_service] (NewMux [])) ''GET'') ''/a'' = Some h"
    using parse_a
    by (simp add: routes_of_def text_service_def NewService_def route_method_def PrepareOperation_fields
        guarded_def Let_def exact_routes_def)
  then show ?thesis
    using mux_exact_first [of "NewMux []" "[text_service, text_service]"
        "text_request\<lparr>rq_Method := ''GET'', rq_Path := ''/a''\<rparr>" h text_env text_conn]
    by (auto simp: NewMux_def empty_mux_def)
qed

end
