(* ===== verification/Jwt.thy ===== *)
theory Jwt
  imports Middleware
begin

text \<open>
  JWT authentication, \<open>auth/jwt\<close>: claims, token extraction, the validator and the issuer. Parsing and
  signing of tokens is the package \<open>golang-jwt\<close>: the record \<open>jwtlib\<close> holds what the sources call of
  it, over keys of type \<open>'k\<close>. A claim value is what \<open>encoding/json\<close> gives for \<open>any\<close>.
\<close>

datatype json_value = JString string | JArray "json_value list" | JOther

record Claims =
  Issuer :: string
  Subject :: string
  Audience :: "string list"
  Custom :: "string \<rightharpoonup> json_value"

definition empty_claims :: Claims where
  "empty_claims = \<lparr>Issuer = [], Subject = [], Audience = [], Custom = Map.empty\<rparr>"

definition isRegisteredClaim :: "string \<Rightarrow> bool" where
  "isRegisteredClaim nm =
     (nm \<in> {''exp'', ''nbf'', ''iat'', ''iss'', ''aud'', ''sub'', ''jti''})"

fun custom_claims :: "(string \<times> (string + json_value)) list \<Rightarrow> (string \<rightharpoonup> json_value) \<Rightarrow> string + (string \<rightharpoonup> json_value)" where
  "custom_claims [] c = Inr c"
| "custom_claims ((k, v) # raw) c =
     (if isRegisteredClaim k then custom_claims raw c
      else case v of Inl err \<Rightarrow> Inl err | Inr val \<Rightarrow> custom_claims raw (c(k \<mapsto> val)))"

definition Claims_UnmarshalJSON ::
    "string + (string \<times> string \<times> string list) \<Rightarrow> string + (string \<times> (string + json_value)) list \<Rightarrow> string + Claims" where
  \<comment> \<open>from what \<open>json.Unmarshal\<close> makes of the payload: the registered claims (issuer, subject,
      audience), and the object with each value decoded or failing\<close>
  "Claims_UnmarshalJSON registered raw =
     (case registered of
        Inl err \<Rightarrow> Inl err
      | Inr (iss, sub, aud) \<Rightarrow>
          (case raw of
             Inl err \<Rightarrow> Inl err
           | Inr raw \<Rightarrow>
               (case custom_claims raw Map.empty of
                  Inl err \<Rightarrow> Inl err
                | Inr c \<Rightarrow> Inr \<lparr>Issuer = iss, Subject = sub, Audience = aud, Custom = c\<rparr>)))"

definition ClaimsFromContext :: "(Claims, 'm) Ctx \<Rightarrow> Claims option" where
  "ClaimsFromContext ctx = claimsValue (fst ctx)"

definition WithClaims :: "Claims \<Rightarrow> (Claims, 'm) Ctx \<Rightarrow> (Claims, 'm) Ctx" where
  "WithClaims claims = apfst (\<lambda>ctx. ctx\<lparr>claimsValue := Some claims\<rparr>)"

fun json_strings :: "json_value list \<Rightarrow> string list" where
  "json_strings [] = []"
| "json_strings (JString s # vs) = s # json_strings vs"
| "json_strings (_ # vs) = json_strings vs"

definition Roles :: "Claims \<Rightarrow> string list" where
  "Roles c =
     (case Custom c ''role'' of
        Some (JString s) \<Rightarrow> [s]
      | Some (JArray vs) \<Rightarrow> json_strings vs
      | _ \<Rightarrow> [])"

definition HasRole :: "Claims \<Rightarrow> string \<Rightarrow> bool" where
  "HasRole c role = list_ex (\<lambda>r. r = role) (Roles c)"

section \<open>Tokens\<close>

type_synonym 'm TokenExtractor = "(Claims, 'm) Ctx \<Rightarrow> string option"

definition DefaultTokenExtractor :: "'m TokenExtractor" where
  "DefaultTokenExtractor ctx =
     (let h = header_get (Ctx_Header ctx) ''Authorization''
      in if length h > 7 \<and> take 7 h = ''Bearer '' then Some (drop 7 h)
         else
           let t = query_get (Ctx_Query ctx) ''token''
           in if t \<noteq> [] then Some t
              else case Ctx_Cookie ctx ''session'' of
                     Some c \<Rightarrow> if c_value c \<noteq> [] then Some (c_value c) else None
                   | None \<Rightarrow> None)"

datatype signing_method = HS256 | RS256 | ES256 | OtherMethod string

datatype 'k jwt_key = HMACSecret string | RSAPublicKey 'k | ECDSAPublicKey 'k | OtherKey 'k

record ('k, 'm) JWTValidator =
  v_key :: "'k jwt_key"
  v_method :: signing_method
  v_issuer :: string
  v_audience :: string
  v_leeway :: int
  v_extract :: "'m TokenExtractor"

definition WithIssuer where "WithIssuer iss v = v\<lparr>v_issuer := iss\<rparr>"
definition WithAudience where "WithAudience aud v = v\<lparr>v_audience := aud\<rparr>"
definition WithLeeway where "WithLeeway d v = v\<lparr>v_leeway := d\<rparr>"
definition WithTokenExtractor where "WithTokenExtractor f v = v\<lparr>v_extract := f\<rparr>"

definition NewJWTValidator ::
    "string \<Rightarrow> (('k, 'm) JWTValidator \<Rightarrow> ('k, 'm) JWTValidator) list \<Rightarrow> string + ('k, 'm) JWTValidator" where
  "NewJWTValidator secret opts =
     (if secret = [] then Inl ''auth: empty HMAC secret''
      else Inr (fold (\<lambda>opt v. opt v) opts
        \<lparr>v_key = HMACSecret secret, v_method = HS256, v_issuer = [], v_audience = [], v_leeway = 0,
         v_extract = DefaultTokenExtractor\<rparr>))"

definition key_method :: "'k jwt_key \<Rightarrow> signing_method option" where
  "key_method key = (case key of RSAPublicKey _ \<Rightarrow> Some RS256 | ECDSAPublicKey _ \<Rightarrow> Some ES256 | _ \<Rightarrow> None)"

definition NewJWTValidatorWithKey ::
    "'k jwt_key \<Rightarrow> (('k, 'm) JWTValidator \<Rightarrow> ('k, 'm) JWTValidator) list \<Rightarrow> string + ('k, 'm) JWTValidator" where
  "NewJWTValidatorWithKey key opts =
     (case key_method key of
        None \<Rightarrow> Inl ''auth: unsupported key type''
      | Some method \<Rightarrow> Inr (fold (\<lambda>opt v. opt v) opts
          \<lparr>v_key = key, v_method = method, v_issuer = [], v_audience = [], v_leeway = 0,
           v_extract = DefaultTokenExtractor\<rparr>))"

text \<open>
  \<open>ParseWithClaims\<close> calls back for the key with the token's signing method; it gets the methods the
  caller accepts and the leeway. Its result is an error, or the claims with the flag \<open>Valid\<close>.
\<close>

record 'k jwtlib =
  ParseWithClaims :: "(signing_method \<Rightarrow> string + 'k jwt_key) \<Rightarrow> signing_method list \<Rightarrow> int \<Rightarrow> string
    \<Rightarrow> string + (Claims \<times> bool)"
  SignedString :: "signing_method \<Rightarrow> (string \<rightharpoonup> json_value) \<Rightarrow> string \<Rightarrow> string + string"

definition audienceContains :: "string list \<Rightarrow> string \<Rightarrow> bool" where
  "audienceContains aud want = list_ex (\<lambda>a. a = want) aud"

definition validator_key :: "('k, 'm) JWTValidator \<Rightarrow> signing_method \<Rightarrow> string + 'k jwt_key" where
  \<comment> \<open>the callback\<close>
  "validator_key v method =
     (if method \<noteq> v_method v then Inl ''auth: unexpected signing method'' else Inr (v_key v))"

definition Validate :: "'k jwtlib \<Rightarrow> ('k, 'm) JWTValidator \<Rightarrow> string \<Rightarrow> string + Claims" where
  "Validate L v token =
     (case ParseWithClaims L (validator_key v) [v_method v] (v_leeway v) token of
        Inl err \<Rightarrow> Inl err
      | Inr (claims, valid) \<Rightarrow>
          if \<not> valid then Inl ''auth: invalid token''
          else if v_issuer v \<noteq> [] \<and> Issuer claims \<noteq> v_issuer v then Inl ''auth: issuer does not match''
          else if v_audience v \<noteq> [] \<and> \<not> audienceContains (Audience claims) (v_audience v) then
            Inl ''auth: audience does not contain''
          else Inr claims)"

definition ExtractToken :: "('k, 'm) JWTValidator \<Rightarrow> (Claims, 'm) Ctx \<Rightarrow> string option" where
  "ExtractToken v ctx = v_extract v ctx"

section \<open>Issuing\<close>

record issuer =
  i_key :: string
  i_method :: signing_method
  i_issuer :: string

definition WithIssuerName :: "string \<Rightarrow> issuer \<Rightarrow> issuer" where
  "WithIssuerName nm i = i\<lparr>i_issuer := nm\<rparr>"

definition NewIssuer :: "string \<Rightarrow> (issuer \<Rightarrow> issuer) list \<Rightarrow> issuer" where
  "NewIssuer key opts = fold (\<lambda>opt i. opt i) opts \<lparr>i_key = key, i_method = HS256, i_issuer = []\<rparr>"

definition issue_claims :: "issuer \<Rightarrow> json_value \<Rightarrow> json_value \<Rightarrow> string \<Rightarrow> (string \<times> json_value) list
    \<Rightarrow> string \<rightharpoonup> json_value" where
  \<comment> \<open>with the values of \<open>exp\<close> and \<open>iat\<close>; the custom claims are written last\<close>
  "issue_claims i exp iat subject custom =
     (let claims = [''sub'' \<mapsto> JString subject, ''exp'' \<mapsto> exp, ''iat'' \<mapsto> iat];
          claims = (if i_issuer i \<noteq> [] then claims(''iss'' \<mapsto> JString (i_issuer i)) else claims)
      in fold (\<lambda>(k, v) claims. claims(k \<mapsto> v)) custom claims)"

definition Issue where
  "Issue L i exp iat subject custom = SignedString L (i_method i) (issue_claims i exp iat subject custom) (i_key i)"

section \<open>Properties\<close>

text \<open>
  What \<open>golang-jwt\<close> documents: claims are returned only for a token whose signing method is among
  those accepted and whose signature verifies with the key the callback gives for that method.
\<close>

definition jwt_laws :: "'k jwtlib \<Rightarrow> (string \<Rightarrow> signing_method) \<Rightarrow> ('k jwt_key \<Rightarrow> string \<Rightarrow> bool) \<Rightarrow> bool" where
  "jwt_laws L method_of verifies =
     (\<forall>f methods leeway token claims.
        ParseWithClaims L f methods leeway token = Inr (claims, True) \<longrightarrow>
        method_of token \<in> set methods \<and>
        (\<exists>key. f (method_of token) = Inr key \<and> verifies key token))"

text \<open>
  C37. A validator accepts a token only if it was signed with the validator's own method, its
  signature verifies with the validator's own key (so a token made with another algorithm cannot use the
  public key as a secret), and its issuer and audience are the required ones.
\<close>

theorem Validate_accepts:
  assumes "jwt_laws L method_of verifies" "Validate L v token = Inr claims"
  shows "method_of token = v_method v \<and> verifies (v_key v) token \<and>
    (v_issuer v = [] \<or> Issuer claims = v_issuer v) \<and>
    (v_audience v = [] \<or> v_audience v \<in> set (Audience claims))"
proof -
  from assms(2) have parse: "ParseWithClaims L (validator_key v) [v_method v] (v_leeway v) token = Inr (claims, True)"
    and ok: "v_issuer v = [] \<or> Issuer claims = v_issuer v"
      "v_audience v = [] \<or> v_audience v \<in> set (Audience claims)"
    by (auto simp: Validate_def audienceContains_def list_ex_iff split: sum.splits prod.splits if_splits)
  from assms(1) parse have "method_of token \<in> set [v_method v] \<and>
      (\<exists>key. validator_key v (method_of token) = Inr key \<and> verifies key token)"
    unfolding jwt_laws_def by blast
  with ok show ?thesis by (auto simp: validator_key_def)
qed

definition tiny_jwt :: "string jwtlib" where
  \<comment> \<open>tokens are unsigned: an H and the subject\<close>
  "tiny_jwt =
     \<lparr>ParseWithClaims = (\<lambda>f methods leeway token.
        if has_prefix token ''H'' \<and> HS256 \<in> set methods then
          (case f HS256 of Inl e \<Rightarrow> Inl e
           | Inr key \<Rightarrow> if key = HMACSecret ''k'' then Inr (empty_claims\<lparr>Subject := drop 1 token\<rparr>, True)
                        else Inl ''bad signature'')
        else Inl ''malformed''),
      SignedString = (\<lambda>method claims key. Inl ''no'')\<rparr>"

lemma tiny_jwt_laws: "jwt_laws tiny_jwt (\<lambda>_. HS256) (\<lambda>key token. key = HMACSecret ''k'')"
  unfolding jwt_laws_def
proof (intro allI impI)
  fix f methods leeway token claims
  assume "ParseWithClaims tiny_jwt f methods leeway token = Inr (claims, True)"
  then show "HS256 \<in> set methods \<and> (\<exists>key. f HS256 = Inr key \<and> key = HMACSecret ''k'')"
    by (cases "f HS256") (auto simp: tiny_jwt_def split: if_splits)
qed

definition tiny_validator :: "(string, unit) JWTValidator" where
  "tiny_validator = \<lparr>v_key = HMACSecret ''k'', v_method = HS256, v_issuer = [], v_audience = [], v_leeway = 0,
     v_extract = DefaultTokenExtractor\<rparr>"

lemma Validate_accepts_witness:
  "Validate tiny_jwt tiny_validator ''Hjo'' = Inr (empty_claims\<lparr>Subject := ''jo''\<rparr>) \<and>
   v_method tiny_validator = HS256 \<and> v_key tiny_validator = HMACSecret ''k''"
proof
  show v: "Validate tiny_jwt tiny_validator ''Hjo'' = Inr (empty_claims\<lparr>Subject := ''jo''\<rparr>)"
    by (simp add: Validate_def tiny_jwt_def tiny_validator_def validator_key_def)
  show "v_method tiny_validator = HS256 \<and> v_key tiny_validator = HMACSecret ''k''"
    using Validate_accepts [OF tiny_jwt_laws v] by simp
qed

lemma json_strings_mem: "s \<in> set (json_strings vs) \<longleftrightarrow> JString s \<in> set vs"
  by (induction vs rule: json_strings.induct) auto

end
