(* ===== verification/Rbac.thy ===== *)
theory Rbac
  imports Jwt
begin

text \<open>
  RBAC policies, \<open>auth/rbac\<close>: matching of principals, permissions and rules (\<open>policy.go\<close>), and the
  two authorizers (\<open>rbac.go\<close>), one with a fixed policy and one that reloads it from a file. The JSON
  decoder of a policy is a parameter, and so are the address functions of the package \<open>net\<close>.
\<close>

record 'ip netlib =
  ParseCIDR :: "string \<Rightarrow> ('ip \<Rightarrow> bool) option" \<comment> \<open>the network's \<open>Contains\<close>\<close>
  SplitHostPort :: "string \<Rightarrow> string option"
  ParseIP :: "string \<Rightarrow> 'ip option"

record Authenticated =
  PrincipalName :: string
  Claim :: string
  Value :: string

record HeaderMatch =
  hm_Name :: string
  hm_Value :: string

record PathMatch =
  Exact :: string
  Prefix :: string

datatype Principal =
  Principal (Authenticated: "Authenticated option") (SourceIP: "string option") (p_Header: "HeaderMatch option")
    (p_Any: bool) (p_Not: "Principal option") (AndIds: "Principal list") (OrIds: "Principal list")

datatype Permission =
  Permission (RequestedPath: "PathMatch option") (m_Header: "HeaderMatch option")
    (m_Any: bool) (m_Not: "Permission option") (AndPermissions: "Permission list") (OrPermissions: "Permission list")

record Rule =
  r_Name :: string
  Principals :: "Principal list"
  Permissions :: "Permission list"

record Policy =
  pol_Name :: string
  AllowRules :: "Rule list"
  DenyRules :: "Rule list"

definition parsePolicy :: "(string \<Rightarrow> string + Policy) \<Rightarrow> string \<Rightarrow> string + Policy" where
  "parsePolicy json data =
     (case json data of
        Inl err \<Rightarrow> Inl (''authz: parse policy: '' @ err)
      | Inr p \<Rightarrow> if pol_Name p = [] then Inl ''authz: policy missing name'' else Inr p)"

definition claimEquals :: "Claims \<Rightarrow> string \<Rightarrow> string \<Rightarrow> bool" where
  "claimEquals claims nm want =
     (case Custom claims nm of
        Some (JString t) \<Rightarrow> t = want
      | Some (JArray vs) \<Rightarrow> list_ex (\<lambda>e. e = JString want) vs
      | _ \<Rightarrow> False)"

definition headerEquals :: "(Claims, 'm) Ctx \<Rightarrow> string \<Rightarrow> string \<Rightarrow> bool" where
  "headerEquals ctx nm want =
     list_ex (\<lambda>(k, vs). equal_fold k nm \<and> list_ex (\<lambda>v. v = want) vs) (Ctx_Header ctx)"

definition authenticated_matches :: "Authenticated \<Rightarrow> (Claims, 'm) Ctx \<Rightarrow> bool" where
  "authenticated_matches a ctx =
     (case ClaimsFromContext ctx of
        None \<Rightarrow> False
      | Some claims \<Rightarrow>
          if PrincipalName a \<noteq> [] then Subject claims = PrincipalName a
          else if Claim a \<noteq> [] then claimEquals claims (Claim a) (Value a)
          else False)"

definition source_ip_matches :: "'ip netlib \<Rightarrow> string \<Rightarrow> (Claims, 'm) Ctx \<Rightarrow> bool" where
  "source_ip_matches N address ctx =
     (case ParseCIDR N address of
        None \<Rightarrow> False
      | Some cidr \<Rightarrow>
          (case SplitHostPort N (Addr (Ctx_Peer ctx)) of
             None \<Rightarrow> False
           | Some host \<Rightarrow> (case ParseIP N host of None \<Rightarrow> False | Some ip \<Rightarrow> cidr ip)))"

fun principal_matches :: "'ip netlib \<Rightarrow> Principal \<Rightarrow> (Claims, 'm) Ctx \<Rightarrow> bool" where
  "principal_matches N (Principal auth src hdr any neg ands ors) ctx =
     (case auth of Some a \<Rightarrow> authenticated_matches a ctx
      | None \<Rightarrow> (case src of Some address \<Rightarrow> source_ip_matches N address ctx
      | None \<Rightarrow> (case hdr of Some h \<Rightarrow> headerEquals ctx (hm_Name h) (hm_Value h)
      | None \<Rightarrow>
          if any then True
          else (case neg of Some p \<Rightarrow> \<not> principal_matches N p ctx
          | None \<Rightarrow>
              if ands \<noteq> [] then list_all (\<lambda>p. principal_matches N p ctx) ands
              else if ors \<noteq> [] then list_ex (\<lambda>p. principal_matches N p ctx) ors
              else False))))"

definition path_matches :: "PathMatch \<Rightarrow> (Claims, 'm) Ctx \<Rightarrow> bool" where
  "path_matches pm ctx =
     (let path = sp_Procedure (Ctx_Spec ctx)
      in if Exact pm \<noteq> [] then path = Exact pm
         else if Prefix pm \<noteq> [] then has_prefix path (Prefix pm)
         else False)"

fun permission_matches :: "Permission \<Rightarrow> (Claims, 'm) Ctx \<Rightarrow> bool" where
  "permission_matches (Permission path hdr any neg ands ors) ctx =
     (case path of Some pm \<Rightarrow> path_matches pm ctx
      | None \<Rightarrow> (case hdr of Some h \<Rightarrow> headerEquals ctx (hm_Name h) (hm_Value h)
      | None \<Rightarrow>
          if any then True
          else (case neg of Some p \<Rightarrow> \<not> permission_matches p ctx
          | None \<Rightarrow>
              if ands \<noteq> [] then list_all (\<lambda>p. permission_matches p ctx) ands
              else if ors \<noteq> [] then list_ex (\<lambda>p. permission_matches p ctx) ors
              else False)))"

definition rule_matches :: "'ip netlib \<Rightarrow> Rule \<Rightarrow> (Claims, 'm) Ctx \<Rightarrow> bool" where
  "rule_matches N r ctx =
     (if Principals r = [] \<or> Permissions r = [] then False
      else if \<not> list_ex (\<lambda>p. principal_matches N p ctx) (Principals r) then False
      else list_ex (\<lambda>p. permission_matches p ctx) (Permissions r))"

definition isAuthorized :: "'ip netlib \<Rightarrow> Policy \<Rightarrow> (Claims, 'm) Ctx \<Rightarrow> bool" where
  "isAuthorized N p ctx =
     (if list_ex (\<lambda>r. rule_matches N r ctx) (DenyRules p) then False
      else list_ex (\<lambda>r. rule_matches N r ctx) (AllowRules p))"

section \<open>Authorizers\<close>

record StaticAuthorizer =
  sa_policy :: Policy

definition NewStatic :: "(string \<Rightarrow> string + Policy) \<Rightarrow> string \<Rightarrow> string + StaticAuthorizer" where
  "NewStatic json policyJSON =
     (case parsePolicy json policyJSON of Inl err \<Rightarrow> Inl err | Inr p \<Rightarrow> Inr \<lparr>sa_policy = p\<rparr>)"

definition Static_IsAuthorized :: "'ip netlib \<Rightarrow> StaticAuthorizer \<Rightarrow> (Claims, 'm) Ctx \<Rightarrow> bool" where
  "Static_IsAuthorized N a ctx = isAuthorized N (sa_policy a) ctx"

text \<open>
  The file watcher: the current authorizer (\<open>None\<close> is the nil pointer), the bytes of the last policy
  loaded, whether its context is cancelled and its goroutine gone, and the updates reported to \<open>OnPolicyUpdate\<close>. What
  \<open>os.ReadFile\<close> gives is an argument of \<open>reload\<close>: \<open>None\<close> is an error.
\<close>

record FileWatcher =
  fw_PolicyFile :: string
  fw_RefreshDuration :: int
  fw_current :: "StaticAuthorizer option"
  fw_last :: string
  fw_closed :: bool
  fw_stopped :: bool
  fw_updates :: "string list"

definition reload :: "(string \<Rightarrow> string + Policy) \<Rightarrow> string option \<Rightarrow> FileWatcher \<Rightarrow> string option \<times> FileWatcher" where
  "reload json file a =
     (case file of
        None \<Rightarrow> (Some ''authz: read policy file'', a)
      | Some data \<Rightarrow>
          if fw_last a = data then (None, a)
          else case NewStatic json data of
                 Inl err \<Rightarrow> (Some err, a)
               | Inr authorizer \<Rightarrow>
                   (None, a\<lparr>fw_last := data, fw_current := Some authorizer, fw_updates := fw_updates a @ [data]\<rparr>))"

definition NewFileWatcherWithOptions ::
    "(string \<Rightarrow> string + Policy) \<Rightarrow> string \<Rightarrow> int \<Rightarrow> string option \<Rightarrow> string + FileWatcher" where
  "NewFileWatcherWithOptions json policyFile refresh file =
     (if policyFile = [] then Inl ''authz: policy file path is empty''
      else if refresh \<le> 0 then Inl ''authz: refresh duration must be > 0''
      else case reload json file
             \<lparr>fw_PolicyFile = policyFile, fw_RefreshDuration = refresh, fw_current = None, fw_last = [],
              fw_closed = False, fw_stopped = False, fw_updates = []\<rparr> of
             (Some err, _) \<Rightarrow> Inl err
           | (None, a) \<Rightarrow> Inr a)"

definition FileWatcher_IsAuthorized :: "'ip netlib \<Rightarrow> FileWatcher \<Rightarrow> (Claims, 'm) Ctx \<Rightarrow> bool option" where
  \<comment> \<open>\<open>None\<close> is a panic: the policy of a nil authorizer is read\<close>
  "FileWatcher_IsAuthorized N a ctx = map_option (\<lambda>s. Static_IsAuthorized N s ctx) (fw_current a)"

datatype watch_event =
    Ticked "string option" \<comment> \<open>and what the file held then\<close>
  | Cancelled \<comment> \<open>\<open>Close\<close>\<close>
  | Stopped \<comment> \<open>the goroutine saw \<open>ctx.Done()\<close>; when a tick is due as well, it may take that first\<close>

inductive watch :: "(string \<Rightarrow> string + Policy) \<Rightarrow> FileWatcher \<Rightarrow> watch_event \<Rightarrow> FileWatcher \<Rightarrow> bool" for json where
  \<comment> \<open>the goroutine \<open>run\<close>: the error of a reload is dropped\<close>
  tick: "\<not> fw_stopped a \<Longrightarrow> watch json a (Ticked file) (snd (reload json file a))"
| cancel: "watch json a Cancelled (a\<lparr>fw_closed := True\<rparr>)"
| stop: "fw_closed a \<Longrightarrow> \<not> fw_stopped a \<Longrightarrow> watch json a Stopped (a\<lparr>fw_stopped := True\<rparr>)"

inductive_cases watchE: "watch json a ev a'"

inductive watch_run :: "(string \<Rightarrow> string + Policy) \<Rightarrow> FileWatcher \<Rightarrow> watch_event list \<Rightarrow> FileWatcher \<Rightarrow> bool"
  for json a where
  watch_start: "watch_run json a [] a"
| watch_step: "watch_run json a evs b \<Longrightarrow> watch json b ev c \<Longrightarrow> watch_run json a (evs @ [ev]) c"


section \<open>Authorizers promise the policy's decision\<close>

text \<open>
  The interface the interceptors use (\<open>Authorizer\<close> of \<open>auth/interceptor/rbac.go\<close>): an authorizer has
  at most one policy at a time, and decides by it.
\<close>

locale authorizer =
  fixes net :: "'ip netlib"
    and decide :: "'a \<Rightarrow> (Claims, 'm) Ctx \<Rightarrow> bool option"
    and policy_of :: "'a \<Rightarrow> Policy option"
  assumes decides: "decide a ctx = map_option (\<lambda>p. isAuthorized net p ctx) (policy_of a)"
begin

lemma allowed: "decide a ctx = Some True \<longleftrightarrow>
    (\<exists>p. policy_of a = Some p \<and> (\<exists>r \<in> set (AllowRules p). rule_matches net r ctx) \<and>
      (\<forall>r \<in> set (DenyRules p). \<not> rule_matches net r ctx))"
  by (auto simp: decides isAuthorized_def list_ex_iff)

lemma denied: "policy_of a = Some p \<Longrightarrow> r \<in> set (DenyRules p) \<Longrightarrow> rule_matches net r ctx \<Longrightarrow> decide a ctx = Some False"
  by (auto simp: decides isAuthorized_def list_ex_iff)

lemma panics: "decide a ctx = None \<longleftrightarrow> policy_of a = None"
  by (simp add: decides)

end

interpretation static: authorizer N "\<lambda>a ctx. Some (Static_IsAuthorized N a ctx)" "\<lambda>a. Some (sa_policy a)"
  by unfold_locales (simp add: Static_IsAuthorized_def)

interpretation watcher: authorizer N "FileWatcher_IsAuthorized N" "\<lambda>a. map_option sa_policy (fw_current a)"
  by unfold_locales (simp add: FileWatcher_IsAuthorized_def Static_IsAuthorized_def option.map_comp comp_def)

section \<open>Policies\<close>

lemma isAuthorized_iff:
  "isAuthorized N p ctx \<longleftrightarrow> (\<exists>r \<in> set (AllowRules p). rule_matches N r ctx) \<and>
     (\<forall>r \<in> set (DenyRules p). \<not> rule_matches N r ctx)"
  by (auto simp: isAuthorized_def list_ex_iff)

text \<open>
  A policy grants less with more deny rules and more with more allow rules, whatever their order
  and repetition: a request is authorized exactly when some allow rule and no deny rule matches it, so a policy
  without allow rules denies everything.
\<close>

theorem isAuthorized_monotone:
  assumes "set (AllowRules p) \<subseteq> set (AllowRules q)" "set (DenyRules q) \<subseteq> set (DenyRules p)"
  shows "(isAuthorized N p ctx \<longrightarrow> isAuthorized N q ctx) \<and>
    (isAuthorized N p ctx \<longleftrightarrow> (\<exists>r \<in> set (AllowRules p). rule_matches N r ctx) \<and>
      (\<forall>r \<in> set (DenyRules p). \<not> rule_matches N r ctx))"
  using assms unfolding isAuthorized_iff by blast

fun needs_claims :: "Principal \<Rightarrow> bool" where
  \<comment> \<open>every way for the principal to match goes through the claims\<close>
  "needs_claims (Principal auth src hdr any neg ands ors) =
     (auth \<noteq> None \<or>
      src = None \<and> hdr = None \<and> \<not> any \<and> neg = None \<and>
      (if ands \<noteq> [] then list_ex needs_claims ands else list_all needs_claims ors))"

lemma needs_claims_unmatched:
  "ClaimsFromContext ctx = None \<Longrightarrow> needs_claims p \<Longrightarrow> \<not> principal_matches N p ctx"
proof (induction p rule: needs_claims.induct)
  case (1 auth src hdr any neg ands ors)
  then show ?case
    by (cases auth) (auto simp: authenticated_matches_def list_ex_iff list_all_iff neq_Nil_conv split: if_splits)
qed

text \<open>
  A policy whose allow rules name callers by their claims only admits nobody without claims: a
  request that no JWT interceptor authenticated is never authorized. Principals that negate, match headers
  or addresses, or match anyone are outside this class, and so may admit the anonymous.
\<close>

theorem anonymous_unauthorized:
  assumes "\<And>r p. r \<in> set (AllowRules pol) \<Longrightarrow> p \<in> set (Principals r) \<Longrightarrow> needs_claims p"
    and "ClaimsFromContext ctx = None"
  shows "\<not> isAuthorized N pol ctx"
  using assms needs_claims_unmatched
  unfolding isAuthorized_iff rule_matches_def list_ex_iff by metis

abbreviation from_address :: "string \<Rightarrow> Principal" where
  "from_address address \<equiv> Principal None (Some address) None False None [] []"

abbreviation not_principal :: "Principal \<Rightarrow> Principal" where
  "not_principal p \<equiv> Principal None None None False (Some p) [] []"

text \<open>
  A source address that does not parse fails open. It is not reported when the policy is loaded;
  as a principal of a deny rule it makes the rule void, and under \<open>not\<close> in an allow rule it
  admits every caller.
\<close>

theorem malformed_address:
  assumes "ParseCIDR N address = None"
  shows "isAuthorized N (pol\<lparr>DenyRules := \<lparr>r_Name = nm, Principals = [from_address address], Permissions = perms\<rparr> # DenyRules pol\<rparr>) ctx =
      isAuthorized N pol ctx \<and>
    rule_matches N \<lparr>r_Name = nm, Principals = [not_principal (from_address address)], Permissions = perms\<rparr> ctx =
      list_ex (\<lambda>p. permission_matches p ctx) perms"
  using assms by (simp add: isAuthorized_def rule_matches_def source_ip_matches_def)

section \<open>The file watcher\<close>

definition contents_read :: "watch_event list \<Rightarrow> string option list" where
  \<comment> \<open>what the ticks found in the file\<close>
  "contents_read evs = List.map_filter (\<lambda>ev. case ev of Ticked file \<Rightarrow> Some file | _ \<Rightarrow> None) evs"

definition policies :: "(string \<Rightarrow> string + Policy) \<Rightarrow> string option list \<Rightarrow> string list" where
  \<comment> \<open>the contents that could be read and parse, in order\<close>
  "policies json files =
     filter (\<lambda>data. case parsePolicy json data of Inr _ \<Rightarrow> True | Inl _ \<Rightarrow> False) (List.map_filter id files)"

lemma contents_read_snoc:
  "contents_read (evs @ [Ticked file]) = contents_read evs @ [file]"
  "contents_read (evs @ [Cancelled]) = contents_read evs" "contents_read (evs @ [Stopped]) = contents_read evs"
  by (simp_all add: contents_read_def map_filter_def)

lemma policies_snoc:
  "policies json (files @ [file]) = policies json files @
     (case file of Some data \<Rightarrow> (case parsePolicy json data of Inr p \<Rightarrow> [data] | Inl e \<Rightarrow> []) | None \<Rightarrow> [])"
  by (simp add: policies_def map_filter_def split: option.split sum.split)

lemma remdups_adj_snoc:
  "remdups_adj (xs @ [x]) = remdups_adj xs @ (if xs \<noteq> [] \<and> last xs = x then [] else [x])"
  by (cases xs rule: rev_cases) (simp_all add: remdups_adj_append_two)

definition in_force :: "(string \<Rightarrow> string + Policy) \<Rightarrow> string list \<Rightarrow> FileWatcher \<Rightarrow> bool" where
  \<comment> \<open>of the policies found so far, the last is in force, and each change was reported\<close>
  "in_force json ps a =
     (ps \<noteq> [] \<and> fw_last a = last ps \<and> fw_updates a = remdups_adj ps \<and>
      (\<exists>p. parsePolicy json (last ps) = Inr p \<and> fw_current a = Some \<lparr>sa_policy = p\<rparr>))"

lemma in_force_reload:
  "in_force json (policies json files) a \<Longrightarrow> in_force json (policies json (files @ [content])) (snd (reload json content a))"
  by (cases content; cases "parsePolicy json (the content)")
     (auto simp: in_force_def reload_def NewStatic_def policies_snoc remdups_adj_snoc)

lemma watch_in_force:
  assumes "watch_run json a evs b" "in_force json (policies json files) a"
  shows "in_force json (policies json (files @ contents_read evs)) b"
  using assms(1)
proof (induction rule: watch_run.induct)
  case watch_start
  show ?case using assms(2) by (simp add: contents_read_def map_filter_def)
next
  case (watch_step evs b ev c)
  from watch_step.hyps(2) watch_step.IH show ?case
  proof (cases rule: watch.cases)
    case (tick content)
    then show ?thesis
      using in_force_reload [OF watch_step.IH, of content] by (simp add: contents_read_snoc)
  qed (simp_all add: in_force_def contents_read_snoc)
qed

lemma NewFileWatcher_in_force:
  assumes "NewFileWatcherWithOptions json f d content = Inr a" "content \<noteq> Some []"
  shows "in_force json (policies json [content]) a"
  using assms
  by (auto simp: NewFileWatcherWithOptions_def reload_def NewStatic_def in_force_def policies_def map_filter_def
      split: if_splits option.splits sum.splits)

text \<open>
  C38. A file watcher that started from a file with some content decides by the last policy that parsed: of everything
  the file held at the start and at the ticks, what could not be read or does not parse is passed over, the
  last of the rest is the policy in force, and \<open>OnPolicyUpdate\<close> was called with each of them once, in order, unless
  it was in force already. So a request never panics, and a change of the file takes effect with the next tick.
\<close>

theorem watcher_policy:
  assumes "NewFileWatcherWithOptions json f d content = Inr a" "content \<noteq> Some []" "watch_run json a evs a'"
  shows "\<exists>p. parsePolicy json (last (policies json (content # contents_read evs))) = Inr p \<and>
    FileWatcher_IsAuthorized N a' ctx = Some (isAuthorized N p ctx) \<and>
    fw_last a' = last (policies json (content # contents_read evs)) \<and>
    fw_updates a' = remdups_adj (policies json (content # contents_read evs))"
  using watch_in_force [OF assms(3) NewFileWatcher_in_force [OF assms(1,2)]]
  by (auto simp: in_force_def FileWatcher_IsAuthorized_def Static_IsAuthorized_def)

text \<open>
  A file watcher also starts from an empty file, without a policy: the empty file counts as
  unchanged, so nothing is parsed and no error is given. Every request then panics, until a tick finds a file
  that parses.
\<close>

theorem watcher_empty_file:
  assumes "f \<noteq> []" "d > 0"
  shows "\<exists>a. NewFileWatcherWithOptions json f d (Some []) = Inr a \<and> FileWatcher_IsAuthorized N a ctx = None \<and>
    (\<forall>files. list_all (\<lambda>content. case content of None \<Rightarrow> True | Some data \<Rightarrow> data = [] \<or> (\<exists>e. parsePolicy json data = Inl e)) files \<longrightarrow>
      FileWatcher_IsAuthorized N (fold (\<lambda>content a. snd (reload json content a)) files a) ctx = None)"
proof -
  let ?a = "\<lparr>fw_PolicyFile = f, fw_RefreshDuration = d, fw_current = None, fw_last = [],
              fw_closed = False, fw_stopped = False, fw_updates = []\<rparr>"
  have new: "NewFileWatcherWithOptions json f d (Some []) = Inr ?a"
    using assms by (simp add: NewFileWatcherWithOptions_def reload_def)
  have stuck: "snd (reload json content ?a) = ?a"
    if "case content of None \<Rightarrow> True | Some data \<Rightarrow> data = [] \<or> (\<exists>e. parsePolicy json data = Inl e)" for content
    using that by (auto simp: reload_def NewStatic_def split: option.splits sum.splits)
  have "list_all (\<lambda>content. case content of None \<Rightarrow> True | Some data \<Rightarrow> data = [] \<or> (\<exists>e. parsePolicy json data = Inl e)) files \<Longrightarrow>
      fold (\<lambda>content a. snd (reload json content a)) files ?a = ?a" for files
    by (induction files) (simp_all add: stuck)
  with new show ?thesis by (auto simp: FileWatcher_IsAuthorized_def)
qed


section \<open>Witnesses\<close>

definition tiny_net :: "string netlib" where
  "tiny_net = \<lparr>ParseCIDR = (\<lambda>_. None), SplitHostPort = (\<lambda>s. Some s), ParseIP = (\<lambda>s. Some s)\<rparr>"

definition anonymous :: "(Claims, unit) Ctx" where
  "anonymous = (\<lparr>ctxDeadline = None, requestMetaValue = None, claimsValue = None, otherValues = Map.empty\<rparr>, None)"

definition everyone :: Principal where "everyone = Principal None None None True None [] []"
definition everything :: Permission where "everything = Permission None None True None [] []"
definition admins :: Principal where
  "admins = Principal (Some \<lparr>PrincipalName = [], Claim = ''role'', Value = ''admin''\<rparr>) None None False None [] []"

definition rule_for :: "Principal \<Rightarrow> Rule" where
  "rule_for p = \<lparr>r_Name = [], Principals = [p], Permissions = [everything]\<rparr>"

definition tiny_json :: "string \<Rightarrow> string + Policy" where
  "tiny_json data =
     (if data = ''p'' then Inr \<lparr>pol_Name = ''p'', AllowRules = [], DenyRules = []\<rparr>
      else if data = ''q'' then Inr \<lparr>pol_Name = ''q'', AllowRules = [rule_for everyone], DenyRules = []\<rparr>
      else Inl ''syntax'')"

lemma isAuthorized_monotone_witness:
  "isAuthorized tiny_net \<lparr>pol_Name = ''q'', AllowRules = [rule_for admins, rule_for everyone], DenyRules = []\<rparr> anonymous"
  using isAuthorized_monotone
    [of "\<lparr>pol_Name = ''p'', AllowRules = [rule_for everyone], DenyRules = [rule_for admins]\<rparr>"
      "\<lparr>pol_Name = ''q'', AllowRules = [rule_for admins, rule_for everyone], DenyRules = []\<rparr>" tiny_net anonymous]
  by (simp add: rule_for_def everyone_def everything_def admins_def rule_matches_def authenticated_matches_def
      ClaimsFromContext_def anonymous_def)

lemma anonymous_unauthorized_witness:
  "\<not> isAuthorized tiny_net \<lparr>pol_Name = ''p'', AllowRules = [rule_for admins], DenyRules = []\<rparr> anonymous"
  using anonymous_unauthorized [of "\<lparr>pol_Name = ''p'', AllowRules = [rule_for admins], DenyRules = []\<rparr>" anonymous tiny_net]
  by (simp add: rule_for_def admins_def ClaimsFromContext_def anonymous_def)

lemma malformed_address_witness:
  "rule_matches tiny_net (rule_for (not_principal (from_address ''10.0.0.0/33''))) anonymous"
  using malformed_address [where N = tiny_net and address = "''10.0.0.0/33''" and nm = "[]" and perms = "[everything]" and ctx = anonymous]
  by (simp add: tiny_net_def rule_for_def everything_def)

lemma watcher_policy_witness:
  "\<exists>a a'. NewFileWatcherWithOptions tiny_json ''f'' 1 (Some ''p'') = Inr a \<and>
     watch_run tiny_json a [Ticked (Some ''broken''), Ticked (Some ''q''), Ticked None] a' \<and>
     FileWatcher_IsAuthorized tiny_net a' anonymous = Some True \<and> fw_updates a' = [''p'', ''q'']"
proof -
  obtain a where a: "NewFileWatcherWithOptions tiny_json ''f'' 1 (Some ''p'') = Inr a" "\<not> fw_stopped a"
    by (simp add: NewFileWatcherWithOptions_def reload_def NewStatic_def parsePolicy_def tiny_json_def)
  have going: "fw_stopped (snd (reload tiny_json c b)) = fw_stopped b" for c b
    by (simp add: reload_def split: option.split sum.split)
  from watch_step [OF watch_step [OF watch_step [OF watch_start tick] tick] tick] a(2) going
  obtain a' where run: "watch_run tiny_json a ([] @ [Ticked (Some ''broken'')] @ [Ticked (Some ''q'')] @ [Ticked None]) a'"
    by (metis append.assoc)
  then have run: "watch_run tiny_json a [Ticked (Some ''broken''), Ticked (Some ''q''), Ticked None] a'" by simp
  have "policies tiny_json (Some ''p'' # contents_read [Ticked (Some ''broken''), Ticked (Some ''q''), Ticked None]) = [''p'', ''q'']"
    by (simp add: policies_def contents_read_def map_filter_def parsePolicy_def tiny_json_def)
  with watcher_policy [OF a(1) _ run, where N = tiny_net and ctx = anonymous] a(1) run show ?thesis
    by (auto simp: parsePolicy_def tiny_json_def isAuthorized_def rule_for_def everyone_def everything_def rule_matches_def)
qed

lemma watcher_empty_file_witness:
  "\<exists>a. NewFileWatcherWithOptions tiny_json ''f'' 1 (Some []) = Inr a \<and> FileWatcher_IsAuthorized tiny_net a anonymous = None"
  using watcher_empty_file [where f = "''f''" and d = 1 and json = tiny_json and N = tiny_net and ctx = anonymous] by auto

end
