(* ===== verification/AuthChain.thy ===== *)
theory AuthChain
  imports Rbac
begin

text \<open>
  The authentication and authorization interceptors, \<open>auth/interceptor\<close>: marking requests public,
  checking the token, asking an authorizer, for unary calls and for streams.
\<close>

definition publicKey :: string where "publicKey = ''interceptor.publicKey''"

definition isPublic :: "('c, 'm) Ctx \<Rightarrow> bool" where
  "isPublic ctx = (otherValues (fst ctx) publicKey = Some ''true'')"

definition newUnauthenticated :: "string \<Rightarrow> 'd goerror" where
  "newUnauthenticated text = NewErrorf CodeUnauthenticated (''auth: '' @ text)"

definition newPermissionDenied :: "string \<Rightarrow> 'd goerror" where
  "newPermissionDenied text = NewErrorf CodePermissionDenied (''authz: '' @ text)"

definition JWT :: "'k jwtlib \<Rightarrow> ('k, 'm) JWTValidator \<Rightarrow> (Claims, 'm, 'd) UnaryInterceptor" where
  "JWT L v next ctx req =
     (if isPublic ctx then next ctx req
      else case ExtractToken v ctx of
             None \<Rightarrow> (Inl (newUnauthenticated ''missing bearer token''), snd ctx)
           | Some token \<Rightarrow>
               (case Validate L v token of
                  Inl err \<Rightarrow> (Inl (newUnauthenticated (''invalid token: '' @ err)), snd ctx)
                | Inr claims \<Rightarrow> next (WithClaims claims ctx) req))"

definition Public :: "((Claims, 'm) Ctx \<Rightarrow> bool) \<Rightarrow> (Claims, 'm, 'd) UnaryInterceptor" where
  "Public p next ctx req = next (if p ctx then WithValue publicKey ''true'' ctx else ctx) req"

definition RBAC :: "((Claims, 'm) Ctx \<Rightarrow> bool) \<Rightarrow> (Claims, 'm, 'd) UnaryInterceptor" where
  "RBAC IsAuthorized next ctx req =
     (if isPublic ctx then next ctx req
      else if \<not> IsAuthorized ctx then
        (Inl (newPermissionDenied ''unauthorized RPC request rejected''), snd ctx)
      else next ctx req)"

definition Chain :: "('c, 'm, 'd) UnaryInterceptor list \<Rightarrow> ('c, 'm, 'd) UnaryInterceptor" where
  "Chain unis = (\<lambda>next. ChainUnaryInterceptors unis next)"

definition ChainStream :: "('c, 'm, 'd, 's) StreamInterceptor list \<Rightarrow> ('c, 'm, 'd, 's) StreamInterceptor" where
  "ChainStream strs = (\<lambda>next. ChainStreamInterceptors strs next)"

section \<open>Streams\<close>

definition errorStream :: "('c, 'm) Ctx \<Rightarrow> 'd goerror \<Rightarrow> ('c, 'm, 'd, 's) Stream" where
  "errorStream ctx err =
     \<lparr>strContext = ctx, Send = (\<lambda>m s. (Some err, s)), Receive = (\<lambda>s. (Inl err, s))\<rparr>"

definition with_context :: "('c, 'm) Ctx \<Rightarrow> ('c, 'm, 'd, 's) Stream \<Rightarrow> ('c, 'm, 'd, 's) Stream" where
  \<comment> \<open>\<open>claimsStream\<close> and \<open>publicStream\<close>: the stream with another context\<close>
  "with_context ctx s = s\<lparr>strContext := ctx\<rparr>"

definition JWTStream :: "'k jwtlib \<Rightarrow> ('k, 'm) JWTValidator \<Rightarrow> (Claims, 'm, 'd, 's) StreamInterceptor" where
  "JWTStream L v next =
     (let ctx = strContext next
      in if isPublic ctx then next
         else case ExtractToken v ctx of
                None \<Rightarrow> errorStream ctx (newUnauthenticated ''missing bearer token'')
              | Some token \<Rightarrow>
                  (case Validate L v token of
                     Inl err \<Rightarrow> errorStream ctx (newUnauthenticated (''invalid token: '' @ err))
                   | Inr claims \<Rightarrow> with_context (WithClaims claims ctx) next))"

definition PublicStream :: "((Claims, 'm) Ctx \<Rightarrow> bool) \<Rightarrow> (Claims, 'm, 'd, 's) StreamInterceptor" where
  "PublicStream p next =
     (let ctx = strContext next
      in if p ctx then with_context (WithValue publicKey ''true'' ctx) next else next)"

definition RBACStream :: "((Claims, 'm) Ctx \<Rightarrow> bool) \<Rightarrow> (Claims, 'm, 'd, 's) StreamInterceptor" where
  "RBACStream IsAuthorized next =
     (let ctx = strContext next
      in if isPublic ctx then next
         else if \<not> IsAuthorized ctx then
           errorStream ctx (newPermissionDenied ''unauthorized RPC request rejected'')
         else next)"

section \<open>The chains\<close>

definition authenticate :: "'k jwtlib \<Rightarrow> ('k, 'm) JWTValidator \<Rightarrow> (Claims, 'm) Ctx \<Rightarrow> 'd goerror + Claims" where
  "authenticate L v ctx =
     (case ExtractToken v ctx of
        None \<Rightarrow> Inl (newUnauthenticated ''missing bearer token'')
      | Some token \<Rightarrow>
          (case Validate L v token of
             Inl err \<Rightarrow> Inl (newUnauthenticated (''invalid token: '' @ err))
           | Inr claims \<Rightarrow> Inr claims))"

abbreviation denied :: "'d goerror" where
  "denied \<equiv> newPermissionDenied ''unauthorized RPC request rejected''"

lemma isPublic_simps [simp]:
  "isPublic (WithValue publicKey ''true'' ctx)" "isPublic (WithClaims claims ctx) = isPublic ctx"
  "snd (WithClaims claims ctx) = snd ctx"
  by (simp_all add: isPublic_def WithValue_def WithClaims_def)

lemma JWT_authenticate:
  "JWT L v next ctx req =
     (if isPublic ctx then next ctx req
      else case authenticate L v ctx of Inl err \<Rightarrow> (Inl err, snd ctx) | Inr claims \<Rightarrow> next (WithClaims claims ctx) req)"
  by (simp add: JWT_def authenticate_def split: option.split sum.split)

text \<open>
  C36. The chain of \<open>Public\<close>, \<open>JWT\<close> and \<open>RBAC\<close> calls the handler in two cases only: the request is
  public, or its token is valid and the authorizer accepts the request with the token's claims attached, and
  then the handler sees these claims. Otherwise the result is the error of the first check that failed.
\<close>

theorem auth_chain:
  "ChainUnaryInterceptors [Public p, JWT L v, RBAC allowed] handler ctx req =
     (if p ctx then handler (WithValue publicKey ''true'' ctx) req
      else if isPublic ctx then handler ctx req
      else case authenticate L v ctx of
             Inl err \<Rightarrow> (Inl err, snd ctx)
           | Inr claims \<Rightarrow>
               if allowed (WithClaims claims ctx) then handler (WithClaims claims ctx) req
               else (Inl denied, snd ctx))"
  by (simp add: unary.chain_Cons unary.chain_Nil Public_def JWT_authenticate RBAC_def split: sum.split)

lemma JWTStream_authenticate:
  "JWTStream L v s =
     (if isPublic (strContext s) then s
      else case authenticate L v (strContext s) of
             Inl err \<Rightarrow> errorStream (strContext s) err
           | Inr claims \<Rightarrow> with_context (WithClaims claims (strContext s)) s)"
  by (simp add: JWTStream_def authenticate_def Let_def split: option.split sum.split)

lemma stream_sel [simp]:
  "strContext (errorStream ctx err) = ctx" "Send (errorStream ctx err) = (\<lambda>m s. (Some err, s))"
  "strContext (with_context ctx s) = ctx" "Send (with_context ctx s) = Send s"
  by (simp_all add: errorStream_def with_context_def)

text \<open>
  The stream interceptors in the order documented for the unary ones do not work together: the
  chain is built from the last, so the authorizer is asked about the bare context of the transport, before claims or
  the public mark are attached. A public stream then still needs a token and an authorization, and a policy
  about claims rejects every stream. Only the reversed order behaves like the unary chain.
\<close>

theorem auth_stream_order:
  assumes "\<not> isPublic (strContext s)"
  shows "Send (ChainStreamInterceptors [PublicStream p, JWTStream L v, RBACStream allowed] s) =
      (case authenticate L v (strContext s) of
         Inl err \<Rightarrow> (\<lambda>m st. (Some err, st))
       | Inr claims \<Rightarrow> if allowed (strContext s) then Send s else (\<lambda>m st. (Some denied, st))) \<and>
    Send (ChainStreamInterceptors [RBACStream allowed, JWTStream L v, PublicStream p] s) =
      (if p (strContext s) then Send s
       else case authenticate L v (strContext s) of
              Inl err \<Rightarrow> (\<lambda>m st. (Some (if allowed (strContext s) then err else denied), st))
            | Inr claims \<Rightarrow>
                if allowed (WithClaims claims (strContext s)) then Send s else (\<lambda>m st. (Some denied, st)))"
  using assms
  by (simp_all add: streams.chain_Cons streams.chain_Nil PublicStream_def JWTStream_authenticate RBACStream_def Let_def
      split: sum.split)

definition open_stream :: "(Claims, unit, string, nat) Stream" where
  "open_stream = \<lparr>strContext = anonymous, Send = (\<lambda>m n. (None, Suc n)), Receive = (\<lambda>n. (Inr (), n))\<rparr>"

lemma auth_stream_order_witness:
  "Send (ChainStreamInterceptors [PublicStream (\<lambda>_. True), JWTStream tiny_jwt tiny_validator, RBACStream (\<lambda>_. True)]
      open_stream) () 0 = (Some (newUnauthenticated ''missing bearer token''), 0) \<and>
   Send (ChainStreamInterceptors [RBACStream (\<lambda>_. True), JWTStream tiny_jwt tiny_validator, PublicStream (\<lambda>_. True)]
      open_stream) () 0 = (None, 1)"
proof -
  have "ExtractToken tiny_validator anonymous = None"
    by (simp add: ExtractToken_def tiny_validator_def DefaultTokenExtractor_def anonymous_def Ctx_Header_def
        Ctx_Query_def Ctx_Cookie_def Ctx_Cookies_def header_get_def header_values_def query_get_def)
  then show ?thesis
    using auth_stream_order [of open_stream "\<lambda>_. True" tiny_jwt tiny_validator "\<lambda>_. True"]
    by (simp add: open_stream_def isPublic_def anonymous_def authenticate_def)
qed

end
