(* ===== verification/ClientStreams.thy ===== *)
theory ClientStreams
  imports Client
begin

text \<open>
  The streaming side of the generated clients, \<open>client/streams.go\<close> and \<open>client/websocket.go\<close>: the raw
  stream interfaces and their typed wrappers, the adapters through which stream interceptors see them, and how the
  streams are opened over SSE, NDJSON and WebSocket.

  All streams of a client work on one \<open>clientConn\<close>. What \<open>Do\<close> of a client stream will answer arrives on the
  channel \<open>nd_chan\<close> later, so opening the stream returns the request that was sent in the background.
\<close>

section \<open>Raw streams\<close>

record ('m, 'd, 's) ServerStreamClient =
  ssc_Receive :: "'s \<Rightarrow> ('d goerror + 'm) \<times> 's"
  ssc_Close :: "'s \<Rightarrow> 'd goerror option \<times> 's"

record ('m, 'd, 's) ClientStreamClient =
  csc_Send :: "'m \<Rightarrow> 's \<Rightarrow> 'd goerror option \<times> 's"
  csc_CloseAndReceive :: "'s \<Rightarrow> ('d goerror + 'm) \<times> 's"
  csc_Close :: "'s \<Rightarrow> 'd goerror option \<times> 's"

record ('m, 'd, 's) BidiStreamClient =
  bsc_Send :: "'m \<Rightarrow> 's \<Rightarrow> 'd goerror option \<times> 's"
  bsc_Receive :: "'s \<Rightarrow> ('d goerror + 'm) \<times> 's"
  bsc_Close :: "'s \<Rightarrow> 'd goerror option \<times> 's"

section \<open>Typed wrappers\<close>

definition ServerStreamForClient ::
    "('m \<Rightarrow> gotype) \<Rightarrow> gotype \<Rightarrow> ('m, 'd, 's) ServerStreamClient \<Rightarrow> ('m, 'd, 's) ServerStreamClient" where
  "ServerStreamForClient typeOf Resp inn =
     inn\<lparr>ssc_Receive := receiveTyped typeOf Resp (ssc_Receive inn)\<rparr>"

definition ClientStreamForClient ::
    "('m \<Rightarrow> gotype) \<Rightarrow> gotype \<Rightarrow> ('m, 'd, 's) ClientStreamClient \<Rightarrow> ('m, 'd, 's) ClientStreamClient" where
  "ClientStreamForClient typeOf Resp inn =
     inn\<lparr>csc_CloseAndReceive := \<lambda>s.
       (case csc_CloseAndReceive inn s of
          (Inl e, s) \<Rightarrow> (Inl e, s)
        | (Inr raw, s) \<Rightarrow>
            if typeOf raw = Resp then (Inr raw, s)
            else (Inl (NewErrorf CodeInternal (''unexpected response type '' @ typeOf raw)), s))\<rparr>"

definition BidiStreamForClient ::
    "('m \<Rightarrow> gotype) \<Rightarrow> gotype \<Rightarrow> ('m, 'd, 's) BidiStreamClient \<Rightarrow> ('m, 'd, 's) BidiStreamClient" where
  "BidiStreamForClient typeOf Resp inn =
     inn\<lparr>bsc_Receive := receiveTyped typeOf Resp (bsc_Receive inn)\<rparr>"

section \<open>Interceptors\<close>

definition serverStreamReceiver ::
    "'c Context \<Rightarrow> codec \<Rightarrow> ('m, 'd, 's) ServerStreamClient \<Rightarrow> ('c, 'm, 'd, 's) Stream" where
  "serverStreamReceiver ctx codec inn =
     \<lparr>strContext = NewCtx ctx empty_meta (Some codec),
      Send = \<lambda>m s. (Some (NewErrorf CodeInternal ''send not supported on server-streaming transport''), s),
      Receive = ssc_Receive inn\<rparr>"

definition clientStreamSender ::
    "'c Context \<Rightarrow> codec \<Rightarrow> ('m, 'd, 's) ClientStreamClient \<Rightarrow> ('c, 'm, 'd, 's) Stream" where
  "clientStreamSender ctx codec inn =
     \<lparr>strContext = NewCtx ctx empty_meta (Some codec), Send = csc_Send inn,
      Receive = \<lambda>s. (Inl (NewErrorf CodeInternal ''receive not supported on client-streaming transport''), s)\<rparr>"

definition bidiStreamBoth ::
    "'c Context \<Rightarrow> codec \<Rightarrow> ('m, 'd, 's) BidiStreamClient \<Rightarrow> ('c, 'm, 'd, 's) Stream" where
  "bidiStreamBoth ctx codec inn =
     \<lparr>strContext = NewCtx ctx empty_meta (Some codec), Send = bsc_Send inn, Receive = bsc_Receive inn\<rparr>"

definition interceptedServerStream ::
    "('c, 'm, 'd, 's) Stream \<Rightarrow> ('m, 'd, 's) ServerStreamClient \<Rightarrow> ('m, 'd, 's) ServerStreamClient" where
  "interceptedServerStream wrapped inn = \<lparr>ssc_Receive = Receive wrapped, ssc_Close = ssc_Close inn\<rparr>"

definition interceptedClientStream ::
    "('c, 'm, 'd, 's) Stream \<Rightarrow> ('m, 'd, 's) ClientStreamClient \<Rightarrow> ('m, 'd, 's) ClientStreamClient" where
  "interceptedClientStream wrapped inn =
     \<lparr>csc_Send = Send wrapped, csc_CloseAndReceive = csc_CloseAndReceive inn, csc_Close = csc_Close inn\<rparr>"

definition interceptedBidiStream ::
    "('c, 'm, 'd, 's) Stream \<Rightarrow> ('m, 'd, 's) BidiStreamClient \<Rightarrow> ('m, 'd, 's) BidiStreamClient" where
  "interceptedBidiStream wrapped inn =
     \<lparr>bsc_Send = Send wrapped, bsc_Receive = Receive wrapped, bsc_Close = bsc_Close inn\<rparr>"

section \<open>Server streams\<close>

definition new_message :: "('c, 'f, 'd, 'n) client_env \<Rightarrow> gtype \<Rightarrow> 'f gval" where
  \<comment> \<open>\<open>reflect.New(t).Interface()\<close>\<close>
  "new_message E t = VPtr t (Some (zero (ce_go E) (ce_types E) t))"

definition sseClientStream ::
    "('c, 'f, 'd, 'n) client_env \<Rightarrow> codec \<Rightarrow> gtype \<Rightarrow> ('f gval, 'd, 'd clientConn) ServerStreamClient" where
  \<comment> \<open>after \<open>Close\<close> what \<open>bufio\<close> has read already can still be received\<close>
  "sseClientStream E codec msgTyp =
     \<lparr>ssc_Receive = \<lambda>s. (let (r, body) = sse_Receive (ce_lib E) codec (new_message E msgTyp) (cc_body s)
                          in (r, s\<lparr>cc_body := body\<rparr>)),
      ssc_Close = \<lambda>s. (None, s\<lparr>cc_body :=
         \<lparr>rd_bytes = take (ce_buffered E (rd_bytes (cc_body s))) (rd_bytes (cc_body s)),
          rd_end = PlainError ''http: read on closed response body''\<rparr>\<rparr>)\<rparr>"

definition wsServerStreamClient ::
    "('c, 'f, 'd, 'n) client_env \<Rightarrow> codec \<Rightarrow> gtype \<Rightarrow> ('f gval, 'd, 'd clientConn) ServerStreamClient" where
  "wsServerStreamClient E codec msgTyp =
     \<lparr>ssc_Receive = \<lambda>s. (let (r, conn) = ws_Receive (ce_lib E) codec CodeInternal (new_message E msgTyp) (cc_ws s)
                          in (r, s\<lparr>cc_ws := conn\<rparr>)),
      ssc_Close = \<lambda>s. (None, s\<lparr>cc_ws := ws_Close 1000 [] (cc_ws s)\<rparr>)\<rparr>"

definition intercept_server ::
    "('c, 'f, 'd, 'n) clientConfig \<Rightarrow> 'c Context \<Rightarrow> ('f gval, 'd, 'd clientConn) ServerStreamClient
     \<Rightarrow> ('f gval, 'd, 'd clientConn) ServerStreamClient" where
  "intercept_server cfg ctx stream =
     (if cfg_streamInterceptors cfg = [] then stream
      else interceptedServerStream
             (ChainStreamInterceptors (cfg_streamInterceptors cfg) (serverStreamReceiver ctx (cfg_codec cfg) stream)) stream)"

definition wsURL :: "string \<Rightarrow> string \<Rightarrow> string \<Rightarrow> string" where
  "wsURL baseURL path codecName =
     (let u = (if has_prefix baseURL ''http://'' then ''ws://'' @ trim_prefix baseURL ''http://'' @ path
               else if has_prefix baseURL ''https://'' then ''wss://'' @ trim_prefix baseURL ''https://'' @ path
               else baseURL @ path);
          sep = (if contains_byte u CHR ''?'' then ''&'' else ''?'')
      in u @ sep @ ''encoding='' @ QueryEscape codecName)"

definition doServerStreamWS ::
    "('c, 'f, 'd, 'n) client_env \<Rightarrow> string \<Rightarrow> 'c Context \<Rightarrow> string \<Rightarrow> 'f gval option \<Rightarrow> gtype
     \<Rightarrow> ('c, 'f, 'd, 'n) clientConfig \<Rightarrow> 'd clientConn \<Rightarrow> 'n
     \<Rightarrow> ('d goerror + ('f gval, 'd, 'd clientConn) ServerStreamClient) \<times> 'd clientConn \<times> 'n" where
  \<comment> \<open>the request message is the first frame\<close>
  "doServerStreamWS E baseURL ctx path req msgTyp cfg s n =
     (case ce_Dial E (cfg_httpClient cfg) (cfg_headers cfg) (wsURL baseURL path (Name (cfg_codec cfg))) ctx n of
        (Inl e, n) \<Rightarrow> (Inl e, s, n)
      | (Inr conn, n) \<Rightarrow>
          (case encode_message E (cfg_codec cfg) (the_message req) of
             Inl e \<Rightarrow> (Inl e, s\<lparr>cc_ws := ws_Close 1011 [] conn\<rparr>, n)
           | Inr data \<Rightarrow>
               (case ws_Write (frame_type (cfg_codec cfg)) data conn of
                  (Some e, conn) \<Rightarrow> (Inl e, s\<lparr>cc_ws := ws_Close 1011 [] conn\<rparr>, n)
                | (None, conn) \<Rightarrow>
                    (Inr (intercept_server cfg ctx (wsServerStreamClient E (cfg_codec cfg) msgTyp)), s\<lparr>cc_ws := conn\<rparr>, n))))"

definition server_stream_request ::
    "('c, 'f, 'd, 'n) client_env \<Rightarrow> string \<Rightarrow> string \<Rightarrow> string \<Rightarrow> 'f gval option
     \<Rightarrow> ('c, 'f, 'd, 'n) clientConfig \<Rightarrow> 'd goerror + outRequest" where
  "server_stream_request E baseURL method path req cfg =
     (case (case req of None \<Rightarrow> Inr None | Some v \<Rightarrow> map_sum id Some (encode_message E (cfg_codec cfg) v)) of
        Inl e \<Rightarrow> Inl e
      | Inr body \<Rightarrow>
          map_sum id (with_headers (cfg_headers cfg)
              ((if req \<noteq> None then [(HeaderContentType, Name (cfg_codec cfg))] else []) @
               [(HeaderAccept, ContentTypeEventStream)]))
            (http_NewRequest E method (baseURL @ path) body))"

definition DoServerStream ::
    "('c, 'f, 'd, 'n) client_env \<Rightarrow> ('c, 'f, 'd, 'n) ClientBase \<Rightarrow> 'c Context \<Rightarrow> string \<Rightarrow> string \<Rightarrow> 'f gval option
     \<Rightarrow> gtype \<Rightarrow> ('c, 'f, 'd, 'n) ClientOption list \<Rightarrow> 'd clientConn \<Rightarrow> 'n
     \<Rightarrow> (('d goerror + ('f gval, 'd, 'd clientConn) ServerStreamClient) \<times> 'd clientConn \<times> 'n) option" where
  \<comment> \<open>\<open>None\<close>: the decoding of an error response does not return\<close>
  "DoServerStream E c ctx method path req msgTyp opts s n =
     (let cfg = apply_options opts (cb_cfg c)
      in case SubstitutePathParams (ce_go E) (ce_types E) path req of
           Inl e \<Rightarrow> Some (Inl e, s, n)
         | Inr path \<Rightarrow>
             if cfg_serverStreamTransport cfg = ServerStreamWebSocket
             then Some (doServerStreamWS E (cb_baseURL c) ctx path req msgTyp cfg s n)
             else
               (case server_stream_request E (cb_baseURL c) method path req cfg of
                  Inl e \<Rightarrow> Some (Inl e, s, n)
                | Inr r \<Rightarrow>
                    (case cfg_httpClient cfg ctx r n of
                       (Inl e, n) \<Rightarrow> Some (Inl e, s, n)
                     | (Inr (resp, broken), n) \<Rightarrow>
                         if resp_StatusCode resp \<noteq> 200 then
                           map_option (\<lambda>e. (Inl e, s, n)) (FromHTTP (ce_wire E) (ce_json E) resp)
                         else
                           Some (Inr (intercept_server cfg ctx (sseClientStream E (cfg_codec cfg) msgTyp)),
                             s\<lparr>cc_body := \<lparr>rd_bytes = resp_Body resp,
                                 rd_end = (case broken of Some e \<Rightarrow> e | None \<Rightarrow> EOF)\<rparr>\<rparr>, n))))"

section \<open>Client streams\<close>

definition ndjsonClientStream ::
    "('c, 'f, 'd, 'n) client_env \<Rightarrow> codec \<Rightarrow> gtype \<Rightarrow> ('f gval, 'd, 'd clientConn) ClientStreamClient" where
  \<comment> \<open>once \<open>cc_hung\<close> is set the call did not return, and its result here stands for nothing\<close>
  "ndjsonClientStream E codec respTyp =
     \<lparr>csc_Send = \<lambda>msg s.
        (case ndjson_Send (ce_wire E) (ce_json E) (ce_lib E) codec msg (cc_nd s) of
           None \<Rightarrow> (None, s\<lparr>cc_hung := True\<rparr>)
         | Some (err, nd) \<Rightarrow> (err, s\<lparr>cc_nd := nd\<rparr>)),
      csc_CloseAndReceive = \<lambda>s.
        (case CloseAndReceive (ce_wire E) (ce_json E) (ce_lib E) codec (new_message E respTyp) (cc_nd s) of
           None \<Rightarrow> (Inl EOF, s\<lparr>cc_hung := True\<rparr>)
         | Some (r, nd) \<Rightarrow> (r, s\<lparr>cc_nd := nd\<rparr>)),
      csc_Close = \<lambda>s. (None, s\<lparr>cc_nd := (cc_nd s)\<lparr>nd_closed := True\<rparr>\<rparr>)\<rparr>"

definition DoClientStream ::
    "('c, 'f, 'd, 'n) client_env \<Rightarrow> ('c, 'f, 'd, 'n) ClientBase \<Rightarrow> 'c Context \<Rightarrow> string \<Rightarrow> string \<Rightarrow> gtype
     \<Rightarrow> ('c, 'f, 'd, 'n) ClientOption list \<Rightarrow> 'd clientConn
     \<Rightarrow> ('d goerror + outRequest \<times> ('f gval, 'd, 'd clientConn) ClientStreamClient) \<times> 'd clientConn" where
  \<comment> \<open>the body of the request is what is written to the stream\<close>
  "DoClientStream E c ctx method path respTyp opts s =
     (let cfg = apply_options opts (cb_cfg c)
      in case http_NewRequest E method (cb_baseURL c @ path) (Some []) of
           Inl e \<Rightarrow> (Inl e, s)
         | Inr r \<Rightarrow>
             (let r = with_headers (cfg_headers cfg)
                    [(HeaderContentType, Name (cfg_codec cfg)), (HeaderAccept, Name (cfg_codec cfg))] r;
                  stream = ndjsonClientStream E (cfg_codec cfg) respTyp;
                  stream = (if cfg_streamInterceptors cfg = [] then stream
                            else interceptedClientStream (ChainStreamInterceptors (cfg_streamInterceptors cfg)
                                   (clientStreamSender ctx (cfg_codec cfg) stream)) stream)
              in (Inr (r, stream),
                  s\<lparr>cc_nd := \<lparr>nd_written = [], nd_werror = None, nd_chan = None, nd_result = None, nd_closed = False\<rparr>\<rparr>)))"

section \<open>Bidirectional streams\<close>

definition wsClientStream ::
    "('c, 'f, 'd, 'n) client_env \<Rightarrow> codec \<Rightarrow> gtype \<Rightarrow> ('f gval, 'd, 'd clientConn) BidiStreamClient" where
  "wsClientStream E codec reqTyp =
     \<lparr>bsc_Send = \<lambda>msg s. (let (err, conn) = ws_Send (ce_lib E) codec ''request'' msg (cc_ws s) in (err, s\<lparr>cc_ws := conn\<rparr>)),
      bsc_Receive = \<lambda>s. (let (r, conn) = ws_Receive (ce_lib E) codec CodeInternal (new_message E reqTyp) (cc_ws s)
                          in (r, s\<lparr>cc_ws := conn\<rparr>)),
      bsc_Close = \<lambda>s. (None, s\<lparr>cc_ws := ws_Close 1000 [] (cc_ws s)\<rparr>)\<rparr>"

definition DialWebSocket ::
    "('c, 'f, 'd, 'n) client_env \<Rightarrow> 'c Context \<Rightarrow> string \<Rightarrow> ('c, 'f, 'd, 'n) ClientOption list \<Rightarrow> 'd clientConn \<Rightarrow> 'n
     \<Rightarrow> ('d goerror + ('f gval, 'd, 'd clientConn) BidiStreamClient) \<times> 'd clientConn \<times> 'n" where
  "DialWebSocket E ctx url opts s n =
     (let cfg = apply_options opts (defaultClientConfig E)
      in case ce_Dial E (cfg_httpClient cfg) (cfg_headers cfg) url ctx n of
           (Inl e, n) \<Rightarrow> (Inl e, s, n)
         | (Inr conn, n) \<Rightarrow>
             (let stream = wsClientStream E (cfg_codec cfg) (cfg_reqType cfg);
                  stream = (if cfg_streamInterceptors cfg = [] then stream
                            else interceptedBidiStream (ChainStreamInterceptors (cfg_streamInterceptors cfg)
                                   (bidiStreamBoth ctx (cfg_codec cfg) stream)) stream)
              in (Inr stream, s\<lparr>cc_ws := conn\<rparr>, n)))"

definition DoBidiStream ::
    "('c, 'f, 'd, 'n) client_env \<Rightarrow> ('c, 'f, 'd, 'n) ClientBase \<Rightarrow> 'c Context \<Rightarrow> string \<Rightarrow> gtype
     \<Rightarrow> ('c, 'f, 'd, 'n) ClientOption list \<Rightarrow> 'd clientConn \<Rightarrow> 'n
     \<Rightarrow> ('d goerror + ('f gval, 'd, 'd clientConn) BidiStreamClient) \<times> 'd clientConn \<times> 'n" where
  "DoBidiStream E c ctx path reqTyp opts s n =
     (let cfg = (apply_options opts (cb_cfg c))\<lparr>cfg_reqType := reqTyp\<rparr>
      in DialWebSocket E ctx (wsURL (cb_baseURL c) path (Name (cfg_codec cfg))) [\<lambda>_. cfg] s n)"

end
