(* ===== verification/ClientStreamsSpec.thy ===== *)
theory ClientStreamsSpec
  imports ClientStreams ClientSpec
begin

text \<open>
  What the client's streams promise: which codec a WebSocket server negotiates from the URL, which options streams
  ignore, and a server stream from the handler's \<open>Send\<close> to the caller's \<open>Receive\<close>.
\<close>

section \<open>Negotiation over WebSocket\<close>

lemma index_byte_append:
  "c \<notin> set a \<Longrightarrow> index_byte (a @ b) c = map_option (\<lambda>i. length a + i) (index_byte b c)"
  by (cases "index_byte b c"; induction a) auto

lemma ParseQuery_pair: "k \<noteq> [] \<Longrightarrow> ParseQuery (QueryEscape k @ ''='' @ QueryEscape v) = [(k, [v])]"
  using ParseQuery_Encode [of "[(k, [v])]"] by (simp add: query_Encode_def query_pairs_def)

lemma escape_encoding: "QueryEscape ''encoding'' = ''encoding''"
  by (simp add: QueryEscape_def escape_byte_def unreserved_def byte_in_def)

text \<open>
  The URL of a WebSocket names the client's codec, but the server knows two: with the JSON and protobuf codecs
  both ends agree, while a client configured for XML or JSON v2 talks to a server that reads and writes plain JSON.
\<close>

theorem wsURL_negotiation:
  assumes "CHR ''?'' \<notin> set baseURL" "CHR ''?'' \<notin> set path"
    and "codec \<in> {JSONCodec, JSONV2Codec, XMLCodec, ProtoCodec}"
  shows "\<exists>i. index_byte (wsURL baseURL path (Name codec)) CHR ''?'' = Some i \<and>
    codecFromRequest r (Some (ParseQuery (drop (Suc i) (wsURL baseURL path (Name codec))))) =
      (if codec = ProtoCodec then ProtoCodec else JSONCodec)"
proof -
  obtain u where u: "wsURL baseURL path (Name codec) = u @ ''?'' @ ''encoding='' @ QueryEscape (Name codec)" "CHR ''?'' \<notin> set u"
  proof -
    let ?u = "if has_prefix baseURL ''http://'' then ''ws://'' @ trim_prefix baseURL ''http://'' @ path
      else if has_prefix baseURL ''https://'' then ''wss://'' @ trim_prefix baseURL ''https://'' @ path else baseURL @ path"
    have "CHR ''?'' \<notin> set ?u" using assms(1,2) by (auto simp: trim_prefix_def dest: in_set_dropD)
    moreover from this have "wsURL baseURL path (Name codec) = ?u @ ''?'' @ ''encoding='' @ QueryEscape (Name codec)"
      by (simp add: wsURL_def contains_byte_def)
    ultimately show ?thesis using that by blast
  qed
  have "ParseQuery (''encoding='' @ QueryEscape (Name codec)) = [(''encoding'', [Name codec])]"
    using ParseQuery_pair [of "''encoding''" "Name codec"] by (simp add: escape_encoding)
  moreover have "Name codec \<noteq> []" using assms(3) by auto
  moreover have "CodecForContentType (Name codec) = (if codec = ProtoCodec then ProtoCodec else JSONCodec)"
    using assms(3) by (elim insertE emptyE) (simp only:, code_simp)+
  ultimately have "codecFromRequest r (Some (ParseQuery (''encoding='' @ QueryEscape (Name codec)))) =
      (if codec = ProtoCodec then ProtoCodec else JSONCodec)"
    by (simp add: codecFromRequest_def query_get_def)
  with u show ?thesis by (intro exI [of _ "length u"]) (simp add: index_byte_append)
qed

section \<open>Options that streams ignore\<close>

lemma apply_options_snoc: "apply_options (opts @ [opt]) cfg = opt (apply_options opts cfg)"
  by (simp add: apply_options_def)

lemma unary_options_stream:
  assumes "opt \<in> {WithTimeout d, WithDeadline t, client_WithUnaryInterceptors is, WithRetryPolicy K p}"
  shows "cfg_codec (opt cfg) = cfg_codec cfg" "cfg_httpClient (opt cfg) = cfg_httpClient cfg"
    "cfg_headers (opt cfg) = cfg_headers cfg" "cfg_serverStreamTransport (opt cfg) = cfg_serverStreamTransport cfg"
    "cfg_streamInterceptors (opt cfg) = cfg_streamInterceptors cfg" "cfg_reqType (opt cfg) = cfg_reqType cfg"
  using assms
  by (auto simp: WithTimeout_def WithDeadline_def client_WithUnaryInterceptors_def WithRetryPolicy_def)

text \<open>
  Timeouts, deadlines, retry policies and unary interceptors given to a call or to a client have no effect on
  its streams: no deadline header is sent and the context stays as it is.
\<close>

theorem streams_ignore_unary_options:
  assumes "opt \<in> {WithTimeout d, WithDeadline t, client_WithUnaryInterceptors is, WithRetryPolicy K p}"
  shows "DoServerStream E c ctx method path req msgTyp (opts @ [opt]) s n =
      DoServerStream E c ctx method path req msgTyp opts s n \<and>
    DoClientStream E c ctx method path respTyp (opts @ [opt]) s = DoClientStream E c ctx method path respTyp opts s \<and>
    DoBidiStream E c ctx path reqTyp (opts @ [opt]) s n = DoBidiStream E c ctx path reqTyp opts s n"
proof -
  note same = unary_options_stream [OF assms]
  have icept: "intercept_server (opt cfg) = intercept_server cfg" for cfg
    by (rule ext)+ (simp add: intercept_server_def same)
  have ws: "doServerStreamWS E url ctx path req msgTyp (opt cfg) s n = doServerStreamWS E url ctx path req msgTyp cfg s n"
    for url path cfg
    unfolding doServerStreamWS_def same icept by (rule refl)
  have req: "server_stream_request E url method path req (opt cfg) = server_stream_request E url method path req cfg"
    for url path cfg
    unfolding server_stream_request_def same by (rule refl)
  have dial: "DialWebSocket E ctx url [\<lambda>_. (opt cfg)\<lparr>cfg_reqType := reqTyp\<rparr>] s n =
      DialWebSocket E ctx url [\<lambda>_. cfg\<lparr>cfg_reqType := reqTyp\<rparr>] s n" for url cfg
    by (simp add: DialWebSocket_def apply_options_def same Let_def cong: sum.case_cong prod.case_cong if_cong)
  show ?thesis
    unfolding DoServerStream_def DoClientStream_def DoBidiStream_def apply_options_snoc Let_def same ws req icept dial
    by (simp add: same)
qed

section \<open>A server stream from end to end\<close>

text \<open>
  Here the network is the server: a request is answered by running the handler of the operation on it. \<open>received\<close> is
  what \<open>net/http\<close> makes of a request without query.
\<close>

definition received :: "'c Context \<Rightarrow> string \<Rightarrow> outRequest \<Rightarrow> ('c, 'd) HttpRequest" where
  "received ctx path r =
     \<lparr>rq_Method = out_Method r, rq_Path = path, rq_Query = None, rq_Header = out_Header r, rq_Cookies = [],
      rq_Body = map_option (\<lambda>b. \<lparr>rd_bytes = b, rd_end = EOF\<rparr>) (out_Body r),
      rq_ProtoMajor = 1, rq_Proto = ''HTTP/1.1'', rq_RemoteAddr = [], rq_Context = ctx\<rparr>"

definition served ::
    "('m, 'd) env \<Rightarrow> ('c, 'm, 'd, 'd conn_state) Operation \<Rightarrow> 'c Context \<Rightarrow> string \<Rightarrow> params \<Rightarrow> 'd conn_state
     \<Rightarrow> ('c, 'd, unit) http_client" where
  "served ev e ctx path params conn cctx r n =
     (Inr (response_of (cn_writer (ServeHTTPWithParams ev (NewHandler e) (received ctx path r) params conn)) ''200 OK'', None), n)"

lemma send_all_writer_stream:
  "send_all (writer_stream f) ms s =
     (let (err, w) = send_all f ms (cn_writer s) in (err, s\<lparr>cn_writer := w\<rparr>))"
proof (induction ms arbitrary: s)
  case (Cons m ms)
  obtain r w where "f m (cn_writer s) = (r, w)" by fastforce
  with Cons.IH [of "s\<lparr>cn_writer := w\<rparr>"] show ?case
    by (cases r) (auto simp: writer_stream_def split: prod.split)
qed simp

lemma write_all_sent:
  "w_sent w = Some st \<Longrightarrow> w_sent (snd (write_all xs w)) = Some st"
proof (induction xs arbitrary: w)
  case (Cons x xs)
  from Cons.prems have "w_sent (snd (Write x w)) = Some st"
    by (auto simp: Write_def WriteHeader_def Let_def split: option.split nat.split)
  with Cons.IH show ?case by (auto split: prod.split option.split)
qed simp

lemma send_all_sent:
  "w_sent w = Some st \<Longrightarrow> w_sent (snd (send_all (sse_Send lib asEvent codec) ms w)) = Some st"
proof (induction ms arbitrary: w)
  case (Cons m ms)
  from Cons.prems have "w_sent (snd (sse_Send lib asEvent codec m w)) = Some st"
    by (auto simp: sse_Send_def Let_def write_all_sent split: sum.split)
  with Cons.IH show ?case by (auto split: prod.split option.split)
qed simp

text \<open>What a handler that sends a list of messages leaves in the response writer.\<close>

lemma serve_sends:
  fixes s :: "'d conn_state"
  assumes "op_streamType e = StreamTypeServer" "op_interceptors e = []" "op_streamInterceptors e = []"
    and "op_hasNewRequest e" "op_serverStream e = Some (\<lambda>ctx req stream s. send_all (Send stream) (replies req) s)"
    and "\<exists>req. newRequest (ev_populate ev) (ev_new ev) e (request_ctx ev (NewHandler e) r params body) r params
        (codecFromRequest r (rq_Query r)) = Inr req \<and> replies req = ms"
    and "read_body (NewHandler e) r = Inr body" "\<not> isWebSocketUpgrade r" "cn_flusher s"
  shows "cn_writer (ServeHTTPWithParams ev (NewHandler e) r params s) =
    snd (send_all (sse_Send (ev_lib ev) (ev_asEvent ev) (codecFromRequest r (rq_Query r))) ms
      (WriteHeader 200 (update_header sse_headers (cn_writer s))))"
proof -
  let ?codec = "codecFromRequest r (rq_Query r)"
  let ?ctx = "request_ctx ev (NewHandler e) r params body"
  obtain req where req: "newRequest (ev_populate ev) (ev_new ev) e ?ctx r params ?codec = Inr req" "replies req = ms"
    using assms(6) by blast
  have auth: "authorizeStream (NewHandler e) ?ctx = (None, ?ctx)"
    by (simp add: authorizeStream_cases assms(2))
  have "ServeHTTPWithParams ev (NewHandler e) r params s =
      snd (send_all (writer_stream (sse_Send (ev_lib ev) (ev_asEvent ev) ?codec)) ms
        (on_writer (\<lambda>w. WriteHeader 200 (update_header sse_headers w)) s))"
    using assms(1,3-5,8,9)
    by (simp add: ServeHTTPWithParams_def assms(7) serveServerStream_def auth req wrapStream_def
        NewServerStreamAdapter_def Let_def)
  then show ?thesis by (simp add: send_all_writer_stream on_writer_def split: prod.split)
qed

lemma codecFromRequest_sent:
  assumes "codec \<in> {JSONCodec, ProtoCodec}"
    and "out_Header r = header_set (header_set h HeaderContentType (Name codec)) HeaderAccept a"
  shows "codecFromRequest (received ctx path r) None = codec"
proof -
  have "CodecForContentType (Name codec) = codec"
    using assms(1) by (elim insertE emptyE) (simp only:, code_simp)+
  moreover have "map_of (out_Header r) HeaderContentType = Some [Name codec]"
    using canonical_names(1,2) by (simp add: assms(2) header_set_def)
  moreover have "header_get (out_Header r) HeaderContentType = Name codec"
    by (simp add: assms(2) header_get_set_other)
  ultimately show ?thesis by (simp add: codecFromRequest_def received_def)
qed

lemma drain_body:
  "drain n (\<lambda>s. let (r, b) = f (cc_body s) in (r, s\<lparr>cc_body := b\<rparr>)) s = drain n f (cc_body s)"
proof (induction n arbitrary: s)
  case (Suc n)
  obtain r b where "f (cc_body s) = (r, b)" by fastforce
  with Suc.IH [of "s\<lparr>cc_body := b\<rparr>"] show ?case by (cases r) simp_all
qed simp

text \<open>
  C16. A server stream from the handler to the caller: whatever the handler sends in answer to the request the client
  opens the stream with, events with their fields included, the caller receives in order, each message once, and then
  the end of the stream. Client and server negotiate JSON or protobuf by the request's header, and the codec reads
  back what it writes.
\<close>

theorem server_stream_end_to_end:
  fixes ev :: "('f gval, 'd) env" and e :: "('c, 'f gval, 'd, 'd conn_state) Operation"
  assumes client: "apply_options opts (cb_cfg c) = cfg" "cfg_codec cfg = codec" "codec \<in> {JSONCodec, ProtoCodec}" "cfg_serverStreamTransport cfg = ServerStreamSSE"
      "cfg_streamInterceptors cfg = []" "cfg_httpClient cfg = served ev e ctx rpath params conn"
      "headers_ok (cfg_headers cfg)" "HeaderUpgrade \<notin> fst ` set (cfg_headers cfg)"
    and request: "SubstitutePathParams (ce_go E) (ce_types E) template (Some msg) = (Inr path :: 'd goerror + string)"
      "Marshal (ce_lib E) codec msg = Inr data" "ce_badRequest E verb (cb_baseURL c @ path) = None"
    and server: "op_streamType e = StreamTypeServer" "op_interceptors e = []" "op_streamInterceptors e = []"
      "op_hasNewRequest e" "op_serverStream e = Some (\<lambda>ctx req stream s. send_all (Send stream) (replies req) s)"
      "\<And>ctx r. mBody (Ctx_Meta ctx) = Some data \<Longrightarrow>
         \<exists>req. newRequest (ev_populate ev) (ev_new ev) e ctx r params codec = Inr req \<and> replies req = ms"
      "cn_flusher conn" "fresh_writer (cn_writer conn)"
    and messages: "ev_lib ev = ce_lib E"
      "list_all (\<lambda>m. event_ok (ev_asEvent ev) m \<and>
         carries (ce_lib E) codec (new_message E msgTyp) (event_data (ev_asEvent ev) m)) ms"
  shows "\<exists>stream s'. DoServerStream E c cctx verb template (Some msg) msgTyp opts s () = Some (Inr stream, s', ()) \<and>
    drain (Suc (length ms)) (ssc_Receive stream) s' = (map (event_data (ev_asEvent ev)) ms, Some EOF)"
proof -
  let ?out = "with_headers (cfg_headers cfg) [(HeaderContentType, Name codec), (HeaderAccept, ContentTypeEventStream)]
      \<lparr>out_Method = (if verb = [] then ''GET'' else verb), out_URL = cb_baseURL c @ path, out_Header = [], out_Body = Some data\<rparr>"
  let ?r = "received ctx rpath ?out :: ('c, 'd) HttpRequest"
  let ?sent = "ServeHTTPWithParams ev (NewHandler e) ?r params conn"
  let ?w = "WriteHeader 200 (update_header sse_headers (cn_writer conn))"
  let ?send = "sse_Send (ce_lib E) (ev_asEvent ev) codec"
  have "rq_Query ?r = None" by (simp add: received_def)
  moreover have "codecFromRequest ?r None = codec"
    by (rule codecFromRequest_sent [OF client(3)]) (simp add: with_headers_def)
  ultimately have codec: "codecFromRequest ?r (rq_Query ?r) = codec" by simp
  have "canonical_key HeaderUpgrade = HeaderUpgrade" by code_simp
  then have "header_get (rq_Header ?r) HeaderUpgrade = []"
    using header_values_add_all [OF client(7), of HeaderUpgrade "[]"] client(8)
    by (simp add: received_def with_headers_def header_get_set_other)
      (auto simp: header_get_def header_values_def map_of_eq_None_iff [THEN iffD2])
  then have plain: "\<not> isWebSocketUpgrade ?r" by (simp add: isWebSocketUpgrade_def) code_simp
  have body: "read_body (NewHandler e) ?r = Inr (Some data)"
    by (simp add: read_body_def server(1) received_def with_headers_def)
  have w: "w_left ?w = None" "w_body ?w = []" "w_sent ?w = Some (200, w_header ?w)"
    using server(8) by (simp_all add: fresh_writer_def WriteHeader_def update_header_def)
  from sse_stream_roundtrip [OF messages(2) w(1,2)] obtain w' where w':
    "send_all ?send ms ?w = (None, w')"
    "drain (Suc (length ms)) (sse_Receive (ce_lib E) codec (new_message E msgTyp)) \<lparr>rd_bytes = w_body w', rd_end = EOF\<rparr> =
      (map (event_data (ev_asEvent ev)) ms, Some (EOF :: 'd goerror))" by blast
  have "\<exists>req. newRequest (ev_populate ev) (ev_new ev) e (request_ctx ev (NewHandler e) ?r params (Some data)) ?r params
      (codecFromRequest ?r (rq_Query ?r)) = Inr req \<and> replies req = ms"
    unfolding codec by (rule server(6)) (simp add: request_ctx_meta)
  from serve_sends [OF server(1-5) this body plain server(7)] have "cn_writer ?sent = w'"
    unfolding codec messages(1) w'(1) by simp
  moreover have "w_sent w' = Some (200, w_header ?w)" using send_all_sent [OF w(3), of _ _ _ ms] w'(1) by (metis snd_conv)
  ultimately have answer: "served ev e ctx rpath params conn cctx ?out () =
      (Inr (\<lparr>resp_StatusCode = 200, resp_Status = ''200 OK'', resp_Header = w_header ?w, resp_Body = w_body w'\<rparr>, None), ())"
    by (simp add: served_def response_of_def)
  let ?s = "s\<lparr>cc_body := \<lparr>rd_bytes = w_body w', rd_end = EOF\<rparr>\<rparr>"
  have "DoServerStream E c cctx verb template (Some msg) msgTyp opts s () =
      Some (Inr (sseClientStream E codec msgTyp), ?s, ())"
    using client request answer
    by (simp add: DoServerStream_def server_stream_request_def encode_message_def
        http_NewRequest_def intercept_server_def Let_def)
  moreover have "drain (Suc (length ms)) (ssc_Receive (sseClientStream E codec msgTyp)) ?s =
      (map (event_data (ev_asEvent ev)) ms, Some EOF)"
    using w'(2) unfolding sseClientStream_def ServerStreamClient.simps drain_body by simp
  ultimately show ?thesis by blast
qed

section \<open>Instances\<close>

definition idle_conn :: "string clientConn" where
  "idle_conn =
     \<lparr>cc_body = \<lparr>rd_bytes = [], rd_end = EOF\<rparr>, cc_nd = new_ndjson,
      cc_ws = \<lparr>ws_in = [], ws_end = EOF, ws_out = [], ws_close = None, ws_werror = None\<rparr>, cc_hung = False\<rparr>"

lemma wsURL_negotiation_witness:
  "\<exists>i. index_byte (wsURL ''https://api'' ''/chat'' ''application/xml'') CHR ''?'' = Some i \<and>
     codecFromRequest text_request (Some (ParseQuery (drop (Suc i) (wsURL ''https://api'' ''/chat'' ''application/xml'')))) = JSONCodec"
  using wsURL_negotiation [of "''https://api''" "''/chat''" XMLCodec text_request] by simp

lemma streams_ignore_unary_options_witness:
  "DoBidiStream book_env book_client no_ctx ''/chat'' TString ([] @ [WithTimeout 1]) idle_conn [] =
   DoBidiStream book_env book_client no_ctx ''/chat'' TString [] idle_conn []"
  using streams_ignore_unary_options [of "WithTimeout 1" 1 0 "[]" calm_clock patient book_env book_client no_ctx
      "''GET''" "''/chat''" None TString "[]" idle_conn "[]" TString TString] by simp

definition letter_lib :: "unit gval serializers" where
  \<comment> \<open>texts are written in quotes\<close>
  "letter_lib = gval_lib
     \<lparr>jsonMarshal := \<lambda>v. (case v of VString s \<Rightarrow> Inr (CHR 0x22 # s @ [CHR 0x22]) | _ \<Rightarrow> Inl ''not a text''),
      jsonUnmarshal := \<lambda>d v. (None, VString (butlast (tl d)))\<rparr>"

definition letter_env :: "(unit, unit, string, unit) client_env" where
  "letter_env =
     \<lparr>ce_lib = letter_lib, ce_go = no_lib, ce_types = book_types, ce_wire = std_wire, ce_json = members_read,
      ce_clock = calm_clock, ce_DefaultClient = \<lambda>ctx r n. (Inl EOF, n), ce_badRequest = \<lambda>m u. None,
      ce_formatRFC3339 = \<lambda>t. [], ce_Dial = \<lambda>hc h u ctx n. (Inl (PlainError ''no dial''), n), ce_buffered = \<lambda>b. 0\<rparr>"

definition letter_server :: "(unit gval, string) env" where
  "letter_server =
     \<lparr>ev_lib = letter_lib, ev_wire = std_wire, ev_json = members_text,
      ev_populate = \<lambda>m ps hs q b c. (None, m), ev_extractField = \<lambda>m f. Inr m, ev_new = \<lambda>t. VString [],
      ev_asEvent = \<lambda>m. None, ev_rfc3339 = \<lambda>s. None, ev_now = 0\<rparr>"

definition letters :: "(unit, unit gval, string, string conn_state) Operation" where
  "letters = empty_operation
     \<lparr>op_streamType := StreamTypeServer, op_hasNewRequest := True,
      op_serverStream := Some (\<lambda>ctx req stream s. send_all (Send stream) [VString ''one'', VString ''two''] s)\<rparr>"

definition letter_client :: "(unit, unit, string, unit) ClientBase" where
  "letter_client = NewClientBase letter_env ''http://letters''
     [WithHTTPClient (served letter_server letters no_ctx ''/letters'' None text_conn)]"

lemma letter_client_sel [simp]:
  "cfg_codec (cb_cfg letter_client) = JSONCodec" "cfg_serverStreamTransport (cb_cfg letter_client) = ServerStreamSSE"
  "cfg_streamInterceptors (cb_cfg letter_client) = []" "cfg_headers (cb_cfg letter_client) = []"
  "cfg_httpClient (cb_cfg letter_client) = served letter_server letters no_ctx ''/letters'' None text_conn"
  "ce_badRequest letter_env mt u = None" "ce_lib letter_env = letter_lib" "ev_lib letter_server = letter_lib"
  "ev_asEvent letter_server m = None" "ev_populate letter_server m ps hs q b cd = (None, m)"
  by (simp_all add: letter_client_def NewClientBase_def apply_options_def defaultClientConfig_def WithHTTPClient_def
      letter_env_def letter_server_def)

lemma letters_sel [simp]:
  "op_streamType letters = StreamTypeServer" "op_interceptors letters = []" "op_streamInterceptors letters = []"
  "op_hasNewRequest letters" "op_requestBuilder letters = None"
  "op_serverStream letters = Some (\<lambda>ctx req stream s. send_all (Send stream) [VString ''one'', VString ''two''] s)"
  by (simp_all add: letters_def empty_operation_def)

lemma letter_carries:
  "list_all printing s \<Longrightarrow> carries letter_lib JSONCodec v (VString s)"
  by (auto simp: carries_def letter_lib_def gval_lib_def framed_def list_all_iff printing_def byte_in_def)

lemma server_stream_end_to_end_witness:
  "\<exists>stream s'. DoServerStream letter_env letter_client no_ctx ''POST'' ''/letters'' (Some (VString ''please'')) TString [] idle_conn () =
      Some (Inr stream, s', ()) \<and>
    drain 3 (ssc_Receive stream) s' = ([VString ''one'', VString ''two''], Some (EOF :: string goerror))"
proof -
  have "\<exists>req. newRequest (ev_populate letter_server) (ev_new letter_server) letters ctx r None JSONCodec = Inr req \<and>
      [VString ''one'', VString ''two''] = [VString ''one'', VString ''two'']" for ctx r
    by (simp add: newRequest_def Let_def)
  moreover have "SubstitutePathParams (ce_go letter_env) (ce_types letter_env) ''/letters'' (Some (VString ''please'')) =
      (Inr ''/letters'' :: string goerror + string)"
    by (simp add: SubstitutePathParams_def SubstitutePathParamsBound_def struct_behind_def)
  moreover have "Marshal letter_lib JSONCodec (VString ''please'') = Inr (CHR 0x22 # ''please'' @ [CHR 0x22])"
    by (simp add: letter_lib_def gval_lib_def)
  moreover have "cn_flusher text_conn" "fresh_writer (cn_writer text_conn)"
    by (simp_all add: text_conn_def plain_writer_def fresh_writer_def)
  ultimately show ?thesis
    using server_stream_end_to_end [where E = letter_env and c = letter_client and opts = "[]" and codec = JSONCodec
        and ev = letter_server and e = letters and ctx = no_ctx and rpath = "''/letters''" and params = None
        and conn = text_conn and template = "''/letters''" and path = "''/letters''" and msg = "VString ''please''"
        and verb = "''POST''" and msgTyp = TString and ms = "[VString ''one'', VString ''two'']"
        and s = idle_conn and replies = "\<lambda>req. [VString ''one'', VString ''two'']" and cctx = no_ctx]
    by (simp add: apply_options_def headers_ok_def letter_carries event_ok_def event_data_def printing_def byte_in_def
        eval_nat_numeral)
qed

end
