(* ===== verification/Descriptors.thy ===== *)
theory Descriptors
  imports Pattern "HOL-Library.Char_ord" "HOL-Library.List_Lexorder"
begin

text \<open>
  The logic of the code generator \<open>protoc-gen-zararpc\<close> that decides what is generated: HTTP rules and their
  validation (\<open>main.go\<close>, \<open>validate.go\<close>), path parameters and field paths (\<open>path.go\<close>), custom struct tags
  (\<open>generate.go\<close>, \<open>patch.go\<close>), and the names of what it emits (\<open>endpoint.go\<close>, \<open>handler.go\<close>).

  Descriptors are records with what the generator reads of them. Messages refer to each other by name, and a
  table \<open>M\<close> gives the message of a name. \<open>QualifiedGoIdent\<close> of the plugin library is a parameter \<open>Q\<close>: from an
  import path and a name, the name as the generated file writes it. The tag library is a parameter too. An error is its
  text, where the verb \<open>%q\<close> prints its argument as it is.
\<close>

datatype pkind =
    BoolKind | EnumKind | Int32Kind | Sint32Kind | Sfixed32Kind | Int64Kind | Sint64Kind | Sfixed64Kind
  | Uint32Kind | Fixed32Kind | Uint64Kind | Fixed64Kind | FloatKind | DoubleKind | StringKind | BytesKind
  | MessageKind | GroupKind

record goident =
  gi_path :: string
  GoName :: string

record pfield =
  pf_Name :: string \<comment> \<open>\<open>Desc.Name()\<close>\<close>
  pf_GoName :: string
  pf_GoIdent :: goident
  pf_Kind :: pkind
  pf_IsList :: bool
  pf_Message :: "string option" \<comment> \<open>the name of the field's message type\<close>
  pf_InOneof :: bool
  pf_Optional :: bool \<comment> \<open>\<open>Desc.HasOptionalKeyword()\<close>\<close>
  pf_Tags :: "string option" \<comment> \<open>the option \<open>zara.options.tags\<close>\<close>

record poneof =
  po_GoName :: string
  po_Tags :: "string option" \<comment> \<open>the option \<open>zara.options.oneof_tags\<close>\<close>

record pmessage =
  pm_Name :: string
  pm_GoIdent :: goident
  pm_Fields :: "pfield list"
  pm_Oneofs :: "poneof list"

type_synonym messages = "string \<Rightarrow> pmessage"

datatype message_tree = MessageTree pmessage "message_tree list" \<comment> \<open>a message with those declared inside it\<close>

text \<open>The annotation \<open>google.api.http\<close>.\<close>

datatype rule_pattern = GetRule string | PutRule string | PostRule string | DeleteRule string | PatchRule string
  | CustomRule string string | NoRule

datatype HttpRule = HttpRule (rule_pattern: rule_pattern) (rule_body: string) (rule_response: string) (rule_more: "HttpRule list")

record httpRule =
  hr_method :: string
  hr_path :: string
  hr_body :: string
  hr_responseBody :: string

record pmethod =
  pd_Name :: string
  pd_GoName :: string
  pd_Input :: string
  pd_Output :: string
  pd_StreamingClient :: bool
  pd_StreamingServer :: bool
  pd_http :: "HttpRule option"

record pservice =
  ps_Name :: string
  ps_FullName :: string
  ps_GoName :: string
  ps_Methods :: "pmethod list"

record pfile =
  pl_Path :: string
  pl_Prefix :: string \<comment> \<open>\<open>GeneratedFilenamePrefix\<close>\<close>
  pl_Generate :: bool
  pl_GoPackageName :: string
  pl_Services :: "pservice list"
  pl_Messages :: "message_tree list"

section \<open>HTTP rules\<close>

definition ruleFromHTTPRule :: "HttpRule \<Rightarrow> httpRule" where
  "ruleFromHTTPRule rule =
     (let http = (\<lambda>method path. \<lparr>hr_method = method, hr_path = path, hr_body = rule_body rule,
                    hr_responseBody = rule_response rule\<rparr>)
      in case rule_pattern rule of
           GetRule path \<Rightarrow> http ''GET'' path
         | PutRule path \<Rightarrow> http ''PUT'' path
         | PostRule path \<Rightarrow> http ''POST'' path
         | DeleteRule path \<Rightarrow> http ''DELETE'' path
         | PatchRule path \<Rightarrow> http ''PATCH'' path
         | CustomRule kind path \<Rightarrow> http kind path
         | NoRule \<Rightarrow> \<lparr>hr_method = [], hr_path = [], hr_body = [], hr_responseBody = []\<rparr>)"

definition extractHTTPRules :: "pmethod \<Rightarrow> httpRule list" where
  \<comment> \<open>an extension of another type cannot occur: the annotation's type is fixed\<close>
  "extractHTTPRules m =
     (case pd_http m of
        None \<Rightarrow> []
      | Some rule \<Rightarrow> ruleFromHTTPRule rule # map ruleFromHTTPRule (rule_more rule))"

definition firstHTTPRule :: "pmethod \<Rightarrow> httpRule option" where
  \<comment> \<open>\<open>None\<close> is the panic\<close>
  "firstHTTPRule m = (case extractHTTPRules m of [] \<Rightarrow> None | r # rs \<Rightarrow> Some r)"

definition streamMode :: "pmethod \<Rightarrow> string" where
  "streamMode m =
     (if pd_StreamingServer m \<and> pd_StreamingClient m then ''bidi''
      else if pd_StreamingServer m then ''server''
      else if pd_StreamingClient m then ''client''
      else ''unary'')"

section \<open>Qualified names\<close>

type_synonym qualifier = "string \<Rightarrow> string \<Rightarrow> string"

definition ident :: "qualifier \<Rightarrow> goident \<Rightarrow> string" where
  \<comment> \<open>\<open>g.QualifiedGoIdent\<close>\<close>
  "ident Q x = Q (gi_path x) (GoName x)"

definition codesImport :: string where "codesImport = ''github.com/aldok10/zara-rpc/codes''"
definition statusImport :: string where "statusImport = ''github.com/aldok10/zara-rpc/status''"
definition encodingImport :: string where "encodingImport = ''github.com/aldok10/zara-rpc/encoding''"
definition metadataImport :: string where "metadataImport = ''github.com/aldok10/zara-rpc/metadata''"
definition peerImport :: string where "peerImport = ''github.com/aldok10/zara-rpc/peer''"
definition runtimeImport :: string where "runtimeImport = ''github.com/aldok10/zara-rpc/runtime''"
definition kernelImport :: string where "kernelImport = ''github.com/aldok10/zara-rpc/kernel''"
definition routingImport :: string where "routingImport = ''github.com/aldok10/zara-rpc/routing''"
definition clientImport :: string where "clientImport = ''github.com/aldok10/zara-rpc/client''"
definition contextImport :: string where "contextImport = ''context''"
definition httpImport :: string where "httpImport = ''net/http''"
definition reflectImport :: string where "reflectImport = ''reflect''"
definition ioImport :: string where "ioImport = ''io''"
definition grpcImport :: string where "grpcImport = ''google.golang.org/grpc''"
definition grpcMetadataImport :: string where "grpcMetadataImport = ''google.golang.org/grpc/metadata''"
definition grpcbridgeImport :: string where "grpcbridgeImport = ''github.com/aldok10/zara-rpc/grpcbridge''"

definition q :: "qualifier \<Rightarrow> string \<Rightarrow> string \<Rightarrow> string" where
  "q Q path nm = Q path nm"

definition owner :: "string \<Rightarrow> string" where
  \<comment> \<open>the package of a framework symbol\<close>
  "owner nm =
     (if nm \<in> {''Code'', ''CodeOK'', ''CodeCanceled'', ''CodeUnknown'', ''CodeInvalidArgument'', ''CodeDeadlineExceeded'',
          ''CodeNotFound'', ''CodeAlreadyExists'', ''CodePermissionDenied'', ''CodeResourceExhausted'',
          ''CodeFailedPrecondition'', ''CodeAborted'', ''CodeOutOfRange'', ''CodeUnimplemented'', ''CodeInternal'',
          ''CodeUnavailable'', ''CodeDataLoss'', ''CodeUnauthenticated'', ''CodeFromString''} then codesImport
      else if nm \<in> {''NewError'', ''NewErrorf'', ''FromError'', ''FromHTTP'', ''FromGRPCStatus''} then statusImport
      else if nm \<in> {''Codec'', ''Decoder'', ''Encoder'', ''JSONCodec'', ''JSONV2Codec'', ''XMLCodec'', ''ProtoCodec'',
          ''ForName'', ''CodecForContentType'', ''CodecForRequest''} then encodingImport
      else if nm \<in> {''RequestMeta'', ''WithRequestMeta'', ''RequestMetaFromContext'', ''HeaderFromContext'',
          ''QueryFromContext'', ''BodyFromContext'', ''CookiesFromContext'', ''CookieFromContext'', ''HeaderPairs'',
          ''HeaderPairsFromMeta''} then metadataImport
      else if nm \<in> {''Peer'', ''WithPeer'', ''PeerFromContext''} then peerImport
      else if nm \<in> {''PathString'', ''PathBool'', ''PathInt32'', ''PathInt64'', ''PathUint32'', ''PathUint64'',
          ''PathFloat32'', ''PathFloat64'', ''PathBytes'', ''PathStringSlice'', ''PathInt64Slice''} then runtimeImport
      else if nm = ''Mux'' then routingImport
      else if nm \<in> {''NewService'', ''Operation'', ''OperationBuilder''} then kernelImport
      else if nm \<in> {''ClientOption'', ''ClientBase'', ''NewClientBase'', ''WithCodec'', ''WithHTTPClient'', ''WithHeader'',
          ''ServerStreamTransport'', ''ServerStreamSSE'', ''ServerStreamWebSocket'', ''WithServerStreamTransport'',
          ''ServerStreamClient'', ''ClientStreamClient'', ''BidiStreamClient'', ''ServerStreamForClient'',
          ''ClientStreamForClient'', ''BidiStreamForClient'', ''DialWebSocket''} then clientImport
      else runtimeImport)"

definition sym :: "qualifier \<Rightarrow> string \<Rightarrow> string" where
  "sym Q nm = q Q (owner nm) nm"

definition strconvQuote :: "string \<Rightarrow> string" where
  "strconvQuote s = [CHR 0x22] @ s @ [CHR 0x22]"

definition httpMethodConst :: "qualifier \<Rightarrow> string \<Rightarrow> string" where
  "httpMethodConst Q verb =
     (if verb = ''GET'' then q Q httpImport ''MethodGet''
      else if verb = ''POST'' then q Q httpImport ''MethodPost''
      else if verb = ''PUT'' then q Q httpImport ''MethodPut''
      else if verb = ''DELETE'' then q Q httpImport ''MethodDelete''
      else if verb = ''PATCH'' then q Q httpImport ''MethodPatch''
      else if verb = ''HEAD'' then q Q httpImport ''MethodHead''
      else if verb = ''OPTIONS'' then q Q httpImport ''MethodOptions''
      else strconvQuote verb)"

section \<open>Names\<close>

definition operationFnName :: "string \<Rightarrow> string \<Rightarrow> nat \<Rightarrow> string" where
  "operationFnName svcName methodName idx =
     (if idx = 0 then ''Register_'' @ methodName else ''Register_'' @ methodName @ ''_'' @ format_nat idx)"

definition rpcNameConstName :: "string \<Rightarrow> string \<Rightarrow> string" where
  "rpcNameConstName svcName methodName = svcName @ ''_'' @ methodName @ ''_Method''"

definition pathConstName :: "string \<Rightarrow> string \<Rightarrow> nat \<Rightarrow> string" where
  "pathConstName svcName methodName idx =
     (if idx = 0 then svcName @ ''_'' @ methodName @ ''_Path''
      else svcName @ ''_'' @ methodName @ ''_Path_'' @ format_nat idx)"

definition requestBuilderName :: "string \<Rightarrow> string \<Rightarrow> nat \<Rightarrow> string" where
  "requestBuilderName svcName methodName idx = ''request_'' @ svcName @ ''_'' @ methodName @ ''_'' @ format_nat idx"

section \<open>Path parameters and field paths\<close>

record pathParam =
  pp_name :: string
  pp_path :: string

function path_params :: "string \<Rightarrow> string \<Rightarrow> string + pathParam list" where
  \<comment> \<open>the loop of \<open>pathParamsFor\<close>, on the rest of the template\<close>
  "path_params template rest =
     (case index_byte rest CHR ''{'' of
        None \<Rightarrow> Inr []
      | Some start \<Rightarrow>
          (case index_byte (drop start rest) CHR ''}'' of
             None \<Rightarrow> Inl (''unclosed brace in '' @ template)
           | Some e \<Rightarrow>
               (let inn = take (e - 1) (drop (start + 1) rest);
                    nm = (case index_byte inn CHR ''='' of Some eq \<Rightarrow> take eq inn | None \<Rightarrow> inn)
                in case path_params template (drop (start + e + 1) rest) of
                     Inl err \<Rightarrow> Inl err
                   | Inr ps \<Rightarrow> Inr (\<lparr>pp_name = nm, pp_path = nm\<rparr> # ps))))"
  by pat_completeness auto
termination
  by (relation "measure (\<lambda>(template, rest). length rest)") (auto dest!: index_byte_Some)

declare path_params.simps [simp del]

definition pathParamsFor :: "string \<Rightarrow> string + pathParam list" where
  "pathParamsFor template = path_params template template"

type_synonym fieldPath = "pfield list"

fun resolve_parts :: "messages \<Rightarrow> pmessage \<Rightarrow> string list \<Rightarrow> string + fieldPath" where
  "resolve_parts M cur [] = Inr []"
| "resolve_parts M cur (part # parts) =
     (case find (\<lambda>f. pf_Name f = part) (pm_Fields cur) of
        None \<Rightarrow> Inl (''field '' @ part @ '' not found in message '' @ pm_Name cur)
      | Some f \<Rightarrow>
          (case resolve_parts M (case pf_Message f of Some m \<Rightarrow> M m | None \<Rightarrow> cur) parts of
             Inl e \<Rightarrow> Inl e
           | Inr fp \<Rightarrow> Inr (f # fp)))"

definition resolveFieldPath :: "messages \<Rightarrow> pmessage \<Rightarrow> string \<Rightarrow> string + fieldPath" where
  "resolveFieldPath M msg path = resolve_parts M msg (split_byte path CHR ''.'')"

definition goExpr :: "fieldPath \<Rightarrow> string \<Rightarrow> string" where
  "goExpr fp prefix = fold (\<lambda>f e. e @ ''.'' @ pf_GoName f) fp prefix"

fun prep_stmts :: "qualifier \<Rightarrow> messages \<Rightarrow> fieldPath \<Rightarrow> string \<Rightarrow> string list" where
  "prep_stmts Q M [] e = []"
| "prep_stmts Q M (f # fp) e =
     (let e = e @ ''.'' @ pf_GoName f
      in (case pf_Message f of
            Some m \<Rightarrow> [''if '' @ e @ '' == nil {'', e @ '' = &'' @ ident Q (pm_GoIdent (M m)) @ ''{}'', ''}'']
          | None \<Rightarrow> []) @ prep_stmts Q M fp e)"

definition prepStatements :: "qualifier \<Rightarrow> messages \<Rightarrow> fieldPath \<Rightarrow> string \<Rightarrow> string list" where
  "prepStatements Q M fp prefix = prep_stmts Q M (butlast fp) prefix"

definition converterFor :: "qualifier \<Rightarrow> pfield \<Rightarrow> string + string \<times> string" where
  \<comment> \<open>the converter, which the callers qualify with \<open>sym\<close>, and the Go type of its result\<close>
  "converterFor Q f =
     (let kind = pf_Kind f; repeated = pf_IsList f
      in if kind = EnumKind \<and> \<not> repeated then Inr (''PathInt32'', ident Q (pf_GoIdent f))
         else case kind of
           StringKind \<Rightarrow> if repeated then Inr (''PathStringSlice'', ''[]string'') else Inr (''PathString'', ''string'')
         | BoolKind \<Rightarrow> Inr (''PathBool'', ''bool'')
         | Int32Kind \<Rightarrow> Inr (''PathInt32'', ''int32'')
         | Sint32Kind \<Rightarrow> Inr (''PathInt32'', ''int32'')
         | Sfixed32Kind \<Rightarrow> Inr (''PathInt32'', ''int32'')
         | Int64Kind \<Rightarrow> if repeated then Inr (''PathInt64Slice'', ''[]int64'') else Inr (''PathInt64'', ''int64'')
         | Sint64Kind \<Rightarrow> if repeated then Inr (''PathInt64Slice'', ''[]int64'') else Inr (''PathInt64'', ''int64'')
         | Sfixed64Kind \<Rightarrow> if repeated then Inr (''PathInt64Slice'', ''[]int64'') else Inr (''PathInt64'', ''int64'')
         | Uint32Kind \<Rightarrow> Inr (''PathUint32'', ''uint32'')
         | Fixed32Kind \<Rightarrow> Inr (''PathUint32'', ''uint32'')
         | Uint64Kind \<Rightarrow> Inr (''PathUint64'', ''uint64'')
         | Fixed64Kind \<Rightarrow> Inr (''PathUint64'', ''uint64'')
         | FloatKind \<Rightarrow> Inr (''PathFloat32'', ''float32'')
         | DoubleKind \<Rightarrow> Inr (''PathFloat64'', ''float64'')
         | BytesKind \<Rightarrow> Inr (''PathBytes'', ''[]byte'')
         | _ \<Rightarrow> Inl (''unsupported path param type for field '' @ pf_Name f))"

section \<open>Validation\<close>

fun verb_colon :: "nat \<Rightarrow> int \<Rightarrow> string \<Rightarrow> nat option" where
  "verb_colon i depth [] = None"
| "verb_colon i depth (c # cs) =
     (if c = CHR ''{'' then verb_colon (Suc i) (depth + 1) cs
      else if c = CHR ''}'' then verb_colon (Suc i) (depth - 1) cs
      else if c = CHR '':'' \<and> depth = 0 then Some i
      else verb_colon (Suc i) depth cs)"

definition findVerbColon :: "string \<Rightarrow> nat option" where
  \<comment> \<open>\<open>None\<close> is -1\<close>
  "findVerbColon path = verb_colon 0 0 path"

definition validateVerbPlacement :: "httpRule \<Rightarrow> string option" where
  "validateVerbPlacement rule =
     (case findVerbColon (hr_path rule) of
        None \<Rightarrow> None
      | Some colon \<Rightarrow>
          (let verb = drop (Suc colon) (hr_path rule)
           in if contains_byte verb CHR ''/'' then Some ''custom verb must be the final segment of the path''
              else if verb = [] then Some ''empty custom verb''
              else if contains_byte verb CHR '':'' then Some ''multiple custom verbs''
              else if contains_byte verb CHR ''{'' \<or> contains_byte verb CHR ''}'' then
                Some ''custom verb must not contain braces''
              else None))"

definition rule_where :: "pservice \<Rightarrow> pmethod \<Rightarrow> httpRule \<Rightarrow> string" where
  "rule_where svc m rule =
     ps_Name svc @ ''.'' @ pd_Name m @ '' ('' @ hr_method rule @ '' '' @ hr_path rule @ '')''"

definition validate_rule :: "messages \<Rightarrow> pservice \<Rightarrow> pmethod \<Rightarrow> httpRule \<Rightarrow> string option" where
  \<comment> \<open>one pass of the loop over the rules, but for duplicates\<close>
  "validate_rule M svc m rule =
     (case validateVerbPlacement rule of
        Some e \<Rightarrow> Some (rule_where svc m rule @ '': '' @ e)
      | None \<Rightarrow>
          if hr_responseBody rule \<noteq> [] then
            (case resolveFieldPath M (M (pd_Output m)) (hr_responseBody rule) of
               Inl e \<Rightarrow> Some (rule_where svc m rule @ '': response_body '' @ hr_responseBody rule @ '': '' @ e)
             | Inr _ \<Rightarrow> None)
          else None)"

fun validate_rules :: "messages \<Rightarrow> pservice \<Rightarrow> pmethod \<Rightarrow> httpRule list \<Rightarrow> (string \<rightharpoonup> string) \<Rightarrow> string option" where
  \<comment> \<open>the loop over the rules of a method, with the map \<open>seen\<close>\<close>
  "validate_rules M svc m [] seen = None"
| "validate_rules M svc m (rule # rules) seen =
     (case validate_rule M svc m rule of
        Some e \<Rightarrow> Some e
      | None \<Rightarrow>
          (let key = hr_method rule @ '' '' @ hr_path rule
           in case seen key of
                Some prev \<Rightarrow>
                  Some (rule_where svc m rule @ '': duplicate binding '' @ key @ '' (also declared by '' @ prev @ '')'')
              | None \<Rightarrow> validate_rules M svc m rules (seen(key \<mapsto> rule_where svc m rule))))"

definition first_error :: "('a \<Rightarrow> 'e option) \<Rightarrow> 'a list \<Rightarrow> 'e option" where
  "first_error f xs = (case List.map_filter f xs of [] \<Rightarrow> None | e # _ \<Rightarrow> Some e)"

definition validateHTTPRules :: "messages \<Rightarrow> pfile \<Rightarrow> string option" where
  "validateHTTPRules M file =
     first_error (\<lambda>svc. first_error (\<lambda>m. validate_rules M svc m (extractHTTPRules m) Map.empty) (ps_Methods svc))
       (pl_Services file)"

section \<open>Custom struct tags\<close>

type_synonym tagOverlay = "string \<rightharpoonup> (string \<rightharpoonup> string)"

definition set_tag :: "string \<Rightarrow> string \<Rightarrow> string \<Rightarrow> tagOverlay \<Rightarrow> tagOverlay" where
  "set_tag name field tag overlay =
     overlay(name \<mapsto> (case overlay name of Some m \<Rightarrow> m | None \<Rightarrow> Map.empty)(field \<mapsto> tag))"

definition tag_of :: "string option \<Rightarrow> string" where
  \<comment> \<open>\<open>customTag\<close>, \<open>oneofTag\<close>\<close>
  "tag_of t = (case t of Some s \<Rightarrow> s | None \<Rightarrow> [])"

definition field_tag :: "pmessage \<Rightarrow> pfield \<Rightarrow> tagOverlay \<Rightarrow> tagOverlay" where
  "field_tag msg f overlay =
     (if tag_of (pf_Tags f) = [] then overlay
      else set_tag (if pf_InOneof f \<and> \<not> pf_Optional f then GoName (pm_GoIdent msg) @ ''_'' @ pf_GoName f else GoName (pm_GoIdent msg))
             (pf_GoName f) (tag_of (pf_Tags f)) overlay)"

definition oneof_tag :: "pmessage \<Rightarrow> poneof \<Rightarrow> tagOverlay \<Rightarrow> tagOverlay" where
  "oneof_tag msg oneof overlay =
     (if tag_of (po_Tags oneof) = [] then overlay
      else set_tag (GoName (pm_GoIdent msg)) (po_GoName oneof) (tag_of (po_Tags oneof)) overlay)"

fun collect_tree :: "message_tree \<Rightarrow> tagOverlay \<Rightarrow> tagOverlay" where
  "collect_tree (MessageTree msg inn) overlay =
     fold collect_tree inn (fold (oneof_tag msg) (pm_Oneofs msg) (fold (field_tag msg) (pm_Fields msg) overlay))"

definition collectTags :: "pfile \<Rightarrow> tagOverlay" where
  "collectTags file = fold collect_tree (pl_Messages file) Map.empty"

definition goString :: "(string \<Rightarrow> string) \<Rightarrow> string \<Rightarrow> string" where
  \<comment> \<open>\<open>quote\<close> is \<open>strconv.Quote\<close>\<close>
  "goString quote s = (if \<not> contains_byte s CHR 0x60 then [CHR 0x60] @ s @ [CHR 0x60] else quote s)"

text \<open>
  The library \<open>structtag\<close>: parsing a tag string into its tags (key, name and options), storing a tag, and printing.
  \<open>Set\<close> fails on a tag without a key.
\<close>

record 't taglib =
  tag_Parse :: "string \<Rightarrow> string + 't list"
  tag_Key :: "'t \<Rightarrow> string"
  tag_Set :: "'t list \<Rightarrow> 't \<Rightarrow> string + 't list"
  tag_String :: "'t list \<Rightarrow> string"

fun set_all :: "'t taglib \<Rightarrow> 't list \<Rightarrow> 't list \<Rightarrow> string + 't list" where
  "set_all L [] old = Inr old"
| "set_all L (t # ts) old = (case tag_Set L old t of Inl e \<Rightarrow> Inl e | Inr old \<Rightarrow> set_all L ts old)"

definition mergeTags :: "'t taglib \<Rightarrow> string \<Rightarrow> string \<Rightarrow> string + string" where
  \<comment> \<open>the library sorts by key\<close>
  "mergeTags L existing overlay =
     (case tag_Parse L existing of
        Inl e \<Rightarrow> Inl (''parse existing tag '' @ existing @ '': '' @ e)
      | Inr oldTags \<Rightarrow>
          (case tag_Parse L overlay of
             Inl e \<Rightarrow> Inl (''parse overlay tag '' @ overlay @ '': '' @ e)
           | Inr newTags \<Rightarrow> map_sum id (tag_String L) (set_all L (sort_key (tag_Key L) newTags) oldTags)))"

text \<open>
  \<open>patchTags\<close> on the fields of one struct: a field is its names (none for an embedded one) and its tag, and the result
  counts the tags written. Parsing and printing the file around it are \<open>go/ast\<close>'s.
\<close>

record astField =
  af_Names :: "string list"
  af_Tag :: string \<comment> \<open>\<open>tagValue\<close> of the literal\<close>

fun patch_names :: "'t taglib \<Rightarrow> string \<Rightarrow> (string \<rightharpoonup> string) \<Rightarrow> string list \<Rightarrow> string \<Rightarrow> string + string \<times> nat" where
  "patch_names L st ov [] tag = Inr (tag, 0)"
| "patch_names L st ov (nm # nms) tag =
     (case ov nm of
        None \<Rightarrow> patch_names L st ov nms tag
      | Some t \<Rightarrow>
          (case mergeTags L tag t of
             Inl e \<Rightarrow> Inl (''field '' @ st @ ''.'' @ nm @ '': '' @ e)
           | Inr merged \<Rightarrow> map_sum id (map_prod id Suc) (patch_names L st ov nms merged)))"

fun patch_fields :: "'t taglib \<Rightarrow> string \<Rightarrow> (string \<rightharpoonup> string) \<Rightarrow> astField list \<Rightarrow> string + astField list \<times> nat" where
  "patch_fields L st ov [] = Inr ([], 0)"
| "patch_fields L st ov (f # fs) =
     (case patch_names L st ov (af_Names f) (af_Tag f) of
        Inl e \<Rightarrow> Inl e
      | Inr (tag, n) \<Rightarrow>
          (case patch_fields L st ov fs of
             Inl e \<Rightarrow> Inl e
           | Inr (fs, k) \<Rightarrow> Inr (f\<lparr>af_Tag := tag\<rparr> # fs, n + k)))"

fun patch_structs :: "'t taglib \<Rightarrow> tagOverlay \<Rightarrow> (string \<times> astField list) list \<Rightarrow> string + (string \<times> astField list) list \<times> nat" where
  \<comment> \<open>the struct types declared in the file\<close>
  "patch_structs L overlay [] = Inr ([], 0)"
| "patch_structs L overlay ((nm, fs) # sts) =
     (case (case overlay nm of None \<Rightarrow> Inr (fs, 0) | Some ov \<Rightarrow> patch_fields L nm ov fs) of
        Inl e \<Rightarrow> Inl e
      | Inr (fs, n) \<Rightarrow>
          (case patch_structs L overlay sts of
             Inl e \<Rightarrow> Inl e
           | Inr (sts, k) \<Rightarrow> Inr ((nm, fs) # sts, n + k)))"

definition patchTags :: "'t taglib \<Rightarrow> tagOverlay \<Rightarrow> (string \<times> astField list) list \<Rightarrow> string + (string \<times> astField list) list" where
  "patchTags L overlay sts =
     (case patch_structs L overlay sts of
        Inl e \<Rightarrow> Inl e
      | Inr (sts, n) \<Rightarrow> if n = 0 then Inl ''no matching struct fields (stale overlay?)'' else Inr sts)"

end
