(* ===== verification/GenServer.thy ===== *)
theory GenServer
  imports Descriptors
begin

text \<open>
  What \<open>protoc-gen-zararpc\<close> prints for the server side of a service: the methods of the handler interface and the
  request builders (\<open>handler.go\<close>, \<open>path.go\<close>), and the constructors of operations (\<open>endpoint.go\<close>).

  A call of \<open>g.P\<close> is a line, the printed text of its arguments. A function that prints without fail gives its lines;
  one that can panic gives an option of them.
\<close>

type_synonym lines = "string list"

fun emit :: "lines option list \<Rightarrow> lines option" where
  \<comment> \<open>one part after the other; \<open>None\<close> is a panic of the plugin\<close>
  "emit [] = Some []"
| "emit (None # ps) = None"
| "emit (Some ls # ps) = map_option ((@) ls) (emit ps)"

definition inputType :: "qualifier \<Rightarrow> messages \<Rightarrow> pmethod \<Rightarrow> string" where
  \<comment> \<open>\<open>g.QualifiedGoIdent(method.Input.GoIdent)\<close>\<close>
  "inputType Q M m = ident Q (pm_GoIdent (M (pd_Input m)))"

definition outputType :: "qualifier \<Rightarrow> messages \<Rightarrow> pmethod \<Rightarrow> string" where
  "outputType Q M m = ident Q (pm_GoIdent (M (pd_Output m)))"

section \<open>Handler interface\<close>

definition generateHandlerMethod :: "qualifier \<Rightarrow> messages \<Rightarrow> string \<Rightarrow> pmethod \<Rightarrow> string \<Rightarrow> bool \<Rightarrow> lines" where
  "generateHandlerMethod Q M svcName m ctxType unimplemented =
     (let inType = ''*'' @ inputType Q M m; outType = ''*'' @ outputType Q M m
      in if streamMode m = ''server'' then
           (let streamType = sym Q ''ServerStream'' @ ''[*'' @ outputType Q M m @ '']''
            in if unimplemented then
                 [''func (Unimplemented'' @ svcName @ ''Handler) '' @ pd_GoName m @ ''('' @ ctxType @ '', '' @ inType @ '', '' @ streamType @ '') error {'',
                  ''return '' @ sym Q ''NewErrorf'' @ ''('' @ sym Q ''CodeUnimplemented'' @ '', \"method '' @ pd_GoName m @ '' not implemented\")'',
                  ''}'',
                  []]
               else [pd_GoName m @ ''('' @ ctxType @ '', '' @ inType @ '', '' @ streamType @ '') error''])
         else if streamMode m = ''client'' then
           (let streamType = sym Q ''ClientStream'' @ ''[*'' @ inputType Q M m @ '']''
            in if unimplemented then
                 [''func (Unimplemented'' @ svcName @ ''Handler) '' @ pd_GoName m @ ''('' @ ctxType @ '', '' @ streamType @ '') ('' @ outType @ '', error) {'',
                  ''return nil, '' @ sym Q ''NewErrorf'' @ ''('' @ sym Q ''CodeUnimplemented'' @ '', \"method '' @ pd_GoName m @ '' not implemented\")'',
                  ''}'',
                  []]
               else [pd_GoName m @ ''('' @ ctxType @ '', '' @ streamType @ '') ('' @ outType @ '', error)''])
         else if streamMode m = ''bidi'' then
           (let streamType = sym Q ''BidiStream'' @ ''[*'' @ inputType Q M m @ '', *'' @ outputType Q M m @ '']''
            in if unimplemented then
                 [''func (Unimplemented'' @ svcName @ ''Handler) '' @ pd_GoName m @ ''('' @ ctxType @ '', '' @ streamType @ '') error {'',
                  ''return '' @ sym Q ''NewErrorf'' @ ''('' @ sym Q ''CodeUnimplemented'' @ '', \"method '' @ pd_GoName m @ '' not implemented\")'',
                  ''}'',
                  []]
               else [pd_GoName m @ ''('' @ ctxType @ '', '' @ streamType @ '') error''])
         else
           if unimplemented then
             [''func (Unimplemented'' @ svcName @ ''Handler) '' @ pd_GoName m @ ''('' @ ctxType @ '', '' @ inType @ '') ('' @ outType @ '', error) {'',
              ''return nil, '' @ sym Q ''NewErrorf'' @ ''('' @ sym Q ''CodeUnimplemented'' @ '', \"method '' @ pd_GoName m @ '' not implemented\")'',
              ''}'',
              []]
           else [pd_GoName m @ ''('' @ ctxType @ '', '' @ inType @ '') ('' @ outType @ '', error)''])"

section \<open>Request builders\<close>

definition boundArgs :: "string list \<Rightarrow> string" where
  \<comment> \<open>of the keys of the map, in any order and with repetitions\<close>
  "boundArgs bound =
     (if bound = [] then []
      else '', '' @ join_with '', '' (map strconvQuote (sorted_list_of_set (set bound))))"

definition genPathParamExtraction :: "qualifier \<Rightarrow> messages \<Rightarrow> pmessage \<Rightarrow> pathParam \<Rightarrow> string \<Rightarrow> lines option" where
  "genPathParamExtraction Q M msg pp prefix =
     (case resolveFieldPath M msg (pp_path pp) of
        Inl e \<Rightarrow> None
      | Inr fp \<Rightarrow>
          (let field = last fp; expr = goExpr fp prefix; kind = pf_Kind field; repeated = pf_IsList field;
               start = [''if v, ok := params['' @ strconvQuote (pp_name pp) @ '']; ok {''] @ prepStatements Q M fp prefix
           in if kind = StringKind \<and> \<not> repeated then
                Some (start @ [expr @ '' = v'',
                       ''}''])
              else
                (case converterFor Q field of
                   Inl e \<Rightarrow> None
                 | Inr (conv, tmpType) \<Rightarrow>
                     (let converter = sym Q conv
                      in Some (start @
                        [''s, err := '' @ converter @ ''(v)'',
                         ''if err != nil {'',
                         ''return nil, '' @ sym Q ''NewErrorf'' @ ''('' @ sym Q ''CodeInvalidArgument'' @ '', \"type mismatch, parameter: '' @ pp_name pp @ '', error: %v\", err)'',
                         ''}''] @
                        (if kind = EnumKind \<and> \<not> repeated then
                           [expr @ '' = '' @ tmpType @ ''(s)'']
                         else [expr @ '' = s'']) @
                        [''}''])))))"

definition builder_body :: "qualifier \<Rightarrow> messages \<Rightarrow> pmethod \<Rightarrow> httpRule \<Rightarrow> lines option" where
  \<comment> \<open>the switch on the body\<close>
  "builder_body Q M m rule =
     (if hr_body rule = ''*'' then
        Some [''// Body: entire request message (buffered by the mux).'',
              ''if err := codec.Unmarshal(meta.Body, msg); err != nil {'',
              ''return nil, '' @ sym Q ''NewErrorf'' @ ''('' @ sym Q ''CodeInvalidArgument'' @ '', \"decode request body: %v\", err)'',
              ''}'',
              []]
      else if hr_body rule = [] then Some []
      else
        (case resolveFieldPath M (M (pd_Input m)) (hr_body rule) of
           Inl e \<Rightarrow> None
         | Inr fp \<Rightarrow>
             (let expr = goExpr fp ''msg''
              in Some ([''// Body: field '' @ strconvQuote (hr_body rule) @ ''.''] @
                prepStatements Q M fp ''msg'' @
                [''if err := codec.Unmarshal(meta.Body, &'' @ expr @ ''); err != nil {'',
                 ''return nil, '' @ sym Q ''NewErrorf'' @ ''('' @ sym Q ''CodeInvalidArgument'' @ '', \"decode request body: %v\", err)'',
                 ''}'',
                 []]))))"

definition builder_params :: "qualifier \<Rightarrow> messages \<Rightarrow> pmethod \<Rightarrow> pathParam list \<Rightarrow> lines option" where
  "builder_params Q M m pathParams =
     (if pathParams = [] then Some []
      else emit ([Some [''// Path parameters.'']] @
        map (\<lambda>pp. genPathParamExtraction Q M (M (pd_Input m)) pp ''msg'') pathParams @ [Some [[]]]))"

definition builder_query :: "qualifier \<Rightarrow> pathParam list \<Rightarrow> httpRule \<Rightarrow> lines" where
  "builder_query Q pathParams rule =
     (if hr_body rule \<noteq> ''*'' then
        (let bound = map pp_name pathParams @ (if hr_body rule \<noteq> [] then [hr_body rule] else [])
         in [''// Query parameters (fields not bound by path or body).'',
             ''if err := '' @ sym Q ''PopulateQuery'' @ ''(msg, meta.Query'' @ boundArgs bound @ ''); err != nil {'',
             ''return nil, err'',
             ''}'',
             []])
      else [])"

definition builder_head :: "qualifier \<Rightarrow> messages \<Rightarrow> pservice \<Rightarrow> pmethod \<Rightarrow> nat \<Rightarrow> lines" where
  "builder_head Q M svc m idx =
     (let fnName = requestBuilderName (ps_GoName svc) (pd_GoName m) idx; httpReq = q Q httpImport ''Request'';
          ctxType = q Q runtimeImport ''Ctx''; specType = sym Q ''Spec''; codecType = sym Q ''Codec'';
          anyReq = sym Q ''AnyRequest''
      in [''func '' @ fnName @ ''(ctx '' @ ctxType @ '', r *'' @ httpReq @ '', params map[string]string, spec '' @ specType @ '', codec '' @ codecType @ '') ('' @ anyReq @ '', error) {'',
          ''msg := &'' @ inputType Q M m @ ''{}'',
          ''meta := ctx.Meta()'',
          []])"

definition builder_return :: "qualifier \<Rightarrow> lines" where
  "builder_return Q =
     [''return '' @ sym Q ''NewRequestWithMeta'' @ ''(msg, meta.Header, spec, '' @ sym Q ''Peer'' @ ''{Addr: r.RemoteAddr, Protocol: r.Proto}), nil'',
      ''}'',
      []]"

definition generateRequestBuilder :: "qualifier \<Rightarrow> messages \<Rightarrow> pservice \<Rightarrow> pmethod \<Rightarrow> httpRule \<Rightarrow> nat \<Rightarrow> lines option" where
  "generateRequestBuilder Q M svc m rule idx =
     (case pathParamsFor (hr_path rule) of
        Inl e \<Rightarrow> None
      | Inr pathParams \<Rightarrow>
          emit [Some (builder_head Q M svc m idx),
            builder_body Q M m rule,
            builder_params Q M m pathParams,
            Some (builder_query Q pathParams rule),
            Some (builder_return Q)])"

section \<open>Operation constructors\<close>

definition generateUnaryOperationFn :: "qualifier \<Rightarrow> messages \<Rightarrow> pservice \<Rightarrow> pmethod \<Rightarrow> httpRule \<Rightarrow> nat \<Rightarrow> string \<Rightarrow> string \<Rightarrow> lines" where
  "generateUnaryOperationFn Q M svc m rule idx fnName ctxType =
     [''// '' @ fnName @ '' builds the '' @ pd_GoName m @ '' endpoint.'',
      ''func '' @ fnName @ ''(svc '' @ ps_GoName svc @ ''Handler) *'' @ sym Q ''Operation'' @ '' {'',
      ''var op '' @ sym Q ''Operation'',
      ''return (*'' @ sym Q ''OperationBuilder'' @ ''['' @ inputType Q M m @ '', '' @ outputType Q M m @ ''])(&op).'',
      ''SetMethod('' @ httpMethodConst Q (hr_method rule) @ '').'',
      ''SetPath('' @ pathConstName (ps_GoName svc) (pd_GoName m) idx @ '').'',
      ''SetRPC('' @ rpcNameConstName (ps_GoName svc) (pd_GoName m) @ '').'',
      ''SetUnaryHandler(func(ctx '' @ ctxType @ '', req *'' @ sym Q ''Request'' @ ''['' @ inputType Q M m @ '']) (*'' @ sym Q ''Response'' @ ''['' @ outputType Q M m @ ''], error) {'',
      ''resp, err := svc.'' @ pd_GoName m @ ''(ctx, req.Msg())'',
      ''if err != nil {'',
      ''return nil, err'',
      ''}'',
      ''return '' @ sym Q ''NewResponse'' @ ''(resp), nil'',
      ''}).''] @
     (if hr_body rule \<noteq> [] then [''SetBody('' @ strconvQuote (hr_body rule) @ '').''] else []) @
     (if hr_responseBody rule \<noteq> [] then [''SetResponseBody('' @ strconvQuote (hr_responseBody rule) @ '').''] else []) @
     [''SetRequestBuilder('' @ requestBuilderName (ps_GoName svc) (pd_GoName m) idx @ '').'',
      ''Build()'',
      ''}'',
      []]"

definition generateServerStreamOperationFn :: "qualifier \<Rightarrow> messages \<Rightarrow> pservice \<Rightarrow> pmethod \<Rightarrow> httpRule \<Rightarrow> nat \<Rightarrow> string \<Rightarrow> string \<Rightarrow> lines" where
  "generateServerStreamOperationFn Q M svc m rule idx fnName ctxType =
     [''// '' @ fnName @ '' builds the '' @ pd_GoName m @ '' endpoint.'',
      ''func '' @ fnName @ ''(svc '' @ ps_GoName svc @ ''Handler) *'' @ sym Q ''Operation'' @ '' {'',
      ''var op '' @ sym Q ''Operation'',
      ''return (*'' @ sym Q ''OperationBuilder'' @ ''['' @ inputType Q M m @ '', *'' @ outputType Q M m @ ''])(&op).'',
      ''SetMethod('' @ httpMethodConst Q (hr_method rule) @ '').'',
      ''SetPath('' @ pathConstName (ps_GoName svc) (pd_GoName m) idx @ '').'',
      ''SetRPC('' @ rpcNameConstName (ps_GoName svc) (pd_GoName m) @ '').'',
      ''SetServerStreamHandler(func(ctx '' @ ctxType @ '', req *'' @ sym Q ''Request'' @ ''['' @ inputType Q M m @ ''], stream '' @ sym Q ''ServerStream'' @ ''[*'' @ outputType Q M m @ '']) error {'',
      ''return svc.'' @ pd_GoName m @ ''(ctx, req.Msg(), stream)'',
      ''}).''] @
     (if hr_body rule \<noteq> [] then [''SetBody('' @ strconvQuote (hr_body rule) @ '').''] else []) @
     (if hr_responseBody rule \<noteq> [] then [''SetResponseBody('' @ strconvQuote (hr_responseBody rule) @ '').''] else []) @
     [''SetRequestBuilder('' @ requestBuilderName (ps_GoName svc) (pd_GoName m) idx @ '').'',
      ''Build()'',
      ''}'',
      []]"

definition generateClientStreamOperationFn :: "qualifier \<Rightarrow> messages \<Rightarrow> pservice \<Rightarrow> pmethod \<Rightarrow> httpRule \<Rightarrow> nat \<Rightarrow> string \<Rightarrow> string \<Rightarrow> lines" where
  "generateClientStreamOperationFn Q M svc m rule idx fnName ctxType =
     [''// '' @ fnName @ '' builds the '' @ pd_GoName m @ '' endpoint.'',
      ''func '' @ fnName @ ''(svc '' @ ps_GoName svc @ ''Handler) *'' @ sym Q ''Operation'' @ '' {'',
      ''var op '' @ sym Q ''Operation'',
      ''return (*'' @ sym Q ''OperationBuilder'' @ ''[*'' @ inputType Q M m @ '', '' @ outputType Q M m @ ''])(&op).'',
      ''SetMethod('' @ httpMethodConst Q (hr_method rule) @ '').'',
      ''SetPath('' @ pathConstName (ps_GoName svc) (pd_GoName m) idx @ '').'',
      ''SetRPC('' @ rpcNameConstName (ps_GoName svc) (pd_GoName m) @ '').'',
      ''SetClientStreamHandler(func(ctx '' @ ctxType @ '', stream '' @ sym Q ''ClientStream'' @ ''[*'' @ inputType Q M m @ '']) (*'' @ sym Q ''Response'' @ ''['' @ outputType Q M m @ ''], error) {'',
      ''resp, err := svc.'' @ pd_GoName m @ ''(ctx, stream)'',
      ''if err != nil {'',
      ''return nil, err'',
      ''}'',
      ''return '' @ sym Q ''NewResponse'' @ ''(resp), nil'',
      ''}).''] @
     (if hr_responseBody rule \<noteq> [] then [''SetResponseBody('' @ strconvQuote (hr_responseBody rule) @ '').''] else []) @
     [''Build()'',
      ''}'',
      []]"

definition generateBidiStreamOperationFn :: "qualifier \<Rightarrow> messages \<Rightarrow> pservice \<Rightarrow> pmethod \<Rightarrow> httpRule \<Rightarrow> nat \<Rightarrow> string \<Rightarrow> string \<Rightarrow> lines" where
  "generateBidiStreamOperationFn Q M svc m rule idx fnName ctxType =
     [''// '' @ fnName @ '' builds the '' @ pd_GoName m @ '' endpoint.'',
      ''func '' @ fnName @ ''(svc '' @ ps_GoName svc @ ''Handler) *'' @ sym Q ''Operation'' @ '' {'',
      ''var op '' @ sym Q ''Operation'',
      ''return (*'' @ sym Q ''OperationBuilder'' @ ''[*'' @ inputType Q M m @ '', *'' @ outputType Q M m @ ''])(&op).'',
      ''SetMethod('' @ httpMethodConst Q (hr_method rule) @ '').'',
      ''SetPath('' @ pathConstName (ps_GoName svc) (pd_GoName m) idx @ '').'',
      ''SetRPC('' @ rpcNameConstName (ps_GoName svc) (pd_GoName m) @ '').'',
      ''SetBidiStreamHandler(func(ctx '' @ ctxType @ '', stream '' @ sym Q ''BidiStream'' @ ''[*'' @ inputType Q M m @ '', *'' @ outputType Q M m @ '']) error {'',
      ''return svc.'' @ pd_GoName m @ ''(ctx, stream)'',
      ''}).''] @
     (if hr_body rule \<noteq> [] then [''SetBody('' @ strconvQuote (hr_body rule) @ '').''] else []) @
     (if hr_responseBody rule \<noteq> [] then [''SetResponseBody('' @ strconvQuote (hr_responseBody rule) @ '').''] else []) @
     [''Build()'',
      ''}'',
      []]"

definition generateOperationFn :: "qualifier \<Rightarrow> messages \<Rightarrow> pservice \<Rightarrow> pmethod \<Rightarrow> httpRule \<Rightarrow> nat \<Rightarrow> lines" where
  "generateOperationFn Q M svc m rule idx =
     (let fnName = operationFnName (ps_GoName svc) (pd_GoName m) idx; ctxType = q Q runtimeImport ''Ctx''
      in if streamMode m = ''server'' then generateServerStreamOperationFn Q M svc m rule idx fnName ctxType
         else if streamMode m = ''client'' then generateClientStreamOperationFn Q M svc m rule idx fnName ctxType
         else if streamMode m = ''bidi'' then generateBidiStreamOperationFn Q M svc m rule idx fnName ctxType
         else generateUnaryOperationFn Q M svc m rule idx fnName ctxType)"

end
