(* ===== verification/Builder.thy ===== *)
theory Builder
  imports GenServer ClientSpec
begin

text \<open>
  The request builder that \<open>protoc-gen-zararpc\<close> generates, as a program: its statements as data, how they print, what
  they do, and the program printed for a rule. The statements act on messages as Go values (\<open>Populate\<close>).
\<close>

datatype gstmt =
    Blank
  | Comment string
  | Alloc "string list" string \<comment> \<open>allocate the nil pointer at a field path, of the type printed\<close>
  | IfParam string "gstmt list" \<comment> \<open>\<open>v\<close> is the parameter, if there is one\<close>
  | AssignV "string list" \<comment> \<open>store \<open>v\<close>\<close>
  | Convert string string \<comment> \<open>convert \<open>v\<close> to \<open>s\<close>; the converter and the parameter's name\<close>
  | AssignS "string list" "string option" \<comment> \<open>store \<open>s\<close>, perhaps through a conversion to a type\<close>
  | DecodeMsg \<comment> \<open>the body into the message\<close>
  | DecodeField "string list" \<comment> \<open>the body into a field\<close>
  | FillQuery "string list" \<comment> \<open>the query, less the bound names\<close>

section \<open>Printing\<close>

definition dotted :: "string list \<Rightarrow> string" where
  "dotted path = fold (\<lambda>g e. e @ ''.'' @ g) path ''msg''"

definition decode_failed :: "qualifier \<Rightarrow> string list" where
  "decode_failed Q =
     [''return nil, '' @ sym Q ''NewErrorf'' @ ''('' @ sym Q ''CodeInvalidArgument'' @ '', \"decode request body: %v\", err)'',
      ''}'', []]"

fun show_stmt :: "qualifier \<Rightarrow> gstmt \<Rightarrow> lines" where
  "show_stmt Q Blank = [[]]"
| "show_stmt Q (Comment t) = [''// '' @ t]"
| "show_stmt Q (Alloc path t) = [''if '' @ dotted path @ '' == nil {'', dotted path @ '' = &'' @ t @ ''{}'', ''}'']"
| "show_stmt Q (IfParam nm ss) =
     [''if v, ok := params['' @ strconvQuote nm @ '']; ok {''] @ concat (map (show_stmt Q) ss) @ [''}'']"
| "show_stmt Q (AssignV path) = [dotted path @ '' = v'']"
| "show_stmt Q (Convert conv nm) =
     [''s, err := '' @ sym Q conv @ ''(v)'',
      ''if err != nil {'',
      ''return nil, '' @ sym Q ''NewErrorf'' @ ''('' @ sym Q ''CodeInvalidArgument'' @ '', \"type mismatch, parameter: '' @ nm @ '', error: %v\", err)'',
      ''}'']"
| "show_stmt Q (AssignS path t) =
     [dotted path @ '' = '' @ (case t of Some t \<Rightarrow> t @ ''(s)'' | None \<Rightarrow> ''s'')]"
| "show_stmt Q DecodeMsg = ''if err := codec.Unmarshal(meta.Body, msg); err != nil {'' # decode_failed Q"
| "show_stmt Q (DecodeField path) =
     (''if err := codec.Unmarshal(meta.Body, &'' @ dotted path @ ''); err != nil {'') # decode_failed Q"
| "show_stmt Q (FillQuery bound) =
     [''if err := '' @ sym Q ''PopulateQuery'' @ ''(msg, meta.Query'' @ boundArgs bound @ ''); err != nil {'',
      ''return nil, err'', ''}'', []]"

section \<open>The program for a rule\<close>

definition go_names :: "fieldPath \<Rightarrow> string list" where
  "go_names fp = map pf_GoName fp"

fun alloc_stmts :: "qualifier \<Rightarrow> messages \<Rightarrow> string list \<Rightarrow> fieldPath \<Rightarrow> gstmt list" where
  "alloc_stmts Q M path [] = []"
| "alloc_stmts Q M path (f # fp) =
     (let path = path @ [pf_GoName f]
      in (case pf_Message f of Some m \<Rightarrow> [Alloc path (ident Q (pm_GoIdent (M m)))] | None \<Rightarrow> []) @ alloc_stmts Q M path fp)"

definition param_program :: "qualifier \<Rightarrow> messages \<Rightarrow> pmessage \<Rightarrow> pathParam \<Rightarrow> gstmt option" where
  "param_program Q M msg pp =
     (case resolveFieldPath M msg (pp_path pp) of
        Inl e \<Rightarrow> None
      | Inr fp \<Rightarrow>
          (let field = last fp; path = go_names fp; start = alloc_stmts Q M [] (butlast fp)
           in if pf_Kind field = StringKind \<and> \<not> pf_IsList field then Some (IfParam (pp_name pp) (start @ [AssignV path]))
              else case converterFor Q field of
                     Inl e \<Rightarrow> None
                   | Inr (conv, tmpType) \<Rightarrow>
                       Some (IfParam (pp_name pp) (start @ [Convert conv (pp_name pp),
                         AssignS path (if pf_Kind field = EnumKind \<and> \<not> pf_IsList field then Some tmpType else None)]))))"

fun all_some :: "'a option list \<Rightarrow> 'a list option" where
  "all_some [] = Some []"
| "all_some (None # xs) = None"
| "all_some (Some x # xs) = map_option ((#) x) (all_some xs)"

definition body_program :: "qualifier \<Rightarrow> messages \<Rightarrow> pmessage \<Rightarrow> string \<Rightarrow> gstmt list option" where
  "body_program Q M msg body =
     (if body = ''*'' then Some [Comment ''Body: entire request message (buffered by the mux).'', DecodeMsg]
      else if body = [] then Some []
      else case resolveFieldPath M msg body of
             Inl e \<Rightarrow> None
           | Inr fp \<Rightarrow> Some (Comment (''Body: field '' @ strconvQuote body @ ''.'') #
               alloc_stmts Q M [] (butlast fp) @ [DecodeField (go_names fp)]))"

definition params_program :: "qualifier \<Rightarrow> messages \<Rightarrow> pmessage \<Rightarrow> pathParam list \<Rightarrow> gstmt list option" where
  "params_program Q M msg pps =
     (if pps = [] then Some []
      else map_option (\<lambda>ss. Comment ''Path parameters.'' # ss @ [Blank]) (all_some (map (param_program Q M msg) pps)))"

definition query_program :: "pathParam list \<Rightarrow> string \<Rightarrow> gstmt list" where
  "query_program pps body =
     (if body \<noteq> ''*'' then
        [Comment ''Query parameters (fields not bound by path or body).'',
         FillQuery (map pp_name pps @ (if body \<noteq> [] then [body] else []))]
      else [])"

definition builder_program :: "qualifier \<Rightarrow> messages \<Rightarrow> pmessage \<Rightarrow> httpRule \<Rightarrow> gstmt list option" where
  "builder_program Q M msg rule =
     (case pathParamsFor (hr_path rule) of
        Inl e \<Rightarrow> None
      | Inr pps \<Rightarrow>
          (case (body_program Q M msg (hr_body rule), params_program Q M msg pps) of
             (Some b, Some ps) \<Rightarrow> Some (b @ ps @ query_program pps (hr_body rule))
           | _ \<Rightarrow> None))"

lemma goExpr_dotted: "goExpr fp ''msg'' = dotted (go_names fp)"
proof -
  have "fold (\<lambda>f e. e @ ''.'' @ pf_GoName f) fp e = fold (\<lambda>g e. e @ ''.'' @ g) (map pf_GoName fp) e" for e
    by (induction fp arbitrary: e) simp_all
  then show ?thesis by (simp add: goExpr_def dotted_def go_names_def)
qed

lemma dotted_snoc: "dotted (path @ [g]) = dotted path @ ''.'' @ g"
  by (simp add: dotted_def)

lemma prep_shows:
  "prep_stmts Q M fp (dotted path) = concat (map (show_stmt Q) (alloc_stmts Q M path fp))"
proof (induction fp arbitrary: path)
  case (Cons f fp)
  from Cons [of "path @ [pf_GoName f]"] show ?case
    by (simp add: dotted_snoc Let_def split: option.splits)
qed simp

lemma prepStatements_shows:
  "prepStatements Q M fp ''msg'' = concat (map (show_stmt Q) (alloc_stmts Q M [] (butlast fp)))"
  using prep_shows [of Q M "butlast fp" "[]"] by (simp add: prepStatements_def dotted_def)

lemma param_shows:
  "genPathParamExtraction Q M msg pp ''msg'' = map_option (show_stmt Q) (param_program Q M msg pp)"
  by (auto simp: genPathParamExtraction_def param_program_def prepStatements_shows goExpr_dotted Let_def
      split: sum.splits prod.splits)

lemma body_shows:
  "builder_body Q M m rule =
     map_option (\<lambda>ss. concat (map (show_stmt Q) ss)) (body_program Q M (M (pd_Input m)) (hr_body rule))"
  by (simp add: builder_body_def body_program_def prepStatements_shows goExpr_dotted decode_failed_def Let_def split: sum.splits)

lemma emit_shows:
  "emit (map (\<lambda>x. map_option f (g x)) xs @ [Some ls]) = map_option (\<lambda>ys. concat (map f ys) @ ls) (all_some (map g xs))"
proof (induction xs)
  case (Cons x xs)
  then show ?case by (cases "g x") (simp_all add: option.map_comp comp_def)
qed simp

lemma params_shows:
  "builder_params Q M m pps =
     map_option (\<lambda>ss. concat (map (show_stmt Q) ss)) (params_program Q M (M (pd_Input m)) pps)"
  using emit_shows [of "show_stmt Q" "param_program Q M (M (pd_Input m))" pps "[[]]"]
  by (simp add: builder_params_def params_program_def param_shows option.map_comp comp_def)

lemma query_shows: "builder_query Q pps rule = concat (map (show_stmt Q) (query_program pps (hr_body rule)))"
  by (simp add: builder_query_def query_program_def Let_def)

lemma builder_text:
  "generateRequestBuilder Q M svc m rule idx =
     map_option (\<lambda>ss. builder_head Q M svc m idx @ concat (map (show_stmt Q) ss) @ builder_return Q)
       (builder_program Q M (M (pd_Input m)) rule)"
  by (simp add: generateRequestBuilder_def builder_program_def body_shows params_shows query_shows split: sum.splits option.splits)

text \<open>
  The generator prints the program, between the head of the function and its return.\<close>

lemma builder_shows:
  "generateRequestBuilder Q M svc m rule idx =
     map_option (\<lambda>ss. builder_head Q M svc m idx @ concat (map (show_stmt Q) ss) @ builder_return Q)
       (builder_program Q M (M (pd_Input m)) rule)"
  by (rule builder_text)

section \<open>Running it\<close>

record 'f builder_env =
  be_go :: "'f golib"
  be_types :: "'f types"
  be_decode :: "'f decoder" \<comment> \<open>\<open>codec.Unmarshal\<close>, on the value its argument points to\<close>
  be_rawurl :: "string \<Rightarrow> string option"
  be_params :: "string \<rightharpoonup> string"
  be_query :: header
  be_body :: string

definition convert :: "'f golib \<Rightarrow> (string \<Rightarrow> string option) \<Rightarrow> string \<Rightarrow> string \<Rightarrow> string + 'f gval" where
  \<comment> \<open>the converter of a name, and its result as a Go value\<close>
  "convert G rawurl conv v =
     (if conv = ''PathBool'' then map_sum id VBool (PathBool v)
      else if conv = ''PathInt32'' then map_sum id (VInt 32) (PathInt32 v)
      else if conv = ''PathInt64'' then map_sum id (VInt 64) (PathInt64 v)
      else if conv = ''PathUint32'' then map_sum id (VUint 32) (PathUint32 v)
      else if conv = ''PathUint64'' then map_sum id (VUint 64) (PathUint64 v)
      else if conv = ''PathFloat32'' then map_sum id (VFloat 32) (PathFloat32 G v)
      else if conv = ''PathFloat64'' then map_sum id (VFloat 64) (PathFloat64 G v)
      else if conv = ''PathBytes'' then map_sum id bytes_value (PathBytes rawurl v)
      else if conv = ''PathStringSlice'' then map_sum id (\<lambda>ss. VSlice TString (map VString ss)) (PathStringSlice v)
      else if conv = ''PathInt64Slice'' then map_sum id (\<lambda>ns. VSlice (TInt 64) (map (VInt 64) ns)) (PathInt64Slice v)
      else map_sum id VString (PathString v))"

fun update_at :: "'f types \<Rightarrow> string list \<Rightarrow> ('f gval \<Rightarrow> 'f gval option) \<Rightarrow> 'f gval \<Rightarrow> 'f gval option" where
  \<comment> \<open>the value at a path of Go names, through pointers; \<open>None\<close> for a nil one on the way (a panic), and where the
      update does not fit\<close>
  "update_at T [] f v = f v"
| "update_at T (g # gs) f (VStruct s fs) =
     (case find_index_from 0 (\<lambda>sf. fl_Name sf = g) (fields_of T s) of
        None \<Rightarrow> None
      | Some i \<Rightarrow> map_option (\<lambda>w. VStruct s (fs[i := w])) (update_at T gs f (fs ! i)))"
| "update_at T (g # gs) f (VPtr t (Some (VStruct s fs))) =
     (case find_index_from 0 (\<lambda>sf. fl_Name sf = g) (fields_of T s) of
        None \<Rightarrow> None
      | Some i \<Rightarrow> map_option (\<lambda>w. VPtr t (Some (VStruct s (fs[i := w])))) (update_at T gs f (fs ! i)))"
| "update_at T (g # gs) f v = None"

fun read_at :: "'f types \<Rightarrow> string list \<Rightarrow> 'f gval \<Rightarrow> 'f gval option" where
  "read_at T [] v = Some v"
| "read_at T (g # gs) (VStruct s fs) =
     Option.bind (find_index_from 0 (\<lambda>sf. fl_Name sf = g) (fields_of T s)) (\<lambda>i. read_at T gs (fs ! i))"
| "read_at T (g # gs) (VPtr t (Some (VStruct s fs))) =
     Option.bind (find_index_from 0 (\<lambda>sf. fl_Name sf = g) (fields_of T s)) (\<lambda>i. read_at T gs (fs ! i))"
| "read_at T (g # gs) v = None"

definition store :: "'f gval \<Rightarrow> 'f gval \<Rightarrow> 'f gval option" where
  \<comment> \<open>an assignment, which the compiler accepts between values of one type only\<close>
  "store w old = (if type_of old = type_of w then Some w else None)"

type_synonym 'f bstate = "'f gval \<times> string \<times> 'f gval option" \<comment> \<open>\<open>msg\<close>, \<open>v\<close> and \<open>s\<close>\<close>

fun step :: "'f builder_env \<Rightarrow> gstmt \<Rightarrow> 'f bstate \<Rightarrow> ('d goerror + 'f bstate) option" where
  \<comment> \<open>\<open>None\<close> is a panic, or a program that does not compile; the left of the sum an error returned\<close>
  "step E (Alloc path t) (msg, v, s) =
     map_option (\<lambda>msg. Inr (msg, v, s))
       (update_at (be_types E) path (\<lambda>old. case old of
            VPtr t None \<Rightarrow> Some (VPtr t (Some (zero (be_go E) (be_types E) t)))
          | VPtr t (Some x) \<Rightarrow> Some old
          | _ \<Rightarrow> None) msg)"
| "step E (AssignV path) (msg, v, s) =
     map_option (\<lambda>msg. Inr (msg, v, s)) (update_at (be_types E) path (store (VString v)) msg)"
| "step E (Convert conv nm) (msg, v, s) =
     Some (case convert (be_go E) (be_rawurl E) conv v of
             Inl e \<Rightarrow> Inl (invalid (''type mismatch, parameter: '' @ nm @ '', error: '' @ e))
           | Inr w \<Rightarrow> Inr (msg, v, Some w))"
| "step E (AssignS path t) (msg, v, s) =
     (case (s, t) of
        (Some w, None) \<Rightarrow> map_option (\<lambda>msg. Inr (msg, v, s)) (update_at (be_types E) path (store w) msg)
      | _ \<Rightarrow> None)"
| "step E DecodeMsg (msg, v, s) =
     (case msg of
        VPtr t (Some m) \<Rightarrow>
          (case be_decode E (be_body E) m of
             (None, m) \<Rightarrow> Some (Inr (VPtr t (Some m), v, s))
           | (Some e, m) \<Rightarrow> Some (Inl (invalid (''decode request body: '' @ e))))
      | _ \<Rightarrow> None)"
| "step E (DecodeField path) (msg, v, s) =
     (case read_at (be_types E) path msg of
        None \<Rightarrow> None
      | Some x \<Rightarrow>
          (case be_decode E (be_body E) x of
             (None, w) \<Rightarrow> map_option (\<lambda>msg. Inr (msg, v, s)) (update_at (be_types E) path (\<lambda>_. Some w) msg)
           | (Some e, w) \<Rightarrow> Some (Inl (invalid (''decode request body: '' @ e)))))"
| "step E (FillQuery bound) (msg, v, s) =
     Some (case PopulateQuery (be_go E) (be_types E) msg (be_query E) bound of
             (None, msg) \<Rightarrow> Inr (msg, v, s)
           | (Some e, msg) \<Rightarrow> Inl e)"
| "step E _ st = Some (Inr st)"

fun run :: "'f builder_env \<Rightarrow> gstmt list \<Rightarrow> 'f bstate \<Rightarrow> ('d goerror + 'f bstate) option" where
  "run E [] st = Some (Inr st)"
| "run E (IfParam nm ss # cs) (msg, v, s) =
     (case be_params E nm of
        None \<Rightarrow> run E cs (msg, v, s)
      | Some x \<Rightarrow>
          (case run E ss (msg, x, None) of
             Some (Inr (msg, _)) \<Rightarrow> run E cs (msg, v, s)
           | r \<Rightarrow> r))"
| "run E (c # cs) st = (case step E c st of Some (Inr st) \<Rightarrow> run E cs st | r \<Rightarrow> r)"

definition build :: "'f builder_env \<Rightarrow> gstmt list \<Rightarrow> string \<Rightarrow> ('d goerror + 'f gval) option" where
  \<comment> \<open>the message of the request, from an empty one of a struct type\<close>
  "build E prog s =
     map_option (map_sum id fst) (run E prog (VPtr (TStruct s) (Some (VStruct s (zero_fields (be_types E) s))), [], None))"

end
