(* ===== verification/BuilderSpec.thy ===== *)
theory BuilderSpec
  imports PathSpec Builder
begin

text \<open>
  What the generated request builders do: which parameters they extract, that they fill a message as the reflection of
  \<open>runtime.PopulateMessage\<close> does, and that a client's message reaches the handler through them.
\<close>

section \<open>Parameters of a template\<close>

lemma path_params_literal:
  assumes "CHR ''{'' \<notin> set a"
  shows "path_params t (a @ rest) = path_params t rest"
proof (cases "index_byte rest CHR ''{''")
  case None
  then have "index_byte (a @ rest) CHR ''{'' = None" using assms by (simp add: index_byte_None)
  with None show ?thesis by (simp add: path_params.simps)
next
  case (Some i)
  then have i: "index_byte (a @ rest) CHR ''{'' = Some (length a + i)"
    using assms by (induction a) auto
  show ?thesis
    unfolding path_params.simps [of t "a @ rest"] path_params.simps [of t rest] i Some
    by (auto simp: add.assoc Let_def split: option.splits sum.splits)
qed

abbreviation plain_param :: "string \<Rightarrow> pathParam" where
  "plain_param n \<equiv> \<lparr>pp_name = n, pp_path = n\<rparr>"

lemma path_params_brace:
  assumes "printable seg" "seg_param seg = Some p"
  shows "path_params t (render_segment seg @ rest) = map_sum id ((#) (plain_param (p_name p))) (path_params t rest)"
proof -
  note name = braced_name [OF assms(1,2)]
  let ?s = "render_segment seg @ rest"
  have seg: "?s = CHR ''{'' # render_inner p @ CHR ''}'' # rest" by (simp add: render_segment_inner [OF assms(2)])
  have s: "index_byte ?s CHR ''{'' = Some 0" by (simp add: seg)
  have e: "index_byte (drop 0 ?s) CHR ''}'' = Some (Suc (length (render_inner p)))"
    using index_close [of "render_inner p" rest] name by (simp add: seg)
  have inn: "take (Suc (length (render_inner p)) - 1) (drop (0 + 1) ?s) = render_inner p" by (simp add: seg)
  have more: "drop (0 + Suc (length (render_inner p)) + 1) ?s = rest" by (simp add: seg)
  show ?thesis
    unfolding path_params.simps [of t ?s] s option.case e Let_def inn more conjunct2 [OF name]
    by (auto split: sum.splits)
qed

lemma path_params_segments:
  assumes "list_all printable segs" "CHR ''{'' \<notin> set tail"
  shows "path_params t (concat (map (\<lambda>seg. ''/'' @ render_segment seg) segs) @ tail) = Inr (map plain_param (pattern_names segs))"
  using assms
proof (induction segs)
  case Nil
  then show ?case by (simp add: path_params.simps index_byte_None [THEN iffD2])
next
  case (Cons seg segs)
  let ?rest = "concat (map (\<lambda>seg. ''/'' @ render_segment seg) segs) @ tail"
  have slash: "path_params t (CHR ''/'' # s) = path_params t s" for s
    using path_params_literal [of "''/''" t s] by simp
  have IH: "path_params t ?rest = Inr (map plain_param (pattern_names segs))" using Cons by simp
  show ?case
  proof (cases "seg_param seg")
    case None
    then have "CHR ''{'' \<notin> set (render_segment seg)" using Cons.prems(1) by (auto simp: printable_def plain_def render_segment_def)
    from path_params_literal [OF this, of t ?rest] IH None show ?thesis by (simp add: slash)
  next
    case (Some p)
    have "printable seg" using Cons.prems(1) by simp
    from path_params_brace [OF this Some, of t ?rest] IH Some show ?thesis by (simp add: slash)
  qed
qed

lemma pathParamsFor_render:
  assumes "list_all printable (segments p)" "pattern_ok p"
  shows "pathParamsFor (render p) = Inr (map plain_param (pattern_names (segments p)))"
proof -
  let ?verb = "if pat_verb p = [] then [] else '':'' @ pat_verb p"
  have "CHR ''{'' \<notin> set ?verb" using assms(2) by (simp add: pattern_ok_def)
  from path_params_segments [OF assms(1) this, of "render p"] show ?thesis
    by (simp add: pathParamsFor_def render_def)
qed

section \<open>Converters\<close>

fun path_type :: "pkind \<Rightarrow> gtype option" where
  \<comment> \<open>the Go type of a field of a kind that is neither repeated nor optional, for the kinds considered\<close>
  "path_type StringKind = Some TString"
| "path_type BoolKind = Some TBool"
| "path_type Int32Kind = Some (TInt 32)" | "path_type Sint32Kind = Some (TInt 32)" | "path_type Sfixed32Kind = Some (TInt 32)"
| "path_type Int64Kind = Some (TInt 64)" | "path_type Sint64Kind = Some (TInt 64)" | "path_type Sfixed64Kind = Some (TInt 64)"
| "path_type Uint32Kind = Some (TUint 32)" | "path_type Fixed32Kind = Some (TUint 32)"
| "path_type Uint64Kind = Some (TUint 64)" | "path_type Fixed64Kind = Some (TUint 64)"
| "path_type _ = None"

definition read_value :: "gtype \<Rightarrow> string \<Rightarrow> string + 'f gval" where
  \<comment> \<open>what the generated code makes of a parameter for a field of a type\<close>
  "read_value t v =
     (case t of
        TBool \<Rightarrow> map_sum id VBool (PathBool v)
      | TInt b \<Rightarrow> if b = 32 then map_sum id (VInt 32) (PathInt32 v) else map_sum id (VInt 64) (PathInt64 v)
      | TUint b \<Rightarrow> if b = 32 then map_sum id (VUint 32) (PathUint32 v) else map_sum id (VUint 64) (PathUint64 v)
      | _ \<Rightarrow> Inr (VString v))"

lemma converterFor_path_type:
  assumes "path_type (pf_Kind f) = Some t" "\<not> pf_IsList f" "pf_Kind f \<noteq> StringKind"
  shows "\<exists>conv tmp. converterFor Q f = Inr (conv, tmp) \<and> (\<forall>v. convert G rawurl conv v = read_value t v) \<and> pf_Kind f \<noteq> EnumKind"
  using assms by (cases "pf_Kind f") (auto simp: converterFor_def convert_def read_value_def Let_def)

lemma parse_uint_bits:
  "parse_uint v b = Inr n \<Longrightarrow> b \<le> b' \<Longrightarrow> parse_uint v b' = Inr n \<and> n < 2 ^ b"
  by (auto simp: parse_uint_value intro: less_le_trans power_increasing)

lemma parse_int_range:
  assumes "parse_int v b = Inr n" "0 < b" "b \<le> b'"
  shows "parse_int v b' = Inr n \<and> wrap_int b n = n"
proof -
  from parse_int_bits [OF assms(1), of b] assms(1,2) have range: "- (2 ^ (b - 1)) \<le> n" "n < 2 ^ (b - 1)"
    by (auto split: if_splits)
  have "(2 :: int) ^ (b - 1) \<le> 2 ^ (b' - 1)" using assms(3) by (intro power_increasing) simp_all
  with range have "- (2 ^ (b' - 1)) \<le> n" "n < 2 ^ (b' - 1)" by linarith+
  with assms(2,3) parse_int_bits [OF assms(1), of b'] wrap_int_id [OF assms(2) range] show ?thesis by simp
qed

lemma map_sum_Inr: "map_sum id f r = Inr w \<longleftrightarrow> (\<exists>x. r = Inr x \<and> w = f x)"
  by (cases r) auto

lemma as_error_Inr: "as_error v kind r = Inr x \<longleftrightarrow> r = Inr x"
  by (cases r) (auto simp: as_error_def)

lemma path_type_cases:
  "path_type k = Some t \<Longrightarrow> t \<in> {TString, TBool, TInt 32, TInt 64, TUint 32, TUint 64}"
  by (cases k) auto

lemma read_value_type: "path_type k = Some t \<Longrightarrow> read_value t v = Inr w \<Longrightarrow> type_of w = t"
  by (auto dest!: path_type_cases simp: read_value_def map_sum_Inr)

lemma read_value_setStringValue:
  assumes "path_type k = Some t" "read_value t v = Inr w" "type_of old = t"
  shows "setStringValue G T v old = (Done, w)"
proof -
  have int: "parse_int v 64 = Inr n \<and> wrap_int b n = n" if "parse_int v b = Inr n" "0 < b" "b \<le> 64" for b n
    using parse_int_range [OF that] .
  have uint: "parse_uint v 64 = Inr n \<and> n mod 2 ^ b = n" if "parse_uint v b = Inr n" "b \<le> 64" for b n
    using parse_uint_bits [OF that] by simp
  have "scalar_value G T v old = Inr w \<and> settle G T old = old \<and> inner old = old \<and> set_inner old w = w"
    using path_type_cases [OF assms(1)] assms(2,3) int [of 32] int [of 64] uint [of 32] uint [of 64]
    by (cases old)
       (auto simp: read_value_def map_sum_Inr as_error_Inr scalar_value_def PathBool_def PathInt32_def PathInt64_def
          PathUint32_def PathUint64_def)
  then show ?thesis by (simp add: setStringValue_def)
qed

lemma read_value_string:
  assumes "path_type k = Some (type_of v)" "scalar_ok v"
  shows "read_value (type_of v) (value_string G v) = Inr v"
proof (cases v)
  case (VInt b i)
  with assms have b: "b = 32 \<or> b = 64" by (cases k) auto
  from assms VInt have "parse_int (format_int i) b = Inr i" by (intro parse_int_format) auto
  with VInt b show ?thesis
    by (auto simp: read_value_def value_string_def reflectValueToString_def PathInt32_def PathInt64_def as_error_def)
next
  case (VUint b n)
  with assms have b: "b = 32 \<or> b = 64" by (cases k) auto
  from assms VUint have "parse_uint (format_nat n) b = Inr n" by (intro parse_uint_format) auto
  with VUint b show ?thesis
    by (auto simp: read_value_def value_string_def reflectValueToString_def PathUint32_def PathUint64_def as_error_def)
qed (use assms in \<open>auto simp: read_value_def value_string_def reflectValueToString_def PathBool_def as_error_def ParseBool_def\<close>)


section \<open>Running a builder\<close>

definition field_at :: "'f types \<Rightarrow> string \<Rightarrow> string \<Rightarrow> nat" where
  "field_at T s n = (case field_index T s n of Some i \<Rightarrow> i | None \<Rightarrow> 0)"

definition described :: "'f types \<Rightarrow> string \<Rightarrow> pmessage \<Rightarrow> string \<Rightarrow> bool" where
  \<comment> \<open>the field of a name in the descriptor is the one in the struct that \<open>protoc-gen-go\<close> generates: Go name, \<open>json\<close>
      name and type, neither repeated nor optional, of a kind considered\<close>
  "described T s msg n =
     (CHR ''.'' \<notin> set n \<and>
      (case find (\<lambda>f. pf_Name f = n) (pm_Fields msg) of
         None \<Rightarrow> False
       | Some f \<Rightarrow>
           \<not> pf_IsList f \<and>
           field_index T s n = find_index_from 0 (\<lambda>sf. fl_Name sf = pf_GoName f) (fields_of T s) \<and>
           (case (path_type (pf_Kind f), field_index T s n) of
              (Some t, Some i) \<Rightarrow>
                i < length (zero_fields T s) \<and> type_of (zero_fields T s ! i) = t \<and> json_tag (fields_of T s ! i) = n
            | _ \<Rightarrow> False)))"

lemma describedE:
  assumes "described T s msg n"
  obtains f i where "find (\<lambda>f. pf_Name f = n) (pm_Fields msg) = Some f" "CHR ''.'' \<notin> set n" "\<not> pf_IsList f"
    "field_index T s n = Some i" "find_index_from 0 (\<lambda>sf. fl_Name sf = pf_GoName f) (fields_of T s) = Some i"
    "i < length (zero_fields T s)" "path_type (pf_Kind f) = Some (type_of (zero_fields T s ! i))"
    "json_tag (fields_of T s ! i) = n" "field_at T s n = i"
  using assms by (auto simp: described_def field_at_def split: option.splits)

lemma described_type: "described T s msg n \<Longrightarrow> \<exists>k. path_type k = Some (type_of (zero_fields T s ! field_at T s n))"
  by (erule describedE) auto

abbreviation struct_ptr :: "string \<Rightarrow> 'f gval list \<Rightarrow> 'f gval" where
  "struct_ptr s fs \<equiv> VPtr (TStruct s) (Some (VStruct s fs))"

definition mismatch :: "string \<Rightarrow> string \<Rightarrow> 'd goerror" where
  "mismatch n e = invalid (''type mismatch, parameter: '' @ n @ '', error: '' @ e)"

definition typed_as :: "'f gval list \<Rightarrow> 'f gval list \<Rightarrow> bool" where
  "typed_as z fs = (map type_of fs = map type_of z)"

lemma map_eq_nth: "map f xs = map g ys \<Longrightarrow> i < length ys \<Longrightarrow> f (xs ! i) = g (ys ! i)"
  by (metis map_eq_imp_length_eq nth_map)

lemma typed_as_update: "typed_as z fs \<Longrightarrow> type_of w = type_of (z ! i) \<Longrightarrow> typed_as z (fs[i := w])"
proof -
  assume fs: "typed_as z fs" and w: "type_of w = type_of (z ! i)"
  have len: "length fs = length z" using fs map_eq_imp_length_eq unfolding typed_as_def by blast
  have "type_of (fs[i := w] ! k) = type_of (z ! k)" if "k < length z" for k
    using that map_eq_nth [of type_of fs type_of z k] fs w len by (cases "k = i") (simp_all add: typed_as_def)
  with len show "typed_as z (fs[i := w])" unfolding typed_as_def by (intro nth_equalityI) simp_all
qed

lemma typed_as_length: "typed_as z fs \<Longrightarrow> length fs = length z"
  unfolding typed_as_def by (rule map_eq_imp_length_eq)

lemma typed_as_nth: "typed_as z fs \<Longrightarrow> i < length z \<Longrightarrow> type_of (fs ! i) = type_of (z ! i)"
  unfolding typed_as_def by (rule map_eq_nth)

lemma run_param:
  assumes "described (be_types E) s msg n" "typed_as (zero_fields (be_types E) s) fs"
  shows "\<exists>body. param_program Q M msg (plain_param n) = Some (IfParam n body) \<and>
    (\<forall>fs v. typed_as (zero_fields (be_types E) s) fs \<longrightarrow> (\<exists>x. run E body (struct_ptr s fs, v, None) =
      Some (case read_value (type_of (zero_fields (be_types E) s ! field_at (be_types E) s n)) v of
        Inl e \<Rightarrow> Inl (mismatch n e :: 'd goerror)
      | Inr w \<Rightarrow> Inr (struct_ptr s (fs[field_at (be_types E) s n := w]), x))))"
proof -
  let ?T = "be_types E" and ?z = "zero_fields (be_types E) s"
  from assms(1) obtain f i where f: "find (\<lambda>f. pf_Name f = n) (pm_Fields msg) = Some f" "CHR ''.'' \<notin> set n" "\<not> pf_IsList f"
    "find_index_from 0 (\<lambda>sf. fl_Name sf = pf_GoName f) (fields_of ?T s) = Some i"
    "i < length ?z" "path_type (pf_Kind f) = Some (type_of (?z ! i))" "field_at ?T s n = i" by (rule describedE)
  have fp: "resolveFieldPath M msg n = Inr [f]" using f(1,2) by (simp add: resolveFieldPath_def split_byte_absent)
  have upd: "update_at ?T [pf_GoName f] (store w) (struct_ptr s fs) = Some (struct_ptr s (fs[i := w]))"
    if "typed_as ?z fs" "type_of w = type_of (?z ! i)" for w fs
    using that f(4,5) typed_as_nth [OF that(1) f(5)] by (simp add: store_def)
  show ?thesis
  proof (cases "pf_Kind f = StringKind")
    case True
    then have t: "type_of (?z ! i) = TString" using f(6) by simp
    with True f(3) fp have "param_program Q M msg (plain_param n) = Some (IfParam n [AssignV [pf_GoName f]])"
      by (simp add: param_program_def go_names_def)
    moreover have "run E [AssignV [pf_GoName f]] (struct_ptr s fs, v, None) = Some (Inr (struct_ptr s (fs[i := VString v]), v, None))"
      if "typed_as ?z fs" for fs v
      using upd [OF that, of "VString v"] t by (simp del: update_at.simps)
    ultimately show ?thesis using t f(7) by (auto simp: read_value_def)
  next
    case False
    from converterFor_path_type [OF f(6,3) False, of Q "be_go E" "be_rawurl E"] obtain conv tmp where conv:
      "converterFor Q f = Inr (conv, tmp)" "\<And>v. convert (be_go E) (be_rawurl E) conv v = read_value (type_of (?z ! i)) v"
      "pf_Kind f \<noteq> EnumKind" by blast
    let ?body = "[Convert conv n, AssignS [pf_GoName f] None]"
    from False f(3) fp conv have "param_program Q M msg (plain_param n) = Some (IfParam n ?body)"
      by (simp add: param_program_def go_names_def)
    moreover have "\<exists>x. run E ?body (struct_ptr s fs, v, None) = Some (case read_value (type_of (?z ! i)) v of
        Inl e \<Rightarrow> Inl (mismatch n e :: 'd goerror) | Inr w \<Rightarrow> Inr (struct_ptr s (fs[i := w]), x))"
      if "typed_as ?z fs" for fs v
    proof (cases "read_value (type_of (?z ! i)) v :: string + 'a gval")
      case (Inl e)
      then show ?thesis by (simp add: conv(2) mismatch_def del: update_at.simps)
    next
      case (Inr w)
      with upd [OF that read_value_type [OF f(6) Inr]] show ?thesis by (simp add: conv(2) del: update_at.simps)
    qed
    ultimately show ?thesis using f(7) by auto
  qed
qed

fun assign_all :: "'f types \<Rightarrow> string \<Rightarrow> (string \<rightharpoonup> string) \<Rightarrow> string list \<Rightarrow> 'f gval list \<Rightarrow> 'd goerror + 'f gval list" where
  \<comment> \<open>the parameters of a template stored into the fields of a message, in order\<close>
  "assign_all T s ps [] fs = Inr fs"
| "assign_all T s ps (n # ns) fs =
     (case ps n of
        None \<Rightarrow> assign_all T s ps ns fs
      | Some v \<Rightarrow>
          (case read_value (type_of (zero_fields T s ! field_at T s n)) v of
             Inl e \<Rightarrow> Inl (mismatch n e)
           | Inr w \<Rightarrow> assign_all T s ps ns (fs[field_at T s n := w])))"

lemma run_params:
  assumes "\<And>n. n \<in> set names \<Longrightarrow> described (be_types E) s msg n" "typed_as (zero_fields (be_types E) s) fs"
  shows "\<exists>ss. all_some (map (param_program Q M msg) (map plain_param names)) = Some ss \<and>
    (\<forall>fs cs v x. typed_as (zero_fields (be_types E) s) fs \<longrightarrow>
      run E (ss @ cs) (struct_ptr s fs, v, x) =
      (case assign_all (be_types E) s (be_params E) names fs of
         Inl e \<Rightarrow> Some (Inl e :: 'd goerror + 'f bstate)
       | Inr fs \<Rightarrow> run E cs (struct_ptr s fs, v, x)))"
  using assms(1)
proof (induction names)
  case Nil
  show ?case by simp
next
  case (Cons n ns)
  let ?T = "be_types E" and ?z = "zero_fields (be_types E) s"
  from Cons obtain ss where ss: "all_some (map (param_program Q M msg) (map plain_param ns)) = Some ss"
    "\<And>fs cs v x. typed_as ?z fs \<Longrightarrow> run E (ss @ cs) (struct_ptr s fs, v, x) =
      (case assign_all ?T s (be_params E) ns fs of Inl e \<Rightarrow> Some (Inl e :: 'd goerror + 'f bstate)
       | Inr fs \<Rightarrow> run E cs (struct_ptr s fs, v, x))" by auto
  have n: "described ?T s msg n" using Cons.prems by simp
  from run_param [OF this assms(2), of Q M] obtain body where body: "param_program Q M msg (plain_param n) = Some (IfParam n body)"
    "\<And>fs v. typed_as ?z fs \<Longrightarrow> \<exists>x. run E body (struct_ptr s fs, v, None) =
      Some (case read_value (type_of (?z ! field_at ?T s n)) v of
        Inl e \<Rightarrow> Inl (mismatch n e :: 'd goerror) | Inr w \<Rightarrow> Inr (struct_ptr s (fs[field_at ?T s n := w]), x))" by blast
  have "run E (IfParam n body # ss @ cs) (struct_ptr s fs, v, x) =
      (case assign_all ?T s (be_params E) (n # ns) fs of Inl e \<Rightarrow> Some (Inl e :: 'd goerror + 'f bstate)
       | Inr fs \<Rightarrow> run E cs (struct_ptr s fs, v, x))" if fs: "typed_as ?z fs" for fs cs v x
  proof (cases "be_params E n")
    case None
    then show ?thesis by (simp add: ss(2) [OF fs])
  next
    case (Some a)
    from body(2) [OF fs, of a] obtain y where y: "run E body (struct_ptr s fs, a, None) =
      Some (case read_value (type_of (?z ! field_at ?T s n)) a of
        Inl e \<Rightarrow> Inl (mismatch n e :: 'd goerror) | Inr w \<Rightarrow> Inr (struct_ptr s (fs[field_at ?T s n := w]), y))" by blast
    show ?thesis
    proof (cases "read_value (type_of (?z ! field_at ?T s n)) a :: string + 'f gval")
      case (Inl e)
      with y Some show ?thesis by simp
    next
      case (Inr w)
      from described_type [OF n] obtain k where "path_type k = Some (type_of (?z ! field_at ?T s n))" by blast
      from read_value_type [OF this Inr] have "type_of w = type_of (?z ! field_at ?T s n)" .
      from ss(2) [OF typed_as_update [OF fs this]] y Some Inr show ?thesis by (cases y) simp
    qed
  qed
  with ss(1) body(1) show ?case by simp
qed


definition assigned :: "'f types \<Rightarrow> string \<Rightarrow> (string \<rightharpoonup> string) \<Rightarrow> nat \<Rightarrow> 'f gval" where
  \<comment> \<open>the value a parameter leaves in the field of an index\<close>
  "assigned T s ps i =
     (case read_value (type_of (zero_fields T s ! i)) (the (ps (json_tag (fields_of T s ! i)))) of Inr w \<Rightarrow> w | Inl e \<Rightarrow> zero_fields T s ! i)"

lemma described_tag:
  "described T s msg n \<Longrightarrow> field_index T s n = Some (field_at T s n) \<and> json_tag (fields_of T s ! field_at T s n) = n \<and>
     field_at T s n < length (zero_fields T s) \<and> CHR ''.'' \<notin> set n"
  by (erule describedE) auto

lemma assign_all_fields:
  assumes "assign_all T s ps names fs = (Inr gs :: 'd goerror + 'f gval list)" "\<And>n. n \<in> set names \<Longrightarrow> described T s msg n"
    and "length fs = length (zero_fields T s)"
  shows "gs = map (\<lambda>i. if \<exists>n \<in> set names. ps n \<noteq> None \<and> field_at T s n = i then assigned T s ps i else fs ! i) [0..<length fs]"
  using assms
proof (induction names arbitrary: fs)
  case Nil
  then have "gs = fs" by simp
  then show ?case by (simp add: map_nth)
next
  case (Cons n ns)
  show ?case
  proof (cases "ps n")
    case None
    then have "assign_all T s ps ns fs = (Inr gs :: 'd goerror + 'f gval list)" using Cons.prems(1) by simp
    from Cons.IH [OF this Cons.prems(2,3)] None show ?thesis by auto
  next
    case (Some v)
    let ?i = "field_at T s n"
    from Cons.prems(1) Some obtain w :: "'f gval" where w: "read_value (type_of (zero_fields T s ! ?i)) v = Inr w"
      "assign_all T s ps ns (fs[?i := w]) = (Inr gs :: 'd goerror + 'f gval list)" by (auto split: sum.splits)
    have n: "json_tag (fields_of T s ! ?i) = n" "?i < length fs"
      using described_tag [OF Cons.prems(2), of n] Cons.prems(3) by simp_all
    have val: "assigned T s ps ?i = w" using n Some w(1) by (simp add: assigned_def)
    have "gs = map (\<lambda>i. if \<exists>n \<in> set ns. ps n \<noteq> None \<and> field_at T s n = i then assigned T s ps i else fs[?i := w] ! i)
        [0..<length fs]"
      using Cons.IH [OF w(2)] Cons.prems(2,3) by simp
    also have "\<dots> = map (\<lambda>i. if \<exists>n \<in> set (n # ns). ps n \<noteq> None \<and> field_at T s n = i then assigned T s ps i else fs ! i)
        [0..<length fs]"
      by (rule map_cong) (use val Some in \<open>auto simp: nth_list_update\<close>)
    finally show ?thesis .
  qed
qed

lemma assign_all_read:
  fixes T :: "'f types"
  assumes "assign_all T s ps names fs = (Inr gs :: 'd goerror + 'f gval list)" "n \<in> set names" "ps n = Some v"
  shows "\<exists>w. read_value (type_of (zero_fields T s ! field_at T s n)) v = (Inr w :: string + 'f gval)"
  using assms by (induction names arbitrary: fs) (auto split: sum.splits option.splits)

lemma assign_all_error:
  "assign_all (T :: 'f types) s ps names fs = Inl e \<Longrightarrow>
   \<exists>n \<in> set names. \<exists>v why. ps n = Some v \<and>
     read_value (type_of (zero_fields T s ! field_at T s n)) v = (Inl why :: string + 'f gval) \<and> e = mismatch n why"
  by (induction names arbitrary: fs) (auto split: sum.splits option.splits)

lemma assign_all_typed:
  assumes "assign_all T s ps names fs = (Inr gs :: 'd goerror + 'f gval list)" "\<And>n. n \<in> set names \<Longrightarrow> described T s msg n"
    and "typed_as (zero_fields T s) fs"
  shows "typed_as (zero_fields T s) gs"
  using assms
proof (induction names arbitrary: fs)
  case (Cons n ns)
  from described_type [OF Cons.prems(2), of n] obtain k where
    k: "path_type k = Some (type_of (zero_fields T s ! field_at T s n))" by auto
  from Cons.prems show ?case
    by (auto split: option.splits sum.splits intro!: Cons.IH typed_as_update dest: read_value_type [OF k])
qed simp

text \<open>The reflection stores the same values, whatever order it visits the parameters in.\<close>

lemma set_params_assign_all:
  assumes "\<And>n. n \<in> set names \<Longrightarrow> described T s msg n" "distinct (map fst l)" "set (map fst l) = set names"
    and "assign_all T s (map_of l) names (zero_fields T s) = (Inr gs :: 'd goerror + 'f gval list)"
  shows "set_params G T l (struct_ptr s (zero_fields T s)) = (None :: 'd goerror option, struct_ptr s gs)"
proof -
  let ?z = "zero_fields T s" and ?ix = "\<lambda>x. the (field_index T s (fst x))"
  have mem: "map_of l (fst x) = Some (snd x) \<and> fst x \<in> set names" if "x \<in> set l" for x
  proof -
    have "fst x \<in> set names" unfolding assms(3) [symmetric] using that by simp
    with assms(2) that show ?thesis by (cases x) simp
  qed
  have tag: "field_index T s (fst x) = Some (?ix x) \<and> ?ix x = field_at T s (fst x) \<and> ?ix x < length ?z \<and>
      json_tag (fields_of T s ! ?ix x) = fst x \<and> CHR ''.'' \<notin> set (fst x)" if "x \<in> set l" for x
    using described_tag [OF assms(1), of "fst x"] mem [OF that] by simp
  have dist: "distinct (map ?ix l)"
  proof -
    have "inj_on ?ix (set l)"
    proof (rule inj_onI)
      fix x y assume xy: "x \<in> set l" "y \<in> set l" "?ix x = ?ix y"
      from tag [OF xy(1)] tag [OF xy(2)] xy(3) have "fst x = fst y" by metis
      with mem [OF xy(1)] mem [OF xy(2)] show "x = y" by (simp add: prod_eq_iff)
    qed
    with assms(2) show ?thesis unfolding distinct_map by blast
  qed
  have set: "\<forall>(nm, val) \<in> set l. CHR ''.'' \<notin> set nm \<and> (\<exists>i. field_index T s nm = Some i \<and> i < length ?z \<and>
      setStringValue G T val (?z ! i) = (Done :: 'd set_result, assigned T s (map_of l) i))"
  proof clarify
    fix nm val assume x: "(nm, val) \<in> set l"
    from mem [OF x] have nm: "map_of l nm = Some val" "nm \<in> set names" by simp_all
    from described_type [OF assms(1) [OF nm(2)]] obtain k where k: "path_type k = Some (type_of (?z ! field_at T s nm))" by blast
    from assign_all_read [OF assms(4) nm(2,1)] obtain w :: "'f gval" where
      w: "read_value (type_of (?z ! field_at T s nm)) val = Inr w" by blast
    have "setStringValue G T val (?z ! field_at T s nm) = (Done :: 'd set_result, w)"
      by (rule read_value_setStringValue [OF k w]) simp
    moreover have "assigned T s (map_of l) (field_at T s nm) = w"
      using described_tag [OF assms(1) [OF nm(2)]] nm(1) w by (simp add: assigned_def)
    ultimately show "CHR ''.'' \<notin> set nm \<and> (\<exists>i. field_index T s nm = Some i \<and> i < length ?z \<and>
        setStringValue G T val (?z ! i) = (Done :: 'd set_result, assigned T s (map_of l) i))"
      using described_tag [OF assms(1) [OF nm(2)]] by blast
  qed
  have "set_params G T l (struct_ptr s ?z) = (None :: 'd goerror option, struct_ptr s
      (fold (\<lambda>x fs. fs[?ix x := assigned T s (map_of l) (?ix x)]) l ?z))"
    by (rule set_params_fields [OF _ set]) (use dist in \<open>simp add: case_prod_unfold\<close>)
  also have "fold (\<lambda>x fs. fs[?ix x := assigned T s (map_of l) (?ix x)]) l ?z =
      map (\<lambda>i. if i \<in> ?ix ` set l then assigned T s (map_of l) i else ?z ! i) [0..<length ?z]"
    by (rule fold_update [OF dist]) (use tag in blast)
  also have "\<dots> = gs"
  proof -
    have "i \<in> ?ix ` set l \<longleftrightarrow> (\<exists>n \<in> set names. map_of l n \<noteq> None \<and> field_at T s n = i)" for i
      unfolding assms(3) [symmetric] using tag mem by force
    with assign_all_fields [OF assms(4,1)] show ?thesis by simp
  qed
  finally show ?thesis .
qed

section \<open>A generated builder against the reflection\<close>

lemma builder_plain:
  fixes E :: "'f builder_env"
  assumes "hr_body rule = []" "pathParamsFor (hr_path rule) = Inr (map plain_param names)"
    and "\<And>n. n \<in> set names \<Longrightarrow> described (be_types E) s msg n"
  shows "\<exists>prog. builder_program Q M msg rule = Some prog \<and>
    build E prog s =
      Some (case assign_all (be_types E) s (be_params E) names (zero_fields (be_types E) s) of
        Inl e \<Rightarrow> Inl e
      | Inr fs \<Rightarrow>
          (case set_query (be_go E) (be_types E) (\<lambda>nm. nm \<in> set names) (be_query E) (struct_ptr s fs) of
             (None, m) \<Rightarrow> Inr m
           | (Some e :: 'd goerror option, m) \<Rightarrow> Inl e))"
proof -
  let ?T = "be_types E" and ?z = "zero_fields (be_types E) s"
  have "typed_as ?z ?z" by (simp add: typed_as_def)
  from run_params [OF assms(3) this, where 'd = 'd and Q = Q and M = M] obtain ss where
    ss: "all_some (map (param_program Q M msg) (map plain_param names)) = Some ss"
    "\<And>cs. run E (ss @ cs) (struct_ptr s ?z, [], None) =
      (case assign_all ?T s (be_params E) names ?z of
         Inl e \<Rightarrow> Some (Inl e :: 'd goerror + 'f bstate) | Inr fs \<Rightarrow> run E cs (struct_ptr s fs, [], None))"
    using \<open>typed_as ?z ?z\<close> by blast
  let ?ps = "if names = [] then [] else Comment ''Path parameters.'' # ss @ [Blank]"
  let ?q = "[Comment ''Query parameters (fields not bound by path or body).'', FillQuery names]"
  have "builder_program Q M msg rule = Some (?ps @ ?q)"
    using assms(1,2) ss(1) by (auto simp: builder_program_def body_program_def params_program_def query_program_def comp_def)
  moreover have "run E (?ps @ ?q) (struct_ptr s ?z, [], None) =
      (case assign_all ?T s (be_params E) names ?z of
         Inl e \<Rightarrow> Some (Inl e :: 'd goerror + 'f bstate) | Inr fs \<Rightarrow> run E ?q (struct_ptr s fs, [], None))"
    by (simp add: ss(2) split: sum.splits)
  ultimately show ?thesis
    by (auto simp: build_def PopulateQuery_def nil_pointer_def split: sum.splits prod.splits option.splits)
qed

lemma set_query_cong:
  "(\<And>nm vals. (nm, vals) \<in> set qs \<Longrightarrow> skip nm = skip' nm) \<Longrightarrow> (set_query G T skip qs v :: 'd goerror option \<times> 'f gval) = set_query G T skip' qs v"
proof (induction qs arbitrary: v)
  case (Cons x qs)
  obtain nm vals where x: "x = (nm, vals)" by (cases x)
  have "skip nm = skip' nm" using Cons.prems [of nm vals] by (simp add: x)
  moreover have "(set_query G T skip qs v :: 'd goerror option \<times> 'f gval) = set_query G T skip' qs v" for v
    by (rule Cons.IH) (use Cons.prems in auto)
  ultimately show ?case by (simp add: x split: prod.splits option.splits)
qed simp

text \<open>
  C7. For a rule without a body mapping whose path parameters are plain names of scalar fields of the message itself (strings,
  booleans, integers), the builder that the generator writes always compiles and runs without panicking. Either a
  parameter does not convert, and it reports the type mismatch; or it answers as \<open>runtime.PopulateMessage\<close> does
  by reflection, message or error, in whatever order the reflection visits the parameters. With a body the two differ.
\<close>

theorem builder_refines_populate:
  assumes "hr_body rule = []" "pathParamsFor (hr_path rule) = Inr (map plain_param names)"
    and "\<And>n. n \<in> set names \<Longrightarrow> described (be_types E) s msg n"
    and "distinct (map fst l)" "map_of l = be_params E" "dom (be_params E) = set names" "[] \<notin> fst ` set (be_query E)"
  shows "\<exists>prog. builder_program Q M msg rule = Some prog \<and>
    ((\<exists>n \<in> set names. \<exists>v why. be_params E n = Some v \<and>
        read_value (type_of (zero_fields (be_types E) s ! field_at (be_types E) s n)) v = (Inl why :: string + 'f gval) \<and>
        build E prog s = Some (Inl (mismatch n why :: 'd goerror))) \<or>
     build E prog s =
       Some (case PopulateMessage (be_go E) (be_types E) dec (struct_ptr s (zero_fields (be_types E) s)) l (be_query E) body [] of
         (None, m) \<Rightarrow> Inr (m :: 'f gval)
       | (Some e :: 'd goerror option, m) \<Rightarrow> Inl e))"
proof -
  let ?T = "be_types E" and ?z = "zero_fields (be_types E) s"
  from builder_plain [OF assms(1-3), where 'd = 'd and Q = Q and M = M] obtain prog where prog:
    "builder_program Q M msg rule = Some prog"
    "build E prog s = Some (case assign_all ?T s (be_params E) names ?z of
        Inl e \<Rightarrow> Inl e
      | Inr fs \<Rightarrow>
          (case set_query (be_go E) ?T (\<lambda>nm. nm \<in> set names) (be_query E) (struct_ptr s fs) of
             (None, m) \<Rightarrow> Inr m
           | (Some e :: 'd goerror option, m) \<Rightarrow> Inl e))" by blast
  show ?thesis
  proof (cases "assign_all ?T s (be_params E) names ?z :: 'd goerror + 'f gval list")
    case (Inl e)
    from assign_all_error [OF this] obtain n v why where bad: "n \<in> set names" "be_params E n = Some v"
      "read_value (type_of (?z ! field_at ?T s n)) v = (Inl why :: string + 'f gval)" "e = mismatch n why" by blast
    have "build E prog s = Some (Inl (mismatch n why :: 'd goerror))" using prog(2) Inl bad(4) by simp
    with prog(1) bad(1-3) show ?thesis by blast
  next
    case (Inr gs)
    have keys: "set (map fst l) = set names"
      using assms(5,6) dom_map_of_conv_image_fst [of l] by simp
    have path: "set_params (be_go E) ?T l (struct_ptr s ?z) = (None :: 'd goerror option, struct_ptr s gs)"
      by (rule set_params_assign_all [OF assms(3,4) keys]) (simp_all add: assms(5) Inr)
    have "set_query (be_go E) ?T (\<lambda>nm. map_of l nm \<noteq> None \<or> nm = []) (be_query E) (struct_ptr s gs) =
        (set_query (be_go E) ?T (\<lambda>nm. nm \<in> set names) (be_query E) (struct_ptr s gs) :: 'd goerror option \<times> 'f gval)"
      by (rule set_query_cong) (use assms(5-7) in force)
    with path prog Inr show ?thesis by (simp add: PopulateMessage_def nil_pointer_def)
  qed
qed


lemma path_field_read:
  assumes "path_field G T s fs n" "described T s msg n"
  shows "field_at T s n < length fs \<and>
    read_value (type_of (zero_fields T s ! field_at T s n)) (path_value G T s fs n) = (Inr (fs ! field_at T s n) :: string + 'f gval)"
proof -
  from path_field_index [OF assms(1)] obtain i where i: "field_index T s n = Some i" "i < length fs" "scalar_ok (fs ! i)"
    "zero_fields T s ! i = zero G T (type_of (fs ! i))" by blast
  have "type_of (zero_fields T s ! i) = type_of (fs ! i)" using i(3,4) by (cases "fs ! i") auto
  moreover from described_type [OF assms(2)] i(1) obtain k where "path_type k = Some (type_of (zero_fields T s ! i))"
    by (auto simp: field_at_def)
  ultimately show ?thesis using read_value_string [of k "fs ! i" G] i(1-3) by (simp add: path_value_def field_at_def)
qed

lemma assign_all_path:
  assumes "\<And>n. n \<in> set names \<Longrightarrow> path_field G T s fs n" "\<And>n. n \<in> set names \<Longrightarrow> described T s msg n"
    and "length (zero_fields T s) = length fs"
  shows "assign_all T s (\<lambda>n. if n \<in> set names then Some (path_value G T s fs n) else None) names (zero_fields T s) =
    (Inr (path_filled T s fs names) :: 'd goerror + 'f gval list)"
proof -
  let ?z = "zero_fields T s" and ?ps = "\<lambda>n. if n \<in> set names then Some (path_value G T s fs n) else None"
  note rd = path_field_read [OF assms(1,2)]
  show ?thesis
  proof (cases "assign_all T s ?ps names ?z :: 'd goerror + 'f gval list")
    case (Inl e)
    from assign_all_error [OF this] rd show ?thesis by auto
  next
    case (Inr gs)
    have val: "assigned T s ?ps (field_at T s n) = fs ! field_at T s n" if "n \<in> set names" for n
      using described_tag [OF assms(2) [OF that]] rd [OF that that] that by (simp add: assigned_def)
    have "gs = map (\<lambda>i. if \<exists>n \<in> set names. ?ps n \<noteq> None \<and> field_at T s n = i then assigned T s ?ps i else ?z ! i) [0..<length ?z]"
      by (rule assign_all_fields [OF Inr assms(2) refl])
    also have "\<dots> = path_filled T s fs names"
      unfolding path_filled_def assms(3)
    proof (intro map_cong refl)
      fix i
      have "Some i \<in> field_index T s ` set names \<longleftrightarrow> (\<exists>n \<in> set names. field_at T s n = i)"
        using described_tag [OF assms(2)] by force
      then show "(if \<exists>n \<in> set names. ?ps n \<noteq> None \<and> field_at T s n = i then assigned T s ?ps i else ?z ! i) =
          (if Some i \<in> field_index T s ` set names then fs ! i else ?z ! i)"
        using val by auto
    qed
    finally show ?thesis using Inr by simp
  qed
qed

lemma call_builds:
  assumes "list_all printable (segments p)" "pattern_ok p" "hr_path rule = render p" "hr_body rule = []"
    and "queryable (ce_go E) (ce_types E) (pattern_names (segments p)) s fs"
    and "list_all (path_field (ce_go E) (ce_types E) s fs) (pattern_names (segments p))"
    and "list_all (described (ce_types E) s msg) (pattern_names (segments p))"
    and "fits_segments (path_value (ce_go E) (ce_types E) s fs) (segments p)"
    and "set (fill (path_value (ce_go E) (ce_types E) s fs) p) \<inter> {CHR ''?'', CHR ''#'', CHR ''%''} = {}"
  shows "\<exists>u. encode_call E codec (hr_path rule) [] (Some (struct_ptr s fs)) = Some (Inr (u, None) :: 'd goerror + string \<times> string option) \<and>
    fst (parse_target u) = fill (path_value (ce_go E) (ce_types E) s fs) p \<and>
    Match p (fst (parse_target u)) =
      Some (bind_names (path_value (ce_go E) (ce_types E) s fs) (pattern_names (segments p)) None) \<and>
    (\<forall>B. be_go B = ce_go E \<and> be_types B = ce_types E \<and>
         be_params B = params_make (bind_names (path_value (ce_go E) (ce_types E) s fs) (pattern_names (segments p)) None) \<and>
         mset (be_query B) = mset (ParseQuery (snd (parse_target u))) \<longrightarrow>
       (\<exists>prog. builder_program Q M msg rule = Some prog \<and>
          build B prog s = Some (Inr (struct_ptr s (received (ce_types E) s fs)) :: 'd goerror + 'f gval)))"
proof -
  let ?G = "ce_go E" and ?T = "ce_types E" and ?names = "pattern_names (segments p)"
  let ?\<sigma> = "path_value ?G ?T s fs"
  have pf: "path_field ?G ?T s fs n" if "n \<in> set ?names" for n using assms(6) that by (simp add: list_all_iff)
  have ds: "described ?T s msg n" if "n \<in> set ?names" for n using assms(7) that by (simp add: list_all_iff)
  from call_on_the_wire [OF assms(1,2,5,6,8,9), of codec "TStruct s"] obtain u where
    u: "encode_call E codec (render p) [] (Some (struct_ptr s fs)) = Some (Inr (u, None) :: 'd goerror + string \<times> string option)"
      "fst (parse_target u) = fill ?\<sigma> p" "Match p (fst (parse_target u)) = Some (bind_names ?\<sigma> ?names None)"
      "mset (ParseQuery (snd (parse_target u))) = mset (MessageToQuery ?G ?T (struct_ptr s fs) ?names)" by blast
  have len: "length (zero_fields ?T s) = length fs" using assms(5) by (simp add: queryable_def)
  have params: "pathParamsFor (hr_path rule) = Inr (map plain_param ?names)"
    unfolding assms(3) by (rule pathParamsFor_render [OF assms(1,2)])
  have "\<exists>prog. builder_program Q M msg rule = Some prog \<and>
      build B prog s = Some (Inr (struct_ptr s (received ?T s fs)) :: 'd goerror + 'f gval)"
    if B: "be_go B = ?G" "be_types B = ?T" "be_params B = params_make (bind_names ?\<sigma> ?names None)"
      "mset (be_query B) = mset (ParseQuery (snd (parse_target u)))" for B
  proof -
    have "set_query ?G ?T (\<lambda>nm. nm \<in> set ?names) (be_query B) (struct_ptr s (path_filled ?T s fs ?names)) =
        (None :: 'd goerror option, struct_ptr s (received ?T s fs))"
      by (rule query_completes [OF assms(5) pf]) (simp_all add: B(4) u(4))
    moreover have "assign_all ?T s (\<lambda>n. if n \<in> set ?names then Some (?\<sigma> n) else None) ?names (zero_fields ?T s) =
        (Inr (path_filled ?T s fs ?names) :: 'd goerror + 'f gval list)"
      by (rule assign_all_path [OF pf ds len])
    moreover note builder_plain [OF assms(4) params, where 'd = 'd and E = B and s = s and msg = msg and Q = Q and M = M,
        unfolded B(1-3) bind_names_None, OF ds]
    ultimately show ?thesis by simp
  qed
  with u(1-3) show ?thesis unfolding assms(3) by (intro exI [of _ u]) blast
qed

text \<open>
  C3. The client and a generated server together: for a rule without a body mapping, the message a client sends arrives in
  the generated handler. The client fills the rule's path with fields of the message and puts the others into the query;
  the server's pattern for the same path matches; and the builder generated from the rule makes the client's message out of
  the captured parameters and the query, in whatever order the query is visited.
\<close>

theorem generated_request_over_the_wire:
  assumes "list_all printable (segments p)" "pattern_ok p" "hr_path rule = render p" "hr_body rule = []"
    and "queryable (ce_go E) (ce_types E) (pattern_names (segments p)) s fs"
    and "list_all (path_field (ce_go E) (ce_types E) s fs) (pattern_names (segments p))"
    and "list_all (described (ce_types E) s msg) (pattern_names (segments p))"
    and "fits_segments (path_value (ce_go E) (ce_types E) s fs) (segments p)"
    and "set (fill (path_value (ce_go E) (ce_types E) s fs) p) \<inter> {CHR ''?'', CHR ''#'', CHR ''%''} = {}"
  shows "\<exists>u ps. encode_call E codec (hr_path rule) [] (Some (struct_ptr s fs)) = Some (Inr (u, None) :: 'd goerror + string \<times> string option) \<and>
    Match p (fst (parse_target u)) = Some ps \<and>
    (\<forall>B. be_go B = ce_go E \<and> be_types B = ce_types E \<and> be_params B = params_make ps \<and>
         mset (be_query B) = mset (ParseQuery (snd (parse_target u))) \<longrightarrow>
       (\<exists>prog. builder_program Q M msg rule = Some prog \<and>
          build B prog s = Some (Inr (struct_ptr s (received (ce_types E) s fs)) :: 'd goerror + 'f gval)))"
  using call_builds [OF assms, of codec Q M] by metis


section \<open>Bodies\<close>

lemma builder_star:
  fixes E :: "'f builder_env"
  assumes "hr_body rule = ''*''" "pathParamsFor (hr_path rule) = Inr (map plain_param names)"
    and "\<And>n. n \<in> set names \<Longrightarrow> described (be_types E) s msg n"
    and "be_decode E (be_body E) (VStruct s (zero_fields (be_types E) s)) = (None, VStruct s gs)"
    and "typed_as (zero_fields (be_types E) s) gs"
  shows "\<exists>prog. builder_program Q M msg rule = Some prog \<and>
    build E prog s = Some (map_sum id (struct_ptr s) (assign_all (be_types E) s (be_params E) names gs) :: 'd goerror + 'f gval)"
proof -
  let ?T = "be_types E" and ?z = "zero_fields (be_types E) s"
  from run_params [OF assms(3,5), where 'd = 'd and Q = Q and M = M] obtain ss where
    ss: "all_some (map (param_program Q M msg) (map plain_param names)) = Some ss"
    "\<And>cs. run E (ss @ cs) (struct_ptr s gs, [], None) =
      (case assign_all ?T s (be_params E) names gs of
         Inl e \<Rightarrow> Some (Inl e :: 'd goerror + 'f bstate) | Inr fs \<Rightarrow> run E cs (struct_ptr s fs, [], None))"
    using assms(5) by blast
  let ?ps = "if names = [] then [] else Comment ''Path parameters.'' # ss @ [Blank]"
  have "builder_program Q M msg rule =
      Some (Comment ''Body: entire request message (buffered by the mux).'' # DecodeMsg # ?ps)"
    using assms(1,2) ss(1) by (auto simp: builder_program_def body_program_def params_program_def query_program_def)
  moreover have "run E ?ps (struct_ptr s gs, [], None) =
      (case assign_all ?T s (be_params E) names gs of
         Inl e \<Rightarrow> Some (Inl e :: 'd goerror + 'f bstate) | Inr fs \<Rightarrow> Some (Inr (struct_ptr s fs, [], None)))"
    by (simp add: ss(2) split: sum.splits)
  ultimately show ?thesis
    using assms(4) by (auto simp: build_def split: sum.splits)
qed

text \<open>
  C40. Body and path parameters are merged in opposite orders. Where the codec's decoder resets the message, as
  \<open>protojson\<close> and \<open>proto\<close> do, a builder generated for a body of \<open>*\<close> keeps the path parameters, over what the body says;
  \<open>runtime.PopulateMessage\<close> on the same request returns what the body alone says.
\<close>

theorem body_against_path:
  fixes E :: "'f builder_env"
  assumes "hr_body rule = ''*''" "pathParamsFor (hr_path rule) = Inr (map plain_param names)"
    and "\<And>n. n \<in> set names \<Longrightarrow> described (be_types E) s msg n"
    and "\<And>m. be_decode E (be_body E) m = (None, VStruct s gs)" "typed_as (zero_fields (be_types E) s) gs"
    and "distinct (map fst l)" "map_of l = be_params E" "dom (be_params E) = set names"
    and "\<And>n v. be_params E n = Some v \<Longrightarrow>
      read_value (type_of (zero_fields (be_types E) s ! field_at (be_types E) s n)) v = Inr (w n :: 'f gval)"
  shows "\<exists>prog hs. builder_program Q M msg rule = Some prog \<and>
    build E prog s = Some (Inr (struct_ptr s hs) :: 'd goerror + 'f gval) \<and>
    (\<forall>n \<in> set names. hs ! field_at (be_types E) s n = w n) \<and>
    PopulateMessage (be_go E) (be_types E) (be_decode E) (struct_ptr s (zero_fields (be_types E) s)) l (be_query E) (be_body E) ''*'' =
      (None :: 'd goerror option, struct_ptr s gs)"
proof -
  let ?T = "be_types E" and ?z = "zero_fields (be_types E) s"
  have assigned: "\<exists>hs. assign_all ?T s (be_params E) names fs = (Inr hs :: 'd goerror + 'f gval list)" for fs
  proof (cases "assign_all ?T s (be_params E) names fs :: 'd goerror + 'f gval list")
    case (Inl e)
    from assign_all_error [OF this] assms(9) show ?thesis by fastforce
  qed simp
  from assigned [of ?z] obtain zs where
    zs: "assign_all ?T s (be_params E) names ?z = (Inr zs :: 'd goerror + 'f gval list)" by blast
  from assigned [of gs] obtain hs where
    hs: "assign_all ?T s (be_params E) names gs = (Inr hs :: 'd goerror + 'f gval list)" by blast
  from builder_star [OF assms(1-5), where 'd = 'd and Q = Q and M = M] obtain prog where
    prog: "builder_program Q M msg rule = Some prog" "build E prog s = Some (Inr (struct_ptr s hs) :: 'd goerror + 'f gval)"
    unfolding hs by auto
  have len: "length gs = length ?z" using assms(5) by (rule typed_as_length)
  have "hs ! field_at ?T s n = w n" if n: "n \<in> set names" for n
  proof -
    from n assms(8) obtain v where v: "be_params E n = Some v" by blast
    have "hs = map (\<lambda>i. if \<exists>n \<in> set names. be_params E n \<noteq> None \<and> field_at ?T s n = i then assigned ?T s (be_params E) i else gs ! i)
        [0..<length gs]" by (rule assign_all_fields [OF hs assms(3) len])
    moreover have "assigned ?T s (be_params E) (field_at ?T s n) = w n"
      using described_tag [OF assms(3) [OF n]] v assms(9) [OF v] by (simp add: assigned_def)
    ultimately show ?thesis using n v described_tag [OF assms(3) [OF n]] len by auto
  qed
  moreover have keys: "set (map fst l) = set names"
    using assms(7,8) dom_map_of_conv_image_fst [of l] by simp
  have "set_params (be_go E) ?T l (struct_ptr s ?z) = (None :: 'd goerror option, struct_ptr s zs)"
    by (rule set_params_assign_all [OF assms(3,6) keys]) (simp_all add: assms(7) zs)
  then have "PopulateMessage (be_go E) ?T (be_decode E) (struct_ptr s ?z) l (be_query E) (be_body E) ''*'' =
      (None :: 'd goerror option, struct_ptr s gs)"
    by (simp add: PopulateMessage_def nil_pointer_def assms(4))
  ultimately show ?thesis using prog by blast
qed

text \<open>
  A body mapped to a message field cannot be sent as protobuf to a generated handler. The builder hands the codec the
  address of the field, a pointer to a pointer, which is no \<open>proto.Message\<close>: whatever the body, the request is refused.
  \<open>runtime.PopulateMessage\<close> decodes the same body into the field.
\<close>

theorem body_field_pointer:
  fixes E :: "'f builder_env"
  assumes "hr_body rule = body" "body \<noteq> []" "body \<noteq> ''*''" "CHR ''.'' \<notin> set body"
    and "find (\<lambda>f. pf_Name f = body) (pm_Fields msg) = Some f" "field_index (be_types E) s body = Some i"
    and "find_index_from 0 (\<lambda>sf. fl_Name sf = pf_GoName f) (fields_of (be_types E) s) = Some i"
    and "i < length (zero_fields (be_types E) s)" "zero_fields (be_types E) s ! i = VPtr t None"
    and "be_decode E = Unmarshal lib ProtoCodec" "\<And>x. \<not> isProto lib (VPtr t x)"
    and "isProto lib (zero (be_go E) (be_types E) t)"
    and "protoUnmarshal lib (be_body E) (zero (be_go E) (be_types E) t) = (None, w)"
    and "builder_program Q M msg rule = Some prog"
  shows "build E prog s =
      Some (Inl (invalid (''decode request body: '' @ not_proto lib (VPtr t None))) :: 'd goerror + 'f gval) \<and>
    PopulateMessage (be_go E) (be_types E) (be_decode E) (struct_ptr s (zero_fields (be_types E) s)) [] [] (be_body E) body =
      (None :: 'd goerror option, struct_ptr s ((zero_fields (be_types E) s)[i := VPtr t (Some w)]))"
proof -
  have fp: "resolveFieldPath M msg body = Inr [f]" using assms(4,5) by (simp add: resolveFieldPath_def split_byte_absent)
  from assms(1-3,14) fp obtain rest where
    prog: "prog = Comment (''Body: field '' @ strconvQuote body @ ''.'') # DecodeField [pf_GoName f] # rest"
    by (auto simp: builder_program_def body_program_def go_names_def split: sum.splits option.splits)
  have "run E prog (struct_ptr s (zero_fields (be_types E) s), [], None) =
      Some (Inl (invalid (''decode request body: '' @ not_proto lib (VPtr t None))) :: 'd goerror + 'f bstate)"
    using assms(7-11) by (simp add: prog)
  then have "build E prog s =
      Some (Inl (invalid (''decode request body: '' @ not_proto lib (VPtr t None))) :: 'd goerror + 'f gval)"
    by (simp add: build_def)
  moreover have "SetFieldFromBody (be_go E) (be_types E) (be_decode E) body (be_body E) (struct_ptr s (zero_fields (be_types E) s)) =
      (None :: 'd goerror option, struct_ptr s ((zero_fields (be_types E) s)[i := VPtr t (Some w)]))"
    using assms(6,8-13) by (simp add: SetFieldFromBody_def FindField_struct)
  ultimately show ?thesis using assms(2,3) by (simp add: PopulateMessage_def nil_pointer_def)
qed

section \<open>Requests to apply the theorems to\<close>

definition book_rule :: "string \<Rightarrow> httpRule" where
  "book_rule body = \<lparr>hr_method = ''GET'', hr_path = ''/books/{id}:read'', hr_body = body, hr_responseBody = []\<rparr>"

definition book_message :: pmessage where
  "book_message =
     \<lparr>pm_Name = ''Book'', pm_GoIdent = \<lparr>gi_path = ''books'', GoName = ''Book''\<rparr>,
      pm_Fields = [\<lparr>pf_Name = ''id'', pf_GoName = ''Id'', pf_GoIdent = \<lparr>gi_path = ''books'', GoName = ''Book_Id''\<rparr>, pf_Kind = StringKind,
        pf_IsList = False, pf_Message = None, pf_InOneof = False, pf_Optional = False, pf_Tags = None\<rparr>],
      pm_Oneofs = []\<rparr>"

abbreviation plain_qualifier :: qualifier where
  "plain_qualifier \<equiv> \<lambda>path nm. nm"

definition book_request :: "unit gval list \<Rightarrow> unit builder_env" where
  "book_request reset =
     \<lparr>be_go = no_lib, be_types = book_types, be_decode = \<lambda>b v. (None, VStruct ''Book'' reset), be_rawurl = \<lambda>s. None,
      be_params = [''id'' \<mapsto> ''7''], be_query = [(''page'', [''3''])], be_body = ''{}''\<rparr>"

lemma book_request_sel [simp]:
  "be_go (book_request r) = no_lib" "be_types (book_request r) = book_types" "be_params (book_request r) = [''id'' \<mapsto> ''7'']"
  "be_query (book_request r) = [(''page'', [''3''])]" "be_body (book_request r) = ''{}''"
  "be_decode (book_request r) = (\<lambda>b v. (None, VStruct ''Book'' r))"
  by (simp_all add: book_request_def)

lemma book_described: "described book_types ''Book'' book_message ''id''"
  by code_simp

lemma book_rule_params: "pathParamsFor (hr_path (book_rule body)) = Inr (map plain_param [''id''])"
  unfolding book_rule_def by code_simp

lemma book_read: "read_value (type_of (zero_fields book_types ''Book'' ! field_at book_types ''Book'' ''id'')) v = Inr (VString v :: unit gval)"
proof -
  have "field_at book_types ''Book'' ''id'' = 1" by code_simp
  then show ?thesis by (simp add: book_types_def read_value_def)
qed

lemma builder_refines_populate_witness:
  "\<exists>prog. builder_program plain_qualifier (\<lambda>_. book_message) book_message (book_rule []) = Some prog \<and>
    build (book_request []) prog ''Book'' =
      Some (case PopulateMessage no_lib book_types (\<lambda>b v. (None, v)) (struct_ptr ''Book'' (zero_fields book_types ''Book''))
          [(''id'', ''7'')] [(''page'', [''3''])] [] [] of
        (None, m) \<Rightarrow> Inr m
      | (Some e :: string goerror option, m) \<Rightarrow> Inl e)"
  using builder_refines_populate [of "book_rule []" "[''id'']" "book_request []" "''Book''" book_message "[(''id'', ''7'')]"
      plain_qualifier "\<lambda>_. book_message" "\<lambda>b v. (None, v)" "[]", where 'd = string] book_described book_rule_params [of "[]"]
  by (auto simp: book_read book_rule_def)

lemma generated_request_over_the_wire_witness:
  "\<exists>u ps. encode_call book_env JSONCodec (hr_path (book_rule [])) [] (Some (struct_ptr ''Book'' book)) =
      Some (Inr (u, None) :: string goerror + string \<times> string option) \<and>
    Match book_pattern (fst (parse_target u)) = Some ps \<and>
    (\<forall>B. be_go B = no_lib \<and> be_types B = book_types \<and> be_params B = params_make ps \<and>
         mset (be_query B) = mset (ParseQuery (snd (parse_target u))) \<longrightarrow>
       (\<exists>prog. builder_program plain_qualifier (\<lambda>_. book_message) book_message (book_rule []) = Some prog \<and>
          build B prog ''Book'' = Some (Inr (struct_ptr ''Book'' book) :: string goerror + unit gval)))"
proof -
  have "list_all printable (segments book_pattern)" "pattern_ok book_pattern" "hr_path (book_rule []) = render book_pattern"
    by code_simp+
  moreover have "fits_segments (path_value no_lib book_types ''Book'' book) (segments book_pattern)"
    by (simp add: book_pattern_def book_path_value fits_def path_part_def)
  moreover have "fill (path_value no_lib book_types ''Book'' book) book_pattern = ''/books/7:read''"
    by (simp add: book_pattern_def book_path_value fill_def seg_text_def)
  moreover have "hr_body (book_rule []) = []" by (simp add: book_rule_def)
  ultimately show ?thesis
    using generated_request_over_the_wire [of book_pattern "book_rule []" book_env "''Book''" book book_message JSONCodec
        plain_qualifier "\<lambda>_. book_message"]
      book_queryable [folded book_def] book_path_field book_described
    unfolding book_env_sel book_names book_received by simp
qed

lemma body_against_path_witness:
  "\<exists>prog hs. builder_program plain_qualifier (\<lambda>_. book_message) book_message (book_rule ''*'') = Some prog \<and>
    build (book_request [VOther ''state'', VString ''8'', VInt 32 0, VSlice TString []]) prog ''Book'' =
      Some (Inr (struct_ptr ''Book'' hs) :: string goerror + unit gval) \<and>
    hs ! field_at book_types ''Book'' ''id'' = VString ''7'' \<and>
    PopulateMessage no_lib book_types (\<lambda>b v. (None, VStruct ''Book'' [VOther ''state'', VString ''8'', VInt 32 0, VSlice TString []]))
        (struct_ptr ''Book'' (zero_fields book_types ''Book'')) [(''id'', ''7'')] [(''page'', [''3''])] ''{}'' ''*'' =
      (None :: string goerror option, struct_ptr ''Book'' [VOther ''state'', VString ''8'', VInt 32 0, VSlice TString []])"
proof -
  let ?r = "[VOther ''state'', VString ''8'', VInt 32 0, VSlice TString []] :: unit gval list"
  have "typed_as (zero_fields book_types ''Book'') ?r" by (simp add: typed_as_def book_types_def)
  moreover have "read_value (type_of (zero_fields book_types ''Book'' ! field_at book_types ''Book'' n)) v = Inr (VString ''7'' :: unit gval)"
    if "[''id'' \<mapsto> ''7''] n = Some v" for n v
    using that by (cases "n = ''id''") (simp_all add: book_read)
  ultimately show ?thesis
    using body_against_path [of "book_rule ''*''" "[''id'']" "book_request ?r" "''Book''" book_message ?r "[(''id'', ''7'')]" "\<lambda>n. VString ''7''"
        plain_qualifier "\<lambda>_. book_message", where 'd = string] book_described book_rule_params [of "''*''"]
    by (simp add: book_rule_def)
qed

definition shelf_types :: "unit types" where
  "shelf_types = \<lparr>fields_of = (\<lambda>s. [\<lparr>fl_Name = ''Book'', fl_exported = True, fl_json = ''book,omitempty'', fl_type = TPtr (TStruct ''Book'')\<rparr>]),
     zero_fields = (\<lambda>s. if s = ''Shelf'' then [VPtr (TStruct ''Book'') None] else [VString []])\<rparr>"

definition shelf_message :: pmessage where
  "shelf_message =
     \<lparr>pm_Name = ''Shelf'', pm_GoIdent = \<lparr>gi_path = ''books'', GoName = ''Shelf''\<rparr>,
      pm_Fields = [\<lparr>pf_Name = ''book'', pf_GoName = ''Book'', pf_GoIdent = \<lparr>gi_path = ''books'', GoName = ''Shelf_Book''\<rparr>,
        pf_Kind = MessageKind, pf_IsList = False, pf_Message = Some ''Book'', pf_InOneof = False, pf_Optional = False, pf_Tags = None\<rparr>],
      pm_Oneofs = []\<rparr>"

definition struct_lib :: "unit gval serializers" where
  \<comment> \<open>structs are messages; their encoding is their first field\<close>
  "struct_lib = gval_lib\<lparr>isProto := \<lambda>v. case v of VStruct s fs \<Rightarrow> True | _ \<Rightarrow> False,
     protoUnmarshal := \<lambda>b v. case v of VStruct s fs \<Rightarrow> (None, VStruct s [VString b]) | _ \<Rightarrow> (Some ''type'', v)\<rparr>"

definition shelf_request :: "unit builder_env" where
  "shelf_request =
     \<lparr>be_go = no_lib, be_types = shelf_types, be_decode = Unmarshal struct_lib ProtoCodec, be_rawurl = \<lambda>s. None,
      be_params = Map.empty, be_query = [], be_body = ''7''\<rparr>"

definition shelf_rule :: httpRule where
  "shelf_rule = \<lparr>hr_method = ''POST'', hr_path = ''/shelf'', hr_body = ''book'', hr_responseBody = []\<rparr>"

lemma body_field_pointer_witness:
  "\<exists>prog. builder_program plain_qualifier (\<lambda>_. shelf_message) shelf_message shelf_rule = Some prog \<and>
    build shelf_request prog ''Shelf'' =
      Some (Inl (invalid (''decode request body: '' @ not_proto struct_lib (VPtr (TStruct ''Book'') None))) :: string goerror + unit gval) \<and>
    PopulateMessage no_lib shelf_types (Unmarshal struct_lib ProtoCodec) (struct_ptr ''Shelf'' (zero_fields shelf_types ''Shelf''))
        [] [] ''7'' ''book'' =
      (None :: string goerror option, struct_ptr ''Shelf'' [VPtr (TStruct ''Book'') (Some (VStruct ''Book'' [VString ''7'']))])"
proof -
  obtain prog where prog: "builder_program plain_qualifier (\<lambda>_. shelf_message) shelf_message shelf_rule = Some prog"
  proof -
    have "builder_program plain_qualifier (\<lambda>_. shelf_message) shelf_message shelf_rule \<noteq> None" by code_simp
    then show ?thesis using that by blast
  qed
  have "field_index shelf_types ''Shelf'' ''book'' = Some 0"
    "find_index_from 0 (\<lambda>sf. fl_Name sf = ''Book'') (fields_of shelf_types ''Shelf'') = Some 0" by code_simp+
  then show ?thesis
    using body_field_pointer [of shelf_rule "''book''" shelf_message "hd (pm_Fields shelf_message)" shelf_request "''Shelf''" 0
        "TStruct ''Book''" struct_lib "VStruct ''Book'' [VString ''7'']" plain_qualifier "\<lambda>_. shelf_message" prog, where 'd = string] prog
    by (auto simp: shelf_rule_def shelf_message_def shelf_request_def shelf_types_def struct_lib_def)
qed

end
