(* ===== verification/GenService.thy ===== *)
theory GenService
  imports GenServer
begin

text \<open>
  What \<open>protoc-gen-zararpc\<close> prints for a service as a whole, \<open>generate.go\<close>: the handler interface, request builders,
  constants, operation constructors, registration, and the typed HTTP client.
\<close>

record compilerVersion =
  cv_major :: int
  cv_minor :: int
  cv_patch :: int

definition protocVersion :: "compilerVersion option \<Rightarrow> string" where
  "protocVersion v =
     (case v of
        Some v \<Rightarrow> ''v'' @ format_int (cv_major v) @ ''.'' @ format_int (cv_minor v) @ ''.'' @ format_int (cv_patch v)
      | None \<Rightarrow> ''(unknown)'')"

definition lower_first :: "string \<Rightarrow> string" where
  "lower_first s = to_lower (take 1 s) @ drop 1 s"

definition per_rule :: "(pmethod \<Rightarrow> nat \<Rightarrow> httpRule \<Rightarrow> 'a) \<Rightarrow> pservice \<Rightarrow> 'a list" where
  \<comment> \<open>the nested loops over the methods and their rules\<close>
  "per_rule f svc = concat (map (\<lambda>m. map (\<lambda>(i, rule). f m i rule) (enumerate 0 (extractHTTPRules m))) (ps_Methods svc))"

section \<open>The client\<close>

definition client_signature :: "qualifier \<Rightarrow> messages \<Rightarrow> string \<Rightarrow> pmethod \<Rightarrow> string" where
  \<comment> \<open>the line of a method in the client's interface\<close>
  "client_signature Q M ctxType m =
     (if streamMode m = ''server'' then
        pd_GoName m @ ''('' @ ctxType @ '', *'' @ inputType Q M m @ '', ...'' @ sym Q ''ClientOption'' @ '') ('' @ sym Q ''ServerStreamForClient'' @ ''['' @ outputType Q M m @ ''], error)''
      else if streamMode m = ''client'' then
        pd_GoName m @ ''('' @ ctxType @ '', ...'' @ sym Q ''ClientOption'' @ '') ('' @ sym Q ''ClientStreamForClient'' @ ''['' @ inputType Q M m @ '', '' @ outputType Q M m @ ''], error)''
      else if streamMode m = ''bidi'' then
        pd_GoName m @ ''('' @ ctxType @ '', ...'' @ sym Q ''ClientOption'' @ '') ('' @ sym Q ''BidiStreamForClient'' @ ''['' @ inputType Q M m @ '', '' @ outputType Q M m @ ''], error)''
      else
        pd_GoName m @ ''('' @ ctxType @ '', *'' @ inputType Q M m @ '', ...'' @ sym Q ''ClientOption'' @ '') (*'' @ outputType Q M m @ '', error)'')"

definition client_method :: "qualifier \<Rightarrow> messages \<Rightarrow> pservice \<Rightarrow> string \<Rightarrow> string \<Rightarrow> pmethod \<Rightarrow> lines option" where
  "client_method Q M svc clientName ctxType m =
     (case firstHTTPRule m of
        None \<Rightarrow> None
      | Some rule \<Rightarrow>
          (let inType = inputType Q M m; outType = outputType Q M m; recv = ''c *'' @ lower_first clientName;
               reflectTypeOf = q Q reflectImport ''TypeOf''
           in Some (if streamMode m = ''server'' then
                [''func ('' @ recv @ '') '' @ pd_GoName m @ ''(ctx '' @ ctxType @ '', req *'' @ inType @ '', extraOpts ...'' @ sym Q ''ClientOption'' @ '') ('' @ sym Q ''ServerStreamForClient'' @ ''['' @ outType @ ''], error) {'',
                 ''raw, err := c.DoServerStream(ctx, '' @ httpMethodConst Q (hr_method rule) @ '', '' @ pathConstName (ps_GoName svc) (pd_GoName m) 0 @ '', req, '' @ reflectTypeOf @ ''((*'' @ outType @ '')(nil)).Elem(), extraOpts...)'',
                 ''if err != nil {'',
                 ''return '' @ sym Q ''ServerStreamForClient'' @ ''['' @ outType @ '']{}, err'',
                 ''}'',
                 ''return '' @ sym Q ''ServerStreamForClient'' @ ''['' @ outType @ '']{Inner: raw}, nil'',
                 ''}'',
                 []]
              else if streamMode m = ''client'' then
                [''func ('' @ recv @ '') '' @ pd_GoName m @ ''(ctx '' @ ctxType @ '', extraOpts ...'' @ sym Q ''ClientOption'' @ '') ('' @ sym Q ''ClientStreamForClient'' @ ''['' @ inType @ '', '' @ outType @ ''], error) {'',
                 ''raw, err := c.DoClientStream(ctx, '' @ httpMethodConst Q (hr_method rule) @ '', '' @ pathConstName (ps_GoName svc) (pd_GoName m) 0 @ '', '' @ reflectTypeOf @ ''((*'' @ outType @ '')(nil)).Elem(), extraOpts...)'',
                 ''if err != nil {'',
                 ''return '' @ sym Q ''ClientStreamForClient'' @ ''['' @ inType @ '', '' @ outType @ '']{}, err'',
                 ''}'',
                 ''return '' @ sym Q ''ClientStreamForClient'' @ ''['' @ inType @ '', '' @ outType @ '']{Inner: raw}, nil'',
                 ''}'',
                 []]
              else if streamMode m = ''bidi'' then
                [''func ('' @ recv @ '') '' @ pd_GoName m @ ''(ctx '' @ ctxType @ '', extraOpts ...'' @ sym Q ''ClientOption'' @ '') ('' @ sym Q ''BidiStreamForClient'' @ ''['' @ inType @ '', '' @ outType @ ''], error) {'',
                 ''raw, err := c.DoBidiStream(ctx, '' @ pathConstName (ps_GoName svc) (pd_GoName m) 0 @ '', '' @ reflectTypeOf @ ''((*'' @ inType @ '')(nil)).Elem(), extraOpts...)'',
                 ''if err != nil {'',
                 ''return '' @ sym Q ''BidiStreamForClient'' @ ''['' @ inType @ '', '' @ outType @ '']{}, err'',
                 ''}'',
                 ''return '' @ sym Q ''BidiStreamForClient'' @ ''['' @ inType @ '', '' @ outType @ '']{Inner: raw}, nil'',
                 ''}'',
                 []]
              else
                [''func ('' @ recv @ '') '' @ pd_GoName m @ ''(ctx '' @ ctxType @ '', req *'' @ inType @ '', extraOpts ...'' @ sym Q ''ClientOption'' @ '') (*'' @ outType @ '', error) {'',
                 ''resp := &'' @ outType @ ''{}'',
                 ''err := c.DoUnary(ctx, '' @ httpMethodConst Q (hr_method rule) @ '', '' @ pathConstName (ps_GoName svc) (pd_GoName m) 0 @ '', '' @ strconvQuote (hr_body rule) @ '', req, resp, extraOpts...)'',
                 ''if err != nil {'',
                 ''return nil, err'',
                 ''}'',
                 ''return resp, nil'',
                 ''}'',
                 []])))"

definition generateClient :: "qualifier \<Rightarrow> messages \<Rightarrow> pservice \<Rightarrow> string \<Rightarrow> lines option" where
  "generateClient Q M svc ctxType =
     (let svcName = ps_GoName svc; clientName = svcName @ ''HTTPClient''; baseType = sym Q ''ClientBase''
      in emit (
        [Some [''// '' @ clientName @ '' is a typed HTTP client for '' @ svcName @ ''.'',
               ''type '' @ clientName @ '' interface {''],
         Some (map (client_signature Q M ctxType) (ps_Methods svc)),
         Some [[],
               ''// Close releases any resources held by the client.'',
               ''Close() error'',
               ''}'',
               [],
               ''type '' @ lower_first clientName @ '' struct {'',
               baseType,
               ''}'',
               [],
               ''// New'' @ clientName @ '' creates a new '' @ clientName @ '' that calls the given base URL.'',
               ''func New'' @ clientName @ ''(baseURL string, opts ...'' @ sym Q ''ClientOption'' @ '') '' @ clientName @ '' {'',
               ''return &'' @ lower_first clientName @ ''{ClientBase: '' @ sym Q ''NewClientBase'' @ ''(baseURL, opts...)}'',
               ''}'',
               []]] @
        map (client_method Q M svc clientName ctxType) (ps_Methods svc) @
        [Some [''func (c *'' @ lower_first clientName @ '') Close() error {'',
               ''return nil'',
               ''}'',
               []]]))"

section \<open>The service\<close>

definition service_constants :: "pservice \<Rightarrow> lines" where
  "service_constants svc =
     (let svcName = ps_GoName svc
      in [''// Service and endpoint constants.'',
          ''const ('',
          svcName @ ''_FullName = '' @ strconvQuote (ps_FullName svc)] @
        concat (map (\<lambda>m. [rpcNameConstName svcName (pd_GoName m) @ '' = '' @ strconvQuote (pd_GoName m)] @
          map (\<lambda>(i, rule). pathConstName svcName (pd_GoName m) i @ '' = '' @ strconvQuote (hr_path rule))
            (enumerate 0 (extractHTTPRules m))) (ps_Methods svc)) @
        ['')'',
       []])"

definition service_registration :: "qualifier \<Rightarrow> pservice \<Rightarrow> lines" where
  "service_registration Q svc =
     (let svcName = ps_GoName svc
      in [''// Register'' @ svcName @ ''Routes registers all HTTP endpoints of the service on the mux.'',
          ''func Register'' @ svcName @ ''Routes(mux *'' @ sym Q ''Mux'' @ '', svc '' @ svcName @ ''Handler) error {'',
          ''return mux.Register('',
          sym Q ''NewService'' @ ''('',
          svcName @ ''_FullName,''] @
        per_rule (\<lambda>m i rule. operationFnName svcName (pd_GoName m) i @ ''(svc),'') svc @
        [''))'',
         ''}'',
         [],
         ''// Register'' @ svcName @ ''Handler registers the service on target (routing.Server, routing.Mux, or gRPC registrar).'',
         ''func Register'' @ svcName @ ''Handler(target any, svc '' @ svcName @ ''Handler) error {'',
         ''if reg, ok := target.(interface{ Mux() *'' @ sym Q ''Mux'' @ ''; GRPC() any }); ok {'',
         ''if err := Register'' @ svcName @ ''Routes(reg.Mux(), svc); err != nil {'',
         ''return err'',
         ''}'',
         ''if g := reg.GRPC(); g != nil {'',
         ''Register'' @ svcName @ ''Server(g, svc)'',
         ''}'',
         ''return nil'',
         ''}'',
         ''if mux, ok := target.(*'' @ sym Q ''Mux'' @ ''); ok {'',
         ''return Register'' @ svcName @ ''Routes(mux, svc)'',
         ''}'',
         ''Register'' @ svcName @ ''Server(target, svc)'',
         ''return nil'',
         ''}'',
         []])"

definition generateService :: "qualifier \<Rightarrow> messages \<Rightarrow> pservice \<Rightarrow> lines option" where
  "generateService Q M svc =
     (let svcName = ps_GoName svc; serverCtxType = q Q runtimeImport ''Ctx''; clientCtxType = q Q contextImport ''Context''
      in emit (
        [Some [''// '' @ svcName @ ''Handler is the server implementation contract.'',
               ''type '' @ svcName @ ''Handler interface {''],
         Some (concat (map (\<lambda>m. generateHandlerMethod Q M svcName m serverCtxType False) (ps_Methods svc))),
         Some [''}'',
               [],
               ''// Unimplemented'' @ svcName @ ''Handler returns CodeUnimplemented for every method.'',
               ''type Unimplemented'' @ svcName @ ''Handler struct{}'',
               []],
         Some (concat (map (\<lambda>m. generateHandlerMethod Q M svcName m serverCtxType True) (ps_Methods svc)))] @
        per_rule (\<lambda>m i rule. generateRequestBuilder Q M svc m rule i) svc @
        [Some (service_constants svc),
         Some (concat (per_rule (\<lambda>m i rule. generateOperationFn Q M svc m rule i) svc)),
         Some (service_registration Q svc),
         generateClient Q M svc clientCtxType]))"

definition file_header :: "compilerVersion option \<Rightarrow> pfile \<Rightarrow> lines" where
  "file_header v pf =
     [''// Code generated by protoc-gen-zararpc. DO NOT EDIT.'',
      ''// versions:'',
      ''// - protoc-gen-zararpc v0.1.0'',
      ''// - protoc '' @ protocVersion v,
      ''// source: '' @ pl_Path pf,
      [],
      ''package '' @ pl_GoPackageName pf,
      []]"

definition generateFile :: "qualifier \<Rightarrow> messages \<Rightarrow> compilerVersion option \<Rightarrow> pfile \<Rightarrow> lines option" where
  "generateFile Q M v pf = emit (Some (file_header v pf) # map (generateService Q M) (pl_Services pf))"

end
