(* ===== verification/GenGrpc.thy ===== *)
theory GenGrpc
  imports GenService
begin

text \<open>
  What \<open>protoc-gen-zararpc\<close> prints for gRPC: client stubs, service descriptor and method handlers (\<open>grpc.go\<close>), and
  the gateway from HTTP to gRPC (\<open>gateway.go\<close>).
\<close>

section \<open>Client stubs\<close>

definition stub_signature :: "qualifier \<Rightarrow> messages \<Rightarrow> string \<Rightarrow> string \<Rightarrow> pmethod \<Rightarrow> string" where
  \<comment> \<open>the line of a method in the client's interface\<close>
  "stub_signature Q M ctxType grpcCallOption m =
     (let inType = inputType Q M m; outType = outputType Q M m
      in if streamMode m = ''server'' then
           pd_GoName m @ ''(ctx '' @ ctxType @ '', in *'' @ inType @ '', opts ...'' @ grpcCallOption @ '') ('' @ q Q grpcImport ''ServerStreamingClient'' @ ''['' @ outType @ ''], error)''
         else if streamMode m = ''client'' then
           pd_GoName m @ ''(ctx '' @ ctxType @ '', opts ...'' @ grpcCallOption @ '') ('' @ q Q grpcImport ''ClientStreamingClient'' @ ''['' @ inType @ '', '' @ outType @ ''], error)''
         else if streamMode m = ''bidi'' then
           pd_GoName m @ ''(ctx '' @ ctxType @ '', opts ...'' @ grpcCallOption @ '') ('' @ q Q grpcImport ''BidiStreamingClient'' @ ''['' @ inType @ '', '' @ outType @ ''], error)''
         else
           pd_GoName m @ ''(ctx '' @ ctxType @ '', in *'' @ inType @ '', opts ...'' @ grpcCallOption @ '') (*'' @ outType @ '', error)'')"

definition stub_method :: "qualifier \<Rightarrow> messages \<Rightarrow> pservice \<Rightarrow> pmethod \<Rightarrow> nat \<Rightarrow> lines" where
  \<comment> \<open>the method of the client struct; the number is \<open>streamIdx\<close>\<close>
  "stub_method Q M svc m streamIdx =
     (let svcName = ps_GoName svc; lowerClient = lower_first (svcName @ ''Client''); ctxType = q Q contextImport ''Context'';
          grpcCallOption = q Q grpcImport ''CallOption''; grpcStaticMethod = q Q grpcImport ''StaticMethod'';
          inType = inputType Q M m; outType = outputType Q M m;
          fullMethod = svcName @ ''_'' @ pd_GoName m @ ''_FullMethodName''
      in if streamMode m = ''server'' then
           [''func (c *'' @ lowerClient @ '') '' @ pd_GoName m @ ''(ctx '' @ ctxType @ '', in *'' @ inType @ '', opts ...'' @ grpcCallOption @ '') ('' @ q Q grpcImport ''ServerStreamingClient'' @ ''['' @ outType @ ''], error) {'',
            ''cOpts := append([]'' @ grpcCallOption @ ''{'' @ grpcStaticMethod @ ''()}, opts...)'',
            ''stream, err := c.cc.NewStream(ctx, &'' @ svcName @ ''_ServiceDesc.Streams['' @ format_nat streamIdx @ ''], '' @ fullMethod @ '', cOpts...)'',
            ''if err != nil {'',
            ''return nil, err'',
            ''}'',
            ''x := &'' @ q Q grpcImport ''GenericClientStream'' @ ''['' @ inType @ '', '' @ outType @ '']{ClientStream: stream}'',
            ''if err := x.ClientStream.SendMsg(in); err != nil {'',
            ''return nil, err'',
            ''}'',
            ''if err := x.ClientStream.CloseSend(); err != nil {'',
            ''return nil, err'',
            ''}'',
            ''return x, nil'',
            ''}'',
            []]
         else if streamMode m = ''client'' then
           [''func (c *'' @ lowerClient @ '') '' @ pd_GoName m @ ''(ctx '' @ ctxType @ '', opts ...'' @ grpcCallOption @ '') ('' @ q Q grpcImport ''ClientStreamingClient'' @ ''['' @ inType @ '', '' @ outType @ ''], error) {'',
            ''cOpts := append([]'' @ grpcCallOption @ ''{'' @ grpcStaticMethod @ ''()}, opts...)'',
            ''stream, err := c.cc.NewStream(ctx, &'' @ svcName @ ''_ServiceDesc.Streams['' @ format_nat streamIdx @ ''], '' @ fullMethod @ '', cOpts...)'',
            ''if err != nil {'',
            ''return nil, err'',
            ''}'',
            ''x := &'' @ q Q grpcImport ''GenericClientStream'' @ ''['' @ inType @ '', '' @ outType @ '']{ClientStream: stream}'',
            ''return x, nil'',
            ''}'',
            []]
         else if streamMode m = ''bidi'' then
           [''func (c *'' @ lowerClient @ '') '' @ pd_GoName m @ ''(ctx '' @ ctxType @ '', opts ...'' @ grpcCallOption @ '') ('' @ q Q grpcImport ''BidiStreamingClient'' @ ''['' @ inType @ '', '' @ outType @ ''], error) {'',
            ''cOpts := append([]'' @ grpcCallOption @ ''{'' @ grpcStaticMethod @ ''()}, opts...)'',
            ''stream, err := c.cc.NewStream(ctx, &'' @ svcName @ ''_ServiceDesc.Streams['' @ format_nat streamIdx @ ''], '' @ fullMethod @ '', cOpts...)'',
            ''if err != nil {'',
            ''return nil, err'',
            ''}'',
            ''x := &'' @ q Q grpcImport ''GenericClientStream'' @ ''['' @ inType @ '', '' @ outType @ '']{ClientStream: stream}'',
            ''return x, nil'',
            ''}'',
            []]
         else
           [''func (c *'' @ lowerClient @ '') '' @ pd_GoName m @ ''(ctx '' @ ctxType @ '', in *'' @ inType @ '', opts ...'' @ grpcCallOption @ '') (*'' @ outType @ '', error) {'',
            ''cOpts := append([]'' @ grpcCallOption @ ''{'' @ grpcStaticMethod @ ''()}, opts...)'',
            ''out := new('' @ outType @ '')'',
            ''err := c.cc.Invoke(ctx, '' @ fullMethod @ '', in, out, cOpts...)'',
            ''if err != nil {'',
            ''return nil, err'',
            ''}'',
            ''return out, nil'',
            ''}'',
            []])"

fun stub_methods :: "qualifier \<Rightarrow> messages \<Rightarrow> pservice \<Rightarrow> pmethod list \<Rightarrow> nat \<Rightarrow> lines" where
  "stub_methods Q M svc [] streamIdx = []"
| "stub_methods Q M svc (m # ms) streamIdx =
     stub_method Q M svc m streamIdx @
     stub_methods Q M svc ms (if streamMode m = ''unary'' then streamIdx else Suc streamIdx)"

section \<open>Service descriptor and handlers\<close>

definition stream_desc :: "string \<Rightarrow> pmethod \<Rightarrow> string" where
  "stream_desc svcName m =
     ''{StreamName: '' @ strconvQuote (pd_GoName m) @ '', Handler: _'' @ svcName @ ''_'' @ pd_GoName m @ ''_Handler'' @
     (if streamMode m = ''server'' then '', ServerStreams: true''
      else if streamMode m = ''client'' then '', ClientStreams: true''
      else '', ServerStreams: true, ClientStreams: true'') @ ''},''"

definition generateGRPCMethodHandler :: "qualifier \<Rightarrow> messages \<Rightarrow> pservice \<Rightarrow> pmethod \<Rightarrow> lines" where
  "generateGRPCMethodHandler Q M svc m =
     (let svcName = ps_GoName svc; handlerName = ''_'' @ svcName @ ''_'' @ pd_GoName m @ ''_Handler'';
          fullMethod = svcName @ ''_'' @ pd_GoName m @ ''_FullMethodName'';
          inType = inputType Q M m; outType = outputType Q M m; ctxType = q Q contextImport ''Context'';
          grpcServerStream = q Q grpcImport ''ServerStream''; handlerIface = svcName @ ''Handler'';
          ctxFor = q Q grpcbridgeImport ''CtxFor''; toGRPC = q Q grpcbridgeImport ''ToGRPC''
      in if streamMode m = ''server'' then
           [''func '' @ handlerName @ ''(srv any, stream '' @ grpcServerStream @ '') error {'',
            ''m := new('' @ inType @ '')'',
            ''if err := stream.RecvMsg(m); err != nil {'',
            ''return err'',
            ''}'',
            ''if err := srv.('' @ handlerIface @ '').'' @ pd_GoName m @ ''('' @ ctxFor @ ''(stream.Context(), '' @ fullMethod @ ''), m, &'' @ q Q grpcbridgeImport ''ServerStreamAdapter'' @ ''['' @ outType @ '']{Stream: stream}); err != nil {'',
            ''return '' @ toGRPC @ ''(err)'',
            ''}'',
            ''return nil'',
            ''}'',
            []]
         else if streamMode m = ''client'' then
           [''func '' @ handlerName @ ''(srv any, stream '' @ grpcServerStream @ '') error {'',
            ''resp, err := srv.('' @ handlerIface @ '').'' @ pd_GoName m @ ''('' @ ctxFor @ ''(stream.Context(), '' @ fullMethod @ ''), &'' @ q Q grpcbridgeImport ''ClientStreamAdapter'' @ ''['' @ inType @ '']{Stream: stream})'',
            ''if err != nil {'',
            ''return '' @ toGRPC @ ''(err)'',
            ''}'',
            ''return stream.SendMsg(resp)'',
            ''}'',
            []]
         else if streamMode m = ''bidi'' then
           [''func '' @ handlerName @ ''(srv any, stream '' @ grpcServerStream @ '') error {'',
            ''if err := srv.('' @ handlerIface @ '').'' @ pd_GoName m @ ''('' @ ctxFor @ ''(stream.Context(), '' @ fullMethod @ ''), &'' @ q Q grpcbridgeImport ''BidiStreamAdapter'' @ ''['' @ inType @ '', '' @ outType @ '']{Stream: stream}); err != nil {'',
            ''return '' @ toGRPC @ ''(err)'',
            ''}'',
            ''return nil'',
            ''}'',
            []]
         else
           (let grpcUnaryInfo = q Q grpcImport ''UnaryServerInfo''; grpcUnaryInterceptor = q Q grpcImport ''UnaryServerInterceptor''
            in [''func '' @ handlerName @ ''(srv any, ctx '' @ ctxType @ '', dec func(any) error, interceptor '' @ grpcUnaryInterceptor @ '') (any, error) {'',
                ''in := new('' @ inType @ '')'',
                ''if err := dec(in); err != nil {'',
                ''return nil, err'',
                ''}'',
                ''if interceptor == nil {'',
                ''resp, err := srv.('' @ handlerIface @ '').'' @ pd_GoName m @ ''('' @ ctxFor @ ''(ctx, '' @ fullMethod @ ''), in)'',
                ''if err != nil {'',
                ''return nil, '' @ toGRPC @ ''(err)'',
                ''}'',
                ''return resp, nil'',
                ''}'',
                ''info := &'' @ grpcUnaryInfo @ ''{Server: srv, FullMethod: '' @ fullMethod @ ''}'',
                ''handler := func(ctx '' @ ctxType @ '', req any) (any, error) {'',
                ''resp, err := srv.('' @ handlerIface @ '').'' @ pd_GoName m @ ''('' @ ctxFor @ ''(ctx, '' @ fullMethod @ ''), req.(*'' @ inType @ ''))'',
                ''if err != nil {'',
                ''return nil, '' @ toGRPC @ ''(err)'',
                ''}'',
                ''return resp, nil'',
                ''}'',
                ''return interceptor(ctx, in, info, handler)'',
                ''}'',
                []]))"

definition service_desc :: "qualifier \<Rightarrow> pservice \<Rightarrow> pfile \<Rightarrow> lines" where
  "service_desc Q svc pf =
     (let svcName = ps_GoName svc
      in [''// '' @ svcName @ ''_ServiceDesc is the grpc.ServiceDesc for '' @ svcName @ ''.'',
          ''var '' @ svcName @ ''_ServiceDesc = '' @ q Q grpcImport ''ServiceDesc'' @ ''{'',
          ''ServiceName: '' @ strconvQuote (ps_FullName svc) @ '','',
          ''HandlerType: (*'' @ svcName @ ''Handler)(nil),'',
          ''Methods: []'' @ q Q grpcImport ''MethodDesc'' @ ''{''] @
        map (\<lambda>m. ''{MethodName: '' @ strconvQuote (pd_GoName m) @ '', Handler: _'' @ svcName @ ''_'' @ pd_GoName m @ ''_Handler},'')
          (filter (\<lambda>m. streamMode m = ''unary'') (ps_Methods svc)) @
        [''},'',
         ''Streams: []'' @ q Q grpcImport ''StreamDesc'' @ ''{''] @
        map (stream_desc svcName) (filter (\<lambda>m. streamMode m \<noteq> ''unary'') (ps_Methods svc)) @
        [''},'',
         ''Metadata: '' @ strconvQuote (pl_Path pf) @ '','',
         ''}'',
         []])"

definition grpc_registration :: "qualifier \<Rightarrow> string \<Rightarrow> lines" where
  "grpc_registration Q svcName =
     [''// Register'' @ svcName @ ''Server registers the service on a '' @ q Q grpcImport ''ServiceRegistrar'' @ '' or any target implementing RegisterService.'',
      ''// Handlers receive runtime.Ctx (the same contract as the HTTP routes),'',
      ''// so one implementation serves both transports.'',
      ''func Register'' @ svcName @ ''Server(s any, svc '' @ svcName @ ''Handler) {'',
      ''if reg, ok := s.('' @ q Q grpcImport ''ServiceRegistrar'' @ ''); ok {'',
      ''reg.RegisterService(&'' @ svcName @ ''_ServiceDesc, svc)'',
      ''}'',
      ''}'',
      []]"

definition generateGRPCService :: "qualifier \<Rightarrow> messages \<Rightarrow> pservice \<Rightarrow> pfile \<Rightarrow> lines" where
  "generateGRPCService Q M svc pf =
     (let svcName = ps_GoName svc; clientName = svcName @ ''Client''; lowerClient = lower_first clientName;
          ctxType = q Q contextImport ''Context''; grpcCallOption = q Q grpcImport ''CallOption'';
          grpcClientConn = q Q grpcImport ''ClientConnInterface''
      in [''// FullMethodName constants for the service.'',
          ''const (''] @
        map (\<lambda>m. svcName @ ''_'' @ pd_GoName m @ ''_FullMethodName = '' @ strconvQuote (''/'' @ ps_FullName svc @ ''/'' @ pd_GoName m)) (ps_Methods svc) @
        ['')'',
         [],
         ''// '' @ clientName @ '' is the client API for '' @ svcName @ ''.'',
         ''type '' @ clientName @ '' interface {''] @
        map (stub_signature Q M ctxType grpcCallOption) (ps_Methods svc) @
        [''}'',
         [],
         ''type '' @ lowerClient @ '' struct {'',
         ''cc '' @ grpcClientConn,
         ''}'',
         [],
         ''func New'' @ clientName @ ''(cc '' @ grpcClientConn @ '') '' @ clientName @ '' {'',
         ''return &'' @ lowerClient @ ''{cc}'',
         ''}'',
         []] @
        stub_methods Q M svc (ps_Methods svc) 0 @
        service_desc Q svc pf @
        concat (map (generateGRPCMethodHandler Q M svc) (ps_Methods svc)) @
        grpc_registration Q svcName)"

definition generateGRPCFile :: "qualifier \<Rightarrow> messages \<Rightarrow> compilerVersion option \<Rightarrow> pfile \<Rightarrow> lines" where
  "generateGRPCFile Q M v pf = file_header v pf @ concat (map (\<lambda>svc. generateGRPCService Q M svc pf) (pl_Services pf))"

section \<open>The gateway\<close>

definition forwardHeaders :: "qualifier \<Rightarrow> lines" where
  "forwardHeaders Q =
     [''gctx := ctx.Context()'',
      ''if pairs := '' @ sym Q ''HeaderPairsFromMeta'' @ ''(ctx.Meta()); len(pairs) > 0 {'',
      ''gctx = '' @ q Q grpcMetadataImport ''AppendToOutgoingContext'' @ ''(gctx, pairs...)'',
      ''}'']"

definition generateGatewayMethod :: "qualifier \<Rightarrow> messages \<Rightarrow> pmethod \<Rightarrow> string \<Rightarrow> string \<Rightarrow> lines" where
  "generateGatewayMethod Q M m adapter ctxType =
     (let recv = ''(g *'' @ adapter @ '')''; inType = inputType Q M m; outType = outputType Q M m;
          toZaraError = sym Q ''FromGRPCStatus'' @ ''(err)''; ioEOF = q Q ioImport ''EOF''
      in if streamMode m = ''server'' then
           [''func '' @ recv @ '' '' @ pd_GoName m @ ''(ctx '' @ ctxType @ '', req *'' @ inType @ '', stream '' @ sym Q ''ServerStream'' @ ''[*'' @ outType @ '']) error {''] @
           forwardHeaders Q @
           [''clientStream, err := g.client.'' @ pd_GoName m @ ''(gctx, req)'',
            ''if err != nil {'',
            ''return '' @ toZaraError,
            ''}'',
            ''for {'',
            ''msg, err := clientStream.Recv()'',
            ''if err == '' @ ioEOF @ '' {'',
            ''return nil'',
            ''}'',
            ''if err != nil {'',
            ''return '' @ toZaraError,
            ''}'',
            ''if err := stream.Send(msg); err != nil {'',
            ''return err'',
            ''}'',
            ''}'',
            ''}'',
            []]
         else if streamMode m = ''client'' then
           [''func '' @ recv @ '' '' @ pd_GoName m @ ''(ctx '' @ ctxType @ '', stream '' @ sym Q ''ClientStream'' @ ''[*'' @ inType @ '']) (*'' @ outType @ '', error) {''] @
           forwardHeaders Q @
           [''clientStream, err := g.client.'' @ pd_GoName m @ ''(gctx)'',
            ''if err != nil {'',
            ''return nil, '' @ toZaraError,
            ''}'',
            ''for {'',
            ''msg, err := stream.Receive()'',
            ''if err == '' @ ioEOF @ '' {'',
            ''break'',
            ''}'',
            ''if err != nil {'',
            ''return nil, err'',
            ''}'',
            ''if err := clientStream.Send(msg); err != nil {'',
            ''return nil, '' @ toZaraError,
            ''}'',
            ''}'',
            ''resp, err := clientStream.CloseAndRecv()'',
            ''if err != nil {'',
            ''return nil, '' @ toZaraError,
            ''}'',
            ''return resp, nil'',
            ''}'',
            []]
         else if streamMode m = ''bidi'' then
           [''func '' @ recv @ '' '' @ pd_GoName m @ ''(ctx '' @ ctxType @ '', stream '' @ sym Q ''BidiStream'' @ ''[*'' @ inType @ '', *'' @ outType @ '']) error {''] @
           forwardHeaders Q @
           [''clientStream, err := g.client.'' @ pd_GoName m @ ''(gctx)'',
            ''if err != nil {'',
            ''return '' @ toZaraError,
            ''}'',
            ''errCh := make(chan error, 2)'',
            ''go func() {'',
            ''for {'',
            ''msg, err := stream.Receive()'',
            ''if err == '' @ ioEOF @ '' {'',
            ''clientStream.CloseSend()'',
            ''errCh <- nil'',
            ''return'',
            ''}'',
            ''if err != nil {'',
            ''errCh <- err'',
            ''return'',
            ''}'',
            ''if err := clientStream.Send(msg); err != nil {'',
            ''errCh <- '' @ toZaraError,
            ''return'',
            ''}'',
            ''}'',
            ''}()'',
            ''go func() {'',
            ''for {'',
            ''msg, err := clientStream.Recv()'',
            ''if err == '' @ ioEOF @ '' {'',
            ''errCh <- nil'',
            ''return'',
            ''}'',
            ''if err != nil {'',
            ''errCh <- '' @ toZaraError,
            ''return'',
            ''}'',
            ''if err := stream.Send(msg); err != nil {'',
            ''errCh <- err'',
            ''return'',
            ''}'',
            ''}'',
            ''}()'',
            ''var firstErr error'',
            ''for i := 0; i < 2; i++ {'',
            ''if err := <-errCh; err != nil && firstErr == nil {'',
            ''firstErr = err'',
            ''}'',
            ''}'',
            ''return firstErr'',
            ''}'',
            []]
         else
           [''func '' @ recv @ '' '' @ pd_GoName m @ ''(ctx '' @ ctxType @ '', req *'' @ inType @ '') (*'' @ outType @ '', error) {''] @
           forwardHeaders Q @
           [''resp, err := g.client.'' @ pd_GoName m @ ''(gctx, req)'',
            ''if err != nil {'',
            ''return nil, '' @ toZaraError,
            ''}'',
            ''return resp, nil'',
            ''}'',
            []])"

definition generateGatewayService :: "qualifier \<Rightarrow> messages \<Rightarrow> pservice \<Rightarrow> lines" where
  "generateGatewayService Q M svc =
     (let svcName = ps_GoName svc; ctxType = q Q runtimeImport ''Ctx''; grpcConn = q Q grpcImport ''ClientConn'';
          adapter = ''gateway'' @ svcName; clientName = svcName @ ''Client''
      in [''// '' @ adapter @ '' adapts the grpc-go client to the zararpc HTTP handler'',
          ''// contract. It is used by Register'' @ svcName @ ''Gateway.'',
          ''type '' @ adapter @ '' struct {'',
          ''Unimplemented'' @ svcName @ ''Handler'',
          ''client '' @ clientName,
          ''}'',
          []] @
        concat (map (\<lambda>m. generateGatewayMethod Q M m adapter ctxType) (ps_Methods svc)) @
        [''// Register'' @ svcName @ ''Gateway registers REST routes on mux that proxy'',
         ''// every call to the gRPC server reachable through conn.'',
         ''func Register'' @ svcName @ ''Gateway(mux *'' @ sym Q ''Mux'' @ '', conn *'' @ grpcConn @ '') error {'',
         ''svc := &'' @ adapter @ ''{client: New'' @ clientName @ ''(conn)}'',
         ''return Register'' @ svcName @ ''Routes(mux, svc)'',
         ''}'',
         []])"

definition generateGatewayFile :: "qualifier \<Rightarrow> messages \<Rightarrow> compilerVersion option \<Rightarrow> pfile \<Rightarrow> lines" where
  "generateGatewayFile Q M v pf = file_header v pf @ concat (map (generateGatewayService Q M) (pl_Services pf))"

section \<open>The plugin\<close>

fun generate_files :: "qualifier \<Rightarrow> messages \<Rightarrow> compilerVersion option \<Rightarrow> pfile list
    \<Rightarrow> (string list \<times> (string \<times> lines) list) option" where
  \<comment> \<open>the loop of \<open>main\<close> over the files: the errors reported and the files written\<close>
  "generate_files Q M v [] = Some ([], [])"
| "generate_files Q M v (pf # pfs) =
     (if \<not> pl_Generate pf \<or> pl_Services pf = [] then generate_files Q M v pfs
      else
        (case validateHTTPRules M pf of
           Some e \<Rightarrow> map_option (apfst ((#) e)) (generate_files Q M v pfs)
         | None \<Rightarrow>
             (case generateFile Q M v pf of
                None \<Rightarrow> None
              | Some ls \<Rightarrow>
                  map_option (apsnd ((@) [(pl_Prefix pf @ ''.zararpc.go'', ls),
                    (pl_Prefix pf @ ''.gateway.go'', generateGatewayFile Q M v pf),
                    (pl_Prefix pf @ ''.grpc.go'', generateGRPCFile Q M v pf)])) (generate_files Q M v pfs))))"

end
