(* ===== verification/GenSpec.thy ===== *)
theory GenSpec
  imports GenGrpc BuilderSpec "HOL-Library.Sublist"
begin

text \<open>
  What the code generator promises of the files it writes: which bindings it accepts, when it gives up with a panic, that
  the stubs of streaming methods point at their entries in the service descriptor, and where generated names collide.
\<close>

section \<open>Validation\<close>

lemma first_error_None: "first_error f xs = None \<longleftrightarrow> (\<forall>x \<in> set xs. f x = None)"
proof -
  have "List.map_filter f xs = [] \<longleftrightarrow> (\<forall>x \<in> set xs. f x = None)"
    by (induction xs) (auto simp: map_filter_simps split: option.splits)
  then show ?thesis by (cases "List.map_filter f xs") (simp_all add: first_error_def)
qed

definition rule_key :: "httpRule \<Rightarrow> string" where
  "rule_key rule = hr_method rule @ '' '' @ hr_path rule"

lemma validate_rules_Cons:
  "validate_rules M svc m (rule # rules) seen = None \<longleftrightarrow>
     validate_rule M svc m rule = None \<and> seen (rule_key rule) = None \<and>
     validate_rules M svc m rules (seen(rule_key rule \<mapsto> rule_where svc m rule)) = None"
  by (auto simp: rule_key_def Let_def split: option.splits)

lemma validate_rules_None:
  "validate_rules M svc m rules seen = None \<longleftrightarrow>
     (\<forall>rule \<in> set rules. validate_rule M svc m rule = None \<and> seen (rule_key rule) = None) \<and> distinct (map rule_key rules)"
proof (induction rules arbitrary: seen)
  case (Cons rule rules)
  show ?case unfolding validate_rules_Cons Cons.IH by (auto simp: image_iff)
qed simp

lemma validate_rule_None:
  "validate_rule M svc m rule = None \<longleftrightarrow> validateVerbPlacement rule = None \<and>
     (hr_responseBody rule = [] \<or> (\<exists>fp. resolveFieldPath M (M (pd_Output m)) (hr_responseBody rule) = Inr fp))"
  by (auto simp: validate_rule_def split: option.splits sum.splits)

text \<open>
  C27. The validation of a file accepts exactly the files in which, for every method, no two bindings share method and
  path, every custom verb is in place, and every response body names a field of the response. It asks nothing of path
  parameters, of the body, or that a method be bound at all.
\<close>

theorem validateHTTPRules_accepts:
  "validateHTTPRules M pf = None \<longleftrightarrow>
   (\<forall>svc \<in> set (pl_Services pf). \<forall>m \<in> set (ps_Methods svc).
      distinct (map rule_key (extractHTTPRules m)) \<and>
      (\<forall>rule \<in> set (extractHTTPRules m).
         validateVerbPlacement rule = None \<and>
         (hr_responseBody rule = [] \<or> (\<exists>fp. resolveFieldPath M (M (pd_Output m)) (hr_responseBody rule) = Inr fp))))"
  unfolding validateHTTPRules_def first_error_None validate_rules_None validate_rule_None by auto

section \<open>Panics\<close>

lemma None_in_image: "None \<in> f ` S \<longleftrightarrow> (\<exists>x \<in> S. f x = None)"
  by (auto simp: image_iff eq_commute [of None])

lemma emit_None: "emit ps = None \<longleftrightarrow> None \<in> set ps"
  by (induction ps rule: emit.induct) auto

lemma emit_Some: "emit ps = Some ls \<Longrightarrow> ls = concat (map the ps)"
  by (induction ps arbitrary: ls rule: emit.induct) auto

lemma all_some_None: "all_some xs = None \<longleftrightarrow> None \<in> set xs"
  by (induction xs rule: all_some.induct) auto

definition supported :: "pfield \<Rightarrow> bool" where
  \<comment> \<open>the fields a path parameter can name\<close>
  "supported f = (pf_Kind f \<notin> {MessageKind, GroupKind} \<and> \<not> (pf_Kind f = EnumKind \<and> pf_IsList f))"

lemma converterFor_supported: "(\<exists>r. converterFor Q f = Inr r) \<longleftrightarrow> supported f"
  by (cases "pf_Kind f") (auto simp: converterFor_def supported_def Let_def)

definition usable_rule :: "messages \<Rightarrow> pmessage \<Rightarrow> httpRule \<Rightarrow> bool" where
  \<comment> \<open>braces are closed, parameters name supported fields of the request, and the body is none, all or a field of it\<close>
  "usable_rule M msg rule =
     (case pathParamsFor (hr_path rule) of
        Inl e \<Rightarrow> False
      | Inr pps \<Rightarrow>
          list_all (\<lambda>pp. case resolveFieldPath M msg (pp_path pp) of Inl e \<Rightarrow> False | Inr fp \<Rightarrow> supported (last fp)) pps \<and>
          (hr_body rule \<in> {''*'', []} \<or> (case resolveFieldPath M msg (hr_body rule) of Inl e \<Rightarrow> False | Inr fp \<Rightarrow> True)))"

lemma param_program_None:
  "param_program Q M msg pp = None \<longleftrightarrow>
     \<not> (case resolveFieldPath M msg (pp_path pp) of Inl e \<Rightarrow> False | Inr fp \<Rightarrow> supported (last fp))"
proof (cases "resolveFieldPath M msg (pp_path pp)")
  case (Inr fp)
  show ?thesis
  proof (cases "converterFor Q (last fp)")
    case (Inl e)
    with converterFor_supported [of Q "last fp"] have "\<not> supported (last fp)" by auto
    with Inl Inr show ?thesis by (auto simp: param_program_def supported_def Let_def)
  next
    case (Inr r)
    with converterFor_supported [of Q "last fp"] have "supported (last fp)" by auto
    with Inr \<open>resolveFieldPath M msg (pp_path pp) = Inr fp\<close> show ?thesis
      by (auto simp: param_program_def Let_def split: prod.splits)
  qed
qed (simp add: param_program_def)

lemma builder_program_None: "builder_program Q M msg rule = None \<longleftrightarrow> \<not> usable_rule M msg rule"
proof (cases "pathParamsFor (hr_path rule)")
  case (Inr pps)
  have "params_program Q M msg pps = None \<longleftrightarrow> (\<exists>pp \<in> set pps. param_program Q M msg pp = None)"
    by (auto simp: params_program_def all_some_None None_in_image)
  moreover have "body_program Q M msg (hr_body rule) = None \<longleftrightarrow>
      \<not> (hr_body rule \<in> {''*'', []} \<or> (case resolveFieldPath M msg (hr_body rule) of Inl e \<Rightarrow> False | Inr fp \<Rightarrow> True))"
    by (auto simp: body_program_def split: sum.splits)
  moreover have "builder_program Q M msg rule = None \<longleftrightarrow>
      body_program Q M msg (hr_body rule) = None \<or> params_program Q M msg pps = None"
    using Inr by (auto simp: builder_program_def split: option.splits)
  ultimately show ?thesis unfolding param_program_None usable_rule_def list_all_iff Inr by auto
qed (simp add: builder_program_def usable_rule_def)

lemma per_rule_None:
  assumes "\<And>m i rule. f m i rule = None \<longleftrightarrow> bad m rule"
  shows "None \<in> set (per_rule f svc) \<longleftrightarrow> (\<exists>m \<in> set (ps_Methods svc). \<exists>rule \<in> set (extractHTTPRules m). bad m rule)"
proof -
  have "None \<in> set (map (\<lambda>(i, rule). f m i rule) (enumerate k rules)) \<longleftrightarrow> (\<exists>rule \<in> set rules. bad m rule)" for m k rules
    by (induction rules arbitrary: k) (auto simp: assms eq_commute [of None])
  then show ?thesis by (simp add: per_rule_def)
qed

lemma generateFile_None:
  "generateFile Q M v pf = None \<longleftrightarrow>
   (\<exists>svc \<in> set (pl_Services pf). \<exists>m \<in> set (ps_Methods svc).
      extractHTTPRules m = [] \<or> (\<exists>rule \<in> set (extractHTTPRules m). \<not> usable_rule M (M (pd_Input m)) rule))"
proof -
  have client: "client_method Q M svc c t m = None \<longleftrightarrow> extractHTTPRules m = []" for svc c t m
    by (auto simp: client_method_def firstHTTPRule_def Let_def split: list.splits)
  have gen: "generateClient Q M svc t = None \<longleftrightarrow> (\<exists>m \<in> set (ps_Methods svc). extractHTTPRules m = [])" for svc t
    by (simp add: generateClient_def emit_None Let_def None_in_image client)
  have build: "generateRequestBuilder Q M svc m rule i = None \<longleftrightarrow> \<not> usable_rule M (M (pd_Input m)) rule" for svc m rule i
    by (simp add: builder_text builder_program_None)
  have "generateService Q M svc = None \<longleftrightarrow>
      None \<in> set (per_rule (\<lambda>m i rule. generateRequestBuilder Q M svc m rule i) svc) \<or>
      generateClient Q M svc (q Q contextImport ''Context'') = None" for svc
    unfolding generateService_def Let_def emit_None by (auto simp: eq_commute [of None])
  then have "generateService Q M svc = None \<longleftrightarrow> (\<exists>m \<in> set (ps_Methods svc).
      extractHTTPRules m = [] \<or> (\<exists>rule \<in> set (extractHTTPRules m). \<not> usable_rule M (M (pd_Input m)) rule))" for svc
    unfolding gen per_rule_None [OF build] by blast
  then show ?thesis by (simp add: generateFile_def emit_None None_in_image)
qed


text \<open>
  C28. The plugin panics, and writes nothing for any file, exactly if some file that passed validation has a method without
  an HTTP annotation, or a rule with an unclosed brace, a path parameter that is no field of the request or of a type
  without converter, or a body that is no field of it.
\<close>

theorem plugin_panics:
  "generate_files Q M v pfs = None \<longleftrightarrow>
   (\<exists>pf \<in> set pfs. pl_Generate pf \<and> validateHTTPRules M pf = None \<and>
      (\<exists>svc \<in> set (pl_Services pf). \<exists>m \<in> set (ps_Methods svc).
         extractHTTPRules m = [] \<or> (\<exists>rule \<in> set (extractHTTPRules m). \<not> usable_rule M (M (pd_Input m)) rule)))"
proof (induction pfs)
  case (Cons pf pfs)
  have "generate_files Q M v (pf # pfs) = None \<longleftrightarrow>
      (pl_Generate pf \<and> pl_Services pf \<noteq> [] \<and> validateHTTPRules M pf = None \<and> generateFile Q M v pf = None) \<or>
      generate_files Q M v pfs = None"
    by (auto split: option.splits)
  then show ?case unfolding generateFile_None Cons.IH by auto
qed simp

section \<open>Streams of a service\<close>

definition streaming :: "pmethod \<Rightarrow> bool" where
  "streaming m = (streamMode m \<noteq> ''unary'')"

definition stream_index :: "pmethod list \<Rightarrow> nat \<Rightarrow> nat" where
  \<comment> \<open>the streaming methods before a method\<close>
  "stream_index ms i = length (filter streaming (take i ms))"

lemma filter_stream_index:
  "i < length ms \<Longrightarrow> streaming (ms ! i) \<Longrightarrow>
   stream_index ms i < length (filter streaming ms) \<and> filter streaming ms ! stream_index ms i = ms ! i"
proof (induction ms arbitrary: i)
  case (Cons m ms)
  then show ?case by (cases i) (auto simp: stream_index_def)
qed simp

lemma stub_methods_index:
  "stub_methods Q M svc ms k =
     concat (map (\<lambda>i. stub_method Q M svc (ms ! i) (k + stream_index ms i)) [0..<length ms])"
proof (induction ms arbitrary: k)
  case (Cons m ms)
  have upt: "[0..<length (m # ms)] = 0 # map Suc [0..<length ms]" by (simp add: upt_conv_Cons map_Suc_upt del: upt_Suc)
  have "stream_index (m # ms) (Suc i) = (if streaming m then Suc (stream_index ms i) else stream_index ms i)" for i
    by (simp add: stream_index_def)
  with Cons.IH show ?case
    unfolding upt by (auto simp: stream_index_def [of _ 0] streaming_def comp_def)
qed simp

lemma sublist_later: "sublist t xs \<Longrightarrow> sublist t (ys @ xs)"
  by (metis append_assoc sublist_def)

text \<open>
  The client stubs and the service descriptor agree on the streams: the stub printed for a method is told the position
  the method has in the descriptor's table of streams.
\<close>

theorem stub_streams:
  "stub_methods Q M svc (ps_Methods svc) 0 =
     concat (map (\<lambda>i. stub_method Q M svc (ps_Methods svc ! i) (stream_index (ps_Methods svc) i)) [0..<length (ps_Methods svc)]) \<and>
   (\<exists>table. sublist table (service_desc Q svc pf) \<and> length table = length (filter streaming (ps_Methods svc)) \<and>
      (\<forall>i < length (ps_Methods svc). streamMode (ps_Methods svc ! i) \<noteq> ''unary'' \<longrightarrow>
         stream_index (ps_Methods svc) i < length table \<and>
         table ! stream_index (ps_Methods svc) i = stream_desc (ps_GoName svc) (ps_Methods svc ! i)))"
proof (intro conjI exI [of _ "map (stream_desc (ps_GoName svc)) (filter streaming (ps_Methods svc))"] allI impI)
  show "stub_methods Q M svc (ps_Methods svc) 0 =
     concat (map (\<lambda>i. stub_method Q M svc (ps_Methods svc ! i) (stream_index (ps_Methods svc) i)) [0..<length (ps_Methods svc)])"
    using stub_methods_index [of Q M svc "ps_Methods svc" 0] by simp
  show "sublist (map (stream_desc (ps_GoName svc)) (filter streaming (ps_Methods svc))) (service_desc Q svc pf)"
    unfolding service_desc_def Let_def streaming_def [abs_def]
    by (rule sublist_later, rule sublist_later, rule sublist_later, rule sublist_append_rightI)
  show "length (map (stream_desc (ps_GoName svc)) (filter streaming (ps_Methods svc))) = length (filter streaming (ps_Methods svc))"
    by simp
  fix i assume i: "i < length (ps_Methods svc)" "streamMode (ps_Methods svc ! i) \<noteq> ''unary''"
  then have "stream_index (ps_Methods svc) i < length (filter streaming (ps_Methods svc)) \<and>
      filter streaming (ps_Methods svc) ! stream_index (ps_Methods svc) i = ps_Methods svc ! i"
    by (intro filter_stream_index) (simp_all add: streaming_def)
  then show "stream_index (ps_Methods svc) i < length (map (stream_desc (ps_GoName svc)) (filter streaming (ps_Methods svc)))"
    "map (stream_desc (ps_GoName svc)) (filter streaming (ps_Methods svc)) ! stream_index (ps_Methods svc) i =
       stream_desc (ps_GoName svc) (ps_Methods svc ! i)" by simp_all
qed

section \<open>Names\<close>

definition declares :: "string \<Rightarrow> string \<Rightarrow> bool" where
  \<comment> \<open>the line begins the declaration of a function\<close>
  "declares f line = has_prefix line (''func '' @ f @ ''('')"

lemma operation_declared:
  "\<exists>line \<in> set (generateOperationFn Q M svc m rule i). declares (operationFnName (ps_GoName svc) (pd_GoName m) i) line"
  by (auto simp: generateOperationFn_def generateServerStreamOperationFn_def generateClientStreamOperationFn_def
      generateBidiStreamOperationFn_def generateUnaryOperationFn_def declares_def has_prefix_iff Let_def)

lemma service_declares:
  assumes "generateService Q M svc = Some ls" "m \<in> set (ps_Methods svc)" "extractHTTPRules m \<noteq> []"
  shows "\<exists>line \<in> set ls. declares (''Register_'' @ pd_GoName m) line"
proof -
  obtain rule rules where rules: "extractHTTPRules m = rule # rules" using assms(3) by (cases "extractHTTPRules m") auto
  then have "generateOperationFn Q M svc m rule 0 \<in> set (per_rule (\<lambda>m i rule. generateOperationFn Q M svc m rule i) svc)"
    using assms(2) by (auto simp: per_rule_def intro!: bexI [of _ m])
  moreover have "set (concat (per_rule (\<lambda>m i rule. generateOperationFn Q M svc m rule i) svc)) \<subseteq> set ls"
    using emit_Some [OF assms(1) [unfolded generateService_def Let_def]] by auto
  ultimately have "set (generateOperationFn Q M svc m rule 0) \<subseteq> set ls" by fastforce
  with operation_declared [of Q M svc m rule 0] show ?thesis by (auto simp: operationFnName_def)
qed

text \<open>
  Two services of a file cannot share a method name: the constructor generated for a method's first binding is named
  after the method alone, so the file declares one function twice, and Go rejects it.
\<close>

theorem operation_names_collide:
  assumes "generateFile Q M v pf = Some ls" "pl_Services pf = before @ svc # between @ svc' # after"
    and "m \<in> set (ps_Methods svc)" "m' \<in> set (ps_Methods svc')" "pd_GoName m = pd_GoName m'"
  shows "2 \<le> length (filter (declares (''Register_'' @ pd_GoName m)) ls)"
proof -
  let ?gen = "generateService Q M" and ?d = "declares (''Register_'' @ pd_GoName m)"
  have ok: "x \<in> set (pl_Services pf) \<Longrightarrow> ?gen x \<noteq> None" for x
    using assms(1) emit_None [of "Some (file_header v pf) # map ?gen (pl_Services pf)"]
    by (auto simp: generateFile_def None_in_image)
  have "extractHTTPRules x \<noteq> []" if "y \<in> set (pl_Services pf)" "x \<in> set (ps_Methods y)" for x y
    using assms(1) generateFile_None [of Q M v pf] that by auto
  with assms(2-4) have rules: "extractHTTPRules m \<noteq> []" "extractHTTPRules m' \<noteq> []" by auto
  from ok [of svc] ok [of svc'] assms(2) obtain l l' where l: "?gen svc = Some l" "?gen svc' = Some l'" by auto
  have one: "1 \<le> length (filter ?d xs)" if "\<exists>line \<in> set xs. ?d line" for xs
    using that by (induction xs) auto
  have "1 \<le> length (filter ?d l)" by (intro one service_declares [OF l(1) assms(3) rules(1)])
  moreover have "1 \<le> length (filter ?d l')"
    unfolding assms(5) by (rule one [unfolded assms(5)], rule service_declares [OF l(2) assms(4) rules(2)])
  moreover have "\<exists>a b c. ls = a @ l @ b @ l' @ c"
    using emit_Some [OF assms(1) [unfolded generateFile_def]] l
    by (intro exI [of _ "file_header v pf @ concat (map (the \<circ> ?gen) before)"]
        exI [of _ "concat (map (the \<circ> ?gen) between)"] exI [of _ "concat (map (the \<circ> ?gen) after)"]) (simp add: assms(2))
  ultimately show ?thesis by auto
qed


section \<open>Files to apply the theorems to\<close>

definition get_method :: pmethod where
  "get_method =
     \<lparr>pd_Name = ''Get'', pd_GoName = ''Get'', pd_Input = ''Book'', pd_Output = ''Book'', pd_StreamingClient = False,
      pd_StreamingServer = False, pd_http = Some (HttpRule (GetRule ''/books/{id}'') [] [] [])\<rparr>"

definition one_service :: "string \<Rightarrow> pservice" where
  "one_service nm = \<lparr>ps_Name = nm, ps_FullName = ''shop.'' @ nm, ps_GoName = nm, ps_Methods = [get_method]\<rparr>"

definition shop_file :: pfile where
  "shop_file =
     \<lparr>pl_Path = ''shop.proto'', pl_Prefix = ''shop'', pl_Generate = True, pl_GoPackageName = ''shop'',
      pl_Services = [one_service ''Books'', one_service ''Cars''], pl_Messages = []\<rparr>"

lemma operation_names_collide_witness:
  "\<exists>ls. generateFile plain_qualifier (\<lambda>_. book_message) None shop_file = Some ls \<and>
     2 \<le> length (filter (declares ''Register_Get'') ls)"
proof -
  have "usable_rule (\<lambda>_. book_message) book_message (ruleFromHTTPRule (HttpRule (GetRule ''/books/{id}'') [] [] []))"
    by code_simp
  then have "generateFile plain_qualifier (\<lambda>_. book_message) None shop_file \<noteq> None"
    unfolding generateFile_None by (simp add: shop_file_def one_service_def get_method_def extractHTTPRules_def)
  then obtain ls where ls: "generateFile plain_qualifier (\<lambda>_. book_message) None shop_file = Some ls" by blast
  have "pl_Services shop_file = [] @ one_service ''Books'' # [] @ one_service ''Cars'' # []" by (simp add: shop_file_def)
  from operation_names_collide [OF ls this, of get_method get_method]
  have "2 \<le> length (filter (declares (''Register_'' @ pd_GoName get_method)) ls)" by (simp add: one_service_def)
  with ls show ?thesis by (simp add: get_method_def)
qed


definition watch_method :: pmethod where
  "watch_method =
     get_method\<lparr>pd_Name := ''Watch'', pd_GoName := ''Watch'', pd_StreamingServer := True,
       pd_http := Some (HttpRule (GetRule ''/books/{id}:watch'') [] [] [])\<rparr>"

definition feed_service :: pservice where
  "feed_service = (one_service ''Books'')\<lparr>ps_Methods := [get_method, watch_method]\<rparr>"

definition twice_method :: pmethod where
  \<comment> \<open>an additional binding that repeats the first\<close>
  "twice_method =
     get_method\<lparr>pd_http := Some (HttpRule (GetRule ''/books/{id}'') [] [] [HttpRule (GetRule ''/books/{id}'') [] [] []])\<rparr>"

lemma validateHTTPRules_accepts_witness:
  "validateHTTPRules (\<lambda>_. book_message) shop_file = None \<and>
   validateHTTPRules (\<lambda>_. book_message) (shop_file\<lparr>pl_Services := [feed_service\<lparr>ps_Methods := [twice_method]\<rparr>]\<rparr>) \<noteq> None"
proof
  have "validateVerbPlacement (ruleFromHTTPRule (HttpRule (GetRule ''/books/{id}'') [] [] [])) = None"
    "hr_responseBody (ruleFromHTTPRule (HttpRule (GetRule ''/books/{id}'') [] [] [])) = []"
    by code_simp+
  then show "validateHTTPRules (\<lambda>_. book_message) shop_file = None"
    unfolding validateHTTPRules_accepts by (simp add: shop_file_def one_service_def get_method_def extractHTTPRules_def)
  show "validateHTTPRules (\<lambda>_. book_message) (shop_file\<lparr>pl_Services := [feed_service\<lparr>ps_Methods := [twice_method]\<rparr>]\<rparr>) \<noteq> None"
    unfolding validateHTTPRules_accepts
    by (simp add: shop_file_def feed_service_def twice_method_def get_method_def extractHTTPRules_def rule_key_def ruleFromHTTPRule_def)
qed

lemma stub_streams_witness:
  "\<exists>table. sublist table (service_desc plain_qualifier feed_service shop_file) \<and>
     table ! 0 = ''{StreamName: '' @ strconvQuote ''Watch'' @ '', Handler: _Books_Watch_Handler, ServerStreams: true},''"
proof -
  have m: "ps_Methods feed_service ! 1 = watch_method" "length (ps_Methods feed_service) = 2" "ps_GoName feed_service = ''Books''"
    by (simp_all add: feed_service_def one_service_def)
  have s: "streamMode watch_method \<noteq> ''unary''"
    "stream_desc ''Books'' watch_method =
       ''{StreamName: '' @ strconvQuote ''Watch'' @ '', Handler: _Books_Watch_Handler, ServerStreams: true},''"
    "stream_index (ps_Methods feed_service) 1 = 0"
    by code_simp+
  from stub_streams [of plain_qualifier "\<lambda>_. book_message" feed_service shop_file]
  obtain table where table: "sublist table (service_desc plain_qualifier feed_service shop_file)"
    "\<forall>i < length (ps_Methods feed_service). streamMode (ps_Methods feed_service ! i) \<noteq> ''unary'' \<longrightarrow>
       stream_index (ps_Methods feed_service) i < length table \<and>
       table ! stream_index (ps_Methods feed_service) i = stream_desc (ps_GoName feed_service) (ps_Methods feed_service ! i)"
    by (elim conjE exE)
  from table(2) [rule_format, of 1] m s
  have "table ! 0 = stream_desc ''Books'' watch_method" by simp
  with table(1) s(2) show ?thesis by (intro exI [of _ table] conjI) (assumption, simp only:)
qed

end
