(* ===== verification/Plugin.thy ===== *)
theory Plugin
  imports GenSpec
begin

text \<open>
  The plugin as \<open>protoc\<close> runs it (\<open>main\<close>, \<open>generatePBGoFiles\<close> and the outside of \<open>patchTags\<close> in
  \<open>protoc-gen-zararpc/main.go\<close> and \<open>patch.go\<close>): from the request on standard input to the response on standard output.
  protoc-gen-go's engine, the plugin object, the protobuf codec, and parsing and printing of Go files are parameters.
\<close>

record ('t, 'ast, 'req, 'resp) plugin_lib =
  pl_unmarshal :: "string \<Rightarrow> string + 'req"
  pl_new :: "'req \<Rightarrow> string + compilerVersion option \<times> pfile list" \<comment> \<open>\<open>protogen.Options.New\<close>\<close>
  pl_content :: "pfile \<Rightarrow> string + string" \<comment> \<open>what protoc-gen-go's engine writes for a file\<close>
  pl_tags :: "'t taglib"
  pl_parse :: "string \<Rightarrow> string + 'ast \<times> (string \<times> astField list) list" \<comment> \<open>a file and the structs it declares\<close>
  pl_format :: "'ast \<Rightarrow> (string \<times> astField list) list \<Rightarrow> string + string"
  pl_response :: "string option \<Rightarrow> (string \<times> lines) list \<Rightarrow> 'resp" \<comment> \<open>of the first error, and the files\<close>
  pl_marshal :: "'resp \<Rightarrow> string + string"
  pl_write :: "string \<Rightarrow> string option"

definition patch_source :: "('t, 'ast, 'req, 'resp) plugin_lib \<Rightarrow> string \<Rightarrow> tagOverlay \<Rightarrow> string + string" where
  "patch_source L content overlay =
     (case pl_parse L content of
        Inl e \<Rightarrow> Inl e
      | Inr (file, sts) \<Rightarrow>
          (case patchTags (pl_tags L) overlay sts of
             Inl e \<Rightarrow> Inl e
           | Inr sts \<Rightarrow> pl_format L file sts))"

definition tagValue :: "(string \<Rightarrow> string option) \<Rightarrow> string option \<Rightarrow> string" where
  \<comment> \<open>\<open>unquote\<close> is \<open>strconv.Unquote\<close>; a field may have no tag\<close>
  "tagValue unquote tag = (case tag of None \<Rightarrow> [] | Some lit \<Rightarrow> (case unquote lit of None \<Rightarrow> [] | Some s \<Rightarrow> s))"

fun tree_names :: "message_tree \<Rightarrow> string list" where
  "tree_names (MessageTree msg inn) = GoName (pm_GoIdent msg) # concat (map tree_names inn)"

definition any_tags :: "pfile \<Rightarrow> tagOverlay \<Rightarrow> bool" where
  \<comment> \<open>\<open>len(overlay) > 0\<close>: its keys are names of messages of the file\<close>
  "any_tags f overlay = list_ex (\<lambda>nm. overlay nm \<noteq> None) (concat (map tree_names (pl_Messages f)))"

fun pb_files :: "('t, 'ast, 'req, 'resp) plugin_lib \<Rightarrow> pfile list \<Rightarrow> string option \<times> (string \<times> lines) list" where
  \<comment> \<open>the loop of \<open>generatePBGoFiles\<close>: the error it returns and the files it has written by then\<close>
  "pb_files L [] = (None, [])"
| "pb_files L (f # fs) =
     (if \<not> pl_Generate f then pb_files L fs
      else
        (case pl_content L f of
           Inl e \<Rightarrow> (Some (pl_Path f @ '': '' @ e), [])
         | Inr content \<Rightarrow>
             (let overlay = collectTags f in
              case (if any_tags f overlay then patch_source L content overlay else Inr content) of
                Inl e \<Rightarrow> (Some (pl_Path f @ '': patch custom tags: '' @ e), [])
              | Inr content \<Rightarrow> apsnd ((#) (pl_Prefix f @ ''.pb.go'', [content])) (pb_files L fs))))"

definition generatePBGoFiles :: "('t, 'ast, 'req, 'resp) plugin_lib \<Rightarrow> 'req \<Rightarrow> string option \<times> (string \<times> lines) list" where
  "generatePBGoFiles L req =
     (case pl_new L req of
        Inl e \<Rightarrow> (Some e, [])
      | Inr (v, files) \<Rightarrow> pb_files L files)"

datatype plugin_run =
    Exits string \<comment> \<open>status 1, with a line on standard error\<close>
  | Panics
  | Writes string \<comment> \<open>on standard output\<close>

definition fatal :: "string \<Rightarrow> plugin_run" where
  "fatal err = Exits (''protoc-gen-zararpc: '' @ err)"

definition plugin_main :: "('t, 'ast, 'req, 'resp) plugin_lib \<Rightarrow> qualifier \<Rightarrow> messages \<Rightarrow> string + string \<Rightarrow> plugin_run" where
  \<comment> \<open>\<open>main\<close>, on what reading standard input gives\<close>
  "plugin_main L Q M input =
     (case input of
        Inl e \<Rightarrow> fatal e
      | Inr bytes \<Rightarrow>
          (case pl_unmarshal L bytes of
             Inl e \<Rightarrow> fatal e
           | Inr req \<Rightarrow>
               (case pl_new L req of
                  Inl e \<Rightarrow> fatal e
                | Inr (v, files) \<Rightarrow>
                    (let (pberr, pb) = generatePBGoFiles L req
                     in case generate_files Q M v files of
                          None \<Rightarrow> Panics
                        | Some (errs, written) \<Rightarrow>
                            (let err = (case pberr of Some e \<Rightarrow> Some e | None \<Rightarrow> (case errs of [] \<Rightarrow> None | e # _ \<Rightarrow> Some e))
                             in case pl_marshal L (pl_response L err (pb @ written)) of
                                  Inl e \<Rightarrow> fatal e
                                | Inr out \<Rightarrow> (case pl_write L out of Some e \<Rightarrow> fatal e | None \<Rightarrow> Writes out))))))"


section \<open>A response is complete or an error\<close>

definition file_complete :: "messages \<Rightarrow> (string \<times> lines) list \<Rightarrow> pfile \<Rightarrow> bool" where
  \<comment> \<open>what a file asked for must lead to\<close>
  "file_complete M written f =
     (pl_Generate f \<and> pl_Services f \<noteq> [] \<longrightarrow>
        validateHTTPRules M f = None \<and>
        {pl_Prefix f @ ''.zararpc.go'', pl_Prefix f @ ''.gateway.go'', pl_Prefix f @ ''.grpc.go''} \<subseteq> fst ` set written)"

lemma generate_files_complete:
  "generate_files Q M v files = Some ([], written) \<Longrightarrow> f \<in> set files \<Longrightarrow> file_complete M written f"
proof (induction files arbitrary: written)
  case (Cons g files)
  show ?case
  proof (cases "\<not> pl_Generate g \<or> pl_Services g = []")
    case True
    with Cons show ?thesis by (auto simp: file_complete_def)
  next
    case False
    with Cons.prems(1) obtain ls written' where rest: "validateHTTPRules M g = None" "generate_files Q M v files = Some ([], written')"
      "written = [(pl_Prefix g @ ''.zararpc.go'', ls), (pl_Prefix g @ ''.gateway.go'', generateGatewayFile Q M v g),
         (pl_Prefix g @ ''.grpc.go'', generateGRPCFile Q M v g)] @ written'"
      by (auto split: option.splits)
    with Cons.IH [OF rest(2)] Cons.prems(2) show ?thesis by (auto simp: file_complete_def)
  qed
qed simp

lemma pb_files_complete:
  "pb_files L files = (None, pb) \<Longrightarrow> f \<in> set files \<Longrightarrow> pl_Generate f \<Longrightarrow> pl_Prefix f @ ''.pb.go'' \<in> fst ` set pb"
proof (induction files arbitrary: pb)
  case (Cons g files)
  then show ?case
    by (cases "pb_files L files") (auto simp: Let_def split: if_splits sum.splits)
qed simp

text \<open>
  What the plugin answers is complete or an error: a response without an error has the \<open>.pb.go\<close> file of every file asked
  for and, if the file declares services, valid HTTP rules and the three files of the services.
\<close>

theorem plugin_complete:
  assumes "plugin_main L Q M input = Writes out"
  obtains req v files err written where "pl_new L req = Inr (v, files)" "pl_marshal L (pl_response L err written) = Inr out"
    "err = None \<Longrightarrow> (\<forall>f \<in> set files. file_complete M written f \<and> (pl_Generate f \<longrightarrow> pl_Prefix f @ ''.pb.go'' \<in> fst ` set written))"
proof -
  from assms obtain bytes req v files pberr pb errs written err where run: "pl_new L req = Inr (v, files)"
    "generatePBGoFiles L req = (pberr, pb)" "generate_files Q M v files = Some (errs, written)"
    "err = (case pberr of Some e \<Rightarrow> Some e | None \<Rightarrow> (case errs of [] \<Rightarrow> None | e # _ \<Rightarrow> Some e))"
    "pl_marshal L (pl_response L err (pb @ written)) = Inr out"
    unfolding plugin_main_def fatal_def Let_def by (auto split: sum.splits option.splits prod.splits)
  show thesis
  proof (rule that [OF run(1) run(5)])
    assume "err = None"
    then have none: "pberr = None" "errs = []" using run(4) by (auto split: option.splits list.splits)
    then have "pb_files L files = (None, pb)" using run(1,2) by (simp add: generatePBGoFiles_def)
    from pb_files_complete [OF this] generate_files_complete [OF run(3) [unfolded none]]
    show "\<forall>f \<in> set files. file_complete M (pb @ written) f \<and> (pl_Generate f \<longrightarrow> pl_Prefix f @ ''.pb.go'' \<in> fst ` set (pb @ written))"
      by (fastforce simp: file_complete_def)
  qed
qed

end
