(* ===== verification/PopulateTypes.thy ===== *)
theory PopulateTypes
  imports PopulateSpec
begin

text \<open>
  The reflection of \<open>runtime/populate.go\<close> is type safe: whatever the parameters, the query and the body, it leaves a
  message in which every value has the type its struct, slice or pointer declares, and every integer fits its width.
\<close>

section \<open>Well-typed values\<close>

fun well_typed :: "'f types \<Rightarrow> 'f gval \<Rightarrow> bool" where
  "well_typed T (VInt b i) = (- (2 ^ (b - 1)) \<le> i \<and> i < 2 ^ (b - 1))"
| "well_typed T (VUint b n) = (n < 2 ^ b)"
| "well_typed T (VSlice t vs) = (\<forall>v \<in> set vs. type_of v = t \<and> well_typed T v)"
| "well_typed T (VPtr t None) = True"
| "well_typed T (VPtr t (Some v)) = (type_of v = t \<and> well_typed T v)"
| "well_typed T (VStruct s fs) = (map type_of fs = map fl_type (fields_of T s) \<and> (\<forall>v \<in> set fs. well_typed T v))"
| "well_typed T v = True"

definition has_type :: "'f types \<Rightarrow> 'f gval \<Rightarrow> gtype \<Rightarrow> bool" where
  "has_type T v t = (type_of v = t \<and> well_typed T v)"

definition types_ok :: "'f types \<Rightarrow> bool" where
  \<comment> \<open>field names differ within a struct, and its zero value has its type\<close>
  "types_ok T = (\<forall>s. distinct (map fl_Name (fields_of T s)) \<and> well_typed T (VStruct s (zero_fields T s)))"

definition times_ok :: "'f golib \<Rightarrow> bool" where
  \<comment> \<open>RFC 3339 has years up to 9999, whose seconds fit 64 bits\<close>
  "times_ok G = (\<forall>s t. ParseRFC3339 G s = Some t \<longrightarrow> - (2 ^ 63) \<le> t div 10 ^ 9 \<and> t div 10 ^ 9 < 2 ^ 63)"

definition decoder_ok :: "'f types \<Rightarrow> 'f decoder \<Rightarrow> bool" where
  \<comment> \<open>a codec decodes into a value of the type it is given\<close>
  "decoder_ok T dec = (\<forall>b v t. has_type T v t \<longrightarrow> has_type T (snd (dec b v)) t)"

lemma settle_new_typed: "types_ok T \<Longrightarrow> has_type T (settle_new G T t) t"
  by (induction t) (simp_all add: has_type_def types_ok_def)

lemma zero_typed: "types_ok T \<Longrightarrow> has_type T (zero G T t) t"
  by (cases t) (simp_all add: has_type_def types_ok_def)

lemma settle_typed: "types_ok T \<Longrightarrow> has_type T v t \<Longrightarrow> has_type T (settle G T v) t"
  by (induction G T v arbitrary: t rule: settle.induct) (use settle_new_typed in \<open>auto simp: has_type_def\<close>)

lemma inner_typed: "well_typed T v \<Longrightarrow> well_typed T (inner v)"
  by (induction v rule: inner.induct) auto

lemma set_inner_typed:
  "has_type T v t \<Longrightarrow> has_type T w (type_of (inner v)) \<Longrightarrow> has_type T (set_inner v w) t"
  by (induction v w arbitrary: t rule: set_inner.induct) (auto simp: has_type_def)

lemma struct_update:
  assumes "well_typed T (VStruct s fs)" "i < length fs" "has_type T f (type_of (fs ! i))"
  shows "has_type T (VStruct s (fs[i := f])) (TStruct s)"
proof -
  have "map type_of (fs[i := f]) = map type_of fs"
    using assms(2,3) by (intro nth_equalityI) (auto simp: has_type_def nth_list_update)
  moreover have "\<forall>v \<in> set (fs[i := f]). well_typed T v"
    using assms(1,3) set_update_subset_insert [of fs i f] by (auto simp: has_type_def)
  ultimately show ?thesis using assms(1) by (simp add: has_type_def)
qed

lemma field_typed:
  assumes "well_typed T (VStruct s fs)" "i < length fs"
  shows "has_type T (fs ! i) (type_of (fs ! i))"
  using assms by (simp add: has_type_def)

section \<open>Scalars\<close>

lemma wrap_int_range: "- (2 ^ (b - 1)) \<le> wrap_int b i \<and> wrap_int b i < 2 ^ (b - 1)"
proof (cases b)
  case (Suc k)
  have "0 \<le> (i + 2 ^ k) mod (2 * 2 ^ k)" "(i + 2 ^ k) mod (2 * 2 ^ k) < (2 * 2 ^ k :: int)" by simp_all
  then show ?thesis unfolding Suc wrap_int_def by simp
qed (simp add: wrap_int_def)

lemma set_field_typed:
  assumes "types_ok T" "well_typed T (VStruct s fs)" "\<exists>f \<in> set (fields_of T s). fl_Name f = nm \<and> fl_type f = type_of w"
    and "well_typed T w"
  shows "well_typed T (VStruct s (set_field_named T s nm w fs))"
proof (cases "find_index_from 0 (\<lambda>f. fl_Name f = nm) (fields_of T s)")
  case None
  with assms(2) show ?thesis by (simp add: set_field_named_def)
next
  case (Some i)
  from find_index_from_Some [OF Some] have i: "i < length (fields_of T s)" "fl_Name (fields_of T s ! i) = nm" by auto
  from assms(3) obtain f where f: "f \<in> set (fields_of T s)" "fl_Name f = nm" "fl_type f = type_of w" by blast
  then obtain j where j: "j < length (fields_of T s)" "fields_of T s ! j = f" by (metis in_set_conv_nth)
  have "distinct (map fl_Name (fields_of T s))" using assms(1) by (simp add: types_ok_def)
  with i j f(2) have "i = j" by (simp add: distinct_conv_nth) metis
  moreover have types: "map type_of fs = map fl_type (fields_of T s)" using assms(2) by simp
  moreover from map_eq_imp_length_eq [OF types] have "length fs = length (fields_of T s)" .
  ultimately have "i < length fs" "type_of (fs ! i) = type_of w"
    using i(1) j f(3) by (auto dest: arg_cong [of _ _ "\<lambda>l. l ! i"])
  with struct_update [OF assms(2), of i w] assms(4) Some show ?thesis by (simp add: set_field_named_def has_type_def)
qed

lemma bytes_typed: "has_type T (bytes_value b) (TSlice (TUint 8))"
proof -
  have "(of_char c :: nat) < 256" for c by simp
  then show ?thesis by (auto simp: has_type_def bytes_value_def)
qed

lemma scalar_typed:
  assumes "types_ok T" "times_ok G" "well_typed T v" "scalar_value G T s v = Inr w"
  shows "has_type T w (type_of v)"
proof (cases v)
  case (VStruct st fs)
  with assms(4) obtain t where t: "isProtoTimestamp T st" "ParseRFC3339 G s = Some t"
    "w = VStruct st (set_field_named T st ''Nanos'' (VInt 32 (t mod 10 ^ 9)) (set_field_named T st ''Seconds'' (VInt 64 (t div 10 ^ 9)) fs))"
    by (auto simp: scalar_value_def split: if_splits option.splits)
  have sec: "well_typed T (VInt 64 (t div 10 ^ 9))" using assms(2) t(2) by (simp add: times_ok_def)
  have "- (2 ^ 31) \<le> t mod 10 ^ 9" by (rule order_trans [OF _ pos_mod_sign]) simp_all
  moreover have "t mod 10 ^ 9 < 2 ^ 31" by (rule less_le_trans [OF pos_mod_bound]) simp_all
  ultimately have nano: "well_typed T (VInt 32 (t mod 10 ^ 9))" by simp
  have "well_typed T (VStruct st (set_field_named T st ''Seconds'' (VInt 64 (t div 10 ^ 9)) fs))"
    by (rule set_field_typed [OF assms(1)]) (use assms(3) VStruct t(1) sec in \<open>auto simp: isProtoTimestamp_def\<close>)
  then have "well_typed T w"
    unfolding t(3) by (rule set_field_typed [OF assms(1)]) (use t(1) nano in \<open>auto simp: isProtoTimestamp_def\<close>)
  with VStruct t(3) show ?thesis by (simp add: has_type_def)
next
  case (VSlice t vs)
  with assms(4) bytes_typed show ?thesis by (auto simp: scalar_value_def split: if_splits option.splits)
next
  case (VInt b i)
  with assms(4) wrap_int_range show ?thesis
    by (cases "as_error s ''int'' (parse_int s 64)") (auto simp: scalar_value_def has_type_def)
next
  case (VUint b n)
  with assms(4) show ?thesis
    by (cases "as_error s ''uint'' (parse_uint s 64)") (auto simp: scalar_value_def has_type_def)
next
  case (VFloat b f)
  with assms(4) show ?thesis
    by (cases "as_error s ''float'' (ParseFloat G s 64)") (auto simp: scalar_value_def has_type_def)
next
  case (VBool b)
  with assms(4) show ?thesis
    by (cases "as_error s ''bool'' (ParseBool s)") (auto simp: scalar_value_def has_type_def)
qed (use assms(4) in \<open>auto simp: scalar_value_def has_type_def split: option.splits\<close>)

lemma setStringValue_typed:
  assumes "types_ok T" "times_ok G" "has_type T f t"
  shows "has_type T (snd (setStringValue G T s f)) t"
proof -
  have f: "has_type T (settle G T f) t" by (rule settle_typed [OF assms(1,3)])
  then have "well_typed T (inner (settle G T f))" by (simp add: has_type_def inner_typed)
  from scalar_typed [OF assms(1,2) this] set_inner_typed [OF f] f show ?thesis
    by (auto simp: setStringValue_def Let_def split: sum.splits)
qed


section \<open>Fields\<close>

lemma FindField_typed:
  assumes "types_ok T" "has_type T v t" "FindField G T v nm = (r, v')"
  shows "has_type T v' t" "r = Some (s, fs, i) \<Longrightarrow> inner v' = VStruct s fs \<and> i < length fs"
proof -
  have v': "v' = settle G T v" using assms(3) by (auto simp: FindField_def Let_def split: gval.splits option.splits)
  then show typed: "has_type T v' t" using settle_typed [OF assms(1,2)] by simp
  assume "r = Some (s, fs, i)"
  with assms(3) have st: "inner v' = VStruct s fs" "field_index T s nm = Some i"
    unfolding v' by (auto simp: FindField_def Let_def split: gval.splits option.splits)
  then have "well_typed T (VStruct s fs)" using typed inner_typed [of T v'] by (simp add: has_type_def)
  then have "length fs = length (fields_of T s)" by (auto dest: map_eq_imp_length_eq)
  with st find_index_from_Some [OF st(2) [unfolded field_index_def]] show "inner v' = VStruct s fs \<and> i < length fs" by simp
qed

lemma store_field_typed:
  assumes "has_type T v t" "inner v = VStruct s fs" "i < length fs" "has_type T f (type_of (fs ! i))"
  shows "has_type T (set_inner v (VStruct s (fs[i := f]))) t"
proof -
  have "well_typed T (VStruct s fs)" using assms(1,2) inner_typed [of T v] by (simp add: has_type_def)
  from struct_update [OF this assms(3,4)] assms(2) show ?thesis by (intro set_inner_typed [OF assms(1)]) simp
qed

lemma at_path_typed:
  assumes "types_ok T" "\<And>f t. has_type T f t \<Longrightarrow> has_type T (snd (g f)) t"
  shows "has_type T v t \<Longrightarrow> has_type T (snd (at_path G T parts g v)) t"
proof (induction parts arbitrary: v t)
  case (Cons part parts)
  obtain r v' where find: "FindField G T v part = (r, v')" by (cases "FindField G T v part")
  note v' = FindField_typed [OF assms(1) Cons.prems find]
  show ?case
  proof (cases r)
    case None
    with find v'(1) show ?thesis by simp
  next
    case (Some x)
    obtain s fs i where x: "x = (s, fs, i)" by (cases x)
    from v'(2) Some x have st: "inner v' = VStruct s fs" "i < length fs" by auto
    have "well_typed T (VStruct s fs)" using v'(1) st(1) inner_typed [of T v'] by (simp add: has_type_def)
    from Cons.IH [OF field_typed [OF this st(2)]]
    have "has_type T (snd (at_path G T parts g (fs ! i))) (type_of (fs ! i))" .
    from store_field_typed [OF v'(1) st this] find Some x show ?thesis by (simp add: case_prod_unfold Let_def)
  qed
qed (simp add: assms(2))

lemma set_elems_typed:
  assumes "types_ok T" "times_ok G"
  shows "set_elems G T t ss = (Inr vs :: 'd goerror + 'f gval list) \<Longrightarrow> v \<in> set vs \<Longrightarrow> has_type T v t"
proof (induction ss arbitrary: vs)
  case (Cons s ss)
  obtain r w where w: "setStringValue G T s (zero G T t) = (r :: 'd set_result, w)"
    by (cases "setStringValue G T s (zero G T t) :: 'd set_result \<times> 'f gval")
  have "has_type T (snd (setStringValue G T s (zero G T t) :: 'd set_result \<times> 'f gval)) t"
    by (rule setStringValue_typed [OF assms zero_typed [OF assms(1)]])
  then have "has_type T w t" by (simp add: w)
  moreover from Cons.prems(1) w obtain us where "vs = w # us" "set_elems G T t ss = (Inr us :: 'd goerror + 'f gval list)"
    by (auto split: set_result.splits sum.splits)
  ultimately show ?case using Cons.IH [of us] Cons.prems(2) by auto
qed simp

lemma set_strings_typed:
  assumes "types_ok T" "times_ok G" "has_type T f t"
  shows "has_type T (snd (set_strings G T vals f :: 'd set_result \<times> 'f gval)) t"
proof (cases "\<exists>et old. f = VSlice et old")
  case True
  then obtain et old where f: "f = VSlice et old" by blast
  show ?thesis
  proof (cases "set_elems G T et vals :: 'd goerror + 'f gval list")
    case (Inr vs)
    from set_elems_typed [OF assms(1,2) Inr] assms(3) Inr show ?thesis by (simp add: set_strings_def f has_type_def)
  qed (use assms(3) in \<open>simp add: set_strings_def f\<close>)
next
  case False
  then have "set_strings G T vals f = (setStringValue G T (last vals) f :: 'd set_result \<times> 'f gval)"
    by (auto simp: set_strings_def split: gval.splits)
  with setStringValue_typed [OF assms] show ?thesis by simp
qed

lemma setFieldString_typed:
  assumes "types_ok T" "times_ok G" "has_type T v t"
  shows "has_type T (snd (setFieldString G T nm val strict v)) t"
  using at_path_typed [where g = "setStringValue G T val", OF assms(1) setStringValue_typed [OF assms(1,2)] assms(3)]
  by (simp add: setFieldString_def case_prod_unfold Let_def)

lemma setFieldStrings_typed:
  assumes "types_ok T" "times_ok G" "has_type T v t"
  shows "has_type T (snd (setFieldStrings G T nm vals strict v :: 'd goerror option \<times> 'f gval)) t"
  using at_path_typed [where g = "set_strings G T vals :: 'f gval \<Rightarrow> 'd set_result \<times> 'f gval", OF assms(1) set_strings_typed [OF assms(1,2)] assms(3)] assms(3)
  by (simp add: setFieldStrings_def case_prod_unfold Let_def)

lemma set_params_typed:
  assumes "types_ok T" "times_ok G"
  shows "has_type T v t \<Longrightarrow> has_type T (snd (set_params G T ps v :: 'd goerror option \<times> 'f gval)) t"
proof (induction ps arbitrary: v)
  case (Cons p ps)
  obtain nm val where p: "p = (nm, val)" by (cases p)
  obtain r w where w: "setFieldString G T nm val True v = (r :: 'd goerror option, w)"
    by (cases "setFieldString G T nm val True v :: 'd goerror option \<times> 'f gval")
  with setFieldString_typed [OF assms Cons.prems, of nm val True, where ?'b = 'd] have "has_type T w t" by simp
  with Cons.IH [of w] p w show ?case by (cases r) simp_all
qed simp

lemma set_query_typed:
  assumes "types_ok T" "times_ok G"
  shows "has_type T v t \<Longrightarrow> has_type T (snd (set_query G T skip query v :: 'd goerror option \<times> 'f gval)) t"
proof (induction query arbitrary: v)
  case (Cons p query)
  obtain nm vals where p: "p = (nm, vals)" by (cases p)
  obtain r w where w: "setFieldStrings G T nm vals False v = (r :: 'd goerror option, w)"
    by (cases "setFieldStrings G T nm vals False v :: 'd goerror option \<times> 'f gval")
  with setFieldStrings_typed [OF assms Cons.prems, of nm vals False, where 'd = 'd] have "has_type T w t" by simp
  with Cons.IH [of w] Cons.IH [OF Cons.prems] p w show ?case by (cases r) simp_all
qed simp

lemma SetFieldFromBody_typed:
  assumes "types_ok T" "decoder_ok T dec" "has_type T v t"
  shows "has_type T (snd (SetFieldFromBody G T dec nm body v)) t"
proof -
  obtain r v' where find: "FindField G T v nm = (r, v')" by (cases "FindField G T v nm")
  note v' = FindField_typed [OF assms(1,3) find]
  show ?thesis
  proof (cases r)
    case None
    with find v'(1) show ?thesis by (simp add: SetFieldFromBody_def)
  next
    case (Some x)
    obtain s fs i where x: "x = (s, fs, i)" by (cases x)
    from v'(2) Some x have st: "inner v' = VStruct s fs" "i < length fs" by auto
    have wt: "well_typed T (VStruct s fs)" using v'(1) st(1) inner_typed [of T v'] by (simp add: has_type_def)
    have dec: "has_type T w u \<Longrightarrow> has_type T (snd (dec body w)) u" for w u
      using assms(2) by (simp add: decoder_ok_def)
    note fi = field_typed [OF wt st(2)]
    show ?thesis
    proof (cases "fs ! i")
      case (VPtr u old)
      let ?w = "snd (dec body (case old of Some x \<Rightarrow> x | None \<Rightarrow> zero G T u))"
      have "has_type T (case old of Some x \<Rightarrow> x | None \<Rightarrow> zero G T u) u"
        using fi VPtr zero_typed [OF assms(1)] by (auto simp: has_type_def split: option.splits)
      from dec [OF this] have "has_type T (VPtr u (Some ?w)) (type_of (fs ! i))" by (simp add: VPtr has_type_def)
      from store_field_typed [OF v'(1) st this] show ?thesis
        by (simp add: SetFieldFromBody_def find Some x VPtr case_prod_unfold Let_def)
    qed (use store_field_typed [OF v'(1) st dec [OF fi]] in
      \<open>simp_all add: SetFieldFromBody_def find Some x case_prod_unfold Let_def\<close>)
  qed
qed

text \<open>
  C17. Filling a message is type safe: whatever the path parameters, the query and the body, and whether or not it fails,
  \<open>PopulateMessage\<close> leaves a message of the type it was given, in which every value has the type its field, slice or
  pointer declares and every integer fits its width, if the codec decodes into values of the type it is given.
\<close>

theorem PopulateMessage_typed:
  assumes "types_ok T" "times_ok G" "decoder_ok T dec" "has_type T msg t"
  shows "has_type T (snd (PopulateMessage G T dec msg ps query body bodyField :: 'd goerror option \<times> 'f gval)) t"
proof -
  obtain r v where v: "set_params G T ps msg = (r :: 'd goerror option, v)"
    by (cases "set_params G T ps msg :: 'd goerror option \<times> 'f gval")
  with set_params_typed [OF assms(1,2,4), of ps, where 'd = 'd] have typed: "has_type T v t" by simp
  have star: "has_type T (VPtr u (Some (snd (dec body m)))) t" if "v = VPtr u (Some m)" for u m
    using typed assms(3) that by (auto simp: has_type_def decoder_ok_def)
  obtain r' v' where v': "SetFieldFromBody G T dec bodyField body v = (r' :: 'd goerror option, v')"
    by (cases "SetFieldFromBody G T dec bodyField body v :: 'd goerror option \<times> 'f gval")
  with SetFieldFromBody_typed [OF assms(1,3) typed, of G bodyField body] have typed': "has_type T v' t" by (metis snd_conv)
  note query = set_query_typed [OF assms(1,2) typed, where 'd = 'd] set_query_typed [OF assms(1,2) typed', where 'd = 'd]
  show ?thesis
    using star assms(4) typed typed' query v v'
    by (auto simp: PopulateMessage_def Let_def case_prod_unfold split: option.splits gval.splits)
qed

lemma book_types_ok: "types_ok book_types"
  by (simp add: types_ok_def book_types_def)

lemma PopulateMessage_typed_witness:
  "has_type book_types (snd (PopulateMessage no_lib book_types (\<lambda>b v. (None, v))
     (VPtr (TStruct ''Book'') (Some (VStruct ''Book'' (zero_fields book_types ''Book''))))
     [(''id'', ''7'')] [(''page'', [''4294967303''])] [] [] :: string goerror option \<times> unit gval)) (TPtr (TStruct ''Book''))"
proof (rule PopulateMessage_typed [OF book_types_ok])
  show "times_ok no_lib" by (simp add: times_ok_def no_lib_def)
  show "decoder_ok book_types (\<lambda>b v. (None, v))" by (simp add: decoder_ok_def)
  show "has_type book_types (VPtr (TStruct ''Book'') (Some (VStruct ''Book'' (zero_fields book_types ''Book'')))) (TPtr (TStruct ''Book''))"
    by (simp add: has_type_def book_types_def)
qed

end
