(* ===== verification/GenOps.thy ===== *)
theory GenOps
  imports GenSpec MuxSpec
begin

text \<open>
  The operations that \<open>protoc-gen-zararpc\<close> generates for a service (\<open>endpoint.go\<close>, and constants and registration of
  \<open>generate.go\<close>), as programs: the calls on the operation builder as data, how they print, and what they do. Names in the
  printed code (constants, request builders, constructors) are resolved in the file's own declarations. Then the service
  they make up, registered on a mux, and a call of it from the client to the service's method.
\<close>

datatype gexpr =
    HttpMethod string \<comment> \<open>the verb, by its constant in \<open>net/http\<close> if it has one\<close>
  | Named string \<comment> \<open>a constant of the file\<close>
  | Quoted string

datatype setter =
    CallSetMethod gexpr
  | CallSetPath gexpr
  | CallSetRPC gexpr
  | CallSetHandler string \<comment> \<open>the setter for the method's mode, with a closure that calls the service's method of that name\<close>
  | CallSetBody gexpr
  | CallSetResponseBody gexpr
  | CallSetRequestBuilder string \<comment> \<open>a function of the file\<close>
  | CallBuild

section \<open>The constructor of a binding\<close>

definition operation_program :: "pservice \<Rightarrow> pmethod \<Rightarrow> httpRule \<Rightarrow> nat \<Rightarrow> setter list" where
  "operation_program svc m rule idx =
     [CallSetMethod (HttpMethod (hr_method rule)),
      CallSetPath (Named (pathConstName (ps_GoName svc) (pd_GoName m) idx)),
      CallSetRPC (Named (rpcNameConstName (ps_GoName svc) (pd_GoName m))),
      CallSetHandler (pd_GoName m)] @
     (if streamMode m \<noteq> ''client'' \<and> hr_body rule \<noteq> [] then [CallSetBody (Quoted (hr_body rule))] else []) @
     (if hr_responseBody rule \<noteq> [] then [CallSetResponseBody (Quoted (hr_responseBody rule))] else []) @
     (if streamMode m \<in> {''client'', ''bidi''} then []
      else [CallSetRequestBuilder (requestBuilderName (ps_GoName svc) (pd_GoName m) idx)]) @
     [CallBuild]"

fun show_expr :: "qualifier \<Rightarrow> gexpr \<Rightarrow> string" where
  "show_expr Q (HttpMethod verb) = httpMethodConst Q verb"
| "show_expr Q (Named nm) = nm"
| "show_expr Q (Quoted s) = strconvQuote s"

definition show_handler :: "qualifier \<Rightarrow> messages \<Rightarrow> pmethod \<Rightarrow> string \<Rightarrow> lines" where
  "show_handler Q M m meth =
     (let ctx = ''(func(ctx '' @ q Q runtimeImport ''Ctx''; req = '', req *'' @ sym Q ''Request'' @ ''['' @ inputType Q M m @ '']'';
          resp = ''(*'' @ sym Q ''Response'' @ ''['' @ outputType Q M m @ ''], error) {'';
          forward = (\<lambda>arg. [''resp, err := svc.'' @ meth @ ''(ctx, '' @ arg @ '')'', ''if err != nil {'', ''return nil, err'', ''}'',
            ''return '' @ sym Q ''NewResponse'' @ ''(resp), nil''])
      in (if streamMode m = ''server'' then
            [''SetServerStreamHandler'' @ ctx @ req @ '', stream '' @ sym Q ''ServerStream'' @ ''[*'' @ outputType Q M m @ '']) error {'',
             ''return svc.'' @ meth @ ''(ctx, req.Msg(), stream)'']
          else if streamMode m = ''client'' then
            (''SetClientStreamHandler'' @ ctx @ '', stream '' @ sym Q ''ClientStream'' @ ''[*'' @ inputType Q M m @ '']) '' @ resp) # forward ''stream''
          else if streamMode m = ''bidi'' then
            [''SetBidiStreamHandler'' @ ctx @ '', stream '' @ sym Q ''BidiStream'' @ ''[*'' @ inputType Q M m @ '', *'' @ outputType Q M m @ '']) error {'',
             ''return svc.'' @ meth @ ''(ctx, stream)'']
          else (''SetUnaryHandler'' @ ctx @ req @ '') '' @ resp) # forward ''req.Msg()'') @
         [''}).''])"

fun show_setter :: "qualifier \<Rightarrow> messages \<Rightarrow> pmethod \<Rightarrow> setter \<Rightarrow> lines" where
  "show_setter Q M m (CallSetMethod e) = [''SetMethod('' @ show_expr Q e @ '').'']"
| "show_setter Q M m (CallSetPath e) = [''SetPath('' @ show_expr Q e @ '').'']"
| "show_setter Q M m (CallSetRPC e) = [''SetRPC('' @ show_expr Q e @ '').'']"
| "show_setter Q M m (CallSetHandler meth) = show_handler Q M m meth"
| "show_setter Q M m (CallSetBody e) = [''SetBody('' @ show_expr Q e @ '').'']"
| "show_setter Q M m (CallSetResponseBody e) = [''SetResponseBody('' @ show_expr Q e @ '').'']"
| "show_setter Q M m (CallSetRequestBuilder f) = [''SetRequestBuilder('' @ f @ '').'']"
| "show_setter Q M m CallBuild = [''Build()'']"

definition builder_types :: "qualifier \<Rightarrow> messages \<Rightarrow> pmethod \<Rightarrow> gotype \<times> gotype" where
  \<comment> \<open>the type arguments of the operation builder\<close>
  "builder_types Q M m =
     ((if streamMode m \<in> {''client'', ''bidi''} then ''*'' else []) @ inputType Q M m,
      (if streamMode m \<in> {''server'', ''bidi''} then ''*'' else []) @ outputType Q M m)"

definition constructor_head :: "qualifier \<Rightarrow> messages \<Rightarrow> pservice \<Rightarrow> pmethod \<Rightarrow> nat \<Rightarrow> lines" where
  "constructor_head Q M svc m idx =
     (let fnName = operationFnName (ps_GoName svc) (pd_GoName m) idx; (Req, Res) = builder_types Q M m
      in [''// '' @ fnName @ '' builds the '' @ pd_GoName m @ '' endpoint.'',
          ''func '' @ fnName @ ''(svc '' @ ps_GoName svc @ ''Handler) *'' @ sym Q ''Operation'' @ '' {'',
          ''var op '' @ sym Q ''Operation'',
          ''return (*'' @ sym Q ''OperationBuilder'' @ ''['' @ Req @ '', '' @ Res @ ''])(&op).''])"

lemma streamMode_cases:
  obtains "streamMode m = ''unary''" | "streamMode m = ''server''" | "streamMode m = ''client''" | "streamMode m = ''bidi''"
  by (cases "pd_StreamingServer m"; cases "pd_StreamingClient m") (simp_all add: streamMode_def)

text \<open>The text printed for a constructor is the text of its program.\<close>

theorem constructor_shows:
  "generateOperationFn Q M svc m rule idx =
     constructor_head Q M svc m idx @ concat (map (show_setter Q M m) (operation_program svc m rule idx)) @ [''}'', []]"
  by (rule streamMode_cases [of m])
     (simp_all add: generateOperationFn_def generateUnaryOperationFn_def generateServerStreamOperationFn_def
       generateClientStreamOperationFn_def generateBidiStreamOperationFn_def constructor_head_def builder_types_def
       operation_program_def show_handler_def Let_def)

section \<open>The declarations of a service\<close>

definition service_consts :: "pservice \<Rightarrow> (string \<times> string) list" where
  \<comment> \<open>the constants of the service, and their values\<close>
  "service_consts svc =
     (ps_GoName svc @ ''_FullName'', ps_FullName svc) #
     concat (map (\<lambda>m. (rpcNameConstName (ps_GoName svc) (pd_GoName m), pd_GoName m) #
       map (\<lambda>(i, rule). (pathConstName (ps_GoName svc) (pd_GoName m) i, hr_path rule)) (enumerate 0 (extractHTTPRules m)))
       (ps_Methods svc))"

definition operation_fns :: "pservice \<Rightarrow> (string \<times> pmethod \<times> setter list) list" where
  \<comment> \<open>the constructors, and their programs\<close>
  "operation_fns svc =
     per_rule (\<lambda>m i rule. (operationFnName (ps_GoName svc) (pd_GoName m) i, m, operation_program svc m rule i)) svc"

definition compiles :: "pservice \<Rightarrow> bool" where
  \<comment> \<open>no name is declared twice\<close>
  "compiles svc = (distinct (map fst (service_consts svc)) \<and> distinct (map fst (operation_fns svc)))"

theorem declarations_show:
  "service_constants svc =
     [''// Service and endpoint constants.'', ''const (''] @
     map (\<lambda>(nm, v). nm @ '' = '' @ strconvQuote v) (service_consts svc) @ ['')'', []] \<and>
   (\<exists>before after. service_registration Q svc =
     before @ [ps_GoName svc @ ''_FullName,''] @ map (\<lambda>(f, _). f @ ''(svc),'') (operation_fns svc) @ after)"
proof
  show "service_constants svc =
     [''// Service and endpoint constants.'', ''const (''] @
     map (\<lambda>(nm, v). nm @ '' = '' @ strconvQuote v) (service_consts svc) @ ['')'', []]"
    by (simp add: service_constants_def service_consts_def Let_def map_concat comp_def case_prod_unfold)
  have fns: "per_rule (\<lambda>m i rule. operationFnName (ps_GoName svc) (pd_GoName m) i @ ''(svc),'') svc =
      map (\<lambda>(f, _). f @ ''(svc),'') (operation_fns svc)"
    by (simp add: per_rule_def operation_fns_def map_concat comp_def case_prod_unfold)
  show "\<exists>before after. service_registration Q svc =
     before @ [ps_GoName svc @ ''_FullName,''] @ map (\<lambda>(f, _). f @ ''(svc),'') (operation_fns svc) @ after"
    unfolding service_registration_def Let_def fns
    by (rule exI [of _ "[''// Register'' @ ps_GoName svc @ ''Routes registers all HTTP endpoints of the service on the mux.'',
          ''func Register'' @ ps_GoName svc @ ''Routes(mux *'' @ sym Q ''Mux'' @ '', svc '' @ ps_GoName svc @ ''Handler) error {'',
          ''return mux.Register('', sym Q ''NewService'' @ ''('']"]) simp
qed

section \<open>What the constructors build\<close>

record ('c, 'm, 'd, 's) ServiceImpl = \<comment> \<open>the implementation of a service's handler interface, by method name\<close>
  im_unary :: "string \<Rightarrow> ('c, 'm) Ctx \<Rightarrow> 'm \<Rightarrow> ('d goerror + 'm) \<times> 'm ctxState option"
  im_server :: "string \<Rightarrow> ('c, 'm) Ctx \<Rightarrow> 'm \<Rightarrow> ('c, 'm, 'd, 's) Stream \<Rightarrow> 's \<Rightarrow> 'd goerror option \<times> 's"
  im_client :: "string \<Rightarrow> ('c, 'm) Ctx \<Rightarrow> ('c, 'm, 'd, 's) Stream \<Rightarrow> 's \<Rightarrow> ('d goerror + 'm) \<times> 's"
  im_bidi :: "string \<Rightarrow> ('c, 'm) Ctx \<Rightarrow> ('c, 'm, 'd, 's) Stream \<Rightarrow> 's \<Rightarrow> 'd goerror option \<times> 's"

definition respond :: "('d goerror + 'm) \<times> 'x \<Rightarrow> ('d goerror + 'm Response option) \<times> 'x" where
  \<comment> \<open>\<open>if err != nil { return nil, err }; return NewResponse(resp), nil\<close>\<close>
  "respond r = map_prod (map_sum id (\<lambda>resp. Some (NewResponse resp))) id r"

record ('c, 'm, 'd, 's) file_env = \<comment> \<open>what the text of a constructor refers to\<close>
  fe_consts :: "(string \<times> string) list"
  fe_builders :: "string \<Rightarrow> ('c, 'm, 'd) RequestBuilder"
  fe_typeOf :: "'m \<Rightarrow> gotype"
  fe_impl :: "('c, 'm, 'd, 's) ServiceImpl" \<comment> \<open>the constructor's argument \<open>svc\<close>\<close>

fun eval_expr :: "(string \<times> string) list \<Rightarrow> gexpr \<Rightarrow> string" where
  \<comment> \<open>the compiler rejects a name that is not declared; a literal is the text that was quoted\<close>
  "eval_expr C (HttpMethod verb) = verb"
| "eval_expr C (Named nm) = (case map_of C nm of Some v \<Rightarrow> v | None \<Rightarrow> [])"
| "eval_expr C (Quoted s) = s"

definition set_handler ::
    "('c, 'm, 'd, 's) file_env \<Rightarrow> gotype \<times> gotype \<Rightarrow> string \<Rightarrow> string
     \<Rightarrow> ('c, 'm, 'd, 's) Operation \<Rightarrow> ('c, 'm, 'd, 's) Operation" where
  "set_handler F T mode meth =
     (let (Req, Res) = T; I = fe_impl F
      in if mode = ''server'' then
           SetServerStreamHandler (fe_typeOf F) Req Res (\<lambda>ctx req stream. im_server I meth ctx (req_msg req) stream)
         else if mode = ''client'' then
           SetClientStreamHandler (fe_typeOf F) Req Res (\<lambda>ctx stream s. respond (im_client I meth ctx stream s))
         else if mode = ''bidi'' then SetBidiStreamHandler (fe_typeOf F) Req Res (im_bidi I meth)
         else SetUnaryHandler Req Res (\<lambda>ctx req. respond (im_unary I meth ctx (req_msg req))))"

fun call_setter ::
    "('c, 'm, 'd, 's) file_env \<Rightarrow> gotype \<times> gotype \<Rightarrow> string \<Rightarrow> setter
     \<Rightarrow> ('c, 'm, 'd, 's) Operation \<Rightarrow> ('c, 'm, 'd, 's) Operation" where
  "call_setter F T mode (CallSetMethod e) = SetMethod (eval_expr (fe_consts F) e)"
| "call_setter F T mode (CallSetPath e) = SetPath (eval_expr (fe_consts F) e)"
| "call_setter F T mode (CallSetRPC e) = SetRPC (eval_expr (fe_consts F) e)"
| "call_setter F T mode (CallSetHandler meth) = set_handler F T mode meth"
| "call_setter F T mode (CallSetBody e) = SetBody (eval_expr (fe_consts F) e)"
| "call_setter F T mode (CallSetResponseBody e) = SetResponseBody (eval_expr (fe_consts F) e)"
| "call_setter F T mode (CallSetRequestBuilder f) = SetRequestBuilder (fe_builders F f)"
| "call_setter F T mode CallBuild = Build"

definition construct ::
    "qualifier \<Rightarrow> messages \<Rightarrow> ('c, 'm, 'd, 's) file_env \<Rightarrow> pmethod \<times> setter list \<Rightarrow> ('c, 'm, 'd, 's) Operation" where
  \<comment> \<open>a call of a constructor\<close>
  "construct Q M F = (\<lambda>(m, prog). fold (call_setter F (builder_types Q M m) (streamMode m)) prog empty_operation)"

definition generated_service ::
    "qualifier \<Rightarrow> messages \<Rightarrow> ('c, 'm, 'd, 's) file_env \<Rightarrow> pservice \<Rightarrow> ('c, 'm, 'd, 's) Service" where
  \<comment> \<open>the argument of \<open>mux.Register\<close> in the registration function: the constructors are called by name\<close>
  "generated_service Q M F svc =
     NewService (eval_expr (fe_consts F) (Named (ps_GoName svc @ ''_FullName'')))
       (map (\<lambda>(f, _). case map_of (operation_fns svc) f of Some d \<Rightarrow> construct Q M F d | None \<Rightarrow> empty_operation)
         (operation_fns svc))"

definition binding :: "pservice \<Rightarrow> pmethod \<Rightarrow> nat \<Rightarrow> httpRule \<Rightarrow> bool" where
  "binding svc m i rule = (m \<in> set (ps_Methods svc) \<and> (i, rule) \<in> set (enumerate 0 (extractHTTPRules m)))"

lemma per_rule_set: "set (per_rule f svc) = {x. \<exists>m i rule. binding svc m i rule \<and> x = f m i rule}"
  by (force simp: per_rule_def binding_def)

lemma const_values:
  assumes "distinct (map fst (service_consts svc))"
  shows "map_of (service_consts svc) (ps_GoName svc @ ''_FullName'') = Some (ps_FullName svc)"
    "m \<in> set (ps_Methods svc) \<Longrightarrow> map_of (service_consts svc) (rpcNameConstName (ps_GoName svc) (pd_GoName m)) = Some (pd_GoName m)"
    "binding svc m i rule \<Longrightarrow> map_of (service_consts svc) (pathConstName (ps_GoName svc) (pd_GoName m) i) = Some (hr_path rule)"
proof -
  show "map_of (service_consts svc) (ps_GoName svc @ ''_FullName'') = Some (ps_FullName svc)"
    by (simp add: service_consts_def)
  show "map_of (service_consts svc) (rpcNameConstName (ps_GoName svc) (pd_GoName m)) = Some (pd_GoName m)"
    if "m \<in> set (ps_Methods svc)"
    using that by (intro map_of_is_SomeI [OF assms]) (auto simp: service_consts_def)
  show "map_of (service_consts svc) (pathConstName (ps_GoName svc) (pd_GoName m) i) = Some (hr_path rule)"
    if "binding svc m i rule"
    using that by (intro map_of_is_SomeI [OF assms]) (force simp: service_consts_def binding_def)
qed

lemma generated_operations:
  assumes "distinct (map fst (operation_fns svc))"
  shows "svc_operations (generated_service Q M F svc) =
    per_rule (\<lambda>m i rule. construct Q M F (m, operation_program svc m rule i)) svc"
proof -
  have "(case map_of (operation_fns svc) f of Some d \<Rightarrow> construct Q M F d | None \<Rightarrow> empty_operation) = construct Q M F d"
    if "(f, d) \<in> set (operation_fns svc)" for f d
    using map_of_is_SomeI [OF assms that] by simp
  then have "svc_operations (generated_service Q M F svc) = map (\<lambda>(f, d). construct Q M F d) (operation_fns svc)"
    by (auto simp: generated_service_def NewService_def)
  then show ?thesis by (simp add: operation_fns_def per_rule_def map_concat comp_def case_prod_unfold)
qed

text \<open>What a constructor makes: the settings of its rule, and the handler of its mode.\<close>

lemma set_handler_sel [simp]:
  "op_Method (set_handler F T mode meth b) = op_Method b" "op_Path (set_handler F T mode meth b) = op_Path b"
  "op_Procedure (set_handler F T mode meth b) = op_Procedure b" "op_RPC (set_handler F T mode meth b) = op_RPC b"
  "op_Body (set_handler F T mode meth b) = op_Body b" "op_ResponseBody (set_handler F T mode meth b) = op_ResponseBody b"
  "op_codec (set_handler F T mode meth b) = op_codec b" "op_interceptors (set_handler F T mode meth b) = op_interceptors b"
  "op_requestBuilder (set_handler F T mode meth b) = op_requestBuilder b"
  by (simp_all add: set_handler_def case_prod_unfold SetServerStreamHandler_def SetClientStreamHandler_def
      SetBidiStreamHandler_def SetUnaryHandler_def Let_def)

lemmas setter_defs = SetMethod_def SetPath_def SetRPC_def SetBody_def SetResponseBody_def SetRequestBuilder_def Build_def

definition mode_type :: "string \<Rightarrow> StreamType" where
  "mode_type mode =
     (if mode = ''server'' then StreamTypeServer else if mode = ''client'' then StreamTypeClient
      else if mode = ''bidi'' then StreamTypeBidi else StreamTypeUnary)"

lemma construct_fields:
  assumes "fe_consts F = service_consts svc" "compiles svc" "binding svc m i rule"
  shows "op_Method (construct Q M F (m, operation_program svc m rule i)) = hr_method rule"
    "op_Path (construct Q M F (m, operation_program svc m rule i)) = hr_path rule"
    "op_Procedure (construct Q M F (m, operation_program svc m rule i)) = []"
    "op_RPC (construct Q M F (m, operation_program svc m rule i)) = pd_GoName m"
    "op_ResponseBody (construct Q M F (m, operation_program svc m rule i)) = hr_responseBody rule"
    "op_codec (construct Q M F (m, operation_program svc m rule i)) = Some JSONCodec"
    "op_interceptors (construct Q M F (m, operation_program svc m rule i)) = []"
    "op_streamType (construct Q M F (m, operation_program svc m rule i)) = mode_type (streamMode m)"
    "op_requestBuilder (construct Q M F (m, operation_program svc m rule i)) =
      (if streamMode m \<in> {''client'', ''bidi''} then None
       else Some (fe_builders F (requestBuilderName (ps_GoName svc) (pd_GoName m) i)))"
proof -
  have mem: "m \<in> set (ps_Methods svc)" using assms(3) by (simp add: binding_def)
  note cvs = const_values [OF assms(2) [unfolded compiles_def, THEN conjunct1]]
  note vs = cvs(2) [OF mem] cvs(3) [OF assms(3)]
  show "op_Method (construct Q M F (m, operation_program svc m rule i)) = hr_method rule"
    "op_Path (construct Q M F (m, operation_program svc m rule i)) = hr_path rule"
    "op_Procedure (construct Q M F (m, operation_program svc m rule i)) = []"
    "op_RPC (construct Q M F (m, operation_program svc m rule i)) = pd_GoName m"
    "op_ResponseBody (construct Q M F (m, operation_program svc m rule i)) = hr_responseBody rule"
    "op_codec (construct Q M F (m, operation_program svc m rule i)) = Some JSONCodec"
    "op_interceptors (construct Q M F (m, operation_program svc m rule i)) = []"
    "op_requestBuilder (construct Q M F (m, operation_program svc m rule i)) =
      (if streamMode m \<in> {''client'', ''bidi''} then None
       else Some (fe_builders F (requestBuilderName (ps_GoName svc) (pd_GoName m) i)))"
    by (simp_all add: construct_def operation_program_def setter_defs empty_operation_def assms(1) vs Let_def)
  show "op_streamType (construct Q M F (m, operation_program svc m rule i)) = mode_type (streamMode m)"
    by (rule streamMode_cases [of m])
       (simp_all add: construct_def operation_program_def setter_defs empty_operation_def set_handler_def mode_type_def
         case_prod_unfold SetServerStreamHandler_def SetClientStreamHandler_def SetBidiStreamHandler_def SetUnaryHandler_def Let_def)
qed

definition calls_method ::
    "qualifier \<Rightarrow> messages \<Rightarrow> ('c, 'm, 'd, 's) file_env \<Rightarrow> pmethod \<Rightarrow> ('c, 'm, 'd, 's) Operation \<Rightarrow> bool" where
  \<comment> \<open>the operation has the mode of the method, and its handler calls the service's method\<close>
  "calls_method Q M F m e =
     (let Req = inputType Q M m; Res = outputType Q M m; nm = pd_GoName m; I = fe_impl F
      in if streamMode m = ''server'' then
           op_streamType e = StreamTypeServer \<and>
           (\<exists>f. op_serverStream e = Some f \<and> (\<forall>ctx req stream s. req_type req = Req \<longrightarrow>
              f ctx (TypedRequest req) stream s = im_server I nm ctx (req_msg req) (typedServerStream stream) s))
         else if streamMode m = ''client'' then
           op_streamType e = StreamTypeClient \<and>
           op_clientStream e = Some (\<lambda>ctx stream s. respond (im_client I nm ctx (typedClientStream (fe_typeOf F) (''*'' @ Req) stream) s))
         else if streamMode m = ''bidi'' then
           op_streamType e = StreamTypeBidi \<and>
           op_bidiStream e = Some (\<lambda>ctx stream. im_bidi I nm ctx (typedBidiStream (fe_typeOf F) (''*'' @ Req) stream))
         else
           op_streamType e = StreamTypeUnary \<and>
           (\<exists>f. op_unary e = Some f \<and> (\<forall>ctx req. req_type req = Req \<longrightarrow>
              f ctx (Some (TypedRequest req)) = respond (im_unary I nm ctx (req_msg req)))))"

lemma construct_calls:
  "calls_method Q M F m (PrepareOperation (construct Q M F (m, operation_program svc m rule i)) nm c us ss path)"
  by (rule streamMode_cases [of m])
     (simp_all add: calls_method_def PrepareOperation_def construct_def operation_program_def setter_defs empty_operation_def
       set_handler_def builder_types_def SetServerStreamHandler_def SetClientStreamHandler_def SetBidiStreamHandler_def
       SetUnaryHandler_def Let_def)

lemma construct_body:
  assumes "fe_consts F = service_consts svc"
  shows "op_Body (construct Q M F (m, operation_program svc m rule i)) = (if streamMode m = ''client'' then [] else hr_body rule)"
  by (simp add: construct_def operation_program_def setter_defs empty_operation_def Let_def)

section \<open>The service on a mux\<close>

definition binding_method :: "pmethod \<Rightarrow> httpRule \<Rightarrow> string" where
  \<comment> \<open>the request method of a binding: a bidirectional stream starts with a GET\<close>
  "binding_method m rule = (if streamMode m = ''bidi'' then ''GET'' else hr_method rule)"

definition binding_handler ::
    "qualifier \<Rightarrow> messages \<Rightarrow> ('c, 'm, 'd, 'd conn_state) file_env \<Rightarrow> pservice \<Rightarrow> ('c, 'm, 'd) Mux \<Rightarrow> pmethod \<Rightarrow> nat \<Rightarrow> httpRule
     \<Rightarrow> ('c, 'm, 'd) Handler" where
  "binding_handler Q M F svc mux m i rule =
     NewHandler (PrepareOperation (construct Q M F (m, operation_program svc m rule i)) (ps_FullName svc) (mux_codec mux)
       (mux_interceptors mux) (mux_streamInterceptors mux) (hr_path rule))"

definition binding_serves :: "pmethod \<Rightarrow> httpRule \<Rightarrow> string \<Rightarrow> string \<Rightarrow> bool" where
  \<comment> \<open>the binding is for requests of this method and path\<close>
  "binding_serves m rule method path =
     (method = binding_method m rule \<and>
      (if contains_byte (hr_path rule) CHR ''{'' then (case ParsePattern (hr_path rule) of Inl _ \<Rightarrow> False | Inr pat \<Rightarrow> serves pat path)
       else hr_path rule = path))"

definition paths_parse :: "pservice \<Rightarrow> bool" where
  "paths_parse svc = (\<forall>m \<in> set (ps_Methods svc). \<forall>rule \<in> set (extractHTTPRules m). \<not> isl (ParsePattern (hr_path rule)))"

lemma paths_parseD: "paths_parse svc \<Longrightarrow> binding svc m i rule \<Longrightarrow> \<exists>pat. ParsePattern (hr_path rule) = Inr pat"
  by (metis binding_def enumerate_eq_zip in_set_zipE paths_parse_def isl_def sum.exhaust_sel)

lemma op_routes_set:
  assumes "\<And>e. e \<in> set es \<Longrightarrow> \<exists>pat. ParsePattern (pfx @ op_Path e) = Inr pat"
  shows "set (op_routes pfx nm m es) =
    {rt. \<exists>e pat. e \<in> set es \<and> ParsePattern (pfx @ op_Path e) = Inr pat \<and>
       rt = (route_method e, pfx @ op_Path e, pat,
         NewHandler (PrepareOperation e nm (mux_codec m) (mux_interceptors m) (mux_streamInterceptors m) (pfx @ op_Path e)))}"
  using assms
proof (induction es)
  case (Cons e es)
  from Cons.prems [of e] obtain pat where pat: "ParsePattern (pfx @ op_Path e) = Inr pat" by auto
  have "route_method (PrepareOperation e nm c u s p) = route_method e" for c u s p
    by (simp add: route_method_def PrepareOperation_fields)
  with pat Cons.IH Cons.prems show ?case by (auto simp: Let_def)
qed simp

lemma register_ops_None:
  "fst (register_ops pfx nm m es) = None \<longleftrightarrow> (\<forall>e \<in> set es. \<not> isl (ParsePattern (pfx @ op_Path e)))"
proof (induction es arbitrary: m)
  case (Cons e es)
  then show ?case by (auto simp: Let_def split: sum.splits prod.splits) (metis fst_conv)+
qed simp

lemma generated_service_sel:
  assumes "fe_consts F = service_consts svc" "compiles svc"
  shows "svc_Name (generated_service Q M F svc) = ps_FullName svc" "svc_Prefix (generated_service Q M F svc) = []"
    "set (svc_operations (generated_service Q M F svc)) =
      {e. \<exists>m i rule. binding svc m i rule \<and> e = construct Q M F (m, operation_program svc m rule i)}"
  using assms const_values(1) [of svc] generated_operations [of svc Q M F]
  by (simp_all add: compiles_def per_rule_set) (simp_all add: generated_service_def NewService_def)

lemma generated_routes:
  assumes "fe_consts F = service_consts svc" "compiles svc" "paths_parse svc"
  shows "fst (Register (generated_service Q M F svc) mux) = None"
    "set (routes_of [generated_service Q M F svc] mux) =
      {rt. \<exists>m i rule pat. binding svc m i rule \<and> ParsePattern (hr_path rule) = Inr pat \<and>
         rt = (binding_method m rule, hr_path rule, pat, binding_handler Q M F svc mux m i rule)}"
proof -
  let ?S = "generated_service Q M F svc"
  have paths: "\<exists>pat. ParsePattern (svc_Prefix ?S @ op_Path e) = Inr pat" if "e \<in> set (svc_operations ?S)" for e
  proof -
    from that obtain m i rule where e: "binding svc m i rule" "e = construct Q M F (m, operation_program svc m rule i)"
      by (auto simp: generated_service_sel [OF assms(1,2)])
    then show ?thesis
      using paths_parseD [OF assms(3) e(1)] by (simp add: generated_service_sel [OF assms(1,2)] construct_fields [OF assms(1,2)])
  qed
  show "fst (Register ?S mux) = None"
    using register_ops_None [of "svc_Prefix ?S" "svc_Name ?S" mux "svc_operations ?S"] paths
    by (fastforce simp: Register_def isl_def split: prod.splits)
  have verb: "route_method (construct Q M F (m, operation_program svc m rule i)) = binding_method m rule" if "binding svc m i rule" for m i rule
    by (rule streamMode_cases [of m])
       (simp_all add: route_method_def binding_method_def construct_fields [OF assms(1,2) that] mode_type_def)
  let ?R = "\<lambda>e pat. (route_method e, op_Path e, pat,
         NewHandler (PrepareOperation e (ps_FullName svc) (mux_codec mux) (mux_interceptors mux) (mux_streamInterceptors mux) (op_Path e)))"
  have route: "?R (construct Q M F (m, operation_program svc m rule i)) pat =
      (binding_method m rule, hr_path rule, pat, binding_handler Q M F svc mux m i rule)" if "binding svc m i rule" for m i rule pat
    by (simp add: verb [OF that] construct_fields [OF assms(1,2) that] binding_handler_def)
  have "set (routes_of [?S] mux) = {rt. \<exists>e pat. e \<in> set (svc_operations ?S) \<and> ParsePattern (op_Path e) = Inr pat \<and> rt = ?R e pat}"
    using op_routes_set [of "svc_operations ?S" "svc_Prefix ?S" "svc_Name ?S" mux, OF paths]
    by (simp only: routes_of_def generated_service_sel(1,2) [OF assms(1,2)] append_Nil list.map concat.simps append_Nil2)
  also have "\<dots> = {rt. \<exists>m i rule pat. binding svc m i rule \<and> ParsePattern (hr_path rule) = Inr pat \<and>
         rt = (binding_method m rule, hr_path rule, pat, binding_handler Q M F svc mux m i rule)}"
    unfolding generated_service_sel [OF assms(1,2)] mem_Collect_eq
  proof (intro Collect_cong iffI)
    fix rt assume "\<exists>e pat. (\<exists>m i rule. binding svc m i rule \<and> e = construct Q M F (m, operation_program svc m rule i)) \<and>
       ParsePattern (op_Path e) = Inr pat \<and> rt = ?R e pat"
    then show "\<exists>m i rule pat. binding svc m i rule \<and> ParsePattern (hr_path rule) = Inr pat \<and>
         rt = (binding_method m rule, hr_path rule, pat, binding_handler Q M F svc mux m i rule)"
      by (elim exE conjE) (metis route construct_fields(2) [OF assms(1,2)])
  next
    fix rt assume "\<exists>m i rule pat. binding svc m i rule \<and> ParsePattern (hr_path rule) = Inr pat \<and>
         rt = (binding_method m rule, hr_path rule, pat, binding_handler Q M F svc mux m i rule)"
    then show "\<exists>e pat. (\<exists>m i rule. binding svc m i rule \<and> e = construct Q M F (m, operation_program svc m rule i)) \<and>
       ParsePattern (op_Path e) = Inr pat \<and> rt = ?R e pat"
      by (elim exE conjE) (metis route construct_fields(2) [OF assms(1,2)])
  qed
  finally show "set (routes_of [?S] mux) =
      {rt. \<exists>m i rule pat. binding svc m i rule \<and> ParsePattern (hr_path rule) = Inr pat \<and>
         rt = (binding_method m rule, hr_path rule, pat, binding_handler Q M F svc mux m i rule)}" .
qed

lemma binding_serves_route:
  "ParsePattern (hr_path rule) = Inr pat \<Longrightarrow>
   route_serves (binding_method m rule, hr_path rule, pat, h) method path = binding_serves m rule method path"
  by (auto simp: binding_serves_def)

lemma generated_dispatch:
  assumes "empty_mux mux" "fe_consts F = service_consts svc" "compiles svc" "paths_parse svc"
    and "mux' = mux_of [generated_service Q M F svc] mux"
  shows "if \<exists>m i rule. binding svc m i rule \<and> binding_serves m rule (rq_Method r) (rq_Path r)
     then \<exists>m i rule params. binding svc m i rule \<and> binding_serves m rule (rq_Method r) (rq_Path r) \<and>
       mux_ServeHTTP ev mux' r s = ServeHTTPWithParams ev (binding_handler Q M F svc mux m i rule) r params s
     else mux_ServeHTTP ev mux' r s =
       (if \<exists>method m i rule. binding svc m i rule \<and> binding_serves m rule method (rq_Path r)
        then on_writer (\<lambda>w. http_Error ''Method Not Allowed'' 405
          (update_header (\<lambda>h. header_set h ''Allow'' (join_with '', '' (sorted_list_of_set
            {method. \<exists>m i rule. binding svc m i rule \<and> binding_serves m rule method (rq_Path r)}))) w)) s
        else case mux_notFound mux of Some h \<Rightarrow> h r s | None \<Rightarrow> on_writer (http_Error ''404 page not found'' 404) s)"
proof -
  note routes = generated_routes [OF assms(2-4)]
  have holds: "holds (routes_of [generated_service Q M F svc] mux) mux'" using mux_of_holds [OF assms(1)] assms(5) by blast
  have notFound: "mux_notFound mux' = mux_notFound mux"
    using mux_of_settings [OF assms(1)] assms(5) by (simp add: same_settings_def)
  have ex: "(\<exists>rt \<in> set (routes_of [generated_service Q M F svc] mux). route_serves rt verb path) \<longleftrightarrow>
      (\<exists>m i rule. binding svc m i rule \<and> binding_serves m rule verb path)" for verb path
    unfolding routes(2) using paths_parseD [OF assms(4)] binding_serves_route by blast
  show ?thesis
  proof (cases "mux_find mux' (rq_Method r) (rq_Path r)")
    case None
    then have none: "\<not> (\<exists>m i rule. binding svc m i rule \<and> binding_serves m rule (rq_Method r) (rq_Path r))"
      using mux_find_iff [OF holds] ex by blast
    show ?thesis unfolding if_not_P [OF none] mux_unserved [OF holds None] ex notFound ..
  next
    case (Some hp)
    obtain h params where hp: "hp = (h, params)" by (cases hp)
    from mux_find_route [OF holds Some [unfolded hp]] obtain template pat where
      "(rq_Method r, template, pat, h) \<in> set (routes_of [generated_service Q M F svc] mux)"
      "route_serves (rq_Method r, template, pat, h) (rq_Method r) (rq_Path r)" by blast
    then obtain m i rule where rule: "binding svc m i rule" "h = binding_handler Q M F svc mux m i rule"
      "binding_serves m rule (rq_Method r) (rq_Path r)"
      unfolding routes(2) by (clarsimp simp del: route_serves.simps) (metis binding_serves_route)
    have "mux_ServeHTTP ev mux' r s = ServeHTTPWithParams ev h r params s"
      using Some hp by (simp add: mux_ServeHTTP_def)
    with rule show ?thesis by (subst if_P) blast+
  qed
qed

lemma binding_operation:
  assumes "fe_consts F = service_consts svc" "compiles svc" "binding svc m i rule"
  shows "calls_method Q M F m (h_operation (binding_handler Q M F svc mux m i rule))"
    "op_Body (h_operation (binding_handler Q M F svc mux m i rule)) = (if streamMode m = ''client'' then [] else hr_body rule)"
    "op_ResponseBody (h_operation (binding_handler Q M F svc mux m i rule)) = hr_responseBody rule"
    "op_requestBuilder (h_operation (binding_handler Q M F svc mux m i rule)) =
       (if streamMode m \<in> {''client'', ''bidi''} then None
        else Some (fe_builders F (requestBuilderName (ps_GoName svc) (pd_GoName m) i)))"
  unfolding binding_handler_def NewHandler_sel
  by (rule construct_calls) (simp_all add: PrepareOperation_def Let_def construct_body [OF assms(1)] construct_fields [OF assms])

lemma binding_spec:
  assumes "fe_consts F = service_consts svc" "compiles svc" "binding svc m i rule" "ps_FullName svc \<noteq> []" "pd_GoName m \<noteq> []"
  shows "h_spec (binding_handler Q M F svc mux m i rule) =
    \<lparr>sp_Procedure = ''/'' @ ps_FullName svc @ ''/'' @ pd_GoName m, sp_Method = hr_method rule, sp_Path = hr_path rule,
     sp_Service = [], sp_RPC = pd_GoName m\<rparr>"
  using assms(4,5)
  by (simp add: binding_handler_def PrepareOperation_def computeSpec_def construct_fields [OF assms(1-3)] Let_def)

lemma full_method_name:
  "m \<in> set (ps_Methods svc) \<Longrightarrow>
   ps_GoName svc @ ''_'' @ pd_GoName m @ ''_FullMethodName = '' @ strconvQuote (''/'' @ ps_FullName svc @ ''/'' @ pd_GoName m)
     \<in> set (generateGRPCService Q M svc pf)"
  unfolding generateGRPCService_def Let_def by auto

text \<open>
  C39. A generated service registers without error if its paths parse, and serves exactly its bindings: a request that some
  binding of the service is for is answered by the handler of such a binding, whatever the mode of its method; for a path
  that only other methods have, the answer is 405 with those methods; otherwise it is not found. The operation behind a
  binding calls the service's method of that name in the method's mode, maps body and response as its rule says, and
  is known by the name that gRPC has for the method, so a policy on procedures treats both alike.
\<close>

theorem generated_service_routes:
  assumes "empty_mux mux" "fe_consts F = service_consts svc" "compiles svc" "paths_parse svc"
    and "Register (generated_service Q M F svc) mux = (err, mux', svc')"
  shows "err = None \<and>
    (if \<exists>m i rule. binding svc m i rule \<and> binding_serves m rule (rq_Method r) (rq_Path r)
     then \<exists>m i rule params. binding svc m i rule \<and> binding_serves m rule (rq_Method r) (rq_Path r) \<and>
       mux_ServeHTTP ev mux' r s = ServeHTTPWithParams ev (binding_handler Q M F svc mux m i rule) r params s
     else mux_ServeHTTP ev mux' r s =
       (if \<exists>method m i rule. binding svc m i rule \<and> binding_serves m rule method (rq_Path r)
        then on_writer (\<lambda>w. http_Error ''Method Not Allowed'' 405
          (update_header (\<lambda>h. header_set h ''Allow'' (join_with '', '' (sorted_list_of_set
            {method. \<exists>m i rule. binding svc m i rule \<and> binding_serves m rule method (rq_Path r)}))) w)) s
        else case mux_notFound mux of Some h \<Rightarrow> h r s | None \<Rightarrow> on_writer (http_Error ''404 page not found'' 404) s)) \<and>
    (\<forall>m i rule. binding svc m i rule \<longrightarrow>
       calls_method Q M F m (h_operation (binding_handler Q M F svc mux m i rule)) \<and>
       op_Body (h_operation (binding_handler Q M F svc mux m i rule)) = (if streamMode m = ''client'' then [] else hr_body rule) \<and>
       op_ResponseBody (h_operation (binding_handler Q M F svc mux m i rule)) = hr_responseBody rule \<and>
       op_requestBuilder (h_operation (binding_handler Q M F svc mux m i rule)) =
         (if streamMode m \<in> {''client'', ''bidi''} then None
          else Some (fe_builders F (requestBuilderName (ps_GoName svc) (pd_GoName m) i)))) \<and>
    (\<forall>m i rule. binding svc m i rule \<and> ps_FullName svc \<noteq> [] \<and> pd_GoName m \<noteq> [] \<longrightarrow>
       h_spec (binding_handler Q M F svc mux m i rule) =
         \<lparr>sp_Procedure = ''/'' @ ps_FullName svc @ ''/'' @ pd_GoName m, sp_Method = hr_method rule, sp_Path = hr_path rule,
          sp_Service = [], sp_RPC = pd_GoName m\<rparr> \<and>
       ps_GoName svc @ ''_'' @ pd_GoName m @ ''_FullMethodName = '' @
         strconvQuote (sp_Procedure (h_spec (binding_handler Q M F svc mux m i rule))) \<in> set (generateGRPCService Q M svc pf))"
proof (intro conjI allI impI)
  show "err = None" using generated_routes(1) [OF assms(2-4), of Q M mux] assms(5) by simp
next
  show "if \<exists>m i rule. binding svc m i rule \<and> binding_serves m rule (rq_Method r) (rq_Path r)
     then \<exists>m i rule params. binding svc m i rule \<and> binding_serves m rule (rq_Method r) (rq_Path r) \<and>
       mux_ServeHTTP ev mux' r s = ServeHTTPWithParams ev (binding_handler Q M F svc mux m i rule) r params s
     else mux_ServeHTTP ev mux' r s =
       (if \<exists>method m i rule. binding svc m i rule \<and> binding_serves m rule method (rq_Path r)
        then on_writer (\<lambda>w. http_Error ''Method Not Allowed'' 405
          (update_header (\<lambda>h. header_set h ''Allow'' (join_with '', '' (sorted_list_of_set
            {method. \<exists>m i rule. binding svc m i rule \<and> binding_serves m rule method (rq_Path r)}))) w)) s
        else case mux_notFound mux of Some h \<Rightarrow> h r s | None \<Rightarrow> on_writer (http_Error ''404 page not found'' 404) s)"
    using assms(5) by (intro generated_dispatch [OF assms(1-4)]) (simp add: mux_of_def)
next
  fix m i rule assume "binding svc m i rule \<and> ps_FullName svc \<noteq> [] \<and> pd_GoName m \<noteq> []"
  then have b: "binding svc m i rule" "ps_FullName svc \<noteq> []" "pd_GoName m \<noteq> []" by simp_all
  note sp = binding_spec [OF assms(2,3) b]
  show "h_spec (binding_handler Q M F svc mux m i rule) =
         \<lparr>sp_Procedure = ''/'' @ ps_FullName svc @ ''/'' @ pd_GoName m, sp_Method = hr_method rule, sp_Path = hr_path rule,
          sp_Service = [], sp_RPC = pd_GoName m\<rparr>" by (rule sp)
  show "ps_GoName svc @ ''_'' @ pd_GoName m @ ''_FullMethodName = '' @
         strconvQuote (sp_Procedure (h_spec (binding_handler Q M F svc mux m i rule))) \<in> set (generateGRPCService Q M svc pf)"
    using full_method_name b(1) unfolding sp by (simp add: binding_def)
qed (rule binding_operation [OF assms(2,3)], assumption)+


section \<open>Filled paths in the tree\<close>

definition ending :: "string \<Rightarrow> string" where
  "ending verb = (if verb = [] then [] else '':'' @ verb)"

definition last_fits :: "(string \<Rightarrow> string) \<Rightarrow> segment list \<Rightarrow> string \<Rightarrow> bool" where
  \<comment> \<open>the value of a parameter at the end fits it with the verb, too: the tree matches before it takes the verb off\<close>
  "last_fits \<sigma> segs verb =
     (case seg_param (last segs) of
        Some p \<Rightarrow> fits True p (\<sigma> (p_name p) @ ending verb)
      | None \<Rightarrow> True)"

lemma strip_ending: "CHR ''/'' \<notin> set verb \<Longrightarrow> stripTrailingSlashes (ending verb) = ending verb"
  by (cases "rev verb") (auto simp: stripTrailingSlashes_def ending_def)

lemma literal_end_ending: "literal_end verb (ending verb)"
  by (auto simp: literal_end_def ending_def has_suffix_def)

lemma capture_end_ending: "capture_end verb (v @ ending verb) [] = Some v"
  by (auto simp: capture_end_def ending_def)

lemma bind_names_bind: "bind_params (Some ((params_make ps)(n \<mapsto> v))) bs = bind_params ps ((n, v) # bs)"
  by (simp add: bind_params_Cons)

lemma run_fill:
  assumes "list_all printable segs" "fits_segments \<sigma> segs" "segs \<noteq> [] \<Longrightarrow> last_fits \<sigma> segs verb" "CHR ''/'' \<notin> set verb"
  shows "\<exists>bs. route_run (concat (map segment_steps segs)) verb (fill_segments \<sigma> segs @ ending verb) = Some bs \<and>
    bind_params ps bs = bind_names \<sigma> (pattern_names segs) ps"
  using assms
proof (induction segs arbitrary: ps)
  case Nil
  then show ?case by (simp add: strip_ending literal_end_ending bind_names_def)
next
  case (Cons seg segs)
  let ?rest = "fill_segments \<sigma> segs @ ending verb"
  have last: "segs \<noteq> [] \<Longrightarrow> last_fits \<sigma> segs verb" using Cons.prems(3) by (simp add: last_fits_def)
  from Cons.IH [OF _ _ this Cons.prems(4)] Cons.prems(1,2) have IH:
    "\<exists>bs. route_run (concat (map segment_steps segs)) verb ?rest = Some bs \<and>
       bind_params ps bs = bind_names \<sigma> (pattern_names segs) ps" for ps by simp
  have rest: "segs \<noteq> [] \<Longrightarrow> at_boundary ?rest" by (cases segs) (simp_all add: at_boundary_def)
  show ?case
  proof (cases "seg_param seg")
    case None
    then show ?thesis using IH [of ps] by (simp add: segment_steps_simps seg_text_def route_run_bytes has_prefix_iff)
  next
    case (Some p)
    let ?v = "\<sigma> (p_name p)"
    have fit: "fits (segs = []) p ?v" using Cons.prems(2) Some by simp
    have skip: "skip_slashes (CHR ''/'' # ?v @ ?rest) = ?v @ ?rest"
      using fits_head [OF fit] by (cases ?v) (auto simp: skip_slashes_def)
    have final: "fits True p (?v @ ending verb)" if "segs = []" using Cons.prems(3) Some that by (simp add: last_fits_def)
    have capture: "\<exists>bs. capture_run (p_name p) (route_run (concat (map segment_steps segs)) verb) (segs = []) verb
        (if segs = [] then ?v @ ending verb else ?v) (if segs = [] then [] else ?rest) = Some bs \<and>
        bind_params ps bs = bind_names \<sigma> (p_name p # pattern_names segs) ps"
    proof (cases "segs = []")
      case True
      then show ?thesis
        by (simp add: capture_run_def capture_end_ending stripTrailingSlashes_def bind_params_def bind_names_def fun_eq_iff)
    next
      case False
      from IH [of "Some ((params_make ps)(p_name p \<mapsto> ?v))"] obtain bs where
        "route_run (concat (map segment_steps segs)) verb ?rest = Some bs"
        "bind_params (Some ((params_make ps)(p_name p \<mapsto> ?v))) bs = bind_names \<sigma> (p_name p # pattern_names segs) ps"
        unfolding bind_names_Cons by blast
      with False show ?thesis by (auto simp: capture_run_def bind_params_Cons)
    qed
    show ?thesis
    proof (cases "p_resource p")
      case True
      have "matchResourceExpr (p_expr p) (?v @ ?rest) =
          Some (if segs = [] then ?v @ ending verb else ?v, if segs = [] then [] else ?rest)"
      proof (cases "segs = []")
        case stop: True
        from matchResource_fits [OF final [OF stop] True, of "[]"] stop show ?thesis by (simp add: at_boundary_def)
      next
        case False
        with matchResource_fits [OF fit True rest [OF False]] show ?thesis by simp
      qed
      with capture skip Some True show ?thesis
        by (simp add: segment_steps_simps seg_text_def segment_steps_Nil del: concat_eq_Nil_conv)
    next
      case False
      have "CHR ''/'' \<notin> set (?v @ (if segs = [] then ending verb else []))" "?v \<noteq> []"
        using fit final False by (auto simp: fits_def path_part_def)
      from takeWhile_part [OF this(1), of "if segs = [] then [] else ?rest"] rest this(2)
      have "takeWhile not_slash (?v @ ?rest) = (if segs = [] then ?v @ ending verb else ?v)"
        "dropWhile not_slash (?v @ ?rest) = (if segs = [] then [] else ?rest)"
        by (auto simp: at_boundary_def split: if_splits)
      with capture skip Some False \<open>?v \<noteq> []\<close> show ?thesis
        by (auto simp: segment_steps_simps seg_text_def segment_steps_Nil Let_def simp del: concat_eq_Nil_conv)
    qed
  qed
qed

section \<open>A unary call\<close>

lemma find_binding:
  assumes mux: "empty_mux mux" "fe_consts F = service_consts svc" "compiles svc" "paths_parse svc"
      "Register (generated_service Q M F svc) mux = (err, mux', svc')"
    and names: "\<And>m i rule pat. binding svc m i rule \<Longrightarrow> ParsePattern (hr_path rule) = Inr pat \<Longrightarrow> distinct (pattern_names (segments pat))"
    and rule: "binding svc m i rule" "ParsePattern (hr_path rule) = Inr p"
      "route_run (fst (pattern_key p)) (snd (pattern_key p)) path = Some bs"
    and exact: "contains_byte (hr_path rule) CHR ''{'' \<or> hr_path rule = path \<and> bind_params None bs = None"
    and alone: "\<And>m' i' rule'. binding svc m' i' rule' \<Longrightarrow> binding_serves m' rule' (binding_method m rule) path \<Longrightarrow>
      m' = m \<and> i' = i \<and> rule' = rule"
  shows "mux_find mux' (binding_method m rule) path = Some (binding_handler Q M F svc mux m i rule, bind_params None bs)"
proof -
  let ?rs = "routes_of [generated_service Q M F svc] mux" and ?mth = "binding_method m rule"
    and ?h = "binding_handler Q M F svc mux m i rule"
  note routes = generated_routes(2) [OF mux(2-4), of Q M mux]
  have "mux' = mux_of [generated_service Q M F svc] mux" using mux(5) by (simp add: mux_of_def)
  then have holds: "holds ?rs mux'" using mux_of_holds [OF mux(1)] by blast
  have mem: "(?mth, hr_path rule, p, ?h) \<in> set ?rs" unfolding routes using rule(1,2) by blast
  have only: "template = hr_path rule \<and> p' = p \<and> h' = ?h"
    if "(?mth, template, p', h') \<in> set ?rs" "if contains_byte template CHR ''{'' then serves p' path else template = path" for template p' h'
  proof -
    from that(1) obtain m' i' rule' where b: "binding svc m' i' rule'" "ParsePattern (hr_path rule') = Inr p'"
      "?mth = binding_method m' rule'" "template = hr_path rule'" "h' = binding_handler Q M F svc mux m' i' rule'"
      unfolding routes by auto
    with that(2) have "binding_serves m' rule' ?mth path" by (auto simp: binding_serves_def split: if_splits)
    from alone [OF b(1) this] b rule(2) show ?thesis by auto
  qed
  show ?thesis
  proof (cases "contains_byte (hr_path rule) CHR ''{''")
    case True
    have "exact_of mux' ?mth path = None"
    proof (rule ccontr)
      assume "exact_of mux' ?mth path \<noteq> None"
      then obtain pat h where "(?mth, path, pat, h) \<in> set ?rs" "\<not> contains_byte path CHR ''{''"
        using exact_served [OF holds] by blast
      with only [of path pat h] True show False by auto
    qed
    moreover have "(p, ?h) \<in> set (wildcard_routes ?rs ?mth)" unfolding wildcard_routes_mem using mem True by blast
    moreover have "tree_lookup (tree_of (wildcard_routes ?rs ?mth)) path = (Some ?h, bind_params None bs)"
    proof (rule lookup_alone [OF rule(3)])
      show "(p, ?h) \<in> set (wildcard_routes ?rs ?mth)" by fact
      show "list_all (\<lambda>(p, h). distinct (pattern_names (segments p))) (wildcard_routes ?rs ?mth)"
        unfolding list_all_iff using names by (auto simp: wildcard_routes_mem routes)
      show "p' = p \<and> h' = ?h" if "(p', h') \<in> set (wildcard_routes ?rs ?mth)" "serves p' path" for p' h'
        using that only unfolding wildcard_routes_mem by (metis (full_types))
    qed
    ultimately show ?thesis
      using holds by (auto simp: mux_find_cases wildcard_of_def holds_def)
  next
    case False
    with exact have path: "hr_path rule = path" "bind_params None bs = None" by auto
    from exact_served [OF holds, of ?mth path] mem False path obtain h' where h': "exact_of mux' ?mth path = Some h'" by auto
    then have "(path, h') \<in> set (exact_routes ?rs ?mth)" using holds by (auto simp: holds_def dest: map_of_SomeD)
    then obtain pat where "(?mth, path, pat, h') \<in> set ?rs" "\<not> contains_byte path CHR ''{''" unfolding exact_routes_mem by blast
    with only [of path pat h'] have "h' = ?h" by simp
    then show ?thesis using h' path by (simp add: mux_find_cases)
  qed
qed

lemma serve_binding:
  assumes "fe_consts F = service_consts svc" "compiles svc" "binding svc m i rule" "streamMode m = ''unary''"
    and "mux_interceptors mux = []" "rq_Body r = None" "h = binding_handler Q M F svc mux m i rule"
    and "fe_builders F (requestBuilderName (ps_GoName svc) (pd_GoName m) i) (request_ctx ev h r params None) r params (h_spec h)
        (codecFromRequest r (rq_Query r)) = Inr (TypedRequest (NewRequestWithMeta (inputType Q M m) msg hdr sp pr))"
  shows "ServeHTTPWithParams ev h r params s =
    (case im_unary (fe_impl F) (pd_GoName m) (SetRequest (Some msg) (request_ctx ev h r params None)) msg of
       (Inl e, _) \<Rightarrow> on_writer (writeError ev e) s
     | (Inr resp, _) \<Rightarrow> on_writer (writeResponse ev h (NewResponse resp) (codecFromRequest r (rq_Query r))) s)"
proof -
  note fields = construct_fields [OF assms(1-3)]
  let ?e = "construct Q M F (m, operation_program svc m rule i)"
  have e: "op_hasNewRequest ?e" "op_handlerReq ?e = inputType Q M m"
    "op_unary ?e = op_unary (set_handler F (builder_types Q M m) (streamMode m) (pd_GoName m) empty_operation)"
    using assms(4) by (simp_all add: construct_def operation_program_def setter_defs set_handler_def builder_types_def
        SetUnaryHandler_def Let_def)
  have h: "h_operation h = PrepareOperation ?e (ps_FullName svc) (mux_codec mux) [] (mux_streamInterceptors mux) (hr_path rule)"
    "h_spec h = op_specCache (h_operation h)" "h_unary h = the (op_unary ?e)"
    using e(3) assms(4,5) fields(7)
    by (simp_all add: assms(7) binding_handler_def NewHandler_def PrepareOperation_def unary.chain_Nil Let_def
        set_handler_def builder_types_def SetUnaryHandler_def)
  have op: "op_requestBuilder (h_operation h) = Some (fe_builders F (requestBuilderName (ps_GoName svc) (pd_GoName m) i))"
    "op_handlerReq (h_operation h) = inputType Q M m" "op_hasNewRequest (h_operation h)"
    "op_streamType (h_operation h) = StreamTypeUnary"
    using fields(8,9) e assms(4) by (simp_all add: h(1) PrepareOperation_def mode_type_def Let_def)
  show ?thesis
    using assms(4,6,8) e(3) h(2,3)
    by (simp add: ServeHTTPWithParams_def read_body_def op serveUnary_def newRequest_def attach_meta_def
        NewRequestWithMeta_def Request_WithRequestMeta_def set_handler_def builder_types_def SetUnaryHandler_def
        respond_def Let_def split: prod.splits sum.splits)
qed


text \<open>
  A request builder of the file, as a function that does what its printed statements do (\<open>build\<close>) wherever they neither
  panic nor fail to compile.
\<close>

definition builder_request ::
    "'f builder_env \<Rightarrow> (codec \<Rightarrow> 'f decoder) \<Rightarrow> ('c, 'f gval) Ctx \<Rightarrow> params \<Rightarrow> codec \<Rightarrow> 'f builder_env" where
  \<comment> \<open>what the statements read of a request\<close>
  "builder_request B decode ctx params codec =
     B\<lparr>be_decode := decode codec, be_params := params_make params,
       be_query := (case mQuery (Ctx_Meta ctx) of Some qs \<Rightarrow> qs | None \<Rightarrow> []),
       be_body := (case mBody (Ctx_Meta ctx) of Some b \<Rightarrow> b | None \<Rightarrow> [])\<rparr>"

definition builder_returns ::
    "gotype \<Rightarrow> ('c, 'm) Ctx \<Rightarrow> ('c, 'd) HttpRequest \<Rightarrow> Spec \<Rightarrow> 'd goerror + 'm \<Rightarrow> 'd goerror + 'm AnyRequest" where
  \<comment> \<open>the return statement of \<open>builder_return\<close>\<close>
  "builder_returns T ctx r sp res =
     map_sum id (\<lambda>msg. TypedRequest (NewRequestWithMeta T msg (mHeader (Ctx_Meta ctx)) sp
       \<lparr>Addr = rq_RemoteAddr r, peer_Protocol = rq_Proto r\<rparr>)) res"

definition runs_builder ::
    "'f builder_env \<Rightarrow> (codec \<Rightarrow> 'f decoder) \<Rightarrow> gotype \<Rightarrow> string \<Rightarrow> gstmt list \<Rightarrow> ('c, 'f gval, 'd) RequestBuilder \<Rightarrow> bool" where
  "runs_builder B decode T s prog rb =
     (\<forall>ctx r params sp codec. case build (builder_request B decode ctx params codec) prog s of
        None \<Rightarrow> True
      | Some res \<Rightarrow> rb ctx r params sp codec = builder_returns T ctx r sp res)"

lemma fill_plain:
  assumes "\<not> contains_byte (render p) CHR ''{''"
  shows "fill \<sigma> p = render p \<and> bind_names \<sigma> (pattern_names (segments p)) None = None"
proof -
  have plain: "seg_param seg = None" if "seg \<in> set (segments p)" for seg
  proof (rule ccontr)
    assume "seg_param seg \<noteq> None"
    then have "CHR ''{'' \<in> set (render_segment seg)" by (auto simp: render_segment_def split: option.splits)
    then have "CHR ''{'' \<in> set (render p)" using that by (auto simp: render_def)
    with assms show False by (simp add: contains_byte_def)
  qed
  then have "fill_segments \<sigma> (segments p) = concat (map (\<lambda>seg. ''/'' @ render_segment seg) (segments p))"
    unfolding fill_segments_def by (intro arg_cong [of _ _ concat] map_cong refl) (simp add: seg_text_def render_segment_def)
  moreover have "pattern_names segs = []" if "\<forall>seg \<in> set segs. seg_param seg = None" for segs
    using that by (induction segs) auto
  then have "pattern_names (segments p) = []" using plain by blast
  ultimately show ?thesis by (simp add: fill_def render_def bind_names_def)
qed

lemma built_call:
  fixes msg :: "'f gval" and F :: "('c, 'f gval, 'd, 'd conn_state) file_env"
  assumes "fe_consts F = service_consts svc" "compiles svc" "binding svc m i rule" "streamMode m = ''unary''"
    and "mux_interceptors mux = []" "rq_Body r = None" "h = binding_handler Q M F svc mux m i rule"
    and "runs_builder B decode (inputType Q M m) s prog (fe_builders F (requestBuilderName (ps_GoName svc) (pd_GoName m) i))"
    and "build (builder_request B decode (request_ctx ev h r ps None) ps (codecFromRequest r (rq_Query r))) prog s =
      Some (Inr msg :: 'd goerror + 'f gval)"
  shows "\<exists>ctx. Ctx_Header ctx = rq_Header r \<and> Ctx_Spec ctx = h_spec h \<and> ServeHTTPWithParams ev h r ps st =
    (case im_unary (fe_impl F) (pd_GoName m) ctx msg of
       (Inl e, _) \<Rightarrow> on_writer (writeError ev e) st
     | (Inr resp, _) \<Rightarrow> on_writer (writeResponse ev h (NewResponse resp) (codecFromRequest r (rq_Query r))) st)"
proof -
  let ?ctx = "request_ctx ev h r ps None"
  from assms(9) assms(8) [unfolded runs_builder_def, rule_format, of ?ctx r ps "h_spec h" "codecFromRequest r (rq_Query r)"]
  have "fe_builders F (requestBuilderName (ps_GoName svc) (pd_GoName m) i) ?ctx r ps (h_spec h) (codecFromRequest r (rq_Query r)) =
      builder_returns (inputType Q M m) ?ctx r (h_spec h) (Inr msg)" by (simp only: option.case)
  then have "ServeHTTPWithParams ev h r ps st =
      (case im_unary (fe_impl F) (pd_GoName m) (SetRequest (Some msg) ?ctx) msg of
         (Inl e, _) \<Rightarrow> on_writer (writeError ev e) st
       | (Inr resp, _) \<Rightarrow> on_writer (writeResponse ev h (NewResponse resp) (codecFromRequest r (rq_Query r))) st)"
    using serve_binding [OF assms(1-7)] by (simp add: builder_returns_def)
  moreover have "Ctx_Header (SetRequest (Some msg) ?ctx) = rq_Header r" "Ctx_Spec (SetRequest (Some msg) ?ctx) = h_spec h"
    by (simp_all add: Ctx_Header_def Ctx_Spec_def SetRequest_def request_ctx_def NewCtx_def WithPeer_def WithSpec_def
        WithProtocol_def Let_def)
  ultimately show ?thesis by blast
qed

text \<open>
  C26. A unary call from a client to a service behind a generated server. The client makes the request of a rule without a
  body from a message; the mux the service is registered on finds the binding, unless another binding is for the same
  path; the generated builder makes the message out of path and query; and the service's method is called with the
  client's message, and its response or its error is what is written.
\<close>

theorem generated_call:
  fixes E :: "('n, 'f, 'd, 'e) client_env" and F :: "('c, 'f gval, 'd, 'd conn_state) file_env"
  assumes server: "empty_mux mux" "mux_interceptors mux = []" "fe_consts F = service_consts svc" "compiles svc" "paths_parse svc"
      "Register (generated_service Q M F svc) mux = (err, mux', svc')"
      "\<And>m i rule pat. binding svc m i rule \<Longrightarrow> ParsePattern (hr_path rule) = Inr pat \<Longrightarrow> distinct (pattern_names (segments pat))"
    and rule: "binding svc m i rule" "streamMode m = ''unary''" "hr_body rule = []" "hr_path rule = render p"
      "ParsePattern (hr_path rule) = Inr p" "list_all printable (segments p)"
    and builder: "builder_program Q M (M (pd_Input m)) rule = Some prog" "be_go B = ce_go E" "be_types B = ce_types E"
      "runs_builder B decode (inputType Q M m) s prog (fe_builders F (requestBuilderName (ps_GoName svc) (pd_GoName m) i))"
    and message: "queryable (ce_go E) (ce_types E) (pattern_names (segments p)) s fs"
      "list_all (path_field (ce_go E) (ce_types E) s fs) (pattern_names (segments p))"
      "list_all (described (ce_types E) s (M (pd_Input m))) (pattern_names (segments p))"
    and path: "path = fill (path_value (ce_go E) (ce_types E) s fs) p"
      "fits_segments (path_value (ce_go E) (ce_types E) s fs) (segments p)"
      "last_fits (path_value (ce_go E) (ce_types E) s fs) (segments p) (pat_verb p)"
      "set path \<inter> {CHR ''?'', CHR ''#'', CHR ''%''} = {}"
    and alone: "\<And>m' i' rule'. binding svc m' i' rule' \<Longrightarrow> binding_serves m' rule' (hr_method rule) path \<Longrightarrow>
      m' = m \<and> i' = i \<and> rule' = rule"
  shows "\<exists>u. encode_call E codec (hr_path rule) [] (Some (struct_ptr s fs)) = Some (Inr (u, None) :: 'd goerror + string \<times> string option) \<and>
    (\<forall>r. rq_Method r = hr_method rule \<and> rq_Path r = fst (parse_target u) \<and> rq_Body r = None \<and>
         mset (case rq_Query r of Some qs \<Rightarrow> qs | None \<Rightarrow> []) = mset (ParseQuery (snd (parse_target u))) \<longrightarrow>
       (\<exists>ctx. Ctx_Header ctx = rq_Header r \<and> Ctx_Spec ctx = h_spec (binding_handler Q M F svc mux m i rule) \<and> mux_ServeHTTP ev mux' r st =
         (case im_unary (fe_impl F) (pd_GoName m) ctx (struct_ptr s (received (ce_types E) s fs)) of
            (Inl e, _) \<Rightarrow> on_writer (writeError ev e) st
          | (Inr resp, _) \<Rightarrow> on_writer (writeResponse ev (binding_handler Q M F svc mux m i rule) (NewResponse resp)
              (codecFromRequest r (rq_Query r))) st)))"
proof -
  let ?\<sigma> = "path_value (ce_go E) (ce_types E) s fs" and ?msg = "struct_ptr s (received (ce_types E) s fs)"
    and ?h = "binding_handler Q M F svc mux m i rule" and ?ps = "bind_names (path_value (ce_go E) (ce_types E) s fs) (pattern_names (segments p)) None"
  have ok: "pattern_ok p" using parsed_ok [OF rule(5)] by simp
  from call_builds [OF rule(6) ok rule(4,3) message path(2) path(4) [unfolded path(1)], where codec = codec and Q = Q and M = M] obtain u where
    u: "encode_call E codec (hr_path rule) [] (Some (struct_ptr s fs)) = Some (Inr (u, None) :: 'd goerror + string \<times> string option)"
      "fst (parse_target u) = path"
      "\<And>B'. be_go B' = ce_go E \<Longrightarrow> be_types B' = ce_types E \<Longrightarrow> be_params B' = params_make ?ps \<Longrightarrow>
         mset (be_query B') = mset (ParseQuery (snd (parse_target u))) \<Longrightarrow>
         build B' prog s = Some (Inr ?msg :: 'd goerror + 'f gval)"
    using builder(1) path(1) by auto
  have unary: "binding_method m rule = hr_method rule" using rule(2) by (simp add: binding_method_def)
  have "CHR ''/'' \<notin> set (pat_verb p)" using ok by (simp add: pattern_ok_def)
  from run_fill [OF rule(6) path(2,3) this, of None] obtain bs where
    run: "route_run (fst (pattern_key p)) (snd (pattern_key p)) path = Some bs" "bind_params None bs = ?ps"
    by (auto simp: pattern_key_def path(1) fill_def ending_def)
  have exact: "contains_byte (hr_path rule) CHR ''{'' \<or> hr_path rule = path \<and> bind_params None bs = None"
    using fill_plain [of p ?\<sigma>] rule(4) path(1) run(2) by auto
  have found: "mux_find mux' (hr_method rule) path = Some (?h, ?ps)"
    unfolding unary [symmetric] run(2) [symmetric]
  proof (rule find_binding [OF server(1,3-7) rule(1,5) run(1) exact])
    show "m' = m \<and> i' = i \<and> rule' = rule"
      if "binding svc m' i' rule'" "binding_serves m' rule' (binding_method m rule) path" for m' i' rule'
      by (rule alone [OF that(1) that(2) [unfolded unary]])
  qed
  show ?thesis
  proof (intro exI [of _ u] conjI allI impI u(1))
    fix r :: "('c, 'd) HttpRequest"
    assume r: "rq_Method r = hr_method rule \<and> rq_Path r = fst (parse_target u) \<and> rq_Body r = None \<and>
         mset (case rq_Query r of Some qs \<Rightarrow> qs | None \<Rightarrow> []) = mset (ParseQuery (snd (parse_target u)))"
    have "build (builder_request B decode (request_ctx ev ?h r ?ps None) ?ps (codecFromRequest r (rq_Query r))) prog s =
        Some (Inr ?msg :: 'd goerror + 'f gval)"
      using r builder(2,3) by (intro u(3)) (simp_all add: builder_request_def request_ctx_meta)
    moreover have "mux_ServeHTTP ev mux' r st = ServeHTTPWithParams ev ?h r ?ps st"
      using r u(2) found by (simp add: mux_ServeHTTP_def)
    ultimately show "\<exists>ctx. Ctx_Header ctx = rq_Header r \<and> Ctx_Spec ctx = h_spec ?h \<and> mux_ServeHTTP ev mux' r st =
         (case im_unary (fe_impl F) (pd_GoName m) ctx ?msg of
            (Inl e, _) \<Rightarrow> on_writer (writeError ev e) st
          | (Inr resp, _) \<Rightarrow> on_writer (writeResponse ev ?h (NewResponse resp) (codecFromRequest r (rq_Query r))) st)"
      using built_call [OF server(3,4) rule(1,2) server(2) _ refl builder(4), of r] r by simp
  qed
qed


section \<open>A service to apply the theorems to\<close>

definition read_method :: pmethod where
  "read_method =
     get_method\<lparr>pd_Name := ''Read'', pd_GoName := ''Read'', pd_http := Some (HttpRule (GetRule ''/books/{id}:read'') [] [] [])\<rparr>"

definition read_service :: pservice where
  "read_service = (one_service ''Books'')\<lparr>ps_Methods := [read_method]\<rparr>"

definition read_program :: "gstmt list" where
  "read_program = the (builder_program plain_qualifier (\<lambda>_. book_message) book_message (book_rule []))"

definition read_builder :: "(unit, unit gval, string) RequestBuilder" where
  "read_builder ctx r params sp codec =
     (case build (builder_request (book_request []) (\<lambda>_ b v. (None, v)) ctx params codec) read_program ''Book'' of
        Some res \<Rightarrow> builder_returns ''Book'' ctx r sp res
      | None \<Rightarrow> Inl (PlainError ''panic''))"

definition read_file :: "(unit, unit gval, string, string conn_state) file_env" where
  \<comment> \<open>the service returns the book it is asked for\<close>
  "read_file =
     \<lparr>fe_consts = service_consts read_service, fe_builders = \<lambda>_. read_builder, fe_typeOf = \<lambda>_. ''*Book'',
      fe_impl = \<lparr>im_unary = \<lambda>meth ctx msg. (Inr msg, snd ctx), im_server = \<lambda>meth ctx msg strm s. (None, s),
        im_client = \<lambda>meth ctx strm s. (Inl (PlainError ''none''), s), im_bidi = \<lambda>meth ctx strm s. (None, s)\<rparr>\<rparr>"

definition book_server :: "(unit gval, string) env" where
  "book_server =
     \<lparr>ev_lib = struct_lib, ev_wire = ev_wire text_env, ev_json = ev_json text_env,
      ev_populate = \<lambda>m ps qs b body c. (None, m), ev_extractField = \<lambda>m f. Inr m, ev_new = \<lambda>T. VOther T,
      ev_asEvent = \<lambda>m. None, ev_rfc3339 = \<lambda>s. None, ev_now = 0\<rparr>"

lemma read_sel [simp]:
  "ps_GoName read_service = ''Books''" "ps_FullName read_service = ''shop.Books''" "pd_GoName read_method = ''Read''"
  "pd_Input read_method = ''Book''" "fe_consts read_file = service_consts read_service" "fe_builders read_file = (\<lambda>_. read_builder)"
  "im_unary (fe_impl read_file) meth ctx msg = (Inr msg, snd ctx)"
  by (simp_all add: read_service_def read_method_def read_file_def one_service_def get_method_def)

lemma read_binding: "binding read_service m i rule \<longleftrightarrow> m = read_method \<and> i = 0 \<and> rule = book_rule []"
  by (auto simp: binding_def read_service_def read_method_def get_method_def one_service_def extractHTTPRules_def
      ruleFromHTTPRule_def book_rule_def)

lemma read_pattern: "ParsePattern ''/books/{id}:read'' = Inr book_pattern"
  by code_simp

lemma read_rule [simp]: "hr_path (book_rule []) = ''/books/{id}:read''" "hr_method (book_rule []) = ''GET''" "hr_body (book_rule []) = []"
  by (simp_all add: book_rule_def)

lemma read_registers: "compiles read_service" "paths_parse read_service" "streamMode read_method = ''unary''"
proof -
  show "compiles read_service" by code_simp
  show "streamMode read_method = ''unary''" by code_simp
  have "\<not> isl (ParsePattern (hr_path rule))" if "binding read_service m i rule" for m i rule
    using that by (simp add: read_binding read_pattern)
  then show "paths_parse read_service"
    unfolding paths_parse_def binding_def by (metis enumerate_eq_zip in_set_impl_in_set_zip2 length_upt diff_zero add_0 add_diff_cancel_left' prod.collapse)
qed

lemma read_serves: "binding_serves read_method (book_rule []) ''GET'' ''/books/7:read''"
  by code_simp


lemma read_program_some: "builder_program plain_qualifier (\<lambda>_. book_message) book_message (book_rule []) = Some read_program"
proof -
  have "builder_program plain_qualifier (\<lambda>_. book_message) book_message (book_rule []) \<noteq> None" by code_simp
  then show ?thesis by (auto simp: read_program_def)
qed

lemma generated_service_routes_witness:
  "\<exists>mux' svc' params. Register (generated_service plain_qualifier (\<lambda>_. book_message) read_file read_service) (NewMux []) = (None, mux', svc') \<and>
     mux_ServeHTTP book_server mux' (text_request\<lparr>rq_Method := ''GET'', rq_Path := ''/books/7:read''\<rparr>) text_conn =
       ServeHTTPWithParams book_server
         (binding_handler plain_qualifier (\<lambda>_. book_message) read_file read_service (NewMux []) read_method 0 (book_rule []))
         (text_request\<lparr>rq_Method := ''GET'', rq_Path := ''/books/7:read''\<rparr>) params text_conn"
proof -
  let ?S = "generated_service plain_qualifier (\<lambda>_. book_message) read_file read_service"
    and ?r = "text_request\<lparr>rq_Method := ''GET'', rq_Path := ''/books/7:read''\<rparr>"
  obtain err mux' svc' where reg: "Register ?S (NewMux []) = (err, mux', svc')" by (cases "Register ?S (NewMux [])")
  have "empty_mux (NewMux [])" by (simp add: NewMux_def empty_mux_def)
  from generated_service_routes [OF this _ read_registers(1,2) reg, of ?r book_server text_conn shop_file]
  show ?thesis using reg read_serves by (auto simp: read_binding)
qed

lemma generated_call_witness:
  "\<exists>u r mux' svc'. encode_call book_env JSONCodec ''/books/{id}:read'' [] (Some (struct_ptr ''Book'' book)) =
       Some (Inr (u, None) :: string goerror + string \<times> string option) \<and>
     rq_Method r = ''GET'' \<and> rq_Path r = fst (parse_target u) \<and>
     Register (generated_service plain_qualifier (\<lambda>_. book_message) read_file read_service) (NewMux []) = (None, mux', svc') \<and>
     mux_ServeHTTP book_server mux' r text_conn =
       on_writer (writeResponse book_server
         (binding_handler plain_qualifier (\<lambda>_. book_message) read_file read_service (NewMux []) read_method 0 (book_rule []))
         (NewResponse (struct_ptr ''Book'' book)) (codecFromRequest r (rq_Query r))) text_conn"
proof -
  let ?M = "\<lambda>_. book_message" and ?b = "read_method" and ?rule = "book_rule []"
  let ?S = "generated_service plain_qualifier ?M read_file read_service" and ?\<sigma> = "path_value no_lib book_types ''Book'' book"
  obtain err mux' svc' where reg: "Register ?S (NewMux []) = (err, mux', svc')" by (cases "Register ?S (NewMux [])")
  have mux: "empty_mux (NewMux [])" "mux_interceptors (NewMux []) = []" by (simp_all add: NewMux_def empty_mux_def)
  have err: "err = None"
    using reg generated_routes(1) [OF _ read_registers(1,2), of read_file plain_qualifier ?M "NewMux []"] by simp
  have parse: "ParsePattern (hr_path ?rule) = Inr book_pattern" "hr_path ?rule = render book_pattern"
    "list_all printable (segments book_pattern)"
    by (simp add: read_pattern) code_simp+
  have prog: "builder_program plain_qualifier ?M (?M (pd_Input ?b)) ?rule = Some read_program"
    by (rule read_program_some)
  have path: "fill ?\<sigma> book_pattern = ''/books/7:read''"
    by (simp add: book_pattern_def book_path_value fill_def seg_text_def)
  have fits: "fits_segments ?\<sigma> (segments book_pattern)" "last_fits ?\<sigma> (segments book_pattern) (pat_verb book_pattern)"
    by (simp_all add: book_pattern_def book_path_value fits_def path_part_def last_fits_def ending_def)
  have runs: "runs_builder (book_request []) (\<lambda>_ b v. (None, v)) (inputType plain_qualifier ?M ?b) ''Book'' read_program
      (fe_builders read_file (requestBuilderName (ps_GoName read_service) (pd_GoName ?b) 0))"
    by (auto simp: runs_builder_def read_builder_def inputType_def ident_def book_message_def split: option.split)
  let ?h = "binding_handler plain_qualifier ?M read_file read_service (NewMux []) ?b 0 ?rule"
  have "\<exists>u. encode_call book_env JSONCodec (hr_path ?rule) [] (Some (struct_ptr ''Book'' book)) =
       Some (Inr (u, None) :: string goerror + string \<times> string option) \<and>
     (\<forall>r. rq_Method r = hr_method ?rule \<and> rq_Path r = fst (parse_target u) \<and> rq_Body r = None \<and>
         mset (case rq_Query r of Some qs \<Rightarrow> qs | None \<Rightarrow> []) = mset (ParseQuery (snd (parse_target u))) \<longrightarrow>
       (\<exists>ctx. Ctx_Header ctx = rq_Header r \<and> Ctx_Spec ctx = h_spec ?h \<and> mux_ServeHTTP book_server mux' r text_conn =
         (case im_unary (fe_impl read_file) (pd_GoName ?b) ctx (struct_ptr ''Book'' (received (ce_types book_env) ''Book'' book)) of
            (Inl e, _) \<Rightarrow> on_writer (writeError book_server e) text_conn
          | (Inr resp, _) \<Rightarrow> on_writer (writeResponse book_server ?h (NewResponse resp) (codecFromRequest r (rq_Query r))) text_conn)))"
  proof (rule generated_call [where p = book_pattern and prog = read_program and B = "book_request []"
        and decode = "\<lambda>_ b v. (None, v)" and path = "''/books/7:read''", OF mux _ read_registers(1,2) reg])
    show "distinct (pattern_names (segments pat))"
      if "binding read_service m i rule" "ParsePattern (hr_path rule) = Inr pat" for m i rule pat
      using that parse(1) by (simp add: read_binding book_names)
    show "m' = ?b \<and> i' = 0 \<and> rule' = ?rule" if "binding read_service m' i' rule'" for m' i' rule'
      using that by (simp add: read_binding)
    show "queryable (ce_go book_env) (ce_types book_env) (pattern_names (segments book_pattern)) ''Book'' book"
      using book_queryable [folded book_def] by (simp only: book_names book_env_sel)
    show "hr_path ?rule = render book_pattern" by (rule parse(2))
    show "runs_builder (book_request []) (\<lambda>_ b v. (None, v)) (inputType plain_qualifier ?M ?b) ''Book'' read_program
      (fe_builders read_file (requestBuilderName (ps_GoName read_service) (pd_GoName ?b) 0))" by (rule runs)
  qed (simp_all add: read_pattern parse(3) prog fits path read_registers read_binding book_names book_path_field book_described
      book_env_sel)
  note this [unfolded book_env_sel book_received read_rule read_sel prod.case sum.case]
  then obtain u where u: "encode_call book_env JSONCodec ''/books/{id}:read'' [] (Some (struct_ptr ''Book'' book)) =
       Some (Inr (u, None) :: string goerror + string \<times> string option)"
    "\<forall>r. rq_Method r = ''GET'' \<and> rq_Path r = fst (parse_target u) \<and> rq_Body r = None \<and>
         mset (case rq_Query r of Some qs \<Rightarrow> qs | None \<Rightarrow> []) = mset (ParseQuery (snd (parse_target u))) \<longrightarrow>
       mux_ServeHTTP book_server mux' r text_conn =
         on_writer (writeResponse book_server ?h (NewResponse (struct_ptr ''Book'' book)) (codecFromRequest r (rq_Query r))) text_conn"
    by blast
  let ?r = "text_request\<lparr>rq_Method := ''GET'', rq_Path := fst (parse_target u), rq_Query := Some (ParseQuery (snd (parse_target u)))\<rparr>"
  have r: "rq_Method ?r = ''GET''" "rq_Path ?r = fst (parse_target u)" "rq_Body ?r = None"
    "mset (case rq_Query ?r of Some qs \<Rightarrow> qs | None \<Rightarrow> []) = mset (ParseQuery (snd (parse_target u)))"
    by (simp_all add: text_request_def)
  have "mux_ServeHTTP book_server mux' ?r text_conn =
      on_writer (writeResponse book_server ?h (NewResponse (struct_ptr ''Book'' book)) (codecFromRequest ?r (rq_Query ?r))) text_conn"
    by (rule u(2) [rule_format, OF conjI [OF r(1) conjI [OF r(2) conjI [OF r(3) r(4)]]]])
  with u(1) r(1,2) reg err show ?thesis by blast
qed

end
