(* ===== verification/GrpcBridge.thy ===== *)
theory GrpcBridge
  imports MuxSpec ClientSpec
begin

text \<open>
  The bridge to grpc-go (\<open>grpcbridge/grpcbridge.go\<close>): interceptor chains around gRPC calls and streams, the context a
  handler sees, stream adapters, and the options a server is built with. \<open>grpc.NewServer\<close> is a parameter, and so are a
  stream's \<open>SendMsg\<close> and \<open>RecvMsg\<close>, the handlers of generated code and the metadata of an incoming context. The
  conversion of errors, \<open>ToGRPC\<close>, is in \<open>Status\<close>.

  The unary bridge passes the response around the chain in a variable the closures share. Interceptors and handlers are
  therefore functions that thread a store here: the variable and the rest of the world.
\<close>

type_synonym ('c, 'm, 'd, 's) storeFunc =
  "('c, 'm) Ctx \<Rightarrow> 'm AnyRequest option \<Rightarrow> 's \<Rightarrow> (('d goerror + 'm Response option) \<times> 'm ctxState option) \<times> 's"

type_synonym ('c, 'm, 'd, 's) storeInterceptor = "('c, 'm, 'd, 's) storeFunc \<Rightarrow> ('c, 'm, 'd, 's) storeFunc"

definition chain_store ::
    "('c, 'm, 'd, 's) storeInterceptor list \<Rightarrow> ('c, 'm, 'd, 's) storeFunc \<Rightarrow> ('c, 'm, 'd, 's) storeFunc" where
  \<comment> \<open>\<open>middleware.ChainUnaryInterceptors\<close>\<close>
  "chain_store interceptors next = fold (\<lambda>interceptor chained. interceptor chained) (rev interceptors) next"

section \<open>Contexts\<close>

definition CtxFor :: "('c Context \<Rightarrow> (string \<times> string list) list) \<Rightarrow> 'c Context \<Rightarrow> string \<Rightarrow> ('c, 'm) Ctx" where
  \<comment> \<open>\<open>incoming\<close> is \<open>metadata.FromIncomingContext\<close>, in the order the map is visited (none: nothing)\<close>
  "CtxFor incoming ctx procedure =
     (let h = fold (\<lambda>(k, vs) h. fold (\<lambda>v h. header_add h k v) vs h) (incoming ctx) []
      in WithSpec (empty_spec\<lparr>sp_Procedure := procedure\<rparr>)
           (WithProtocol ''grpc'' (NewCtx ctx (empty_meta\<lparr>mHeader := Some h\<rparr>) (Some ProtoCodec))))"

section \<open>Interceptors\<close>

datatype ('i, 'x) serverOption =
    EmptyServerOption
  | UnaryOption "'i list" \<comment> \<open>\<open>grpc.UnaryInterceptor\<close> of \<open>unary_bridge\<close>\<close>
  | StreamOption "'i list" \<comment> \<open>\<open>grpc.StreamInterceptor\<close> of \<open>stream_bridge\<close>\<close>
  | ExtraOption 'x

definition grpcbridge_UnaryInterceptor :: "'i list \<Rightarrow> ('i, 'x) serverOption" where
  "grpcbridge_UnaryInterceptor interceptors = (if interceptors = [] then EmptyServerOption else UnaryOption interceptors)"

definition grpcbridge_StreamInterceptor :: "'i list \<Rightarrow> ('i, 'x) serverOption" where
  "grpcbridge_StreamInterceptor interceptors = (if interceptors = [] then EmptyServerOption else StreamOption interceptors)"

definition unary_bridge ::
    "('c Context \<Rightarrow> (string \<times> string list) list) \<Rightarrow> ('d goerror \<Rightarrow> bool)
     \<Rightarrow> ('c, 'm, 'd, 'r option \<times> 'w) storeInterceptor list \<Rightarrow> 'c Context \<Rightarrow> 'q \<Rightarrow> string
     \<Rightarrow> ('c Context \<Rightarrow> 'q \<Rightarrow> 'w \<Rightarrow> ('r option \<times> 'd goerror option) \<times> 'w) \<Rightarrow> 'w
     \<Rightarrow> ('d grpc_result + 'r option) \<times> 'w" where
  \<comment> \<open>the first component of the store is the variable \<open>resp\<close>\<close>
  "unary_bridge incoming isGRPC interceptors ctx req fullMethod handler world =
     (let rctx = CtxFor incoming ctx fullMethod;
          wrapped = chain_store interceptors (\<lambda>c _ (resp, w).
            (let ((r, err), w) = handler (Ctx_Context c) req w
             in (((case err of None \<Rightarrow> Inr None | Some e \<Rightarrow> Inl e), snd c), (r, w))))
      in case wrapped rctx None (None, world) of
           ((Inl e, _), (resp, w)) \<Rightarrow> (Inl (ToGRPC isGRPC (Some e)), w)
         | ((Inr _, _), (resp, w)) \<Rightarrow> (Inr resp, w))"

definition stream_bridge ::
    "('c Context \<Rightarrow> (string \<times> string list) list) \<Rightarrow> ('d goerror \<Rightarrow> bool)
     \<Rightarrow> ('c, 'm, 'd, 'w) storeInterceptor list \<Rightarrow> 'c Context \<Rightarrow> string
     \<Rightarrow> ('c Context \<Rightarrow> 'w \<Rightarrow> 'd grpc_result \<times> 'w) \<Rightarrow> 'w \<Rightarrow> 'd grpc_result \<times> 'w" where
  \<comment> \<open>\<open>ctx\<close> is the context of the stream \<open>ss\<close>; \<open>handler\<close> gets \<open>ss\<close> itself, and with it \<open>ctx\<close>\<close>
  "stream_bridge incoming isGRPC interceptors ctx fullMethod handler world =
     (let rctx = CtxFor incoming ctx fullMethod;
          wrapped = chain_store interceptors (\<lambda>c _ w. ((Inr None, snd c), w))
      in case wrapped rctx None world of
           ((Inl e, _), w) \<Rightarrow> (ToGRPC isGRPC (Some e), w)
         | ((Inr _, _), w) \<Rightarrow> handler ctx w)"

definition factory_options :: "'i list \<Rightarrow> ('i, 'x) serverOption list" where
  "factory_options unary =
     (if unary \<noteq> [] then [grpcbridge_UnaryInterceptor unary, grpcbridge_StreamInterceptor unary] else [])"

definition DefaultGRPCFactory :: "(('i, 'x) serverOption list \<Rightarrow> 'h \<times> 'g) \<Rightarrow> 'i list \<Rightarrow> 'j list \<Rightarrow> 'h option \<times> 'g option" where
  \<comment> \<open>\<open>newServer\<close> is \<open>grpc.NewServer\<close> with reflection registered; the server is handler and registrar\<close>
  "DefaultGRPCFactory newServer unary strm = map_prod Some Some (newServer (factory_options unary))"

definition grpcbridge_WithGRPC ::
    "(('i, 'x) serverOption list \<Rightarrow> 'h \<times> 'g) \<Rightarrow> 'x list \<Rightarrow> 'i list \<Rightarrow> 'j list \<Rightarrow> 'h option \<times> 'g option" where
  \<comment> \<open>the factory it hands to \<open>routing.WithGRPCFactory\<close>\<close>
  "grpcbridge_WithGRPC newServer extraOpts unary strm =
     map_prod Some Some (newServer (factory_options unary @ map ExtraOption extraOpts))"

section \<open>Stream adapters\<close>

record ('m, 'd, 's) grpcStream =
  SendMsg :: "'m \<Rightarrow> 's \<Rightarrow> 'd goerror option \<times> 's"
  RecvMsg :: "'m \<Rightarrow> 's \<Rightarrow> ('d goerror option \<times> 'm) \<times> 's" \<comment> \<open>into a message: what it holds afterwards\<close>

definition ServerStreamAdapter_Send :: "('m, 'd, 's) grpcStream \<Rightarrow> 'm \<Rightarrow> 's \<Rightarrow> 'd goerror option \<times> 's" where
  "ServerStreamAdapter_Send a m s = SendMsg a m s"

definition ClientStreamAdapter_Receive :: "'m \<Rightarrow> ('m, 'd, 's) grpcStream \<Rightarrow> 's \<Rightarrow> ('d goerror + 'm) \<times> 's" where
  \<comment> \<open>\<open>new\<close> is the zero message of the type\<close>
  "ClientStreamAdapter_Receive new a s =
     (case RecvMsg a new s of ((Some err, m), s) \<Rightarrow> (Inl err, s) | ((None, m), s) \<Rightarrow> (Inr m, s))"

definition BidiStreamAdapter_Send :: "('m, 'd, 's) grpcStream \<Rightarrow> 'm \<Rightarrow> 's \<Rightarrow> 'd goerror option \<times> 's" where
  "BidiStreamAdapter_Send a m s = SendMsg a m s"

definition BidiStreamAdapter_Receive :: "'m \<Rightarrow> ('m, 'd, 's) grpcStream \<Rightarrow> 's \<Rightarrow> ('d goerror + 'm) \<times> 's" where
  "BidiStreamAdapter_Receive new a s =
     (case RecvMsg a new s of ((Some err, m), s) \<Rightarrow> (Inl err, s) | ((None, m), s) \<Rightarrow> (Inr m, s))"

section \<open>Interceptors that gate\<close>

definition gate_interceptor ::
    "(('c, 'm) Ctx \<Rightarrow> 's \<Rightarrow> ('d goerror + ('c, 'm) Ctx) \<times> 's) \<Rightarrow> ('c, 'm, 'd, 's) storeInterceptor" where
  \<comment> \<open>an interceptor that looks at the context and the world, and rejects the call or lets it go on with a context it derived\<close>
  "gate_interceptor g next c req s =
     (case g c s of (Inl e, s) \<Rightarrow> ((Inl e, snd c), s) | (Inr c, s) \<Rightarrow> next c req s)"

fun gates :: "(('c, 'm) Ctx \<Rightarrow> 's \<Rightarrow> ('d goerror + ('c, 'm) Ctx) \<times> 's) list \<Rightarrow> ('c, 'm) Ctx \<Rightarrow> 's
    \<Rightarrow> ('d goerror + ('c, 'm) Ctx) \<times> 's" where
  \<comment> \<open>the checks one after the other, the first first\<close>
  "gates [] c s = (Inr c, s)"
| "gates (g # gs) c s = (case g c s of (Inl e, s) \<Rightarrow> (Inl e, s) | (Inr c, s) \<Rightarrow> gates gs c s)"

lemma chain_store_simps [simp]:
  "chain_store [] next = next" "chain_store (i # is) next = i (chain_store is next)"
  by (simp_all add: chain_store_def)

lemma chain_gates:
  "\<exists>st. chain_store (map gate_interceptor gs) next c req s =
     (case gates gs c s of (Inl e, s) \<Rightarrow> ((Inl e, st), s) | (Inr c, s) \<Rightarrow> next c req s)"
proof (induction gs arbitrary: c s)
  case (Cons g gs)
  obtain r s' where g: "g c s = (r, s')" by (cases "g c s")
  show ?case
  proof (cases r)
    case (Inr c')
    with Cons.IH [of c' s'] g show ?thesis by (simp add: gate_interceptor_def)
  qed (simp add: gate_interceptor_def g)
qed simp

definition on_world :: "('a \<Rightarrow> 'w \<Rightarrow> 'b \<times> 'w) \<Rightarrow> 'a \<Rightarrow> 'r \<times> 'w \<Rightarrow> 'b \<times> ('r \<times> 'w)" where
  \<comment> \<open>a check that leaves the captured variable alone\<close>
  "on_world g c s = (let (b, w) = g c (snd s) in (b, (fst s, w)))"

lemma gates_on_world: "gates (map on_world gs) c (r, w) = (let (b, w) = gates gs c w in (b, (r, w)))"
  by (induction gs arbitrary: c w) (auto simp: on_world_def split: prod.splits sum.splits)

lemma unary_bridge_gates:
  "unary_bridge incoming isGRPC (map (\<lambda>g. gate_interceptor (on_world g)) gs) ctx req m handler w =
     (case gates gs (CtxFor incoming ctx m) w of
        (Inl e, w) \<Rightarrow> (Inl (ToGRPC isGRPC (Some e)), w)
      | (Inr c, w) \<Rightarrow>
          (case handler (fst c) req w of
             ((r, Some e), w) \<Rightarrow> (Inl (ToGRPC isGRPC (Some e)), w)
           | ((r, None), w) \<Rightarrow> (Inr r, w)))"
proof -
  have comp: "map (\<lambda>g. gate_interceptor (on_world g)) gs = map gate_interceptor (map on_world gs)" by simp
  let ?next = "\<lambda>c _ (resp, w). (let ((r, err), w) = handler (Ctx_Context c) req w
             in (((case err of None \<Rightarrow> Inr None | Some e \<Rightarrow> Inl e), snd c), (r, w)))"
  from chain_gates [of "map on_world gs" ?next "CtxFor incoming ctx m" None "(None, w)"]
  obtain st where "chain_store (map gate_interceptor (map on_world gs)) ?next (CtxFor incoming ctx m) None (None, w) =
     (case gates (map on_world gs) (CtxFor incoming ctx m) (None, w) of
        (Inl e, s) \<Rightarrow> ((Inl e, st), s) | (Inr c, s) \<Rightarrow> ?next c None s)"
    by blast
  then show ?thesis
    unfolding unary_bridge_def Let_def comp
    by (auto simp: gates_on_world Ctx_Context_def split: prod.splits sum.splits option.splits)
qed

lemma stream_bridge_gates:
  "stream_bridge incoming isGRPC (map gate_interceptor gs) ctx m strm w =
     (case gates gs (CtxFor incoming ctx m) w of
        (Inl e, w) \<Rightarrow> (ToGRPC isGRPC (Some e), w)
      | (Inr c, w) \<Rightarrow> strm ctx w)"
proof -
  let ?last = "\<lambda>c _ w. ((Inr None, snd c), w)"
  from chain_gates [of gs ?last "CtxFor incoming ctx m" None w]
  obtain st where "chain_store (map gate_interceptor gs) ?last (CtxFor incoming ctx m) None w =
     (case gates gs (CtxFor incoming ctx m) w of (Inl e, s) \<Rightarrow> ((Inl e, st), s) | (Inr c, s) \<Rightarrow> ?last c None s)"
    by blast
  then show ?thesis
    unfolding stream_bridge_def Let_def by (auto split: prod.splits sum.splits)
qed

text \<open>
  C24. The same checks guard calls and streams over gRPC: both bridges run them in order on the context of the incoming
  call and answer with the first rejection, as a gRPC status, without calling the handler. If all checks pass, a unary
  handler runs once, with the context the checks derived, and its response or error goes out as it is; a stream handler
  runs once on the stream it was given, whose context is the one from before the checks.
\<close>

theorem grpc_gates:
  "unary_bridge incoming isGRPC (map (\<lambda>g. gate_interceptor (on_world g)) gs) ctx req m handler w =
     (case gates gs (CtxFor incoming ctx m) w of
        (Inl e, w) \<Rightarrow> (Inl (ToGRPC isGRPC (Some e)), w)
      | (Inr c, w) \<Rightarrow>
          (case handler (fst c) req w of
             ((r, Some e), w) \<Rightarrow> (Inl (ToGRPC isGRPC (Some e)), w)
           | ((r, None), w) \<Rightarrow> (Inr r, w))) \<and>
   stream_bridge incoming isGRPC (map gate_interceptor gs) ctx m strm w =
     (case gates gs (CtxFor incoming ctx m) w of
        (Inl e, w) \<Rightarrow> (ToGRPC isGRPC (Some e), w)
      | (Inr c, w) \<Rightarrow> strm ctx w)"
  by (simp only: unary_bridge_gates stream_bridge_gates simp_thms)

section \<open>Errors over several hops\<close>

definition as_goerror :: "(int \<Rightarrow> string \<Rightarrow> string) \<Rightarrow> 'd grpc_result \<Rightarrow> 'd goerror option" where
  \<comment> \<open>the result of \<open>ToGRPC\<close> as an error: \<open>Err\<close> of a grpc-go status is nil for the code OK, and else an error with the
      second parameter's text\<close>
  "as_goerror say r =
     (case r of
        GRPCNil \<Rightarrow> None
      | GRPCSame e \<Rightarrow> Some e
      | GRPCStatusError c m ds \<Rightarrow> if c = 0 then None else Some (GRPCError (say c m) (StatusView (RUint (nat c)) m (map Some ds))))"

definition grpc_hop :: "('d goerror \<Rightarrow> bool) \<Rightarrow> (int \<Rightarrow> string \<Rightarrow> string) \<Rightarrow> 'd goerror option \<Rightarrow> 'd goerror option" where
  \<comment> \<open>an error a handler returns over gRPC, as a gateway hands it on: \<open>ToGRPC\<close> on one side, \<open>FromGRPCStatus\<close> on the other\<close>
  "grpc_hop isGRPC say err = FromGRPCStatus (as_goerror say (ToGRPC isGRPC err))"

lemma grpc_hop_error:
  assumes "FromError e = Some r" "\<not> isGRPC e" "0 < err_code r" "err_code r < 2 ^ 31"
  shows "grpc_hop isGRPC say (Some e) = Some (RpcError (err_code r) (error_text e) None None (err_details r))"
proof -
  have "wrap64 (int (nat (err_code r))) = err_code r" using assms(3,4) by (simp add: wrap64_def)
  moreover have "to_int32 (err_code r) = err_code r" using assms(3,4) by (intro to_int32_id) auto
  ultimately show ?thesis
    using assms by (simp add: grpc_hop_def as_goerror_def ToGRPC_def status_Code_def FromGRPCStatus_def NewErrorf_def)
qed

text \<open>
  C25. An error that crosses gRPC keeps its code and its details over any number of hops, but not its message: \<open>ToGRPC\<close>
  sends the text of \<open>Error\<close>, prefix and all, and each hop adds the prefix again.
\<close>

theorem grpc_hops:
  assumes "msg \<noteq> []" "0 < c" "c < 2 ^ 31" "\<And>m. \<not> isGRPC (RpcError c m None None ds)"
  shows "(grpc_hop isGRPC say ^^ n) (Some (RpcError c msg None None ds)) =
    Some (RpcError c (concat (replicate n (''rpc error: '' @ code_String c @ '': '')) @ msg) None None ds)"
proof (induction n)
  case (Suc n)
  let ?m = "concat (replicate n (''rpc error: '' @ code_String c @ '': '')) @ msg"
  have "grpc_hop isGRPC say (Some (RpcError c ?m None None ds)) =
      Some (RpcError c (error_text (RpcError c ?m None None ds)) None None ds)"
    using grpc_hop_error [of "RpcError c ?m None None ds" "RpcError c ?m None None ds" isGRPC say] assms(2-4) by simp
  with Suc.IH assms(1) show ?case by simp
qed simp

lemma grpc_hops_witness:
  "(grpc_hop (\<lambda>e. GRPCStatus e = None) (\<lambda>c m. m) ^^ 2) (Some (RpcError 5 ''no such book'' None None [True])) =
     Some (RpcError 5 ''rpc error: not_found: rpc error: not_found: no such book'' None None [True])"
proof -
  have "code_String 5 = ''not_found''" by code_simp
  then show ?thesis
    using grpc_hops [of "''no such book''" 5 "\<lambda>e. GRPCStatus e = None" "[True]" 2 "\<lambda>c m. m"]
    by (simp add: numeral_2_eq_2)
qed

section \<open>Headers of an incoming call\<close>

lemma header_values_fold_pairs:
  "header_values (fold (\<lambda>(k, vs) h. fold (\<lambda>v h. header_add h k v) vs h) md h) k =
     header_values h k @ concat (map snd (filter (\<lambda>(k', vs). canonical_key k' = canonical_key k) md))"
proof (induction md arbitrary: h)
  case (Cons x md)
  obtain k' vs where x: "x = (k', vs)" by (cases x)
  show ?case
    unfolding x fold.simps comp_def case_prod_conv Cons.IH header_values_fold_add by (auto simp: header_values_def)
qed simp

text \<open>
  A handler finds the metadata of a gRPC call as headers, by any spelling of the key: the values of a key all arrive,
  in order, whatever the order in which the map is visited, and nothing else arrives under it. The context names the
  procedure and the protocol, and no path or method.
\<close>

theorem CtxFor_headers:
  assumes "distinct (map (canonical_key \<circ> fst) (incoming ctx))" "(k, vs) \<in> set (incoming ctx)" "canonical_key k' = canonical_key k"
  shows "header_values (Ctx_Header (CtxFor incoming ctx m :: ('c, 'm) Ctx)) k' = vs \<and>
    Ctx_HeaderGet (CtxFor incoming ctx m :: ('c, 'm) Ctx) k' = (case vs of [] \<Rightarrow> [] | v # _ \<Rightarrow> v) \<and>
    map_option cs_spec (snd (CtxFor incoming ctx m :: ('c, 'm) Ctx)) = Some (empty_spec\<lparr>sp_Procedure := m\<rparr>) \<and>
    map_option cs_protocol (snd (CtxFor incoming ctx m :: ('c, 'm) Ctx)) = Some ''grpc''"
proof -
  have "concat (map snd (filter (\<lambda>(k', vs). canonical_key k' = canonical_key k) md)) = vs"
    if "distinct (map (canonical_key \<circ> fst) md)" "(k, vs) \<in> set md" for md
    using that
  proof (induction md)
    case (Cons x md)
    show ?case
    proof (cases "(k, vs) = x")
      case True
      then have "\<forall>y \<in> set md. canonical_key (fst y) \<noteq> canonical_key k" using Cons.prems(1) by (force simp: image_iff)
      then have "filter (\<lambda>(k', vs). canonical_key k' = canonical_key k) md = []" by (auto simp: filter_empty_conv)
      with True show ?thesis by auto
    next
      case False
      with Cons.prems have "(k, vs) \<in> set md" by auto
      with Cons.prems(1) have "canonical_key (fst x) \<noteq> canonical_key k" by (force simp: image_iff)
      with Cons \<open>(k, vs) \<in> set md\<close> show ?thesis by (auto simp: case_prod_unfold)
    qed
  qed simp
  from this [OF assms(1,2)]
  have "header_values (Ctx_Header (CtxFor incoming ctx m :: ('c, 'm) Ctx)) k' = vs"
    using assms(3) header_values_fold_pairs [of "incoming ctx" "[]" k']
    by (simp add: CtxFor_def Ctx_Header_def WithSpec_def WithProtocol_def NewCtx_def header_values_def Let_def)
  moreover from this have "Ctx_HeaderGet (CtxFor incoming ctx m :: ('c, 'm) Ctx) k' = (case vs of [] \<Rightarrow> [] | v # _ \<Rightarrow> v)"
    by (simp add: Ctx_HeaderGet_def header_get_def)
  ultimately show ?thesis by (simp add: CtxFor_def WithSpec_def WithProtocol_def NewCtx_def Let_def)
qed

lemma CtxFor_headers_witness:
  "Ctx_HeaderGet (CtxFor (\<lambda>_. [(''authorization'', [''Bearer t'']), (''x-tag'', [''a'', ''b''])])
     (no_ctx :: unit Context) ''/shop.Books/Get'' :: (unit, unit) Ctx) ''X-Tag'' = ''a''"
proof -
  have "canonical_key ''x-tag'' = ''X-Tag''" "canonical_key ''X-Tag'' = ''X-Tag''" "canonical_key ''authorization'' = ''Authorization''"
    by code_simp+
  then show ?thesis
    using CtxFor_headers [of "\<lambda>_. [(''authorization'', [''Bearer t'']), (''x-tag'', [''a'', ''b''])]" "no_ctx :: unit Context" "''x-tag''"
        "[''a'', ''b'']" "''X-Tag''" "''/shop.Books/Get''", where 'm = unit] by simp
qed

end
