(* ===== verification/Gateway.thy ===== *)
theory Gateway
  imports GrpcBridge GenGrpc
begin

text \<open>
  The gateway methods that \<open>protoc-gen-zararpc\<close> generates (\<open>protoc-gen-zararpc/gateway.go\<close>): handlers of the HTTP
  service that pass a call on to a gRPC server. Each stream mode is a program around one loop, or two, that moves messages
  from one stream to the other. The programs are data: how they print is shown to be what the generator prints, and
  what they do is a step relation. The streams are parameters: relations between the world before, the result of the
  operation, and the world after. An operation that blocks is one without a step.
\<close>

section \<open>The programs\<close>

datatype gw_end = HTTPStream | GRPCStream \<comment> \<open>\<open>stream\<close>, and \<open>clientStream\<close>\<close>

datatype gw_conv = AsIs | Zara \<comment> \<open>\<open>err\<close>, and \<open>FromGRPCStatus(err)\<close>\<close>

datatype gw_stmt =
    ReturnNil
  | ReturnErr gw_conv
  | LeaveLoop
  | CloseSendStmt
  | PostNil \<comment> \<open>on \<open>errCh\<close>\<close>
  | PostErr gw_conv
  | EndGoroutine

record gw_relay =
  rl_recv :: gw_end \<comment> \<open>the messages go to the other end\<close>
  rl_eof :: "gw_stmt list"
  rl_err :: "gw_stmt list"
  rl_send_err :: "gw_stmt list"

datatype gw_body = UnaryBody | ServerBody gw_relay | ClientBody gw_relay | BidiBody gw_relay gw_relay

definition server_relay :: gw_relay where
  "server_relay = \<lparr>rl_recv = GRPCStream, rl_eof = [ReturnNil], rl_err = [ReturnErr Zara], rl_send_err = [ReturnErr AsIs]\<rparr>"

definition client_relay :: gw_relay where
  "client_relay = \<lparr>rl_recv = HTTPStream, rl_eof = [LeaveLoop], rl_err = [ReturnErr AsIs], rl_send_err = [ReturnErr Zara]\<rparr>"

definition up_relay :: gw_relay where
  "up_relay = \<lparr>rl_recv = HTTPStream, rl_eof = [CloseSendStmt, PostNil, EndGoroutine], rl_err = [PostErr AsIs, EndGoroutine],
     rl_send_err = [PostErr Zara, EndGoroutine]\<rparr>"

definition down_relay :: gw_relay where
  "down_relay = \<lparr>rl_recv = GRPCStream, rl_eof = [PostNil, EndGoroutine], rl_err = [PostErr Zara, EndGoroutine],
     rl_send_err = [PostErr AsIs, EndGoroutine]\<rparr>"

definition gateway_program :: "pmethod \<Rightarrow> gw_body" where
  "gateway_program m =
     (if streamMode m = ''server'' then ServerBody server_relay
      else if streamMode m = ''client'' then ClientBody client_relay
      else if streamMode m = ''bidi'' then BidiBody up_relay down_relay
      else UnaryBody)"

section \<open>Printing\<close>

definition show_err :: "qualifier \<Rightarrow> gw_conv \<Rightarrow> string" where
  "show_err Q c = (case c of AsIs \<Rightarrow> ''err'' | Zara \<Rightarrow> sym Q ''FromGRPCStatus'' @ ''(err)'')"

definition show_gw :: "qualifier \<Rightarrow> string \<Rightarrow> gw_stmt \<Rightarrow> string" where
  \<comment> \<open>\<open>z\<close> is the zero response a method with two results returns\<close>
  "show_gw Q z s =
     (case s of
        ReturnNil \<Rightarrow> ''return nil''
      | ReturnErr c \<Rightarrow> ''return '' @ z @ show_err Q c
      | LeaveLoop \<Rightarrow> ''break''
      | CloseSendStmt \<Rightarrow> ''clientStream.CloseSend()''
      | PostNil \<Rightarrow> ''errCh <- nil''
      | PostErr c \<Rightarrow> ''errCh <- '' @ show_err Q c
      | EndGoroutine \<Rightarrow> ''return'')"

definition show_relay :: "qualifier \<Rightarrow> string \<Rightarrow> gw_relay \<Rightarrow> lines" where
  "show_relay Q z R =
     [''for {'',
      ''msg, err := '' @ (case rl_recv R of HTTPStream \<Rightarrow> ''stream.Receive()'' | GRPCStream \<Rightarrow> ''clientStream.Recv()''),
      ''if err == '' @ q Q ioImport ''EOF'' @ '' {''] @ map (show_gw Q z) (rl_eof R) @
     [''}'', ''if err != nil {''] @ map (show_gw Q z) (rl_err R) @
     [''}'', ''if err := '' @ (case rl_recv R of HTTPStream \<Rightarrow> ''clientStream'' | GRPCStream \<Rightarrow> ''stream'') @ ''.Send(msg); err != nil {''] @
     map (show_gw Q z) (rl_send_err R) @ [''}'', ''}'']"

definition show_body :: "qualifier \<Rightarrow> pmethod \<Rightarrow> gw_body \<Rightarrow> lines" where
  \<comment> \<open>from the call of the gRPC client on\<close>
  "show_body Q m b =
     (let open = (\<lambda>args z. [''clientStream, err := g.client.'' @ pd_GoName m @ args, ''if err != nil {'',
                    ''return '' @ z @ show_err Q Zara, ''}'']);
          answer = (\<lambda>call. [''resp, err := '' @ call, ''if err != nil {'', ''return nil, '' @ show_err Q Zara, ''}'',
                      ''return resp, nil''])
      in case b of
           UnaryBody \<Rightarrow> answer (''g.client.'' @ pd_GoName m @ ''(gctx, req)'')
         | ServerBody R \<Rightarrow> open ''(gctx, req)'' [] @ show_relay Q [] R
         | ClientBody R \<Rightarrow> open ''(gctx)'' ''nil, '' @ show_relay Q ''nil, '' R @ answer ''clientStream.CloseAndRecv()''
         | BidiBody U D \<Rightarrow>
             open ''(gctx)'' [] @ [''errCh := make(chan error, 2)''] @
             [''go func() {''] @ show_relay Q [] U @ [''}()''] @ [''go func() {''] @ show_relay Q [] D @ [''}()''] @
             [''var firstErr error'',
              ''for i := 0; i < 2; i++ {'',
              ''if err := <-errCh; err != nil && firstErr == nil {'',
              ''firstErr = err'',
              ''}'',
              ''}'',
              ''return firstErr''])"

definition gateway_head :: "qualifier \<Rightarrow> messages \<Rightarrow> pmethod \<Rightarrow> string \<Rightarrow> string \<Rightarrow> string" where
  "gateway_head Q M m adapter ctxType =
     ''func (g *'' @ adapter @ '') '' @ pd_GoName m @ ''(ctx '' @ ctxType @ '', '' @
     (case gateway_program m of
        UnaryBody \<Rightarrow> ''req *'' @ inputType Q M m @ '') (*'' @ outputType Q M m @ '', error) {''
      | ServerBody _ \<Rightarrow> ''req *'' @ inputType Q M m @ '', stream '' @ sym Q ''ServerStream'' @ ''[*'' @ outputType Q M m @ '']) error {''
      | ClientBody _ \<Rightarrow> ''stream '' @ sym Q ''ClientStream'' @ ''[*'' @ inputType Q M m @ '']) (*'' @ outputType Q M m @ '', error) {''
      | BidiBody _ _ \<Rightarrow> ''stream '' @ sym Q ''BidiStream'' @ ''[*'' @ inputType Q M m @ '', *'' @ outputType Q M m @ '']) error {'')"

text \<open>
  What the generator prints for a method is the program of its stream mode, below the method's head and the lines that
  hand the headers on.
\<close>

lemma gateway_shows:
  "generateGatewayMethod Q M m adapter ctxType =
     gateway_head Q M m adapter ctxType # forwardHeaders Q @ show_body Q m (gateway_program m) @ [''}'', []]"
  by (simp add: generateGatewayMethod_def gateway_head_def gateway_program_def show_body_def show_relay_def show_gw_def show_err_def
      server_relay_def client_relay_def up_relay_def down_relay_def Let_def)


section \<open>One loop\<close>

datatype ('m, 'd) gw_pc =
    AtRecv
  | AtSend 'm
  | Exec "gw_stmt list" "'d goerror" \<comment> \<open>the statements of a branch that are left, and \<open>err\<close>\<close>
  | LeftLoop
  | Returned "'d goerror option"
  | Ended

datatype ('m, 'd) gw_event =
    Got 'm
  | GotError "'d goerror"
  | Gave 'm
  | NotGiven 'm "'d goerror"
  | SendClosed
  | Posted "'d goerror option"
  | Quiet

definition convert_err :: "gw_conv \<Rightarrow> 'd goerror \<Rightarrow> 'd goerror" where
  "convert_err c e = (case c of AsIs \<Rightarrow> e | Zara \<Rightarrow> the (FromGRPCStatus (Some e)))"

definition on_error :: "gw_relay \<Rightarrow> 'd goerror \<Rightarrow> gw_stmt list" where
  \<comment> \<open>what a receive that fails leads to: both conditionals are asked, one after the other\<close>
  "on_error R e = (if e = EOF then rl_eof R else []) @ rl_err R"

type_synonym ('w, 'm, 'd) gw_recv = "'w \<Rightarrow> ('d goerror + 'm) \<Rightarrow> 'w \<Rightarrow> bool"
type_synonym ('w, 'm, 'd) gw_send = "'m \<Rightarrow> 'w \<Rightarrow> 'd goerror option \<Rightarrow> 'w \<Rightarrow> bool"

text \<open>A step of the goroutine that runs the loop, on its own state, the channel \<open>errCh\<close> of two places, and the world.\<close>

inductive relay_step ::
    "gw_relay \<Rightarrow> ('w, 'm, 'd) gw_recv \<Rightarrow> ('w, 'm, 'd) gw_send \<Rightarrow> ('w \<Rightarrow> 'w \<Rightarrow> bool)
     \<Rightarrow> ('m, 'd) gw_pc \<times> 'd goerror option list \<times> 'w \<Rightarrow> ('m, 'd) gw_event
     \<Rightarrow> ('m, 'd) gw_pc \<times> 'd goerror option list \<times> 'w \<Rightarrow> bool"
  for R recv send closeSend where
  got: "recv w (Inr m) w' \<Longrightarrow> relay_step R recv send closeSend (AtRecv, ch, w) (Got m) (AtSend m, ch, w')"
| got_error: "recv w (Inl e) w' \<Longrightarrow>
    relay_step R recv send closeSend (AtRecv, ch, w) (GotError e) (Exec (on_error R e) e, ch, w')"
| gave: "send m w None w' \<Longrightarrow> relay_step R recv send closeSend (AtSend m, ch, w) (Gave m) (AtRecv, ch, w')"
| not_given: "send m w (Some e) w' \<Longrightarrow>
    relay_step R recv send closeSend (AtSend m, ch, w) (NotGiven m e) (Exec (rl_send_err R) e, ch, w')"
| close_send: "closeSend w w' \<Longrightarrow>
    relay_step R recv send closeSend (Exec (CloseSendStmt # ss) e, ch, w) SendClosed (Exec ss e, ch, w')"
| post_nil: "length ch < 2 \<Longrightarrow>
    relay_step R recv send closeSend (Exec (PostNil # ss) e, ch, w) (Posted None) (Exec ss e, ch @ [None], w)"
| post_err: "length ch < 2 \<Longrightarrow>
    relay_step R recv send closeSend (Exec (PostErr c # ss) e, ch, w) (Posted (Some (convert_err c e)))
      (Exec ss e, ch @ [Some (convert_err c e)], w)"
| return_nil: "relay_step R recv send closeSend (Exec (ReturnNil # ss) e, ch, w) Quiet (Returned None, ch, w)"
| return_err: "relay_step R recv send closeSend (Exec (ReturnErr c # ss) e, ch, w) Quiet (Returned (Some (convert_err c e)), ch, w)"
| leave_loop: "relay_step R recv send closeSend (Exec (LeaveLoop # ss) e, ch, w) Quiet (LeftLoop, ch, w)"
| end_goroutine: "relay_step R recv send closeSend (Exec (EndGoroutine # ss) e, ch, w) Quiet (Ended, ch, w)"

inductive_cases relay_recvE: "relay_step R recv send closeSend (AtRecv, ch, w) ev s"
inductive_cases relay_sendE: "relay_step R recv send closeSend (AtSend m, ch, w) ev s"
inductive_cases relay_execE: "relay_step R recv send closeSend (Exec ss e, ch, w) ev s"
inductive_cases relay_leftE: "relay_step R recv send closeSend (LeftLoop, ch, w) ev s"
inductive_cases relay_returnedE: "relay_step R recv send closeSend (Returned x, ch, w) ev s"
inductive_cases relay_endedE: "relay_step R recv send closeSend (Ended, ch, w) ev s"

lemmas relay_halted = relay_leftE relay_returnedE relay_endedE

text \<open>What a goroutine has past determines where it is: the messages it passed on, then what ended the loop, then the
  statements of that branch.\<close>

definition echo :: "'m list \<Rightarrow> ('m, 'd) gw_event list" where
  "echo ms = concat (map (\<lambda>m. [Got m, Gave m]) ms)"

lemma echo_simps [simp]: "echo [] = []" "echo (ms @ [m]) = echo ms @ [Got m, Gave m]"
  by (simp_all add: echo_def)

fun handling :: "gw_stmt list \<Rightarrow> 'd goerror \<Rightarrow> ('m, 'd) gw_event list" where
  \<comment> \<open>the events of a branch\<close>
  "handling (CloseSendStmt # ss) e = SendClosed # handling ss e"
| "handling (PostNil # ss) e = Posted None # handling ss e"
| "handling (PostErr c # ss) e = Posted (Some (convert_err c e)) # handling ss e"
| "handling (_ # ss) e = [Quiet]"
| "handling [] e = []"

fun finish :: "gw_stmt list \<Rightarrow> 'd goerror \<Rightarrow> ('m, 'd) gw_pc" where
  \<comment> \<open>where a branch leads\<close>
  "finish (ReturnNil # ss) e = Returned None"
| "finish (ReturnErr c # ss) e = Returned (Some (convert_err c e))"
| "finish (LeaveLoop # ss) e = LeftLoop"
| "finish (EndGoroutine # ss) e = Ended"
| "finish (_ # ss) e = finish ss e"
| "finish [] e = Exec [] e"

inductive branch :: "gw_relay \<Rightarrow> ('m, 'd) gw_event list \<Rightarrow> gw_stmt list \<Rightarrow> 'd goerror \<Rightarrow> bool" for R where
  \<comment> \<open>how the loop is left: the last events, the statements of the branch, and \<open>err\<close>\<close>
  on_recv: "branch R [GotError e] (on_error R e) e"
| on_send: "branch R [Got m, NotGiven m e] (rl_send_err R) e"

definition relay_at :: "gw_relay \<Rightarrow> ('m, 'd) gw_event list \<Rightarrow> ('m, 'd) gw_pc \<Rightarrow> bool" where
  "relay_at R tr pc =
     (case pc of
        AtRecv \<Rightarrow> \<exists>ms. tr = echo ms
      | AtSend m \<Rightarrow> \<exists>ms. tr = echo ms @ [Got m]
      | Exec ss e \<Rightarrow> \<exists>ms final br past. tr = echo ms @ final @ past \<and> branch R final br e \<and> br \<noteq> [] \<and>
          handling br e = past @ handling ss e \<and> finish br e = (finish ss e :: ('m, 'd) gw_pc)
      | _ \<Rightarrow> \<exists>ms final br e. tr = echo ms @ final @ handling br e \<and> branch R final br e \<and> finish br e = pc)"

lemma relay_at_start: "relay_at R [] AtRecv"
  unfolding relay_at_def by (auto intro: exI [of _ "[]"])

lemma relay_exec:
  fixes pc :: "('m, 'd) gw_pc"
  assumes "relay_step R recv send closeSend (Exec ss e, ch, w) ev (pc, ch', w')"
  shows "(\<exists>ss'. pc = Exec ss' e \<and> handling ss e = ev # handling ss' e \<and> finish ss e = (finish ss' e :: ('m, 'd) gw_pc)) \<or>
    (pc \<in> {LeftLoop, Ended} \<union> range Returned \<and> handling ss e = [ev] \<and> finish ss e = pc)"
  using assms by (elim relay_execE) auto

lemma relay_at_branch:
  assumes "branch R final br e" "br \<noteq> []"
  shows "relay_at R (echo ms @ final) (Exec br e)"
  unfolding relay_at_def gw_pc.case using assms by (intro exI [of _ ms] exI [of _ final] exI [of _ br] exI [of _ "[]"]) simp

lemma relay_at_exec:
  fixes pc :: "('m, 'd) gw_pc"
  assumes "relay_at R tr (Exec ss e :: ('m, 'd) gw_pc)" "relay_step R recv send closeSend (Exec ss e, ch, w) ev (pc, ch', w')"
  shows "relay_at R (tr @ [ev]) pc"
proof -
  from assms(1) obtain ms final br past where tr: "tr = echo ms @ final @ past" and br: "branch R final br e" "br \<noteq> []"
    and rest: "handling br e = past @ handling ss e" "finish br e = (finish ss e :: ('m, 'd) gw_pc)"
    unfolding relay_at_def gw_pc.case by blast
  from relay_exec [OF assms(2)] show ?thesis
  proof (elim disjE exE conjE)
    fix ss' assume "pc = Exec ss' e" "handling ss e = ev # handling ss' e" "finish ss e = (finish ss' e :: ('m, 'd) gw_pc)"
    with tr br rest show ?thesis
      unfolding relay_at_def \<open>pc = _\<close> gw_pc.case
      by (intro exI [of _ ms] exI [of _ final] exI [of _ br] exI [of _ "past @ [ev]"]) simp
  next
    assume "pc \<in> {LeftLoop, Ended} \<union> range Returned" "handling ss e = [ev]" "finish ss e = pc"
    with tr br rest show ?thesis
      unfolding relay_at_def by (auto intro!: exI [of _ ms] exI [of _ final] exI [of _ br] exI [of _ e])
  qed
qed

lemma relay_at_step:
  assumes "relay_step R recv send closeSend (pc, ch, w) ev (pc', ch', w')" "relay_at R tr pc"
    and "rl_err R \<noteq> []" "rl_send_err R \<noteq> []"
  shows "relay_at R (tr @ [ev]) pc'"
  using assms(1)
proof (cases rule: relay_step.cases)
  case (got m)
  with assms(2) show ?thesis by (auto simp: relay_at_def)
next
  case (got_error e)
  with assms(2) obtain ms where "tr = echo ms" by (auto simp: relay_at_def)
  with got_error assms(3) show ?thesis
    using relay_at_branch [OF branch.on_recv [of R e], of ms] by (simp add: on_error_def)
next
  case (gave m)
  with assms(2) obtain ms where "tr = echo ms @ [Got m]" by (auto simp: relay_at_def)
  with gave have "tr @ [ev] = echo (ms @ [m])" by simp
  then have "relay_at R (tr @ [ev]) AtRecv" unfolding relay_at_def gw_pc.case by blast
  with gave show ?thesis by simp
next
  case (not_given m e)
  with assms(2) obtain ms where "tr = echo ms @ [Got m]" by (auto simp: relay_at_def)
  with not_given assms(4) show ?thesis using relay_at_branch [OF branch.on_send [of R m e], of ms] by simp
qed (use assms(1,2) in \<open>auto intro: relay_at_exec\<close>)


section \<open>The methods\<close>

record ('c, 'q, 'r, 'd, 'w) gw_streams =
  gw_Receive :: "('w, 'q, 'd) gw_recv" \<comment> \<open>\<open>stream.Receive\<close>\<close>
  gw_Send :: "('w, 'r, 'd) gw_send" \<comment> \<open>\<open>stream.Send\<close>\<close>
  gw_Recv :: "('w, 'r, 'd) gw_recv" \<comment> \<open>\<open>clientStream.Recv\<close>\<close>
  gw_ClientSend :: "('w, 'q, 'd) gw_send" \<comment> \<open>\<open>clientStream.Send\<close>\<close>
  gw_CloseSend :: "'w \<Rightarrow> 'w \<Rightarrow> bool"
  gw_CloseAndRecv :: "('w, 'r, 'd) gw_recv"
  gw_Open :: "'c Context \<Rightarrow> 'q option \<Rightarrow> 'w \<Rightarrow> 'd goerror option \<Rightarrow> 'w \<Rightarrow> bool" \<comment> \<open>the client's method, with the request in server mode\<close>
  gw_Invoke :: "'c Context \<Rightarrow> 'q \<Rightarrow> ('w, 'r, 'd) gw_recv" \<comment> \<open>the client's method of a unary call\<close>

definition outgoing :: "('c Context \<Rightarrow> string list \<Rightarrow> 'c Context) \<Rightarrow> ('c, 'm) Ctx \<Rightarrow> 'c Context" where
  \<comment> \<open>\<open>gctx\<close>; \<open>attach\<close> is \<open>metadata.AppendToOutgoingContext\<close>\<close>
  "outgoing attach ctx =
     (let pairs = HeaderPairsFromMeta (Ctx_Meta ctx)
      in if length (case pairs of None \<Rightarrow> [] | Some ps \<Rightarrow> ps) > 0 then attach (Ctx_Context ctx) (the pairs) else Ctx_Context ctx)"

inductive unary_method :: "('c, 'q, 'r, 'd, 'w) gw_streams \<Rightarrow> ('c Context \<Rightarrow> string list \<Rightarrow> 'c Context) \<Rightarrow> ('c, 'm) Ctx \<Rightarrow> 'q
    \<Rightarrow> 'w \<Rightarrow> 'd goerror + 'r \<Rightarrow> 'w \<Rightarrow> bool" for S attach ctx req where
  invoke_fails: "gw_Invoke S (outgoing attach ctx) req w (Inl e) w' \<Longrightarrow>
    unary_method S attach ctx req w (Inl (convert_err Zara e)) w'"
| invoked: "gw_Invoke S (outgoing attach ctx) req w (Inr resp) w' \<Longrightarrow> unary_method S attach ctx req w (Inr resp) w'"

inductive relay_run ::
    "gw_relay \<Rightarrow> ('w, 'm, 'd) gw_recv \<Rightarrow> ('w, 'm, 'd) gw_send \<Rightarrow> ('w \<Rightarrow> 'w \<Rightarrow> bool) \<Rightarrow> 'w \<Rightarrow> ('m, 'd) gw_event list
     \<Rightarrow> ('m, 'd) gw_pc \<times> 'd goerror option list \<times> 'w \<Rightarrow> bool"
  for R recv send closeSend w where
  run_start: "relay_run R recv send closeSend w [] (AtRecv, [], w)"
| run_step: "relay_run R recv send closeSend w tr s \<Longrightarrow> relay_step R recv send closeSend s ev s' \<Longrightarrow>
    relay_run R recv send closeSend w (tr @ [ev]) s'"

inductive server_method :: "('c, 'q, 'r, 'd, 'w) gw_streams \<Rightarrow> ('c Context \<Rightarrow> string list \<Rightarrow> 'c Context) \<Rightarrow> ('c, 'm) Ctx \<Rightarrow> 'q
    \<Rightarrow> 'w \<Rightarrow> ('r, 'd) gw_event list \<Rightarrow> 'd goerror option \<Rightarrow> 'w \<Rightarrow> bool" for S attach ctx req w where
  server_open_fails: "gw_Open S (outgoing attach ctx) (Some req) w (Some e) w' \<Longrightarrow>
    server_method S attach ctx req w [] (Some (convert_err Zara e)) w'"
| server_relayed: "gw_Open S (outgoing attach ctx) (Some req) w None w1 \<Longrightarrow>
    relay_run server_relay (gw_Recv S) (gw_Send S) (gw_CloseSend S) w1 tr (Returned r, ch, w') \<Longrightarrow>
    server_method S attach ctx req w tr r w'"

inductive client_method :: "('c, 'q, 'r, 'd, 'w) gw_streams \<Rightarrow> ('c Context \<Rightarrow> string list \<Rightarrow> 'c Context) \<Rightarrow> ('c, 'm) Ctx
    \<Rightarrow> 'w \<Rightarrow> ('q, 'd) gw_event list \<Rightarrow> 'd goerror + 'r \<Rightarrow> 'w \<Rightarrow> bool" for S attach ctx w where
  client_open_fails: "gw_Open S (outgoing attach ctx) None w (Some e) w' \<Longrightarrow>
    client_method S attach ctx w [] (Inl (convert_err Zara e)) w'"
| client_failed: "gw_Open S (outgoing attach ctx) None w None w1 \<Longrightarrow>
    relay_run client_relay (gw_Receive S) (gw_ClientSend S) (gw_CloseSend S) w1 tr (Returned (Some e), ch, w') \<Longrightarrow>
    client_method S attach ctx w tr (Inl e) w'"
| client_answered: "gw_Open S (outgoing attach ctx) None w None w1 \<Longrightarrow>
    relay_run client_relay (gw_Receive S) (gw_ClientSend S) (gw_CloseSend S) w1 tr (LeftLoop, ch, w2) \<Longrightarrow>
    gw_CloseAndRecv S w2 res w' \<Longrightarrow> client_method S attach ctx w tr (map_sum (convert_err Zara) id res) w'"

lemma relay_run_at:
  assumes "relay_run R recv send closeSend w tr s" "rl_err R \<noteq> []" "rl_send_err R \<noteq> []"
  shows "relay_at R tr (fst s)"
  using assms
proof (induction rule: relay_run.induct)
  case (run_step tr s ev s')
  then show ?case
    by (cases s; cases s') (auto intro: relay_at_step)
qed (simp add: relay_at_start)

lemma branch_iff: "branch R tr br e \<longleftrightarrow> (tr = [GotError e] \<and> br = on_error R e) \<or> (\<exists>m. tr = [Got m, NotGiven m e] \<and> br = rl_send_err R)"
  by (auto elim: branch.cases intro: branch.intros)

lemma server_returned:
  "relay_at server_relay tr (Returned r) \<Longrightarrow>
   (\<exists>ms. (tr = echo ms @ [GotError EOF, Quiet] \<and> r = None) \<or>
      (\<exists>e. e \<noteq> EOF \<and> tr = echo ms @ [GotError e, Quiet] \<and> r = Some (convert_err Zara e)) \<or>
      (\<exists>m e. tr = echo ms @ [Got m, NotGiven m e, Quiet] \<and> r = Some e))"
  unfolding relay_at_def gw_pc.case branch_iff
  by (auto simp: server_relay_def on_error_def convert_err_def split: if_splits)

lemma client_returned:
  "relay_at client_relay tr (Returned r) \<Longrightarrow>
   (\<exists>ms. (\<exists>e. e \<noteq> EOF \<and> tr = echo ms @ [GotError e, Quiet] \<and> r = Some e) \<or>
      (\<exists>m e. tr = echo ms @ [Got m, NotGiven m e, Quiet] \<and> r = Some (convert_err Zara e)))"
  unfolding relay_at_def gw_pc.case branch_iff
  by (auto simp: client_relay_def on_error_def convert_err_def split: if_splits)

lemma client_left: "relay_at client_relay tr LeftLoop \<Longrightarrow> (\<exists>ms. tr = echo ms @ [GotError EOF, Quiet])"
  unfolding relay_at_def gw_pc.case branch_iff
  by (auto simp: client_relay_def on_error_def convert_err_def split: if_splits)

text \<open>
  A server stream through the gateway passes every message on, once and in the order it came. It returns without an
  error only if the gRPC server ended the stream properly and every message was passed on; an error of the gRPC side is
  converted, an error of the HTTP side is returned as it is, and at most the message whose sending failed is lost.
\<close>

theorem gateway_server_stream:
  assumes "server_method S attach ctx req w tr r w'"
  shows "(tr = [] \<and> (\<exists>e. gw_Open S (outgoing attach ctx) (Some req) w (Some e) w' \<and> r = Some (convert_err Zara e))) \<or>
    (\<exists>ms. (tr = echo ms @ [GotError EOF, Quiet] \<and> r = None) \<or>
       (\<exists>e. e \<noteq> EOF \<and> tr = echo ms @ [GotError e, Quiet] \<and> r = Some (convert_err Zara e)) \<or>
       (\<exists>m e. tr = echo ms @ [Got m, NotGiven m e, Quiet] \<and> r = Some e))"
  using assms
proof (cases rule: server_method.cases)
  case (server_relayed w1 ch)
  have "relay_at server_relay tr (Returned r)"
    using relay_run_at [OF server_relayed(2)] by (simp add: server_relay_def)
  then show ?thesis by (intro disjI2 server_returned)
qed blast

text \<open>
  C22. A client stream through the gateway passes every message on, once and in the order it came, and asks for the
  response only after the caller ended the stream and everything was passed on. If the gRPC server answers early, the next
  message meets \<open>io.EOF\<close>, and the caller gets that, an error without a code, in place of the server's answer.
\<close>

theorem gateway_client_stream:
  assumes "client_method S attach ctx w tr r w'"
  shows "(tr = [] \<and> (\<exists>e. gw_Open S (outgoing attach ctx) None w (Some e) w' \<and> r = Inl (convert_err Zara e))) \<or>
    (\<exists>ms. (\<exists>w2 res. tr = echo ms @ [GotError EOF, Quiet] \<and> gw_CloseAndRecv S w2 res w' \<and> r = map_sum (convert_err Zara) id res) \<or>
       (\<exists>e. e \<noteq> EOF \<and> tr = echo ms @ [GotError e, Quiet] \<and> r = Inl e) \<or>
       (\<exists>m. tr = echo ms @ [Got m, NotGiven m EOF, Quiet] \<and> r = Inl EOF \<and> status_Code (Some (EOF :: 'd goerror)) = CodeUnknown) \<or>
       (\<exists>m e. e \<noteq> EOF \<and> tr = echo ms @ [Got m, NotGiven m e, Quiet] \<and> r = Inl (convert_err Zara e)))"
  using assms
proof (cases rule: client_method.cases)
  case (client_failed w1 e ch)
  have "relay_at client_relay tr (Returned (Some e))"
    using relay_run_at [OF client_failed(3)] by (simp add: client_relay_def)
  from client_returned [OF this] obtain ms where
    "(\<exists>e'. e' \<noteq> EOF \<and> tr = echo ms @ [GotError e', Quiet] \<and> e = e') \<or>
     (\<exists>m e'. tr = echo ms @ [Got m, NotGiven m e', Quiet] \<and> e = convert_err Zara e')" by auto
  then show ?thesis unfolding client_failed(1)
    by (elim disjE exE conjE) (rule disjI2, rule exI [of _ ms], auto simp: convert_err_def FromGRPCStatus_def status_Code_def)+
next
  case (client_answered w1 ch w2 res)
  have "relay_at client_relay tr LeftLoop"
    using relay_run_at [OF client_answered(3)] by (simp add: client_relay_def)
  from client_left [OF this] client_answered show ?thesis by blast
qed blast

section \<open>Both directions at once\<close>

record ('q, 'r, 'd, 'w) gw_bidi =
  bi_up :: "('q, 'd) gw_pc" \<comment> \<open>the goroutine from the caller to the gRPC server\<close>
  bi_down :: "('r, 'd) gw_pc"
  bi_ch :: "'d goerror option list" \<comment> \<open>\<open>errCh\<close>\<close>
  bi_i :: nat
  bi_first :: "'d goerror option" \<comment> \<open>\<open>firstErr\<close>\<close>
  bi_ret :: "'d goerror option option" \<comment> \<open>what the method returned, when it has\<close>
  bi_world :: 'w

datatype ('q, 'r, 'd) bi_event =
    UpDo "('q, 'd) gw_event"
  | DownDo "('r, 'd) gw_event"
  | Took "'d goerror option"
  | BiReturns "'d goerror option"

inductive bidi_step :: "('c, 'q, 'r, 'd, 'w) gw_streams \<Rightarrow> ('q, 'r, 'd, 'w) gw_bidi \<Rightarrow> ('q, 'r, 'd) bi_event
    \<Rightarrow> ('q, 'r, 'd, 'w) gw_bidi \<Rightarrow> bool" for S where
  up: "relay_step up_relay (gw_Receive S) (gw_ClientSend S) (gw_CloseSend S) (bi_up s, bi_ch s, bi_world s) ev (pc, ch, w) \<Longrightarrow>
    bidi_step S s (UpDo ev) (s\<lparr>bi_up := pc, bi_ch := ch, bi_world := w\<rparr>)"
| down: "relay_step down_relay (gw_Recv S) (gw_Send S) (gw_CloseSend S) (bi_down s, bi_ch s, bi_world s) ev (pc, ch, w) \<Longrightarrow>
    bidi_step S s (DownDo ev) (s\<lparr>bi_down := pc, bi_ch := ch, bi_world := w\<rparr>)"
| take: "bi_i s < 2 \<Longrightarrow> bi_ch s = x # ch \<Longrightarrow>
    bidi_step S s (Took x) (s\<lparr>bi_ch := ch, bi_i := Suc (bi_i s),
      bi_first := (if x \<noteq> None \<and> bi_first s = None then x else bi_first s)\<rparr>)"
| ret: "\<not> bi_i s < 2 \<Longrightarrow> bi_ret s = None \<Longrightarrow> bidi_step S s (BiReturns (bi_first s)) (s\<lparr>bi_ret := Some (bi_first s)\<rparr>)"

definition bidi_start :: "'w \<Rightarrow> ('q, 'r, 'd, 'w) gw_bidi" where
  \<comment> \<open>after the stream is open\<close>
  "bidi_start w = \<lparr>bi_up = AtRecv, bi_down = AtRecv, bi_ch = [], bi_i = 0, bi_first = None, bi_ret = None, bi_world = w\<rparr>"

inductive bidi_run :: "('c, 'q, 'r, 'd, 'w) gw_streams \<Rightarrow> 'w \<Rightarrow> ('q, 'r, 'd) bi_event list \<Rightarrow> ('q, 'r, 'd, 'w) gw_bidi \<Rightarrow> bool"
  for S w where
  bi_start: "bidi_run S w [] (bidi_start w)"
| bi_step: "bidi_run S w tr s \<Longrightarrow> bidi_step S s ev s' \<Longrightarrow> bidi_run S w (tr @ [ev]) s'"

inductive bidi_method :: "('c, 'q, 'r, 'd, 'w) gw_streams \<Rightarrow> ('c Context \<Rightarrow> string list \<Rightarrow> 'c Context) \<Rightarrow> ('c, 'm) Ctx
    \<Rightarrow> 'w \<Rightarrow> ('q, 'r, 'd) bi_event list \<Rightarrow> 'd goerror option \<Rightarrow> 'w \<Rightarrow> bool" for S attach ctx w where
  bidi_open_fails: "gw_Open S (outgoing attach ctx) None w (Some e) w' \<Longrightarrow>
    bidi_method S attach ctx w [] (Some (convert_err Zara e)) w'"
| bidi_returns: "gw_Open S (outgoing attach ctx) None w None w1 \<Longrightarrow> bidi_run S w1 tr s \<Longrightarrow> bi_ret s = Some r \<Longrightarrow>
    bidi_method S attach ctx w tr r (bi_world s)"


definition ups :: "('q, 'r, 'd) bi_event list \<Rightarrow> ('q, 'd) gw_event list" where
  "ups tr = List.map_filter (\<lambda>ev. case ev of UpDo e \<Rightarrow> Some e | _ \<Rightarrow> None) tr"

definition downs :: "('q, 'r, 'd) bi_event list \<Rightarrow> ('r, 'd) gw_event list" where
  "downs tr = List.map_filter (\<lambda>ev. case ev of DownDo e \<Rightarrow> Some e | _ \<Rightarrow> None) tr"

definition posted :: "('m, 'd) gw_event list \<Rightarrow> 'd goerror option list" where
  "posted tr = List.map_filter (\<lambda>ev. case ev of Posted x \<Rightarrow> Some x | _ \<Rightarrow> None) tr"

definition posts :: "('q, 'r, 'd) bi_event list \<Rightarrow> 'd goerror option list" where
  \<comment> \<open>what both goroutines posted, in that order\<close>
  "posts tr = List.map_filter (\<lambda>ev. case ev of UpDo (Posted x) \<Rightarrow> Some x | DownDo (Posted x) \<Rightarrow> Some x | _ \<Rightarrow> None) tr"

definition took :: "('q, 'r, 'd) bi_event list \<Rightarrow> 'd goerror option list" where
  "took tr = List.map_filter (\<lambda>ev. case ev of Took x \<Rightarrow> Some x | _ \<Rightarrow> None) tr"

fun first_failure :: "'d goerror option list \<Rightarrow> 'd goerror option" where
  "first_failure [] = None"
| "first_failure (Some e # xs) = Some e"
| "first_failure (None # xs) = first_failure xs"

definition observable :: "('m, 'd) gw_event list \<Rightarrow> ('m, 'd) gw_event list" where
  "observable tr = filter (\<lambda>ev. ev \<noteq> Quiet) tr"

lemma project_simps [simp]:
  "ups [] = []" "downs [] = []" "posts [] = []" "took [] = []"
  "ups (tr @ [ev]) = ups tr @ (case ev of UpDo e \<Rightarrow> [e] | _ \<Rightarrow> [])"
  "downs (tr @ [ev]) = downs tr @ (case ev of DownDo e \<Rightarrow> [e] | _ \<Rightarrow> [])"
  "posts (tr @ [ev]) = posts tr @ (case ev of UpDo (Posted x) \<Rightarrow> [x] | DownDo (Posted x) \<Rightarrow> [x] | _ \<Rightarrow> [])"
  "took (tr @ [ev]) = took tr @ (case ev of Took x \<Rightarrow> [x] | _ \<Rightarrow> [])"
  by (auto simp: ups_def downs_def posts_def took_def map_filter_def split: bi_event.splits gw_event.splits)

lemma posted_simps [simp]:
  "posted [] = []" "posted (tr @ tr') = posted tr @ posted tr'"
  "posted (ev # tr) = (case ev of Posted x \<Rightarrow> [x] | _ \<Rightarrow> []) @ posted tr"
  by (auto simp: posted_def map_filter_def split: gw_event.splits)

lemma observable_simps [simp]:
  "observable [] = []" "observable (tr @ tr') = observable tr @ observable tr'"
  "observable (ev # tr) = (if ev = Quiet then [] else [ev]) @ observable tr"
  by (auto simp: observable_def)

lemma echo_quiet [simp]: "observable (echo ms) = echo ms" "posted (echo ms) = []"
  by (induction ms rule: rev_induct) auto

lemma first_failure_snoc: "first_failure (xs @ [x]) = (if x \<noteq> None \<and> first_failure xs = None then x else first_failure xs)"
  by (induction xs rule: first_failure.induct) (cases x; simp)+

text \<open>How each goroutine ends, and what it posts.\<close>

inductive up_end :: "('q, 'd) gw_event list \<Rightarrow> 'd goerror option \<Rightarrow> bool" where
  up_eof: "up_end [GotError EOF, SendClosed, Posted None] None"
| up_failed: "e \<noteq> EOF \<Longrightarrow> up_end [GotError e, Posted (Some e)] (Some e)"
| up_not_given: "up_end [Got m, NotGiven m e, Posted (Some (convert_err Zara e))] (Some (convert_err Zara e))"

inductive down_end :: "('r, 'd) gw_event list \<Rightarrow> 'd goerror option \<Rightarrow> bool" where
  down_eof: "down_end [GotError EOF, Posted None] None"
| down_failed: "e \<noteq> EOF \<Longrightarrow> down_end [GotError e, Posted (Some (convert_err Zara e))] (Some (convert_err Zara e))"
| down_not_given: "down_end [Got m, NotGiven m e, Posted (Some e)] (Some e)"

definition at_end :: "('m, 'd) gw_pc \<Rightarrow> bool" where
  \<comment> \<open>the goroutine has nothing left to do but to end\<close>
  "at_end pc = (pc = Ended \<or> (\<exists>ss e. pc = Exec (EndGoroutine # ss) e))"

lemma handling_end:
  "handling ss e = [Quiet] \<Longrightarrow> finish ss e = (Ended :: ('m, 'd) gw_pc) \<Longrightarrow> \<exists>ss'. ss = EndGoroutine # ss'"
  by (induction ss e rule: handling.induct) auto

lemma handling_Nil: "handling ss e = [] \<Longrightarrow> ss = []"
  by (induction ss e rule: handling.induct) auto

lemma relay_progress:
  \<comment> \<open>a branch that ends the goroutine and posts one thing, at its end but for the closing of the sender\<close>
  fixes pre past :: "('m, 'd) gw_event list"
  assumes "handling br e = pre @ [Posted x, Quiet]" "finish br e = (Ended :: ('m, 'd) gw_pc)" "posted pre = []"
    and "handling br e = past @ handling ss e" "finish br e = (finish ss e :: ('m, 'd) gw_pc)"
  shows "(posted past = [] \<and> Posted x \<in> set (handling ss e :: ('m, 'd) gw_event list)) \<or>
    (posted past = [x] \<and> observable past = observable pre @ [Posted x] \<and> (\<exists>ss'. ss = EndGoroutine # ss'))"
proof -
  from assms(1,4) have "past @ handling ss e = pre @ [Posted x, Quiet]" by simp
  then consider (before) us where "past @ us = pre" "handling ss e = us @ [Posted x, Quiet]"
    | (posted) "past = pre @ [Posted x]" "handling ss e = ([Quiet] :: ('m, 'd) gw_event list)"
    | (all) "past = pre @ [Posted x, Quiet]" "handling ss e = ([] :: ('m, 'd) gw_event list)"
    by (auto simp: append_eq_append_conv2 append_eq_Cons_conv)
  then show ?thesis
  proof cases
    case posted
    with handling_end [OF posted(2)] assms(2,3,5) show ?thesis by auto
  next
    case all
    with handling_Nil [OF all(2)] assms(2,5) show ?thesis by simp
  qed (use assms(3) in auto)
qed

lemma relay_posted:
  assumes "relay_at R tr pc"
    and ends: "\<And>pre br e. branch R pre br e \<Longrightarrow> \<exists>acts x. handling br e = (acts @ [Posted x, Quiet] :: ('m, 'd) gw_event list) \<and>
      finish br e = (Ended :: ('m, 'd) gw_pc) \<and> posted acts = [] \<and> observable acts = acts \<and> fin (pre @ acts @ [Posted x]) x"
  shows "(posted tr = [] \<and> \<not> at_end pc) \<or>
    (\<exists>x ms u. posted tr = [x] \<and> observable tr = echo ms @ u \<and> fin u x \<and> at_end (pc :: ('m, 'd) gw_pc))"
proof -
  have quiet: "posted pre = [] \<and> observable pre = pre" if "branch R pre br e" for pre :: "('m, 'd) gw_event list" and br e
    using that by (auto simp: branch_iff)
  consider (run) "posted tr = []" "\<not> at_end pc"
    | (exec) ss e ms pre br past where "pc = Exec ss e" "tr = echo ms @ pre @ past" "branch R pre br e"
        "handling br e = past @ handling ss e" "finish br e = (finish ss e :: ('m, 'd) gw_pc)"
    | (halted) ms pre br e where "tr = echo ms @ pre @ handling br e" "branch R pre br e" "finish br e = pc"
    using assms(1) unfolding relay_at_def at_end_def by (cases pc) auto
  then show ?thesis
  proof cases
    case exec
    from ends [OF exec(3)] obtain acts x where d: "handling br e = (acts @ [Posted x, Quiet] :: ('m, 'd) gw_event list)"
      "finish br e = (Ended :: ('m, 'd) gw_pc)" "posted acts = []" "observable acts = acts" "fin (pre @ acts @ [Posted x]) x" by blast
    from relay_progress [OF d(1-3) exec(4,5)] show ?thesis
    proof (elim disjE conjE exE)
      fix ss' assume "posted past = [x]" "observable past = observable acts @ [Posted x]" "ss = EndGoroutine # ss'"
      with exec d quiet [OF exec(3)] show ?thesis
        by (intro disjI2 exI [of _ x] exI [of _ ms] exI [of _ "pre @ acts @ [Posted x]"]) (auto simp: at_end_def)
    next
      assume "posted past = []" "Posted x \<in> set (handling ss e :: ('m, 'd) gw_event list)"
      with exec quiet [OF exec(3)] show ?thesis by (auto simp: at_end_def)
    qed
  next
    case halted
    from ends [OF halted(2)] obtain acts x where d: "handling br e = (acts @ [Posted x, Quiet] :: ('m, 'd) gw_event list)"
      "finish br e = (Ended :: ('m, 'd) gw_pc)" "posted acts = []" "observable acts = acts" "fin (pre @ acts @ [Posted x]) x" by blast
    with halted quiet [OF halted(2)] show ?thesis
      by (intro disjI2 exI [of _ x] exI [of _ ms] exI [of _ "pre @ acts @ [Posted x]"]) (auto simp: at_end_def)
  qed simp
qed

lemma up_posted:
  assumes "relay_at up_relay tr (pc :: ('q, 'd) gw_pc)"
  shows "(posted tr = [] \<and> \<not> at_end pc) \<or>
    (\<exists>x ms u. posted tr = [x] \<and> observable tr = echo ms @ u \<and> up_end u x \<and> at_end pc)"
proof (rule relay_posted [OF assms])
  fix pre :: "('q, 'd) gw_event list" and br and e :: "'d goerror"
  assume "branch up_relay pre br e"
  then show "\<exists>acts x. handling br e = (acts @ [Posted x, Quiet] :: ('q, 'd) gw_event list) \<and> finish br e = (Ended :: ('q, 'd) gw_pc) \<and>
      posted acts = [] \<and> observable acts = acts \<and> up_end (pre @ acts @ [Posted x]) x"
  proof (cases rule: branch.cases)
    case on_recv
    show ?thesis
    proof (cases "e = EOF")
      case True
      with on_recv show ?thesis
        by (intro exI [of _ "[SendClosed]"] exI [of _ None]) (simp add: up_relay_def on_error_def up_eof)
    next
      case False
      with on_recv show ?thesis
        by (intro exI [of _ "[]"] exI [of _ "Some e"]) (simp add: up_relay_def on_error_def convert_err_def up_failed)
    qed
  next
    case (on_send m)
    then show ?thesis
      by (intro exI [of _ "[]"] exI [of _ "Some (convert_err Zara e)"]) (simp add: up_relay_def up_not_given)
  qed
qed

lemma down_posted:
  assumes "relay_at down_relay tr (pc :: ('r, 'd) gw_pc)"
  shows "(posted tr = [] \<and> \<not> at_end pc) \<or>
    (\<exists>x ms u. posted tr = [x] \<and> observable tr = echo ms @ u \<and> down_end u x \<and> at_end pc)"
proof (rule relay_posted [OF assms])
  fix pre :: "('r, 'd) gw_event list" and br and e :: "'d goerror"
  assume "branch down_relay pre br e"
  then show "\<exists>acts x. handling br e = (acts @ [Posted x, Quiet] :: ('r, 'd) gw_event list) \<and> finish br e = (Ended :: ('r, 'd) gw_pc) \<and>
      posted acts = [] \<and> observable acts = acts \<and> down_end (pre @ acts @ [Posted x]) x"
  proof (cases rule: branch.cases)
    case on_recv
    show ?thesis
    proof (cases "e = EOF")
      case True
      with on_recv show ?thesis
        by (intro exI [of _ "[]"] exI [of _ None]) (simp add: down_relay_def on_error_def down_eof)
    next
      case False
      with on_recv show ?thesis
        by (intro exI [of _ "[]"] exI [of _ "Some (convert_err Zara e)"]) (simp add: down_relay_def on_error_def down_failed)
    qed
  next
    case (on_send m)
    then show ?thesis
      by (intro exI [of _ "[]"] exI [of _ "Some e"]) (simp add: down_relay_def convert_err_def down_not_given)
  qed
qed

definition bidi_inv :: "('q, 'r, 'd) bi_event list \<Rightarrow> ('q, 'r, 'd, 'w) gw_bidi \<Rightarrow> bool" where
  \<comment> \<open>the goroutines are where their events say; the channel holds what was posted and not yet taken; the loop has taken
      what it counts\<close>
  "bidi_inv tr s =
     (relay_at up_relay (ups tr) (bi_up s) \<and> relay_at down_relay (downs tr) (bi_down s) \<and>
      posts tr = took tr @ bi_ch s \<and> length (posts tr) = length (posted (ups tr)) + length (posted (downs tr)) \<and>
      set (posts tr) = set (posted (ups tr)) \<union> set (posted (downs tr)) \<and>
      bi_i s = length (took tr) \<and> bi_first s = first_failure (took tr) \<and>
      (\<forall>r. bi_ret s = Some r \<longrightarrow> bi_i s = 2 \<and> r = bi_first s))"

lemma relay_step_channel:
  "relay_step R recv send closeSend (pc, ch, w) ev (pc', ch', w') \<Longrightarrow> ch' = ch @ posted [ev]"
  by (erule relay_step.cases) auto

lemma bidi_inv_length: "bidi_inv tr s \<Longrightarrow> length (posts tr) \<le> 2"
  using up_posted [of "ups tr" "bi_up s"] down_posted [of "downs tr" "bi_down s"] unfolding bidi_inv_def by auto

lemma bidi_invD:
  assumes "bidi_inv tr s"
  shows "relay_at up_relay (ups tr) (bi_up s)" "relay_at down_relay (downs tr) (bi_down s)" "posts tr = took tr @ bi_ch s"
    "length (posts tr) = length (posted (ups tr)) + length (posted (downs tr))"
    "set (posts tr) = set (posted (ups tr)) \<union> set (posted (downs tr))"
    "bi_i s = length (took tr)" "bi_first s = first_failure (took tr)" "bi_ret s = Some r \<Longrightarrow> bi_i s = 2 \<and> r = bi_first s"
  using assms unfolding bidi_inv_def by auto

lemma posts_do:
  "posts (tr @ [UpDo e]) = posts tr @ posted [e]" "posts (tr @ [DownDo e]) = posts tr @ posted [e]"
  by (cases e; simp)+

lemma bidi_inv_step:
  assumes "bidi_step S s ev s'" "bidi_inv tr s"
  shows "bidi_inv (tr @ [ev]) s'"
  using assms(1)
proof (cases rule: bidi_step.cases)
  case (up e pc ch w)
  have "relay_at up_relay (ups tr @ [e]) pc"
    by (rule relay_at_step [OF up(3) bidi_invD(1) [OF assms(2)]]) (simp_all add: up_relay_def)
  moreover have "posts (tr @ [UpDo e]) = took tr @ ch"
    unfolding posts_do relay_step_channel [OF up(3)] using bidi_invD(3) [OF assms(2)] by simp
  moreover have "length (posts (tr @ [UpDo e])) = length (posted (ups tr @ [e])) + length (posted (downs tr))"
    "set (posts (tr @ [UpDo e])) = set (posted (ups tr @ [e])) \<union> set (posted (downs tr))"
    unfolding posts_do using bidi_invD(4,5) [OF assms(2)] by auto
  ultimately show ?thesis
    using bidi_invD(2,6-8) [OF assms(2)] unfolding up(1,2) bidi_inv_def by (simp del: project_simps(7) posted_simps(3))
next
  case (down e pc ch w)
  have "relay_at down_relay (downs tr @ [e]) pc"
    by (rule relay_at_step [OF down(3) bidi_invD(2) [OF assms(2)]]) (simp_all add: down_relay_def)
  moreover have "posts (tr @ [DownDo e]) = took tr @ ch"
    unfolding posts_do relay_step_channel [OF down(3)] using bidi_invD(3) [OF assms(2)] by simp
  moreover have "length (posts (tr @ [DownDo e])) = length (posted (ups tr)) + length (posted (downs tr @ [e]))"
    "set (posts (tr @ [DownDo e])) = set (posted (ups tr)) \<union> set (posted (downs tr @ [e]))"
    unfolding posts_do using bidi_invD(4,5) [OF assms(2)] by auto
  ultimately show ?thesis
    using bidi_invD(1,6-8) [OF assms(2)] unfolding down(1,2) bidi_inv_def by (simp del: project_simps(7) posted_simps(3))
next
  case (take x ch)
  have "bi_ret s = None" using bidi_invD(8) [OF assms(2)] take(3) by (cases "bi_ret s") auto
  with take bidi_invD(1-7) [OF assms(2)] show ?thesis by (simp add: bidi_inv_def first_failure_snoc)
next
  case ret
  have "bi_i s = 2" using bidi_inv_length [OF assms(2)] bidi_invD(3,6) [OF assms(2)] ret(3) by simp
  with ret bidi_invD(1-7) [OF assms(2)] show ?thesis by (simp add: bidi_inv_def)
qed

lemma bidi_run_inv: "bidi_run S w tr s \<Longrightarrow> bidi_inv tr s"
proof (induction rule: bidi_run.induct)
  case bi_start
  show ?case by (simp add: bidi_inv_def bidi_start_def relay_at_start)
qed (rule bidi_inv_step)


text \<open>
  C5. When a bidirectional stream returns, both directions have ended: each passed its messages on, once and in the order
  they came, up to its end, whatever the interleaving; at most the message whose sending failed is lost; and the gRPC
  server was told that no more comes only after everything the caller sent. The result is the first failure the goroutines
  posted, and no error only if both streams ended properly. So the method waits for the caller even when the server has
  ended the call.
\<close>

theorem gateway_bidi:
  assumes "bidi_run S w tr s" "bi_ret s = Some r"
  shows "\<exists>ms u x ms' d y. observable (ups tr) = echo ms @ u \<and> up_end u x \<and>
    observable (downs tr) = echo ms' @ d \<and> down_end d y \<and>
    (posts tr = [x, y] \<or> posts tr = [y, x]) \<and> r = first_failure (posts tr) \<and> (r = None \<longleftrightarrow> x = None \<and> y = None)"
proof -
  note inv = bidi_run_inv [OF assms(1)]
  have took: "length (took tr) = 2" "r = first_failure (took tr)"
    using bidi_invD(6,7,8) [OF inv] assms(2) by auto
  with bidi_inv_length [OF inv] bidi_invD(3) [OF inv] have two: "length (posts tr) = 2" "posts tr = took tr" by auto
  from up_posted [OF bidi_invD(1) [OF inv]] down_posted [OF bidi_invD(2) [OF inv]] two(1) bidi_invD(4) [OF inv]
  obtain x ms u y ms' d where up: "posted (ups tr) = [x]" "observable (ups tr) = echo ms @ u" "up_end u x"
    and down: "posted (downs tr) = [y]" "observable (downs tr) = echo ms' @ d" "down_end d y"
    by auto
  have "set (posts tr) = {x, y}" using bidi_invD(5) [OF inv] up(1) down(1) by auto
  with two(1) have order: "posts tr = [x, y] \<or> posts tr = [y, x]"
    by (auto simp: numeral_2_eq_2 length_Suc_conv doubleton_eq_iff)
  then have "first_failure (posts tr) = None \<longleftrightarrow> x = None \<and> y = None" by (cases x; cases y) auto
  with up down order took two(2) show ?thesis by metis
qed

section \<open>The method returns\<close>

fun pc_weight :: "('m, 'd) gw_pc \<Rightarrow> nat" where
  "pc_weight AtRecv = 6"
| "pc_weight (AtSend m) = 7"
| "pc_weight (Exec ss e) = length ss"
| "pc_weight _ = 0"

lemma relay_step_weight:
  assumes "relay_step R recv send closeSend (pc, ch, w) ev (pc', ch', w')"
    and "\<And>w m w'. recv w (Inr m) w' \<Longrightarrow> left w' < left w" "\<And>w e w'. recv w (Inl e) w' \<Longrightarrow> left w' \<le> (left w :: nat)"
    and "\<And>m w x w'. send m w x w' \<Longrightarrow> left w' \<le> left w" "\<And>w w'. closeSend w w' \<Longrightarrow> left w' \<le> left w"
    and "length (rl_eof R) + length (rl_err R) < 6" "length (rl_send_err R) < 6"
  shows "pc_weight pc' + 2 * left w' < pc_weight pc + 2 * left w"
  using assms(1)
proof (cases rule: relay_step.cases)
  case (got m)
  with assms(2) [of w m w'] show ?thesis by simp
next
  case (got_error e)
  with assms(3) [of w e w'] assms(6) show ?thesis by (simp add: on_error_def split: if_splits)
next
  case (gave m)
  with assms(4) [of m w None w'] show ?thesis by simp
next
  case (not_given m e)
  with assms(4) [of m w "Some e" w'] assms(7) show ?thesis by simp
next
  case (close_send ss e)
  with assms(5) [of w w'] show ?thesis by simp
qed simp_all

lemma relay_can_step:
  fixes pc :: "('m, 'd) gw_pc"
  assumes "relay_at R tr pc" "\<not> at_end pc" "length ch < 2"
    and "\<And>pre br e. branch R (pre :: ('m, 'd) gw_event list) br e \<Longrightarrow> finish br e = (Ended :: ('m, 'd) gw_pc)"
    and "\<And>w. \<exists>x w'. recv w x w'" "\<And>m w. \<exists>x w'. send m w x w'" "\<And>w. \<exists>w'. closeSend w w'"
  shows "\<exists>ev pc' ch' w'. relay_step R recv send closeSend (pc, ch, w) ev (pc', ch', w')"
proof (cases pc)
  case AtRecv
  from assms(5) [of w] obtain x w' where "recv w x w'" by blast
  with AtRecv show ?thesis by (cases x) (blast intro: relay_step.intros)+
next
  case (AtSend m)
  from assms(6) [of m w] obtain x w' where "send m w x w'" by blast
  with AtSend show ?thesis by (cases x) (blast intro: relay_step.intros)+
next
  case (Exec ss e)
  with assms(1) obtain pre br where "branch R (pre :: ('m, 'd) gw_event list) br e" "finish br e = (finish ss e :: ('m, 'd) gw_pc)"
    unfolding relay_at_def by auto
  with assms(4) have "finish ss e = (Ended :: ('m, 'd) gw_pc)" by metis
  then obtain s ss' where ss: "ss = s # ss'" by (cases ss) auto
  from assms(7) [of w] obtain w' where "closeSend w w'" by blast
  with assms(3) show ?thesis unfolding Exec ss by (cases s) (blast intro: relay_step.intros)+
qed (use assms(1,2,4) in \<open>force simp: relay_at_def at_end_def\<close>)+


definition always_answers :: "('c, 'q, 'r, 'd, 'w) gw_streams \<Rightarrow> bool" where
  \<comment> \<open>no operation on a stream blocks for ever\<close>
  "always_answers S =
     ((\<forall>w. \<exists>x w'. gw_Receive S w x w') \<and> (\<forall>w. \<exists>x w'. gw_Recv S w x w') \<and> (\<forall>m w. \<exists>x w'. gw_Send S m w x w') \<and>
      (\<forall>m w. \<exists>x w'. gw_ClientSend S m w x w') \<and> (\<forall>w. \<exists>w'. gw_CloseSend S w w'))"

definition brings_at_most :: "('w \<Rightarrow> nat) \<Rightarrow> ('c, 'q, 'r, 'd, 'w) gw_streams \<Rightarrow> bool" where
  \<comment> \<open>\<open>left\<close> bounds the messages that are still to come\<close>
  "brings_at_most left S =
     ((\<forall>w m w'. gw_Receive S w (Inr m) w' \<longrightarrow> left w' < left w) \<and> (\<forall>w e w'. gw_Receive S w (Inl e) w' \<longrightarrow> left w' \<le> left w) \<and>
      (\<forall>w m w'. gw_Recv S w (Inr m) w' \<longrightarrow> left w' < left w) \<and> (\<forall>w e w'. gw_Recv S w (Inl e) w' \<longrightarrow> left w' \<le> left w) \<and>
      (\<forall>m w x w'. gw_Send S m w x w' \<longrightarrow> left w' \<le> left w) \<and> (\<forall>m w x w'. gw_ClientSend S m w x w' \<longrightarrow> left w' \<le> left w) \<and>
      (\<forall>w w'. gw_CloseSend S w w' \<longrightarrow> left w' \<le> left w))"

lemma brings_at_mostD:
  assumes "brings_at_most left S"
  shows "gw_Receive S w (Inr a) w' \<Longrightarrow> left w' < left w" "gw_Receive S w (Inl e) w' \<Longrightarrow> left w' \<le> left w"
    "gw_Recv S w (Inr r) w' \<Longrightarrow> left w' < left w" "gw_Recv S w (Inl e) w' \<Longrightarrow> left w' \<le> left w"
    "gw_Send S r w x w' \<Longrightarrow> left w' \<le> left w" "gw_ClientSend S a w x w' \<Longrightarrow> left w' \<le> left w"
    "gw_CloseSend S w w' \<Longrightarrow> left w' \<le> left w"
  using assms unfolding brings_at_most_def by auto

definition bidi_weight :: "('w \<Rightarrow> nat) \<Rightarrow> ('q, 'r, 'd, 'w) gw_bidi \<Rightarrow> nat" where
  "bidi_weight left s =
     2 * left (bi_world s) + pc_weight (bi_up s) + pc_weight (bi_down s) + (2 - bi_i s) + (if bi_ret s = None then 1 else 0)"

lemma bidi_step_weight:
  assumes "bidi_step S s ev s'" "brings_at_most left S"
  shows "bidi_weight left s' < bidi_weight left s"
  using assms(1)
proof (cases rule: bidi_step.cases)
  case (up e pc ch w)
  have "pc_weight pc + 2 * left w < pc_weight (bi_up s) + 2 * left (bi_world s)"
    by (rule relay_step_weight [OF up(3)]) (auto dest: brings_at_mostD [OF assms(2)] simp: up_relay_def)
  with up show ?thesis by (simp add: bidi_weight_def)
next
  case (down e pc ch w)
  have "pc_weight pc + 2 * left w < pc_weight (bi_down s) + 2 * left (bi_world s)"
    by (rule relay_step_weight [OF down(3)]) (auto dest: brings_at_mostD [OF assms(2)] simp: down_relay_def)
  with down show ?thesis by (simp add: bidi_weight_def)
qed (simp_all add: bidi_weight_def)

lemma bidi_run_length: "bidi_run S w tr s \<Longrightarrow> brings_at_most left S \<Longrightarrow> length tr + bidi_weight left s \<le> 2 * left w + 15"
proof (induction rule: bidi_run.induct)
  case (bi_step tr s ev s')
  with bidi_step_weight [OF bi_step.hyps(2) bi_step.prems] show ?case by simp
qed (simp add: bidi_weight_def bidi_start_def)

lemma finish_relays:
  "branch up_relay (pre :: ('m, 'd) gw_event list) br e \<Longrightarrow> finish br e = (Ended :: ('m, 'd) gw_pc)"
  "branch down_relay (pre :: ('m, 'd) gw_event list) br e \<Longrightarrow> finish br e = (Ended :: ('m, 'd) gw_pc)"
  by (auto simp: branch_iff up_relay_def down_relay_def on_error_def)

lemma relay_ends: "at_end pc \<Longrightarrow> pc \<noteq> Ended \<Longrightarrow> \<exists>ev pc' ch' w'. relay_step R recv send closeSend (pc, ch, w) ev (pc', ch', w')"
  unfolding at_end_def by (blast intro: relay_step.end_goroutine)

lemma bidi_answers:
  assumes "always_answers S"
  shows "\<exists>x w'. gw_Receive S w x w'" "\<exists>x w'. gw_Recv S w x w'" "\<exists>x w'. gw_Send S r w x w'"
    "\<exists>x w'. gw_ClientSend S a w x w'" "\<exists>w'. gw_CloseSend S w w'"
  using assms unfolding always_answers_def by blast+

lemma up_can_step:
  assumes "bidi_run S w tr s" "always_answers S" "bi_up s \<noteq> Ended"
  shows "\<exists>e s'. bidi_step S s (UpDo e) s'"
proof -
  note inv = bidi_invD [OF bidi_run_inv [OF assms(1)]]
  have "\<exists>ev pc ch w. relay_step up_relay (gw_Receive S) (gw_ClientSend S) (gw_CloseSend S) (bi_up s, bi_ch s, bi_world s) ev (pc, ch, w)"
  proof (cases "at_end (bi_up s)")
    case False
    with up_posted [OF inv(1)] down_posted [OF inv(2)] inv(3,4) have "length (bi_ch s) < 2" by auto
    then show ?thesis
      by (intro relay_can_step [OF inv(1) False]) (assumption | erule finish_relays | rule bidi_answers [OF assms(2)])+
  qed (rule relay_ends, simp_all add: assms(3))
  then show ?thesis by (blast intro: bidi_step.up)
qed

lemma down_can_step:
  assumes "bidi_run S w tr s" "always_answers S" "bi_down s \<noteq> Ended"
  shows "\<exists>e s'. bidi_step S s (DownDo e) s'"
proof -
  note inv = bidi_invD [OF bidi_run_inv [OF assms(1)]]
  have "\<exists>ev pc ch w. relay_step down_relay (gw_Recv S) (gw_Send S) (gw_CloseSend S) (bi_down s, bi_ch s, bi_world s) ev (pc, ch, w)"
  proof (cases "at_end (bi_down s)")
    case False
    with up_posted [OF inv(1)] down_posted [OF inv(2)] inv(3,4) have "length (bi_ch s) < 2" by auto
    then show ?thesis
      by (intro relay_can_step [OF inv(2) False]) (assumption | erule finish_relays | rule bidi_answers [OF assms(2)])+
  qed (rule relay_ends, simp_all add: assms(3))
  then show ?thesis by (blast intro: bidi_step.down)
qed

lemma loop_can_step:
  assumes "bidi_run S w tr s" "bi_up s = Ended" "bi_down s = Ended" "bi_ret s = None"
  shows "\<exists>ev s'. bidi_step S s ev s'"
proof (cases "bi_i s < 2")
  case True
  note inv = bidi_invD [OF bidi_run_inv [OF assms(1)]]
  have "length (posts tr) = 2"
    using up_posted [OF inv(1)] down_posted [OF inv(2)] inv(4) assms(2,3) by (auto simp: at_end_def)
  with True inv(3,6) obtain x ch where "bi_ch s = x # ch" by (cases "bi_ch s") auto
  with True show ?thesis by (blast intro: bidi_step.take)
next
  case False
  with assms(4) show ?thesis by (blast intro: bidi_step.ret)
qed

text \<open>
  C6. A bidirectional stream through the gateway returns, in whatever order the goroutines run, if both streams answer and
  bring finitely many messages: an execution has at most twice as many steps as there are messages to come, and fifteen
  more, and it can go on as long as the method has not returned. At every moment of an execution, before the return and
  after it, each goroutine that has not ended can take its next step, whatever the other one and the loop do: none
  ever blocks on the channel, which has room for both results, and none outlives the call for want of a receiver.
\<close>

theorem gateway_bidi_returns:
  assumes "bidi_run S w tr s" "always_answers S" "brings_at_most left S"
  shows "length tr \<le> 2 * left w + 15 \<and>
    (bi_up s \<noteq> Ended \<longrightarrow> (\<exists>e s'. bidi_step S s (UpDo e) s')) \<and>
    (bi_down s \<noteq> Ended \<longrightarrow> (\<exists>e s'. bidi_step S s (DownDo e) s')) \<and>
    (bi_ret s = None \<longrightarrow> (\<exists>ev s'. bidi_step S s ev s'))"
  using bidi_run_length [OF assms(1,3)] up_can_step [OF assms(1,2)] down_can_step [OF assms(1,2)]
    loop_can_step [OF assms(1)] by auto

section \<open>Streams to apply the theorems to\<close>

definition scripted :: "nat goerror option \<Rightarrow> (unit, nat, string, nat, nat list \<times> string list) gw_streams" where
  \<comment> \<open>both streams bring what they hold and end; the gRPC stream takes messages, or fails with an error\<close>
  "scripted refusal =
     \<lparr>gw_Receive = (\<lambda>w x w'. case fst w of [] \<Rightarrow> x = Inl EOF \<and> w' = w | a # qs \<Rightarrow> x = Inr a \<and> w' = (qs, snd w)),
      gw_Send = (\<lambda>m w x w'. x = None \<and> w' = w),
      gw_Recv = (\<lambda>w x w'. case snd w of [] \<Rightarrow> x = Inl EOF \<and> w' = w | r # rs \<Rightarrow> x = Inr r \<and> w' = (fst w, rs)),
      gw_ClientSend = (\<lambda>m w x w'. x = refusal \<and> w' = w),
      gw_CloseSend = (\<lambda>w w'. w' = w),
      gw_CloseAndRecv = (\<lambda>w x w'. x = Inr ''done'' \<and> w' = w),
      gw_Open = (\<lambda>ctx req w x w'. x = None \<and> w' = w),
      gw_Invoke = (\<lambda>ctx a w x w'. x = Inr ''answer'' \<and> w' = w)\<rparr>"

lemma scripted_sel [simp]:
  "gw_Receive (scripted e) ([], rs) x w' \<longleftrightarrow> x = Inl EOF \<and> w' = ([], rs)"
  "gw_Receive (scripted e) (a # qs, rs) x w' \<longleftrightarrow> x = Inr a \<and> w' = (qs, rs)"
  "gw_Recv (scripted e) (qs, []) y w' \<longleftrightarrow> y = Inl EOF \<and> w' = (qs, [])"
  "gw_Recv (scripted e) (qs, r # rs) y w' \<longleftrightarrow> y = Inr r \<and> w' = (qs, rs)"
  "gw_Send (scripted e) r w z w' \<longleftrightarrow> z = None \<and> w' = w" "gw_ClientSend (scripted e) a w z w' \<longleftrightarrow> z = e \<and> w' = w"
  "gw_CloseSend (scripted e) w w' \<longleftrightarrow> w' = w" "gw_CloseAndRecv (scripted e) w y w' \<longleftrightarrow> y = Inr ''done'' \<and> w' = w"
  "gw_Open (scripted e) ctx req w z w' \<longleftrightarrow> z = None \<and> w' = w"
  by (simp_all add: scripted_def)

lemma bidi_steps:
  assumes "bidi_run S w0 tr \<lparr>bi_up = u, bi_down = d, bi_ch = ch, bi_i = i, bi_first = f, bi_ret = r, bi_world = w\<rparr>"
  shows "relay_step up_relay (gw_Receive S) (gw_ClientSend S) (gw_CloseSend S) (u, ch, w) e (u', ch', w') \<Longrightarrow>
      bidi_run S w0 (tr @ [UpDo e]) \<lparr>bi_up = u', bi_down = d, bi_ch = ch', bi_i = i, bi_first = f, bi_ret = r, bi_world = w'\<rparr>"
    "relay_step down_relay (gw_Recv S) (gw_Send S) (gw_CloseSend S) (d, ch, w) e' (d', ch', w') \<Longrightarrow>
      bidi_run S w0 (tr @ [DownDo e']) \<lparr>bi_up = u, bi_down = d', bi_ch = ch', bi_i = i, bi_first = f, bi_ret = r, bi_world = w'\<rparr>"
    "i < 2 \<Longrightarrow> ch = x # ch' \<Longrightarrow> bidi_run S w0 (tr @ [Took x])
      \<lparr>bi_up = u, bi_down = d, bi_ch = ch', bi_i = Suc i, bi_first = (if x \<noteq> None \<and> f = None then x else f), bi_ret = r, bi_world = w\<rparr>"
    "\<not> i < 2 \<Longrightarrow> r = None \<Longrightarrow> bidi_run S w0 (tr @ [BiReturns f])
      \<lparr>bi_up = u, bi_down = d, bi_ch = ch, bi_i = i, bi_first = f, bi_ret = Some f, bi_world = w\<rparr>"
  using bi_step [OF assms bidi_step.up] bi_step [OF assms bidi_step.down] bi_step [OF assms bidi_step.take, of x ch']
    bi_step [OF assms bidi_step.ret]
  by (simp_all cong: if_cong)

lemma scripted_answers: "always_answers (scripted e)"
proof -
  have "\<exists>x w'. gw_Receive (scripted e) (as, bs) x w'" "\<exists>x w'. gw_Recv (scripted e) (as, bs) x w'" for as bs
    by (cases as; auto) (cases bs; auto)
  then show ?thesis unfolding always_answers_def by auto
qed

lemma scripted_brings: "brings_at_most (\<lambda>w. length (fst w) + length (snd w)) (scripted e)"
  unfolding brings_at_most_def scripted_def by (auto split: list.splits)

lemma gateway_server_stream_witness:
  "\<exists>tr. server_method (scripted None) (\<lambda>ctx ps. ctx) (no_ctx, None :: unit ctxState option) 3 ([], [''a'']) tr None ([], []) \<and>
     (\<exists>ms. tr = echo ms @ [GotError EOF, Quiet])"
proof -
  let ?S = "scripted None" and ?run = "relay_run server_relay (gw_Recv (scripted None)) (gw_Send (scripted None)) (gw_CloseSend (scripted None)) ([], [''a''])"
  have "?run [] (AtRecv, [], ([], [''a'']))" by (rule run_start)
  from run_step [OF this relay_step.got [of _ _ "''a''" "([], [])"]]
  have "?run [Got ''a''] (AtSend ''a'', [], ([], []))" by simp
  from run_step [OF this relay_step.gave [of _ _ _ "([], [])"]]
  have "?run [Got ''a'', Gave ''a''] (AtRecv, [], ([], []))" by simp
  from run_step [OF this relay_step.got_error [of _ _ EOF "([], [])"]]
  have "?run [Got ''a'', Gave ''a'', GotError EOF] (Exec [ReturnNil, ReturnErr Zara] EOF, [], ([], []))"
    by (simp add: on_error_def server_relay_def)
  from run_step [OF this relay_step.return_nil]
  have run: "?run [Got ''a'', Gave ''a'', GotError EOF, Quiet] (Returned None, [], ([], []))" by simp
  have m: "server_method ?S (\<lambda>ctx ps. ctx) (no_ctx, None :: unit ctxState option) 3 ([], [''a''])
      [Got ''a'', Gave ''a'', GotError EOF, Quiet] None ([], [])"
    by (rule server_relayed [OF _ run]) simp
  with gateway_server_stream [OF m] show ?thesis
    by (intro exI [of _ "[Got ''a'', Gave ''a'', GotError EOF, Quiet]"] conjI exI [of _ "[''a'']"]) (auto simp: echo_def)
qed

lemma gateway_client_stream_witness:
  "\<exists>tr. client_method (scripted (Some EOF)) (\<lambda>ctx ps. ctx) (no_ctx, None :: unit ctxState option) ([7], []) tr (Inl EOF) ([], []) \<and>
     (\<exists>ms m. tr = echo ms @ [Got m, NotGiven m EOF, Quiet] \<and> status_Code (Some (EOF :: nat goerror)) = CodeUnknown)"
proof -
  let ?S = "scripted (Some EOF)" and ?run = "relay_run client_relay (gw_Receive (scripted (Some EOF))) (gw_ClientSend (scripted (Some EOF))) (gw_CloseSend (scripted (Some EOF))) ([7], [])"
  have "?run [] (AtRecv, [], ([7], []))" by (rule run_start)
  from run_step [OF this relay_step.got [of _ _ 7 "([], [])"]]
  have "?run [Got 7] (AtSend 7, [], ([], []))" by simp
  from run_step [OF this relay_step.not_given [of _ _ _ EOF "([], [])"]]
  have "?run [Got 7, NotGiven 7 EOF] (Exec [ReturnErr Zara] EOF, [], ([], []))" by (simp add: client_relay_def)
  from run_step [OF this relay_step.return_err]
  have run: "?run [Got 7, NotGiven 7 EOF, Quiet] (Returned (Some EOF), [], ([], []))"
    by (simp add: convert_err_def FromGRPCStatus_def)
  have m: "client_method ?S (\<lambda>ctx ps. ctx) (no_ctx, None :: unit ctxState option) ([7], []) [Got 7, NotGiven 7 EOF, Quiet] (Inl EOF) ([], [])"
    by (rule client_failed [OF _ run]) simp
  with gateway_client_stream [OF m] show ?thesis
    by (intro exI [of _ "[Got 7, NotGiven 7 EOF, Quiet]"] conjI exI [of _ "[]"] exI [of _ 7]) auto
qed

lemma gateway_bidi_witness:
  "\<exists>tr s. bidi_run (scripted (Some EOF)) ([7], []) tr s \<and> bi_ret s = Some (Some EOF) \<and>
     (\<exists>ms u x. observable (ups tr) = echo ms @ u \<and> up_end u x \<and> x \<in> set (posts tr))"
proof -
  let ?S = "scripted (Some EOF)"
  have start: "bidi_run ?S ([7], []) [] \<lparr>bi_up = AtRecv, bi_down = AtRecv, bi_ch = [], bi_i = 0, bi_first = None, bi_ret = None, bi_world = ([7], [])\<rparr>"
    using bi_start [of ?S "([7], [])"] by (simp add: bidi_start_def)
  have r1: "bidi_run ?S ([7], []) [DownDo (GotError EOF)] \<lparr>bi_up = AtRecv, bi_down = Exec [PostNil, EndGoroutine, PostErr Zara, EndGoroutine] EOF,
      bi_ch = [], bi_i = 0, bi_first = None, bi_ret = None, bi_world = ([7], [])\<rparr>"
    using bidi_steps(2) [OF start relay_step.got_error [of _ _ EOF "([7], [])"]] by (simp add: on_error_def down_relay_def)
  note r2 = bidi_steps(2) [OF r1 relay_step.post_nil, simplified]
  note r3 = bidi_steps(3) [OF r2 _ refl, simplified]
  note r4 = bidi_steps(1) [OF r3 relay_step.got [of _ _ 7 "([], [])"], simplified]
  have r5: "bidi_run ?S ([7], []) [DownDo (GotError EOF), DownDo (Posted None), Took None, UpDo (Got 7), UpDo (NotGiven 7 EOF)]
      \<lparr>bi_up = Exec [PostErr Zara, EndGoroutine] EOF, bi_down = Exec [EndGoroutine, PostErr Zara, EndGoroutine] EOF,
        bi_ch = [], bi_i = Suc 0, bi_first = None, bi_ret = None, bi_world = ([], [])\<rparr>"
    using bidi_steps(1) [OF r4 relay_step.not_given [of _ _ _ EOF "([], [])"]] by (simp add: up_relay_def)
  have r6: "bidi_run ?S ([7], []) [DownDo (GotError EOF), DownDo (Posted None), Took None, UpDo (Got 7), UpDo (NotGiven 7 EOF), UpDo (Posted (Some EOF))]
      \<lparr>bi_up = Exec [EndGoroutine] EOF, bi_down = Exec [EndGoroutine, PostErr Zara, EndGoroutine] EOF,
        bi_ch = [Some EOF], bi_i = Suc 0, bi_first = None, bi_ret = None, bi_world = ([], [])\<rparr>"
    using bidi_steps(1) [OF r5 relay_step.post_err] by (simp add: convert_err_def FromGRPCStatus_def)
  note r7 = bidi_steps(3) [OF r6 _ refl, simplified]
  from bidi_steps(4) [OF r7, simplified] obtain tr s where s: "bidi_run ?S ([7], []) tr s" "bi_ret s = Some (Some EOF)"
    by (metis gw_bidi.select_convs(6))
  from gateway_bidi [OF s] obtain ms u x ms' d y where "observable (ups tr) = echo ms @ u" "up_end u x"
    "posts tr = [x, y] \<or> posts tr = [y, x]" by blast
  then have "x \<in> set (posts tr)" by auto
  with s \<open>observable (ups tr) = echo ms @ u\<close> \<open>up_end u x\<close> show ?thesis by blast
qed

lemma gateway_bidi_returns_witness:
  "bidi_run (scripted None) ([7], [''a'']) [] (bidi_start ([7], [''a''])) \<and>
   (\<exists>ev s. bidi_step (scripted None) (bidi_start ([7], [''a''])) ev s)"
  using gateway_bidi_returns [OF bi_start scripted_answers scripted_brings, where w = "([7], [''a''])"] bi_start
  by (auto simp: bidi_start_def)

end
