(* ===== verification/GrpcHop.thy ===== *)
theory GrpcHop
  imports Gateway
begin

text \<open>
  The gRPC method handlers that \<open>protoc-gen-zararpc\<close> generates (\<open>generateGRPCMethodHandler\<close> in \<open>grpc.go\<close>), and a unary
  call from the HTTP side of a gateway, over gRPC, through the interceptors of the server, to the service and back. gRPC
  itself is a parameter: that it brings the request, the metadata and a status to the other side is a hypothesis.
\<close>

section \<open>Generated handlers\<close>

definition unary_handler ::
    "('c Context \<Rightarrow> (string \<times> string list) list) \<Rightarrow> ('d goerror \<Rightarrow> bool) \<Rightarrow> (int \<Rightarrow> string \<Rightarrow> string) \<Rightarrow> string
     \<Rightarrow> (('c, 'm) Ctx \<Rightarrow> 'q \<Rightarrow> 'w \<Rightarrow> ('d goerror + 'r) \<times> 'w) \<Rightarrow> 'c Context \<Rightarrow> ('w \<Rightarrow> ('d goerror + 'q) \<times> 'w)
     \<Rightarrow> ('c Context \<Rightarrow> 'q \<Rightarrow> string \<Rightarrow> ('c Context \<Rightarrow> 'q \<Rightarrow> 'w \<Rightarrow> ('r option \<times> 'd goerror option) \<times> 'w) \<Rightarrow> 'w
          \<Rightarrow> ('r option \<times> 'd goerror option) \<times> 'w) option
     \<Rightarrow> 'w \<Rightarrow> ('r option \<times> 'd goerror option) \<times> 'w" where
  \<comment> \<open>\<open>svc\<close> is the method of the service, \<open>dec\<close> fills the request, and the interceptor may be nil\<close>
  "unary_handler incoming isGRPC say fullMethod svc ctx dec interceptor w =
     (case dec w of
        (Inl err, w) \<Rightarrow> ((None, Some err), w)
      | (Inr req, w) \<Rightarrow>
          (let handler = (\<lambda>ctx req w.
                 case svc (CtxFor incoming ctx fullMethod) req w of
                   (Inl err, w) \<Rightarrow> ((None, as_goerror say (ToGRPC isGRPC (Some err))), w)
                 | (Inr resp, w) \<Rightarrow> ((Some resp, None), w))
           in case interceptor of
                None \<Rightarrow> handler ctx req w
              | Some f \<Rightarrow> f ctx req fullMethod handler w))"

definition server_handler ::
    "('c Context \<Rightarrow> (string \<times> string list) list) \<Rightarrow> ('d goerror \<Rightarrow> bool) \<Rightarrow> (int \<Rightarrow> string \<Rightarrow> string) \<Rightarrow> string
     \<Rightarrow> (('c, 'm) Ctx \<Rightarrow> 'q \<Rightarrow> ('q \<Rightarrow> 'w \<Rightarrow> 'd goerror option \<times> 'w) \<Rightarrow> 'w \<Rightarrow> 'd goerror option \<times> 'w)
     \<Rightarrow> 'q \<Rightarrow> 'c Context \<Rightarrow> ('q, 'd, 'w) grpcStream \<Rightarrow> 'w \<Rightarrow> 'd goerror option \<times> 'w" where
  \<comment> \<open>\<open>new\<close> is the zero request; the handler is given the adapter's \<open>Send\<close>\<close>
  "server_handler incoming isGRPC say fullMethod svc new ctx strm w =
     (case RecvMsg strm new w of
        ((Some err, _), w) \<Rightarrow> (Some err, w)
      | ((None, req), w) \<Rightarrow>
          (case svc (CtxFor incoming ctx fullMethod) req (ServerStreamAdapter_Send strm) w of
             (Some err, w) \<Rightarrow> (as_goerror say (ToGRPC isGRPC (Some err)), w)
           | (None, w) \<Rightarrow> (None, w)))"

definition client_handler ::
    "('c Context \<Rightarrow> (string \<times> string list) list) \<Rightarrow> ('d goerror \<Rightarrow> bool) \<Rightarrow> (int \<Rightarrow> string \<Rightarrow> string) \<Rightarrow> string
     \<Rightarrow> (('c, 'm) Ctx \<Rightarrow> ('w \<Rightarrow> ('d goerror + 'q) \<times> 'w) \<Rightarrow> 'w \<Rightarrow> ('d goerror + 'q) \<times> 'w)
     \<Rightarrow> 'q \<Rightarrow> 'c Context \<Rightarrow> ('q, 'd, 'w) grpcStream \<Rightarrow> 'w \<Rightarrow> 'd goerror option \<times> 'w" where
  "client_handler incoming isGRPC say fullMethod svc new ctx strm w =
     (case svc (CtxFor incoming ctx fullMethod) (ClientStreamAdapter_Receive new strm) w of
        (Inl err, w) \<Rightarrow> (as_goerror say (ToGRPC isGRPC (Some err)), w)
      | (Inr resp, w) \<Rightarrow> SendMsg strm resp w)"

definition bidi_handler ::
    "('c Context \<Rightarrow> (string \<times> string list) list) \<Rightarrow> ('d goerror \<Rightarrow> bool) \<Rightarrow> (int \<Rightarrow> string \<Rightarrow> string) \<Rightarrow> string
     \<Rightarrow> (('c, 'm) Ctx \<Rightarrow> ('w \<Rightarrow> ('d goerror + 'q) \<times> 'w) \<times> ('q \<Rightarrow> 'w \<Rightarrow> 'd goerror option \<times> 'w) \<Rightarrow> 'w \<Rightarrow> 'd goerror option \<times> 'w)
     \<Rightarrow> 'q \<Rightarrow> 'c Context \<Rightarrow> ('q, 'd, 'w) grpcStream \<Rightarrow> 'w \<Rightarrow> 'd goerror option \<times> 'w" where
  "bidi_handler incoming isGRPC say fullMethod svc new ctx strm w =
     (case svc (CtxFor incoming ctx fullMethod) (BidiStreamAdapter_Receive new strm, BidiStreamAdapter_Send strm) w of
        (Some err, w) \<Rightarrow> (as_goerror say (ToGRPC isGRPC (Some err)), w)
      | (None, w) \<Rightarrow> (None, w))"

section \<open>A server with interceptors\<close>

definition bridge_interceptor ::
    "('c Context \<Rightarrow> (string \<times> string list) list) \<Rightarrow> ('d goerror \<Rightarrow> bool) \<Rightarrow> (int \<Rightarrow> string \<Rightarrow> string)
     \<Rightarrow> ('c, 'm, 'd, 'r option \<times> 'w) storeInterceptor list \<Rightarrow> 'c Context \<Rightarrow> 'q \<Rightarrow> string
     \<Rightarrow> ('c Context \<Rightarrow> 'q \<Rightarrow> 'w \<Rightarrow> ('r option \<times> 'd goerror option) \<times> 'w) \<Rightarrow> 'w \<Rightarrow> ('r option \<times> 'd goerror option) \<times> 'w" where
  \<comment> \<open>what \<open>UnaryInterceptor\<close> registers, with its results as the interface's\<close>
  "bridge_interceptor incoming isGRPC say interceptors ctx req fullMethod handler w =
     (case unary_bridge incoming isGRPC interceptors ctx req fullMethod handler w of
        (Inl e, w) \<Rightarrow> ((None, as_goerror say e), w)
      | (Inr resp, w) \<Rightarrow> ((resp, None), w))"


lemma unary_handler_bridge:
  assumes "\<And>t v. isGRPC (GRPCError t v)"
  shows "unary_handler incoming isGRPC say m svc ctx (\<lambda>w. (Inr req, w))
      (Some (bridge_interceptor incoming isGRPC say (map (\<lambda>g. gate_interceptor (on_world g)) gs))) w =
    (case gates gs (CtxFor incoming ctx m) w of
       (Inl e, w) \<Rightarrow> ((None, as_goerror say (ToGRPC isGRPC (Some e))), w)
     | (Inr c, w) \<Rightarrow>
         (case svc (CtxFor incoming (fst c) m) req w of
            (Inl e, w) \<Rightarrow> ((None, as_goerror say (ToGRPC isGRPC (Some e))), w)
          | (Inr r, w) \<Rightarrow> ((Some r, None), w)))"
proof -
  have again: "as_goerror say (ToGRPC isGRPC (Some e')) = Some e'" if "as_goerror say (ToGRPC isGRPC (Some e)) = Some e'" for e e'
    using that assms by (auto simp: as_goerror_def ToGRPC_def split: if_splits)
  show ?thesis
    unfolding unary_handler_def bridge_interceptor_def unary_bridge_gates Let_def
    by (auto split: prod.splits sum.splits option.splits dest: again)
qed

section \<open>A unary call through the gateway\<close>

fun arrives :: "('r option \<times> 'd goerror option) \<times> 'w \<Rightarrow> ('d goerror + 'r) \<times> 'w \<Rightarrow> bool" where
  \<comment> \<open>what the client sees of the server's answer: its error, or its response; no response and no error is a failure of
      gRPC's own\<close>
  "arrives ((r, Some e), w) (x, w') = (x = Inl e \<and> w' = w)"
| "arrives ((Some r, None), w) (x, w') = (x = Inr r \<and> w' = w)"
| "arrives ((None, None), w) (x, w') = (isl x \<and> w' = w)"

definition comes_back :: "('d goerror \<Rightarrow> bool) \<Rightarrow> (int \<Rightarrow> string \<Rightarrow> string) \<Rightarrow> 'd goerror + 'r \<Rightarrow> 'd goerror + 'r \<Rightarrow> bool" where
  \<comment> \<open>a response unchanged, and an error after one hop; an error with the code OK is none to gRPC, so all that is known is
      that the call fails\<close>
  "comes_back isGRPC say y res =
     (case y of
        Inr r \<Rightarrow> res = Inr r
      | Inl e \<Rightarrow> (case grpc_hop isGRPC say (Some e) of Some e' \<Rightarrow> res = Inl e' | None \<Rightarrow> isl res))"

lemma arrives_error:
  assumes "arrives ((None, as_goerror say (ToGRPC isGRPC (Some e))), w) (x, w')"
  shows "w' = w" "comes_back isGRPC say (Inl e) (map_sum (convert_err Zara) id x)"
  using assms
  by (cases "as_goerror say (ToGRPC isGRPC (Some e))"; cases x; simp add: comes_back_def grpc_hop_def convert_err_def FromGRPCStatus_def)+

lemma unary_method_iff:
  "unary_method S attach c req w res w' \<longleftrightarrow>
   (\<exists>x. gw_Invoke S (outgoing attach c) req w x w' \<and> res = map_sum (convert_err Zara) id x)"
proof
  assume "unary_method S attach c req w res w'"
  then show "\<exists>x. gw_Invoke S (outgoing attach c) req w x w' \<and> res = map_sum (convert_err Zara) id x"
    by cases (force intro: exI [of _ "Inl _"] exI [of _ "Inr _"])+
next
  assume "\<exists>x. gw_Invoke S (outgoing attach c) req w x w' \<and> res = map_sum (convert_err Zara) id x"
  then obtain x where "gw_Invoke S (outgoing attach c) req w x w'" "res = map_sum (convert_err Zara) id x" by blast
  then show "unary_method S attach c req w res w'" by (cases x) (auto intro: unary_method.intros)
qed

text \<open>
  C4. A unary call through the gateway does what a call of the service behind the server's interceptors does, on the
  context that arrived: the checks run first and in order, the service runs at most once and only if all of them pass, with
  the context they derived and the metadata that arrived; a response comes back as it is, and a rejection or an error of the
  service converted once, however many conversions it went through.
\<close>

theorem gateway_hop:
  assumes transport: "\<And>gctx x w'. gw_Invoke S gctx req w x w' \<Longrightarrow>
      arrives (unary_handler incoming isGRPC say m svc (arrive gctx) (\<lambda>w. (Inr req, w))
        (Some (bridge_interceptor incoming isGRPC say (map (\<lambda>g. gate_interceptor (on_world g)) gs))) w) (x, w')"
    and grpc: "\<And>t v. isGRPC (GRPCError t v)"
    and call: "unary_method S attach c req w res w'"
  shows "case gates gs (CtxFor incoming (arrive (outgoing attach c)) m) w of
      (Inl e, w1) \<Rightarrow> w' = w1 \<and> comes_back isGRPC say (Inl e) res
    | (Inr c', w1) \<Rightarrow>
        (case svc (CtxFor incoming (fst c') m) req w1 of (y, w2) \<Rightarrow> w' = w2 \<and> comes_back isGRPC say y res)"
proof -
  from call obtain x where x: "gw_Invoke S (outgoing attach c) req w x w'" "res = map_sum (convert_err Zara) id x"
    by (auto simp: unary_method_iff)
  note arrived = transport [OF x(1), unfolded unary_handler_bridge [where isGRPC = isGRPC, OF grpc]]
  obtain g w1 where g: "gates gs (CtxFor incoming (arrive (outgoing attach c)) m) w = (g, w1)" by force
  show ?thesis
  proof (cases g)
    case (Inl e)
    with g arrived have "arrives ((None, as_goerror say (ToGRPC isGRPC (Some e))), w1) (x, w')" by simp
    from arrives_error [OF this] g Inl x(2) show ?thesis by simp
  next
    case (Inr c')
    obtain y w2 where y: "svc (CtxFor incoming (fst c') m) req w1 = (y, w2)" by force
    show ?thesis
    proof (cases y)
      case (Inl e)
      with g y arrived \<open>g = Inr c'\<close> have "arrives ((None, as_goerror say (ToGRPC isGRPC (Some e))), w2) (x, w')" by simp
      from arrives_error [OF this] g y Inl x(2) \<open>g = Inr c'\<close> show ?thesis by simp
    next
      case (Inr r)
      with g y arrived \<open>g = Inr c'\<close> x(2) show ?thesis by (simp add: comes_back_def)
    qed
  qed
qed

section \<open>Metadata through the gateway\<close>

definition md_values :: "(string \<times> string list) list \<Rightarrow> string \<Rightarrow> string list" where
  \<comment> \<open>the values of a key, in any spelling\<close>
  "md_values md k = concat (map snd (filter (\<lambda>(k', vs). canonical_key k' = canonical_key k) md))"

definition carries_metadata ::
    "('c Context \<Rightarrow> (string \<times> string list) list) \<Rightarrow> ('c Context \<Rightarrow> 'c Context) \<Rightarrow> ('c Context \<Rightarrow> string list \<Rightarrow> 'c Context)
     \<Rightarrow> (string \<Rightarrow> bool) \<Rightarrow> 'c Context \<Rightarrow> bool" where
  \<comment> \<open>grpc-go: the pairs appended to a context without outgoing metadata arrive, the values of a key in their order, but for
      the keys it reserves for itself\<close>
  "carries_metadata incoming arrive attach reserved ctx \<longleftrightarrow>
     (\<forall>k. \<not> reserved k \<longrightarrow> md_values (incoming (arrive ctx)) k = [] \<and>
        (\<forall>pairs. md_values (incoming (arrive (attach ctx pairs))) k =
           map snd (filter (\<lambda>(k', v). canonical_key k' = canonical_key k) (pair_up pairs))))"

lemma CtxFor_values: "header_values (Ctx_Header (CtxFor incoming ctx m :: ('c, 'm) Ctx)) k = md_values (incoming ctx) k"
  using header_values_fold_pairs [of "incoming ctx" "[]" k]
  by (simp add: CtxFor_def Ctx_Header_def WithSpec_def WithProtocol_def NewCtx_def header_values_def md_values_def Let_def)

lemma forwarded_values:
  assumes "distinct (map fst h)" "\<forall>k' \<in> fst ` set h. canonical_key k' = k' \<and> list_all token_byte k'"
  shows "map snd (filter (\<lambda>(k', v). canonical_key k' = canonical_key k)
      (concat (map (\<lambda>(k', vs). if isHopByHop k' then [] else map (Pair (to_lower k')) vs) h))) =
    (if isHopByHop k then [] else header_values h k)"
  using assms
proof (induction h)
  case Nil
  show ?case by (simp add: header_values_def)
next
  case (Cons x h)
  obtain k' vs where x: "x = (k', vs)" by (cases x)
  with Cons.prems have k': "canonical_key k' = k'" "list_all token_byte k'" by auto
  then have "canonical_key (to_lower k') = k'" using canonical_key_lower by simp
  then have head: "map snd (filter (\<lambda>(k'', v). canonical_key k'' = canonical_key k) (map (Pair (to_lower k')) vs)) =
      (if k' = canonical_key k then vs else [])"
    by (induction vs) auto
  have "map_of h (canonical_key k) = None" if "k' = canonical_key k"
    using Cons.prems(1) that x by (simp add: map_of_eq_None_iff)
  then have vals: "header_values (x # h) k = (if k' = canonical_key k then vs else header_values h k)"
    "k' = canonical_key k \<Longrightarrow> header_values h k = []"
    by (auto simp: header_values_def x)
  have hop: "k' = canonical_key k \<Longrightarrow> isHopByHop k' = isHopByHop k"
    using canonical_fold [OF k'(2)] isHopByHop_fold by blast
  have rest: "map snd (filter (\<lambda>(k', v). canonical_key k' = canonical_key k)
      (concat (map (\<lambda>(k', vs). if isHopByHop k' then [] else map (Pair (to_lower k')) vs) h))) =
      (if isHopByHop k then [] else header_values h k)"
    using Cons by simp
  show ?case
    unfolding x list.map concat.simps filter_append map_append case_prod_conv rest
    using head vals hop by (cases "k' = canonical_key k"; cases "isHopByHop k'") (simp_all add: x)
qed

text \<open>
  C21. What a service behind a gateway reads from its headers is what the HTTP request had there: for every key, in any
  spelling, the values in their order, whatever order the maps are visited in; nothing for hop-by-hop headers, the body's
  length and encoding among them; and nothing that the request did not have.
\<close>

theorem gateway_metadata:
  assumes "headers_ok (or_empty (mHeader (Ctx_Meta c)))" "\<forall>k' \<in> fst ` set (or_empty (mHeader (Ctx_Meta c))). list_all token_byte k'"
    and "carries_metadata incoming arrive attach reserved (Ctx_Context c)" "\<not> reserved k"
  shows "header_values (Ctx_Header (CtxFor incoming (arrive (outgoing attach c)) m :: ('c, 'm) Ctx)) k =
    (if isHopByHop k then [] else header_values (or_empty (mHeader (Ctx_Meta (c :: ('c, 'm) Ctx)))) k)"
proof -
  let ?h = "or_empty (mHeader (Ctx_Meta c))" and ?pairs = "HeaderPairsFromMeta (Ctx_Meta c)"
  have sent: "pair_up (case ?pairs of None \<Rightarrow> [] | Some ps \<Rightarrow> ps) =
      concat (map (\<lambda>(k, vs). if isHopByHop k then [] else map (Pair (to_lower k)) vs) ?h)"
    by (rule HeaderPairs_exact [THEN conjunct1])
  have "md_values (incoming (arrive (outgoing attach c))) k =
      map snd (filter (\<lambda>(k', v). canonical_key k' = canonical_key k) (pair_up (case ?pairs of None \<Rightarrow> [] | Some ps \<Rightarrow> ps)))"
    using assms(3,4) unfolding carries_metadata_def by (cases ?pairs) (auto simp: outgoing_def)
  also have "\<dots> = (if isHopByHop k then [] else header_values ?h k)"
    unfolding sent using assms(1,2) by (intro forwarded_values) (auto simp: headers_ok_def)
  finally show ?thesis unfolding CtxFor_values .
qed

section \<open>A gateway to apply the theorems to\<close>

definition grpc_made :: "'d goerror \<Rightarrow> bool" where
  "grpc_made e = (case e of GRPCError _ _ \<Rightarrow> True | _ \<Rightarrow> False)"

definition book_service :: "(string list, unit) Ctx \<Rightarrow> nat \<Rightarrow> nat list \<Rightarrow> (string goerror + nat) \<times> nat list" where
  \<comment> \<open>knows one book, and keeps a list of the numbers it was asked for\<close>
  "book_service c n w = ((if n = 1 then Inr 100 else Inl (RpcError CodeNotFound ''no such book'' None None [''shelf''])), n # w)"

definition key_check :: "(string list, unit) Ctx \<Rightarrow> nat list \<Rightarrow> (string goerror + (string list, unit) Ctx) \<times> nat list" where
  \<comment> \<open>an interceptor's check: the call needs a key\<close>
  "key_check c w = ((if Ctx_HeaderGet c ''X-Key'' = [] then Inl (RpcError CodeUnauthenticated ''no key'' None None []) else Inr c), w)"

definition plain_ctx :: "string list Context" where
  "plain_ctx = \<lparr>ctxDeadline = None, requestMetaValue = None, claimsValue = None, otherValues = \<lambda>k. None\<rparr>"

definition attach_pairs :: "string list Context \<Rightarrow> string list \<Rightarrow> string list Context" where
  \<comment> \<open>outgoing metadata, and below the incoming metadata, in the value of the context\<close>
  "attach_pairs ctx pairs = ctx\<lparr>claimsValue := Some pairs\<rparr>"

definition incoming_pairs :: "string list Context \<Rightarrow> (string \<times> string list) list" where
  "incoming_pairs ctx = (case claimsValue ctx of None \<Rightarrow> [] | Some ps \<Rightarrow> map (\<lambda>(k, v). (k, [v])) (pair_up ps))"

lemma carries_pairs: "carries_metadata incoming_pairs id attach_pairs (\<lambda>k. False) plain_ctx"
proof -
  have "concat (map snd (filter (\<lambda>(k', vs). canonical_key k' = canonical_key k) (map (\<lambda>(k, v). (k, [v])) kvs))) =
      map snd (filter (\<lambda>(k', v). canonical_key k' = canonical_key k) kvs)" for k and kvs :: "(string \<times> string) list"
    by (induction kvs) auto
  then show ?thesis
    by (simp add: carries_metadata_def md_values_def incoming_pairs_def attach_pairs_def plain_ctx_def)
qed

definition keyed_call :: "(string list, unit) Ctx" where
  "keyed_call = NewCtx plain_ctx (empty_meta\<lparr>mHeader := Some [(''X-Key'', [''secret'']), (''Content-Length'', [''0''])]\<rparr>) (Some JSONCodec)"

lemma gateway_metadata_witness:
  "header_values (Ctx_Header (CtxFor incoming_pairs (id (outgoing attach_pairs keyed_call)) ''/shop.Books/Get'' :: (string list, unit) Ctx)) ''x-key'' =
     [''secret'']"
proof -
  have c: "Ctx_Context keyed_call = plain_ctx" "or_empty (mHeader (Ctx_Meta keyed_call)) = [(''X-Key'', [''secret'']), (''Content-Length'', [''0''])]"
    by (simp_all add: keyed_call_def NewCtx_def Ctx_Context_def Ctx_Meta_def or_empty_def)
  have k: "canonical_key ''X-Key'' = ''X-Key''" "canonical_key ''Content-Length'' = ''Content-Length''" "canonical_key ''x-key'' = ''X-Key''"
    "list_all token_byte ''X-Key''" "list_all token_byte ''Content-Length''" "\<not> isHopByHop ''x-key''"
    by code_simp+
  have "headers_ok (or_empty (mHeader (Ctx_Meta keyed_call)))" by (simp add: c k headers_ok_def)
  moreover have "\<forall>k' \<in> fst ` set (or_empty (mHeader (Ctx_Meta keyed_call))). list_all token_byte k'"
    unfolding c by (simp add: k(4,5) del: list.pred_inject)
  moreover have "carries_metadata incoming_pairs id attach_pairs (\<lambda>k. False) (Ctx_Context keyed_call)"
    unfolding c by (rule carries_pairs)
  ultimately have "header_values (Ctx_Header (CtxFor incoming_pairs (id (outgoing attach_pairs keyed_call)) ''/shop.Books/Get'' :: (string list, unit) Ctx)) ''x-key'' =
      (if isHopByHop ''x-key'' then [] else header_values (or_empty (mHeader (Ctx_Meta keyed_call))) ''x-key'')"
    by (rule gateway_metadata) simp
  then show ?thesis using k(6) unfolding c header_values_def k(3) by simp
qed

definition books_over_grpc :: "(string list, nat, nat, string, nat list) gw_streams" where
  \<comment> \<open>the unary client of a server of books behind the check of the key; the streams are not used\<close>
  "books_over_grpc =
     \<lparr>gw_Receive = (\<lambda>w x w'. False), gw_Send = (\<lambda>m w x w'. False), gw_Recv = (\<lambda>w x w'. False), gw_ClientSend = (\<lambda>m w x w'. False),
      gw_CloseSend = (\<lambda>w w'. False), gw_CloseAndRecv = (\<lambda>w x w'. False), gw_Open = (\<lambda>ctx req w x w'. False),
      gw_Invoke = (\<lambda>ctx req w x w'.
        arrives (unary_handler incoming_pairs grpc_made (\<lambda>c m. m) ''/shop.Books/Get'' book_service (id ctx) (\<lambda>w. (Inr req, w))
          (Some (bridge_interceptor incoming_pairs grpc_made (\<lambda>c m. m) (map (\<lambda>g. gate_interceptor (on_world g)) [key_check]))) w) (x, w'))\<rparr>"

lemma key_arrives: "Ctx_HeaderGet (CtxFor incoming_pairs (outgoing attach_pairs keyed_call) m :: (string list, unit) Ctx) ''X-Key'' = ''secret''"
proof -
  have "isHopByHop ''X-Key'' = False" "isHopByHop ''Content-Length'' = True" "to_lower ''X-Key'' = ''x-key''" by code_simp+
  then have "outgoing attach_pairs keyed_call = attach_pairs plain_ctx [''x-key'', ''secret'']"
    by (simp add: outgoing_def keyed_call_def NewCtx_def Ctx_Context_def Ctx_Meta_def or_empty_def HeaderPairsFromMeta_def)
  moreover have "canonical_key ''x-key'' = ''X-Key''" "canonical_key ''X-Key'' = ''X-Key''" by code_simp+
  ultimately show ?thesis
    using CtxFor_values [of incoming_pairs "attach_pairs plain_ctx [''x-key'', ''secret'']" m "''X-Key''", where 'm = unit]
    by (simp add: Ctx_HeaderGet_def header_get_def md_values_def incoming_pairs_def attach_pairs_def)
qed

lemma gateway_hop_witness:
  "\<exists>w'. unary_method books_over_grpc attach_pairs keyed_call 2 []
      (Inl (RpcError CodeNotFound ''rpc error: not_found: no such book'' None None [''shelf''])) w' \<and> w' = [2]"
proof -
  let ?e = "RpcError CodeNotFound ''no such book'' None None [''shelf'']"
  let ?answer = "\<lambda>ctx. unary_handler incoming_pairs grpc_made (\<lambda>c m. m) ''/shop.Books/Get'' book_service (id ctx) (\<lambda>w. (Inr 2, w))
          (Some (bridge_interceptor incoming_pairs grpc_made (\<lambda>c m. m) (map (\<lambda>g. gate_interceptor (on_world g)) [key_check]))) []"
  have grpc: "grpc_made (GRPCError t v :: string goerror)" for t v by (simp add: grpc_made_def)
  have nf: "code_String 5 = ''not_found''" by code_simp
  have passes: "gates [key_check] (CtxFor incoming_pairs (id (outgoing attach_pairs keyed_call)) ''/shop.Books/Get'') [] =
      (Inr (CtxFor incoming_pairs (outgoing attach_pairs keyed_call) ''/shop.Books/Get''), [])"
    by (simp add: key_check_def key_arrives)
  let ?g = "GRPCError ''rpc error: not_found: no such book'' (StatusView (RUint 5) ''rpc error: not_found: no such book'' [Some ''shelf''])"
  have hop: "as_goerror (\<lambda>c m. m) (ToGRPC grpc_made (Some ?e)) = Some ?g"
    by (simp add: as_goerror_def ToGRPC_def grpc_made_def status_Code_def nf to_int32_def)
  have "?answer (outgoing attach_pairs keyed_call) = ((None, Some ?g), [2])"
    unfolding unary_handler_bridge [where isGRPC = grpc_made, OF grpc] passes by (simp add: book_service_def hop)
  then have "gw_Invoke books_over_grpc (outgoing attach_pairs keyed_call) 2 [] (Inl ?g) [2]"
    by (simp add: books_over_grpc_def)
  then have m: "unary_method books_over_grpc attach_pairs keyed_call 2 [] (Inl (convert_err Zara ?g)) [2]" by (rule invoke_fails)
  let ?res = "Inl (convert_err Zara ?g) :: string goerror + nat"
  have "case gates [key_check] (CtxFor incoming_pairs (id (outgoing attach_pairs keyed_call)) ''/shop.Books/Get'') [] of
      (Inl e, w1) \<Rightarrow> [2] = w1 \<and> comes_back grpc_made (\<lambda>c m. m) (Inl e) ?res
    | (Inr c', w1) \<Rightarrow>
        (case book_service (CtxFor incoming_pairs (fst c') ''/shop.Books/Get'') 2 w1 of
          (y, w2) \<Rightarrow> [2] = w2 \<and> comes_back grpc_made (\<lambda>c m. m) y ?res)"
    by (rule gateway_hop [where isGRPC = grpc_made and incoming = incoming_pairs and say = "\<lambda>c m. m" and svc = book_service and
        m = "''/shop.Books/Get''" and arrive = id and gs = "[key_check]", OF _ grpc m]) (simp add: books_over_grpc_def)
  then have "comes_back grpc_made (\<lambda>c m. m) (Inl ?e) ?res"
    unfolding passes by (simp add: book_service_def)
  then have "convert_err Zara ?g = RpcError CodeNotFound ''rpc error: not_found: no such book'' None None [''shelf'']"
    using grpc_hop_error [of ?e ?e grpc_made "\<lambda>c m. m"] by (simp add: comes_back_def grpc_made_def nf)
  with m show ?thesis by simp
qed

end
