(* ===== verification/Lifecycle.thy ===== *)
theory Lifecycle
  imports Metadata
begin

text \<open>
  The HTTP server around a handler (\<open>kernel/lifecycle.go\<close>): its options, its defaults, and which of \<open>net/http\<close>'s loops it
  runs. Serving and shutting down are \<open>net/http\<close>'s, on the state \<open>'w\<close> of the world; loading a key pair is \<open>crypto/tls\<close>'s.
\<close>

record ('h, 'k) http_Server =
  hs_Addr :: string
  hs_Handler :: 'h
  hs_ReadTimeout :: int
  hs_WriteTimeout :: int
  hs_IdleTimeout :: int
  hs_ReadHeaderTimeout :: int
  hs_MaxHeaderBytes :: int
  hs_TLSConfig :: "'k list option" \<comment> \<open>its certificates\<close>

record ('h, 'k) kernel_Server =
  ks_inner :: "('h, 'k) http_Server"
  ks_addr :: string

type_synonym ('h, 'k) server_option = "('h, 'k) kernel_Server \<Rightarrow> ('h, 'k) kernel_Server option"
  \<comment> \<open>\<open>None\<close> is \<open>log.Fatalf\<close>: the process ends\<close>

definition on_inner :: "(('h, 'k) http_Server \<Rightarrow> ('h, 'k) http_Server) \<Rightarrow> ('h, 'k) server_option" where
  "on_inner f s = Some (s\<lparr>ks_inner := f (ks_inner s)\<rparr>)"

definition WithReadTimeout :: "int \<Rightarrow> ('h, 'k) server_option" where
  "WithReadTimeout d = on_inner (\<lambda>i. i\<lparr>hs_ReadTimeout := d\<rparr>)"

definition WithWriteTimeout :: "int \<Rightarrow> ('h, 'k) server_option" where
  "WithWriteTimeout d = on_inner (\<lambda>i. i\<lparr>hs_WriteTimeout := d\<rparr>)"

definition WithIdleTimeout :: "int \<Rightarrow> ('h, 'k) server_option" where
  "WithIdleTimeout d = on_inner (\<lambda>i. i\<lparr>hs_IdleTimeout := d\<rparr>)"

definition WithTLS :: "(string \<Rightarrow> string \<Rightarrow> string + 'k) \<Rightarrow> string \<Rightarrow> string \<Rightarrow> ('h, 'k) server_option" where
  \<comment> \<open>the first argument is \<open>tls.LoadX509KeyPair\<close>\<close>
  "WithTLS load certFile keyFile s =
     (case load certFile keyFile of Inl e \<Rightarrow> None | Inr cert \<Rightarrow> on_inner (\<lambda>i. i\<lparr>hs_TLSConfig := Some [cert]\<rparr>) s)"

definition WithMaxHeaderBytes :: "int \<Rightarrow> ('h, 'k) server_option" where
  "WithMaxHeaderBytes n = on_inner (\<lambda>i. i\<lparr>hs_MaxHeaderBytes := n\<rparr>)"

fun apply_server_options :: "('h, 'k) server_option list \<Rightarrow> ('h, 'k) kernel_Server \<Rightarrow> ('h, 'k) kernel_Server option" where
  "apply_server_options [] s = Some s"
| "apply_server_options (opt # opts) s = (case opt s of None \<Rightarrow> None | Some s \<Rightarrow> apply_server_options opts s)"

definition kernel_New :: "string \<Rightarrow> 'h \<Rightarrow> ('h, 'k) server_option list \<Rightarrow> ('h, 'k) kernel_Server option" where
  "kernel_New addr handler opts =
     apply_server_options opts
       \<lparr>ks_inner = \<lparr>hs_Addr = addr, hs_Handler = handler, hs_ReadTimeout = 10 * Second, hs_WriteTimeout = 30 * Second,
          hs_IdleTimeout = 120 * Second, hs_ReadHeaderTimeout = 5 * Second, hs_MaxHeaderBytes = 0, hs_TLSConfig = None\<rparr>,
        ks_addr = addr\<rparr>"

record ('h, 'k, 'c, 'w) net_http =
  nh_ListenAndServe :: "('h, 'k) http_Server \<Rightarrow> 'w \<Rightarrow> string option \<times> 'w"
  nh_ListenAndServeTLS :: "string \<Rightarrow> string \<Rightarrow> ('h, 'k) http_Server \<Rightarrow> 'w \<Rightarrow> string option \<times> 'w"
  nh_Shutdown :: "'c \<Rightarrow> ('h, 'k) http_Server \<Rightarrow> 'w \<Rightarrow> string option \<times> 'w"

definition kernel_ListenAndServe :: "('h, 'k, 'c, 'w) net_http \<Rightarrow> ('h, 'k) kernel_Server \<Rightarrow> 'w \<Rightarrow> string option \<times> 'w" where
  "kernel_ListenAndServe N s =
     (if hs_TLSConfig (ks_inner s) \<noteq> None then nh_ListenAndServeTLS N [] [] (ks_inner s) else nh_ListenAndServe N (ks_inner s))"

definition kernel_Shutdown :: "('h, 'k, 'c, 'w) net_http \<Rightarrow> 'c \<Rightarrow> ('h, 'k) kernel_Server \<Rightarrow> 'w \<Rightarrow> string option \<times> 'w" where
  "kernel_Shutdown N ctx s = nh_Shutdown N ctx (ks_inner s)"

definition kernel_Inner :: "('h, 'k) kernel_Server \<Rightarrow> ('h, 'k) http_Server" where
  "kernel_Inner s = ks_inner s"

text \<open>The options touch neither the handler nor the address, and a server whose options load no key pair serves in the clear.\<close>

lemma option_keeps:
  "WithReadTimeout d s = Some s' \<Longrightarrow> hs_Handler (ks_inner s') = hs_Handler (ks_inner s) \<and> hs_TLSConfig (ks_inner s') = hs_TLSConfig (ks_inner s)"
  "WithWriteTimeout d s = Some s' \<Longrightarrow> hs_Handler (ks_inner s') = hs_Handler (ks_inner s) \<and> hs_TLSConfig (ks_inner s') = hs_TLSConfig (ks_inner s)"
  "WithIdleTimeout d s = Some s' \<Longrightarrow> hs_Handler (ks_inner s') = hs_Handler (ks_inner s) \<and> hs_TLSConfig (ks_inner s') = hs_TLSConfig (ks_inner s)"
  "WithMaxHeaderBytes n s = Some s' \<Longrightarrow> hs_Handler (ks_inner s') = hs_Handler (ks_inner s) \<and> hs_TLSConfig (ks_inner s') = hs_TLSConfig (ks_inner s)"
  "WithTLS load c k s = Some s' \<Longrightarrow> hs_Handler (ks_inner s') = hs_Handler (ks_inner s) \<and> hs_TLSConfig (ks_inner s') \<noteq> None"
  by (auto simp: WithReadTimeout_def WithWriteTimeout_def WithIdleTimeout_def WithMaxHeaderBytes_def WithTLS_def on_inner_def
      split: sum.splits)

end
