(* ===== verification/Pools.thy ===== *)
theory Pools
  imports Prelude "HOL-Library.Multiset" "HOL-Library.Word"
begin

text \<open>
  The pools of buffers (\<open>internal/xsync/pool.go\<close>, \<open>internal/xsync/buffers.go\<close>). Objects live in a heap, under the
  numbers of their pointers. \<open>sync.Pool\<close> hands out any object it holds, or none, and may drop what it holds at any
  time: which pointer its \<open>Get\<close> returns is a parameter \<open>got\<close> of an operation, and a step of the relation below
  chooses it.
\<close>

record 'b heap_pool =
  hp_heap :: "nat \<Rightarrow> 'b" \<comment> \<open>what the pointers point to\<close>
  hp_next :: nat \<comment> \<open>the pointers below it are allocated\<close>
  hp_pooled :: "nat multiset" \<comment> \<open>\<open>impl\<close>: the pointers in the pool\<close>

record 'b Pool =
  Pool_New :: "'b option" \<comment> \<open>the value \<open>New\<close> constructs\<close>
  Pool_Reset :: "('b \<Rightarrow> 'b) option"
  Pool_zero :: 'b \<comment> \<open>the zero value of the type\<close>

definition Pool_Get :: "'b Pool \<Rightarrow> nat option \<Rightarrow> 'b heap_pool \<Rightarrow> nat \<times> 'b heap_pool" where
  "Pool_Get p got st =
     (case got of
        Some v \<Rightarrow> (v, st\<lparr>hp_pooled := hp_pooled st - {#v#}\<rparr>)
      | None \<Rightarrow>
          (hp_next st, st\<lparr>hp_heap := (hp_heap st)(hp_next st := case Pool_New p of None \<Rightarrow> Pool_zero p | Some v \<Rightarrow> v),
             hp_next := Suc (hp_next st)\<rparr>))"

definition Pool_Put :: "'b Pool \<Rightarrow> nat \<Rightarrow> 'b heap_pool \<Rightarrow> 'b heap_pool" where
  "Pool_Put p v st =
     (let st = (case Pool_Reset p of Some f \<Rightarrow> st\<lparr>hp_heap := (hp_heap st)(v := f (hp_heap st v))\<rparr> | None \<Rightarrow> st)
      in st\<lparr>hp_pooled := add_mset v (hp_pooled st)\<rparr>)"

section \<open>Buffers\<close>

record buffer =
  buf_data :: string \<comment> \<open>the unread bytes of a \<open>bytes.Buffer\<close>\<close>
  buf_Cap :: nat

definition new_buffer :: buffer where
  "new_buffer = \<lparr>buf_data = [], buf_Cap = 0\<rparr>"

definition NewBuffer :: "buffer Pool" where
  \<comment> \<open>its maximum is the first argument of the operations\<close>
  "NewBuffer = \<lparr>Pool_New = Some new_buffer, Pool_Reset = None, Pool_zero = new_buffer\<rparr>"

definition Buffer_Get :: "nat option \<Rightarrow> buffer heap_pool \<Rightarrow> nat \<times> buffer heap_pool" where
  "Buffer_Get got st = Pool_Get NewBuffer got st"

definition Buffer_Put :: "nat \<Rightarrow> nat \<Rightarrow> buffer heap_pool \<Rightarrow> buffer heap_pool" where
  "Buffer_Put mx b st =
     (let v = (hp_heap st b)\<lparr>buf_data := []\<rparr>;
          v = (if buf_Cap v > mx then new_buffer else v)
      in Pool_Put NewBuffer b (st\<lparr>hp_heap := (hp_heap st)(b := v)\<rparr>))"

section \<open>Byte slices\<close>

record slice =
  sl_len :: nat
  sl_array :: string \<comment> \<open>from its first byte to the end of its capacity\<close>

abbreviation sl_cap :: "slice \<Rightarrow> nat" where
  "sl_cap s \<equiv> length (sl_array s)"

definition nil_slice :: slice where
  "nil_slice = \<lparr>sl_len = 0, sl_array = []\<rparr>"

definition sl_bytes :: "slice \<Rightarrow> string" where
  "sl_bytes s = take (sl_len s) (sl_array s)"

definition make_bytes :: "nat \<Rightarrow> slice" where
  "make_bytes n = \<lparr>sl_len = n, sl_array = replicate n (CHR 0x00)\<rparr>"

definition NewBytes :: "slice Pool" where
  "NewBytes = \<lparr>Pool_New = Some nil_slice, Pool_Reset = None, Pool_zero = nil_slice\<rparr>"

definition Bytes_GetN :: "nat \<Rightarrow> nat option \<Rightarrow> slice heap_pool \<Rightarrow> nat \<times> slice heap_pool" where
  "Bytes_GetN n got st =
     (let (b, st) = Pool_Get NewBytes got st; v = hp_heap st b;
          v = (if sl_cap v < n then make_bytes n else v\<lparr>sl_len := n\<rparr>)
      in (b, st\<lparr>hp_heap := (hp_heap st)(b := v)\<rparr>))"

definition Bytes_Put :: "nat \<Rightarrow> nat \<Rightarrow> slice heap_pool \<Rightarrow> slice heap_pool" where
  "Bytes_Put mx b st =
     (if sl_cap (hp_heap st b) > mx then st\<lparr>hp_heap := (hp_heap st)(b := nil_slice)\<rparr>
      else Pool_Put NewBytes b (st\<lparr>hp_heap := (hp_heap st)(b := (hp_heap st b)\<lparr>sl_len := 0\<rparr>)\<rparr>))"

section \<open>Callers\<close>

text \<open>
  The pool and its callers: the set of pointers they hold. A caller gets a slice, writes to it or has it grow, and puts it
  back once; the collector may empty the pool.
\<close>

type_synonym bytes_state = "slice heap_pool \<times> nat set"

inductive bytes_step :: "nat \<Rightarrow> bytes_state \<Rightarrow> bytes_state \<Rightarrow> bool" for mx where
  bytes_get: "got = None \<or> (\<exists>b. got = Some b \<and> b \<in># hp_pooled st) \<Longrightarrow> Bytes_GetN n got st = (b, st') \<Longrightarrow>
    bytes_step mx (st, held) (st', insert b held)"
| bytes_write: "b \<in> held \<Longrightarrow> sl_len s \<le> sl_cap s \<Longrightarrow>
    bytes_step mx (st, held) (st\<lparr>hp_heap := (hp_heap st)(b := s)\<rparr>, held)"
| bytes_put: "b \<in> held \<Longrightarrow> bytes_step mx (st, held) (Bytes_Put mx b st, held - {b})"
| bytes_collect: "kept \<subseteq># hp_pooled st \<Longrightarrow> bytes_step mx (st, held) (st\<lparr>hp_pooled := kept\<rparr>, held)"

definition bytes_start :: bytes_state where
  "bytes_start = (\<lparr>hp_heap = \<lambda>_. nil_slice, hp_next = 0, hp_pooled = {#}\<rparr>, {})"

definition bytes_inv :: "nat \<Rightarrow> bytes_state \<Rightarrow> bool" where
  \<comment> \<open>nobody holds a pooled slice, and no pooled slice is there twice, has a length, or exceeds the maximum\<close>
  "bytes_inv mx = (\<lambda>(st, held).
     (\<forall>b \<in># hp_pooled st. b \<notin> held \<and> b < hp_next st \<and> count (hp_pooled st) b = 1 \<and>
        sl_len (hp_heap st b) = 0 \<and> sl_cap (hp_heap st b) \<le> mx) \<and>
     (\<forall>b \<in> held. b < hp_next st))"

lemma bytes_start_inv: "bytes_inv mx bytes_start"
  by (simp add: bytes_inv_def bytes_start_def)

lemma GetN_cases:
  assumes "got = None \<or> (\<exists>b. got = Some b \<and> b \<in># hp_pooled st)" "Bytes_GetN n got st = (b, st')"
  obtains (fresh) "got = None" "b = hp_next st" "hp_pooled st' = hp_pooled st" "hp_next st' = Suc (hp_next st)"
      "\<And>c. c \<noteq> b \<Longrightarrow> hp_heap st' c = hp_heap st c"
    | (pooled) "got = Some b" "b \<in># hp_pooled st" "hp_pooled st' = hp_pooled st - {#b#}" "hp_next st' = hp_next st"
      "\<And>c. c \<noteq> b \<Longrightarrow> hp_heap st' c = hp_heap st c"
  using assms by (cases got) (auto simp: Bytes_GetN_def Pool_Get_def NewBytes_def Let_def)

lemma GetN_slice:
  assumes "Bytes_GetN n got st = (b, st')"
  shows "sl_len (hp_heap st' b) = n \<and> n \<le> sl_cap (hp_heap st' b)"
  using assms by (cases got) (auto simp: Bytes_GetN_def Pool_Get_def NewBytes_def make_bytes_def Let_def)

lemma bytes_step_inv:
  assumes "bytes_step mx s s'" "bytes_inv mx s"
  shows "bytes_inv mx s'"
  using assms
proof (induction rule: bytes_step.induct)
  case (bytes_get got st n b st' held)
  from bytes_get.hyps show ?case
  proof (cases rule: GetN_cases)
    case fresh
    with bytes_get.prems show ?thesis by (auto simp: bytes_inv_def less_SucI)
  next
    case pooled
    with bytes_get.prems have "count (hp_pooled st) b = 1" "b < hp_next st" by (auto simp: bytes_inv_def)
    then have "b \<notin># hp_pooled st'" unfolding pooled(3) by (simp add: count_eq_zero_iff [symmetric])
    then have other: "c \<in># hp_pooled st' \<Longrightarrow> c \<noteq> b \<and> c \<in># hp_pooled st \<and> count (hp_pooled st') c = count (hp_pooled st) c" for c
      unfolding pooled(3) by (cases "c = b") (auto dest: in_diffD)
    show ?thesis
      using bytes_get.prems pooled(2,4,5) other by (simp add: bytes_inv_def)
  qed
next
  case (bytes_put b held st)
  then have "b \<notin># hp_pooled st" by (auto simp: bytes_inv_def)
  then have "count (hp_pooled st) b = 0" by (simp add: not_in_iff)
  with bytes_put show ?case
    by (auto simp: bytes_inv_def Bytes_Put_def Pool_Put_def NewBytes_def nil_slice_def)
next
  case (bytes_collect kept st held)
  have "c \<in># hp_pooled st \<and> count kept c = count (hp_pooled st) c" if "c \<in># kept" for c
  proof -
    from that bytes_collect have "c \<in># hp_pooled st" by (auto dest: mset_subset_eqD)
    moreover from this bytes_collect.prems have one: "count (hp_pooled st) c = 1" by (simp add: bytes_inv_def)
    moreover have "count kept c = 1"
    proof -
      have "count kept c \<le> 1" using bytes_collect.hyps one unfolding subseteq_mset_def by (metis (no_types))
      moreover have "count kept c \<noteq> 0" using that by (simp add: count_eq_zero_iff)
      ultimately show ?thesis by linarith
    qed
    ultimately show ?thesis by simp
  qed
  with bytes_collect.prems show ?case by (simp add: bytes_inv_def)
qed (auto simp: bytes_inv_def)


text \<open>
  C29. Pooled slices are never shared: however callers get, write, grow and put back slices, and whenever the collector
  empties the pool, \<open>GetN\<close> returns a slice of the length asked for that no caller holds, and leaves the slices of the
  others alone. What waits in the pool has no length and at most the maximal capacity.
\<close>

theorem pool_exclusive:
  assumes "(bytes_step mx)\<^sup>*\<^sup>* bytes_start (st, held)" "got = None \<or> (\<exists>b. got = Some b \<and> b \<in># hp_pooled st)"
    and "Bytes_GetN n got st = (b, st')"
  shows "b \<notin> held \<and> sl_len (hp_heap st' b) = n \<and> n \<le> sl_cap (hp_heap st' b) \<and>
    (\<forall>c \<in> held. hp_heap st' c = hp_heap st c) \<and>
    (\<forall>c \<in># hp_pooled st. sl_len (hp_heap st c) = 0 \<and> sl_cap (hp_heap st c) \<le> mx)"
proof -
  from assms(1) have "bytes_inv mx (st, held)"
    by (induction rule: rtranclp_induct) (auto intro: bytes_start_inv bytes_step_inv)
  note inv = this
  from assms(2,3) have "b \<notin> held \<and> (\<forall>c \<in> held. hp_heap st' c = hp_heap st c)"
  proof (cases rule: GetN_cases)
    case fresh
    with inv have "b \<notin> held" by (auto simp: bytes_inv_def)
    with fresh(5) show ?thesis by metis
  next
    case pooled
    with inv have "b \<notin> held" by (auto simp: bytes_inv_def)
    with pooled(5) show ?thesis by metis
  qed
  with GetN_slice [OF assms(3)] inv show ?thesis by (simp add: bytes_inv_def)
qed

lemma pool_exclusive_witness:
  "\<exists>b st'. Bytes_GetN 2 (Some 0) (Bytes_Put 8 0 (snd (Bytes_GetN 4 None (fst bytes_start)))) = (b, st') \<and>
     sl_len (hp_heap st' b) = 2"
proof -
  let ?s1 = "snd (Bytes_GetN 4 None (fst bytes_start))" and ?s2 = "Bytes_Put 8 0 (snd (Bytes_GetN 4 None (fst bytes_start)))"
  have b: "Bytes_GetN 4 None (fst bytes_start) = (0, ?s1)"
    by (simp add: Bytes_GetN_def Pool_Get_def bytes_start_def Let_def)
  have "bytes_step 8 (fst bytes_start, {}) (?s1, insert 0 {})" by (rule bytes_get [OF _ b]) simp
  moreover have "bytes_step 8 (?s1, insert 0 {}) (?s2, insert 0 {} - {0})" by (rule bytes_put) simp
  ultimately have run: "(bytes_step 8)\<^sup>*\<^sup>* bytes_start (?s2, insert 0 {} - {0})"
    by (auto simp: bytes_start_def intro: converse_rtranclp_into_rtranclp)
  have "0 \<in># hp_pooled ?s2"
    by (simp add: Bytes_Put_def Bytes_GetN_def Pool_Get_def Pool_Put_def NewBytes_def make_bytes_def nil_slice_def bytes_start_def Let_def)
  moreover obtain b st' where g: "Bytes_GetN 2 (Some 0) ?s2 = (b, st')" by fastforce
  ultimately show ?thesis using pool_exclusive [OF run _ g] by auto
qed

end
