(* ===== verification/Sync.thy ===== *)
theory Sync
  imports Main "HOL-Library.Word" "HOL-Library.Multiset"
begin

text \<open>
  The typed wrappers of \<open>sync.Map\<close> and the atomic float (\<open>internal/xsync/map.go\<close>, \<open>internal/xsync/set.go\<close>,
  \<open>internal/xsync/atomic.go\<close>). \<open>sync.Map\<close> is a map whose operations happen at once; an operation of the wrapper that
  makes several of them is a sequence of steps, and the calls of several goroutines interleave.
\<close>

section \<open>Map\<close>

definition Map_Load :: "('k \<rightharpoonup> 'v) \<Rightarrow> 'v \<Rightarrow> 'k \<Rightarrow> 'v \<times> bool" where
  \<comment> \<open>\<open>z\<close> is the zero value\<close>
  "Map_Load m z k = (case m k of None \<Rightarrow> (z, False) | Some v \<Rightarrow> (v, True))"

definition Map_Store :: "'k \<Rightarrow> 'v \<Rightarrow> ('k \<rightharpoonup> 'v) \<Rightarrow> ('k \<rightharpoonup> 'v)" where
  "Map_Store k v m = m(k \<mapsto> v)"

definition impl_LoadOrStore :: "'k \<Rightarrow> 'v \<Rightarrow> ('k \<rightharpoonup> 'v) \<Rightarrow> ('v \<times> bool) \<times> ('k \<rightharpoonup> 'v)" where
  \<comment> \<open>\<open>sync.Map.LoadOrStore\<close>\<close>
  "impl_LoadOrStore k v m = (case m k of Some w \<Rightarrow> ((w, True), m) | None \<Rightarrow> ((v, False), m(k \<mapsto> v)))"

definition Map_LoadOrStore :: "'k \<Rightarrow> 'v \<Rightarrow> ('k \<rightharpoonup> 'v) \<Rightarrow> ('v \<times> bool) \<times> ('k \<rightharpoonup> 'v)" where
  \<comment> \<open>with nobody else at work; the second argument is what \<open>make\<close> returns\<close>
  "Map_LoadOrStore k new m = (case m k of Some v \<Rightarrow> ((v, True), m) | None \<Rightarrow> impl_LoadOrStore k new m)"

fun visit :: "('e \<Rightarrow> 's \<Rightarrow> bool \<times> 's) \<Rightarrow> 'e list \<Rightarrow> 's \<Rightarrow> 's" where
  \<comment> \<open>\<open>sync.Map.Range\<close> over the entries in the order it visits them, until \<open>yield\<close> says stop\<close>
  "visit yield [] s = s"
| "visit yield (e # es) s = (let (more, s) = yield e s in if more then visit yield es s else s)"

definition Map_All :: "('k \<Rightarrow> 'v \<Rightarrow> 's \<Rightarrow> bool \<times> 's) \<Rightarrow> ('k \<times> 'v) list \<Rightarrow> 's \<Rightarrow> 's" where
  "Map_All yield order = visit (\<lambda>(k, v). yield k v) order"

section \<open>Set\<close>

definition Set_Load :: "('k \<rightharpoonup> unit) \<Rightarrow> 'k \<Rightarrow> bool" where
  "Set_Load m k = (m k \<noteq> None)"

definition Set_Store :: "'k \<Rightarrow> ('k \<rightharpoonup> unit) \<Rightarrow> ('k \<rightharpoonup> unit)" where
  "Set_Store k m = m(k \<mapsto> ())"

definition Set_All :: "('k \<Rightarrow> 's \<Rightarrow> bool \<times> 's) \<Rightarrow> ('k \<times> unit) list \<Rightarrow> 's \<Rightarrow> 's" where
  "Set_All yield order = visit (\<lambda>(k, _). yield k) order"

lemma Set_Load_Store [simp]: "Set_Load (Set_Store k m) k' = (k' = k \<or> Set_Load m k')"
  by (simp add: Set_Load_def Set_Store_def)

section \<open>Goroutines that load or store\<close>

datatype 'v los_pc = LosStart | LosMake | LosDone 'v bool

inductive los_step :: "('t \<Rightarrow> 'k) \<Rightarrow> ('t \<Rightarrow> 'v) \<Rightarrow> ('k \<rightharpoonup> 'v) \<times> ('t \<Rightarrow> 'v los_pc) \<Rightarrow> ('k \<rightharpoonup> 'v) \<times> ('t \<Rightarrow> 'v los_pc) \<Rightarrow> bool"
  for key new where
  los_hit: "pc t = LosStart \<Longrightarrow> m (key t) = Some v \<Longrightarrow> los_step key new (m, pc) (m, pc(t := LosDone v True))"
| los_miss: "pc t = LosStart \<Longrightarrow> m (key t) = None \<Longrightarrow> los_step key new (m, pc) (m, pc(t := LosMake))"
| los_store: "pc t = LosMake \<Longrightarrow> impl_LoadOrStore (key t) (new t) m = ((v, loaded), m') \<Longrightarrow>
    los_step key new (m, pc) (m', pc(t := LosDone v loaded))"

definition los_inv :: "('t \<Rightarrow> 'k) \<Rightarrow> ('t \<Rightarrow> 'v) \<Rightarrow> ('k \<rightharpoonup> 'v) \<Rightarrow> ('k \<rightharpoonup> 'v) \<times> ('t \<Rightarrow> 'v los_pc) \<Rightarrow> bool" where
  \<comment> \<open>the map only grows; who is done has the map's value, and stored it or found it; one goroutine stored a new key\<close>
  "los_inv key new m0 s =
     (m0 \<subseteq>\<^sub>m fst s \<and>
      (\<forall>t v loaded. snd s t = LosDone v loaded \<longrightarrow> fst s (key t) = Some v) \<and>
      (\<forall>t v. snd s t = LosDone v False \<longrightarrow> v = new t \<and> m0 (key t) = None) \<and>
      (\<forall>t t' v v'. snd s t = LosDone v False \<longrightarrow> snd s t' = LosDone v' False \<longrightarrow> key t = key t' \<longrightarrow> t = t') \<and>
      (\<forall>k. fst s k \<noteq> m0 k \<longrightarrow> (\<exists>t v. key t = k \<and> snd s t = LosDone v False)))"

lemma los_invD:
  assumes "los_inv key new m0 (m, pc)"
  shows "m0 \<subseteq>\<^sub>m m" "pc t = LosDone v loaded \<Longrightarrow> m (key t) = Some v"
    "pc t = LosDone v False \<Longrightarrow> v = new t \<and> m0 (key t) = None"
    "pc t = LosDone v False \<Longrightarrow> pc t' = LosDone v' False \<Longrightarrow> key t = key t' \<Longrightarrow> t = t'"
    "m k \<noteq> m0 k \<Longrightarrow> \<exists>t v. key t = k \<and> pc t = LosDone v False"
  using assms unfolding los_inv_def fst_conv snd_conv by blast+

lemma los_invI:
  assumes "m0 \<subseteq>\<^sub>m m" "\<And>t v loaded. pc t = LosDone v loaded \<Longrightarrow> m (key t) = Some v"
    "\<And>t v. pc t = LosDone v False \<Longrightarrow> v = new t \<and> m0 (key t) = None"
    "\<And>t t' v v'. pc t = LosDone v False \<Longrightarrow> pc t' = LosDone v' False \<Longrightarrow> key t = key t' \<Longrightarrow> t = t'"
    "\<And>k. m k \<noteq> m0 k \<Longrightarrow> \<exists>t v. key t = k \<and> pc t = LosDone v False"
  shows "los_inv key new m0 (m, pc)"
  using assms unfolding los_inv_def fst_conv snd_conv by blast

lemma los_unstored:
  \<comment> \<open>a step that leaves the map alone\<close>
  assumes "los_inv key new m0 (m, pc)" "\<And>v. pc t \<noteq> LosDone v False" "\<And>v. x \<noteq> LosDone v False"
    and "\<And>v loaded. x = LosDone v loaded \<Longrightarrow> m (key t) = Some v"
  shows "los_inv key new m0 (m, pc(t := x))"
proof (rule los_invI)
  note inv = los_invD [OF assms(1)]
  have same: "(pc(t := x)) u = LosDone v False \<longleftrightarrow> pc u = LosDone v False" for u v using assms(2,3) by auto
  show "m0 \<subseteq>\<^sub>m m" by (rule inv)
  show "m (key u) = Some v" if "(pc(t := x)) u = LosDone v loaded" for u v loaded
    using that assms(4) inv(2) by (cases "u = t") auto
  show "v = new u \<and> m0 (key u) = None" if "(pc(t := x)) u = LosDone v False" for u v
    using that inv(3) unfolding same by blast
  show "u = u'" if "(pc(t := x)) u = LosDone v False" "(pc(t := x)) u' = LosDone v' False" "key u = key u'" for u u' v v'
    using that inv(4) unfolding same by blast
  show "\<exists>u v. key u = k \<and> (pc(t := x)) u = LosDone v False" if "m k \<noteq> m0 k" for k
    using inv(5) [OF that] unfolding same .
qed

lemma los_stored:
  assumes "los_inv key new m0 (m, pc)" "\<And>v l. pc t \<noteq> LosDone v l" "m (key t) = None"
  shows "los_inv key new m0 (m(key t \<mapsto> new t), pc(t := LosDone (new t) False))"
proof (rule los_invI)
  note inv = los_invD [OF assms(1)]
  have absent: "m0 (key t) = None" using inv(1) assms(3) by (metis domIff map_le_def)
  have other: "key u \<noteq> key t" if "pc u = LosDone v l" for u v l using inv(2) [OF that] assms(3) by auto
  show "m0 \<subseteq>\<^sub>m m(key t \<mapsto> new t)" using inv(1) absent by (auto simp: map_le_def domIff)
  show "(m(key t \<mapsto> new t)) (key u) = Some v" if "(pc(t := LosDone (new t) False)) u = LosDone v loaded" for u v loaded
    using that inv(2) [of u] other [of u] by (cases "u = t") auto
  show "v = new u \<and> m0 (key u) = None" if "(pc(t := LosDone (new t) False)) u = LosDone v False" for u v
    using that inv(3) [of u] absent by (cases "u = t") auto
  show "u = u'" if "(pc(t := LosDone (new t) False)) u = LosDone v False" "(pc(t := LosDone (new t) False)) u' = LosDone v' False"
    "key u = key u'" for u u' v v'
    using that inv(4) [of u v u' v'] other [of u] other [of u'] by (cases "u = t"; cases "u' = t") auto
  show "\<exists>u v. key u = k \<and> (pc(t := LosDone (new t) False)) u = LosDone v False" if "(m(key t \<mapsto> new t)) k \<noteq> m0 k" for k
  proof (cases "k = key t")
    case False
    with that inv(5) [of k] obtain u v where "key u = k" "pc u = LosDone v False" by auto
    moreover from this assms(2) have "u \<noteq> t" by auto
    ultimately show ?thesis by auto
  qed auto
qed

lemma los_step_inv:
  assumes "los_step key new s s'" "los_inv key new m0 s"
  shows "los_inv key new m0 s'"
  using assms
proof (induction rule: los_step.induct)
  case (los_store pc t m v loaded m')
  show ?case
  proof (cases "m (key t)")
    case (Some w)
    with los_store.hyps have "m' = m" "loaded" "v = w" by (auto simp: impl_LoadOrStore_def)
    with los_store Some show ?thesis by (intro los_unstored) auto
  next
    case None
    with los_store.hyps have "m' = m(key t \<mapsto> new t)" "v = new t" "\<not> loaded" by (auto simp: impl_LoadOrStore_def)
    with los_stored [OF los_store.prems _ None] los_store.hyps(1) show ?thesis by simp
  qed
qed (auto intro!: los_unstored)

text \<open>
  C30. However goroutines interleave in \<open>LoadOrStore\<close>, all that ask for a key return the same value, the one the map holds
  in the end; at most one of them stored it, and exactly one did if the key was absent: several may run \<open>make\<close>, and all
  but one of the results are dropped.
\<close>

theorem LoadOrStore_once:
  assumes "(los_step key new)\<^sup>*\<^sup>* (m0, \<lambda>_. LosStart) (m, pc)" "pc t = LosDone v loaded"
  shows "m (key t) = Some v \<and>
    (\<forall>t' v' loaded'. key t' = key t \<and> pc t' = LosDone v' loaded' \<longrightarrow> v' = v \<and> (\<not> loaded \<and> \<not> loaded' \<longrightarrow> t' = t)) \<and>
    (case m0 (key t) of Some w \<Rightarrow> v = w \<and> loaded
     | None \<Rightarrow> \<exists>t'. key t' = key t \<and> pc t' = LosDone (new t') False \<and> v = new t')"
proof -
  have "los_inv key new m0 (m0, \<lambda>_. LosStart)" by (rule los_invI) auto
  with assms(1) have "los_inv key new m0 (m, pc)"
    by (induction rule: rtranclp_induct) (auto intro: los_step_inv)
  note inv = los_invD [OF this]
  have mv: "m (key t) = Some v" using inv(2) [OF assms(2)] by blast
  have same: "v' = v \<and> (\<not> loaded \<and> \<not> loaded' \<longrightarrow> t' = t)" if "key t' = key t" "pc t' = LosDone v' loaded'" for t' v' loaded'
    using inv(2) [OF that(2)] mv inv(4) [of t' v' t v] that assms(2) by auto
  have "case m0 (key t) of Some w \<Rightarrow> v = w \<and> loaded
     | None \<Rightarrow> \<exists>t'. key t' = key t \<and> pc t' = LosDone (new t') False \<and> v = new t'"
  proof (cases "m0 (key t)")
    case None
    with inv(5) [of "key t"] mv obtain t' w where t': "key t' = key t" "pc t' = LosDone w False" by auto
    with inv(2,3) [OF t'(2)] mv show ?thesis using None by auto
  next
    case (Some w)
    with inv(1) mv have "v = w" by (auto simp: map_le_def dest: bspec [of _ _ "key t"])
    with Some inv(3) [of t v] assms(2) show ?thesis by auto
  qed
  with mv same show ?thesis by blast
qed


lemma LoadOrStore_once_witness:
  "\<exists>m pc. (los_step (\<lambda>_ :: bool. ()) (\<lambda>t. if t then 1 else 2 :: nat))\<^sup>*\<^sup>* (\<lambda>_. None, \<lambda>_. LosStart) (m, pc) \<and>
     pc True = LosDone 2 True \<and> pc False = LosDone 2 False \<and> m () = Some 2"
proof -
  let ?key = "\<lambda>_ :: bool. ()" and ?new = "\<lambda>t. if t then 1 else 2 :: nat"
  let ?step = "los_step ?key ?new" and ?none = "\<lambda>_. None :: nat option"
  let ?p1 = "(\<lambda>_. LosStart)(True := LosMake)"
  let ?p2 = "?p1(False := LosMake)"
  let ?p3 = "?p2(False := LosDone 2 False)"
  let ?p4 = "?p3(True := LosDone 2 True)"
  have "?step (?none, \<lambda>_. LosStart) (?none, ?p1)" "?step (?none, ?p1) (?none, ?p2)" by (rule los_miss; simp)+
  moreover have "?step (?none, ?p2) (?none(() \<mapsto> 2), ?p3)" "?step (?none(() \<mapsto> 2), ?p3) (?none(() \<mapsto> 2), ?p4)"
    by (rule los_store; simp add: impl_LoadOrStore_def)+
  ultimately have run: "?step\<^sup>*\<^sup>* (?none, \<lambda>_. LosStart) (?none(() \<mapsto> 2), ?p4)"
    by (meson converse_rtranclp_into_rtranclp rtranclp.rtrancl_refl)
  have "?p4 True = LosDone 2 True" by simp
  from LoadOrStore_once [OF run this] have "(?none(() \<mapsto> 2)) () = Some 2" by blast
  with run show ?thesis by (intro exI [of _ "?none(() \<mapsto> 2)"] exI [of _ ?p4]) simp
qed

section \<open>The atomic float\<close>

text \<open>
  The cell holds the bits of a float. \<open>math.Float64bits\<close> and \<open>math.Float64frombits\<close> are inverse to each other, so a
  float is its 64 bits here, and only the addition of floats is a parameter.
\<close>

type_synonym bits = "64 word"

definition Float_Load :: "bits \<Rightarrow> bits" where "Float_Load cell = cell"

definition Float_Store :: "bits \<Rightarrow> bits \<Rightarrow> bits" where "Float_Store val cell = val"

definition Float_Swap :: "bits \<Rightarrow> bits \<Rightarrow> bits \<times> bits" where
  \<comment> \<open>the old value, and the cell afterwards\<close>
  "Float_Swap val cell = (cell, val)"

definition BitwiseCompareAndSwap :: "bits \<Rightarrow> bits \<Rightarrow> bits \<Rightarrow> bool \<times> bits" where
  "BitwiseCompareAndSwap old new cell = (if cell = old then (True, new) else (False, cell))"

text \<open>\<open>Add\<close> in many goroutines: at the label \<open>retry\<close>, between the load and the swap, or returned.\<close>

datatype add_pc = AddRetry | AddLoaded bits | AddDone bits

inductive add_step :: "(bits \<Rightarrow> bits \<Rightarrow> bits) \<Rightarrow> ('t \<Rightarrow> bits) \<Rightarrow> bits \<times> ('t \<Rightarrow> add_pc) \<Rightarrow> bits \<times> ('t \<Rightarrow> add_pc) \<Rightarrow> bool"
  for fadd delta where
  add_load: "pc t = AddRetry \<Longrightarrow> add_step fadd delta (cell, pc) (cell, pc(t := AddLoaded (Float_Load cell)))"
| add_swap: "pc t = AddLoaded old \<Longrightarrow> BitwiseCompareAndSwap old (fadd old (delta t)) cell = (swapped, cell') \<Longrightarrow>
    add_step fadd delta (cell, pc) (cell', pc(t := if swapped then AddDone (fadd old (delta t)) else AddRetry))"

inductive adds :: "(bits \<Rightarrow> bits \<Rightarrow> bits) \<Rightarrow> ('t \<Rightarrow> bits) \<Rightarrow> bits \<Rightarrow> 't list \<Rightarrow> bits \<times> ('t \<Rightarrow> add_pc) \<Rightarrow> bool"
  for fadd delta init where
  \<comment> \<open>a state that adding one after the other explains: the goroutines that returned, in order, with their results\<close>
  adds_none: "(\<forall>t v. pc t \<noteq> AddDone v) \<Longrightarrow> adds fadd delta init [] (init, pc)"
| adds_one: "adds fadd delta init ts (cell, pc) \<Longrightarrow> t \<notin> set ts \<Longrightarrow> pc' t = AddDone (fadd cell (delta t)) \<Longrightarrow>
    (\<forall>u v. u \<noteq> t \<longrightarrow> (pc' u = AddDone v \<longleftrightarrow> pc u = AddDone v)) \<Longrightarrow>
    adds fadd delta init (ts @ [t]) (fadd cell (delta t), pc')"

lemma adds_done: "adds fadd delta init ts s \<Longrightarrow> t \<in> set ts \<longleftrightarrow> (\<exists>v. snd s t = AddDone v)"
proof (induction rule: adds.induct)
  case (adds_one ts cell pc u pc')
  then show ?case by (cases "t = u") auto
qed auto

lemma adds_cong:
  assumes "adds fadd delta init ts (cell, pc)" "\<And>t v. pc' t = AddDone v \<longleftrightarrow> pc t = AddDone v"
  shows "adds fadd delta init ts (cell, pc')"
  using assms
proof (cases rule: adds.cases)
  case adds_none
  with assms(2) show ?thesis by (auto intro: adds.adds_none)
next
  case (adds_one ts' cell' pc0 t)
  then show ?thesis using adds.adds_one [of fadd delta init ts' cell' pc0 t pc'] assms(2) by simp
qed

lemma add_step_adds:
  assumes "add_step fadd delta s s'" "adds fadd delta init ts s"
  shows "\<exists>ts'. adds fadd delta init ts' s' \<and> (ts' = ts \<or> (\<exists>t. ts' = ts @ [t]))"
  using assms
proof (induction rule: add_step.induct)
  case (add_load pc t cell)
  have "adds fadd delta init ts (cell, pc(t := AddLoaded (Float_Load cell)))"
    by (rule adds_cong [OF add_load.prems]) (use add_load.hyps in auto)
  then show ?case by blast
next
  case (add_swap pc t old cell swapped cell')
  show ?case
  proof (cases "cell = old")
    case True
    with add_swap.hyps have "swapped" "cell' = fadd cell (delta t)" by (auto simp: BitwiseCompareAndSwap_def)
    moreover have "t \<notin> set ts" using adds_done [OF add_swap.prems, of t] add_swap.hyps(1) by simp
    ultimately have "adds fadd delta init (ts @ [t]) (cell', pc(t := AddDone (fadd old (delta t))))"
      using adds_one [OF add_swap.prems, of t "pc(t := AddDone (fadd old (delta t)))"] True by simp
    with \<open>swapped\<close> show ?thesis by auto
  next
    case False
    with add_swap.hyps have "\<not> swapped" "cell' = cell" by (auto simp: BitwiseCompareAndSwap_def)
    moreover have "adds fadd delta init ts (cell, pc(t := AddRetry))"
      by (rule adds_cong [OF add_swap.prems]) (use add_swap.hyps in auto)
    ultimately show ?thesis by auto
  qed
qed

lemma adds_result:
  assumes "adds fadd delta init ts s"
  shows "fst s = foldl (\<lambda>x t. fadd x (delta t)) init ts \<and> distinct ts \<and>
    (\<forall>before t after. ts = before @ t # after \<longrightarrow>
       snd s t = AddDone (fadd (foldl (\<lambda>x t. fadd x (delta t)) init before) (delta t)))"
  using assms
proof (induction rule: adds.induct)
  case (adds_one ts cell pc t pc')
  have "pc' u = AddDone (fadd (foldl (\<lambda>x t. fadd x (delta t)) init before) (delta u))"
    if "ts @ [t] = before @ u # after" for before u after
  proof (cases after rule: rev_cases)
    case Nil
    with that adds_one show ?thesis by auto
  next
    case (snoc after' x)
    with that have "ts = before @ u # after'" by simp
    moreover from this adds_one.hyps(2) have "u \<noteq> t" by auto
    ultimately show ?thesis using adds_one by auto
  qed
  with adds_one show ?case by auto
qed auto

text \<open>
  Concurrent additions to an atomic float are as good as sequential ones: however the goroutines interleave, the cell
  holds the starting value fadd the amounts of those that returned, one after the other in some order, each of which
  returned the sum up to its own; no addition is lost, whatever floating-point addition does.
\<close>

theorem Add_linearizable:
  assumes "(add_step fadd delta)\<^sup>*\<^sup>* (init, \<lambda>_. AddRetry) (cell, pc)"
  shows "\<exists>ts. distinct ts \<and> set ts = {t. \<exists>v. pc t = AddDone v} \<and> cell = foldl (\<lambda>x t. fadd x (delta t)) init ts \<and>
    (\<forall>before t after. ts = before @ t # after \<longrightarrow>
       pc t = AddDone (fadd (foldl (\<lambda>x t. fadd x (delta t)) init before) (delta t)))"
proof -
  have "adds fadd delta init [] (init, \<lambda>_. AddRetry)" by (rule adds_none) simp
  with assms have "\<exists>ts. adds fadd delta init ts (cell, pc)"
  proof (induction rule: rtranclp_induct)
    case (step s s')
    then obtain ts where "adds fadd delta init ts s" by blast
    from add_step_adds [OF step.hyps(2) this] show ?case by blast
  qed blast
  then obtain ts where ts: "adds fadd delta init ts (cell, pc)" ..
  from adds_result [OF ts] adds_done [OF ts] show ?thesis by (intro exI [of _ ts]) auto
qed

lemma Add_linearizable_witness:
  "\<exists>pc. (add_step (+) (\<lambda>t :: bool. if t then 1 else 2))\<^sup>*\<^sup>* (5, \<lambda>_. AddRetry) (8, pc) \<and>
     (\<exists>ts. distinct ts \<and> 8 = foldl (\<lambda>x t. x + (if t then 1 else 2)) (5 :: bits) ts)"
proof -
  let ?delta = "\<lambda>t :: bool. if t then 1 else 2 :: bits"
  let ?step = "add_step (+) ?delta"
  let ?p1 = "(\<lambda>_. AddRetry)(True := AddLoaded 5)" let ?p2 = "?p1(False := AddLoaded 5)"
  let ?p3 = "?p2(True := AddDone 6)" let ?p4 = "?p3(False := AddRetry)"
  let ?p5 = "?p4(False := AddLoaded 6)" let ?p6 = "?p5(False := AddDone 8)"
  have load: "pc t = AddRetry \<Longrightarrow> ?step (cell, pc) (cell, pc(t := AddLoaded cell))" for pc t cell
    using add_load [of pc t "(+)" ?delta cell] by (simp add: Float_Load_def)
  have "?step (5, \<lambda>_. AddRetry) (5, ?p1)" "?step (5, ?p1) (5, ?p2)" "?step (6, ?p4) (6, ?p5)"
    by (rule load; simp)+
  moreover have "?step (5, ?p2) (6, ?p3)"
    using add_swap [of ?p2 True 5 "(+)" ?delta 5 True 6] by (simp add: BitwiseCompareAndSwap_def)
  moreover have "?step (6, ?p3) (6, ?p4)"
    using add_swap [of ?p3 False 5 "(+)" ?delta 6 False 6] by (simp add: BitwiseCompareAndSwap_def)
  moreover have "?step (6, ?p5) (8, ?p6)"
    using add_swap [of ?p5 False 6 "(+)" ?delta 6 True 8] by (simp add: BitwiseCompareAndSwap_def)
  ultimately have run: "?step\<^sup>*\<^sup>* (5, \<lambda>_. AddRetry) (8, ?p6)"
    by (meson converse_rtranclp_into_rtranclp rtranclp.rtrancl_refl)
  from Add_linearizable [OF run] run show ?thesis by blast
qed

end
