(* ===== verification/Layout.thy ===== *)
theory Layout
  imports Prelude "HOL-Library.Word"
begin

unbundle bit_operations_syntax

text \<open>
  Rounding and padding (\<open>internal/xunsafe/layout/layout.go\<close>) and the arithmetic of addresses
  (\<open>internal/xunsafe/addr.go\<close>), on integers of a width: \<open>'a word\<close> for the generic functions, 64 bits for \<open>int\<close> and
  \<open>uintptr\<close>. Size and alignment of a type are parameters.
\<close>

record layout =
  Size :: "64 word"
  Align :: "64 word"

definition Layout_Max :: "layout \<Rightarrow> layout \<Rightarrow> layout" where
  \<comment> \<open>\<open>max\<close> on \<open>int\<close> is the signed one\<close>
  "Layout_Max l that =
     \<lparr>Size = if Size l \<le>s Size that then Size that else Size l, Align = if Align l \<le>s Align that then Align that else Align l\<rparr>"

definition layout_Bits :: "64 word \<Rightarrow> 64 word" where
  "layout_Bits sz = sz * 8"

definition RoundDown :: "'a::len word \<Rightarrow> 'a word \<Rightarrow> 'a word" where
  "RoundDown v align = v AND NOT (align - 1)"

definition RoundUp :: "'a::len word \<Rightarrow> 'a word \<Rightarrow> 'a word" where
  "RoundUp v align = (v + align - 1) AND NOT (align - 1)"

definition Padding :: "'a::len word \<Rightarrow> 'a word \<Rightarrow> 'a word" where
  "Padding v align = (align - v) AND (align - 1)"

definition PadSlice :: "string \<Rightarrow> 64 word \<Rightarrow> string" where
  "PadSlice buf align = buf @ replicate (unat (Padding (word_of_nat (length buf)) align)) (CHR 0x00)"

section \<open>Addresses\<close>

type_synonym addr = "64 word"

definition Addr_Add :: "64 word \<Rightarrow> addr \<Rightarrow> 64 word \<Rightarrow> addr" where
  \<comment> \<open>the first argument is the size of the type\<close>
  "Addr_Add sz a n = a + n * sz"

definition Addr_ByteAdd :: "addr \<Rightarrow> 64 word \<Rightarrow> addr" where
  "Addr_ByteAdd a n = a + n"

definition EndOf :: "64 word \<Rightarrow> addr \<Rightarrow> nat \<Rightarrow> addr" where
  \<comment> \<open>of a slice: its data and its length\<close>
  "EndOf sz a len = Addr_Add sz a (word_of_nat len)"

definition Addr_Sub :: "64 word \<Rightarrow> addr \<Rightarrow> addr \<Rightarrow> int option" where
  \<comment> \<open>division truncates; by zero it panics\<close>
  "Addr_Sub sz a b =
     (if sz = 0 then None
      else Some (let d = sint (a - b); z = sint sz in sgn d * sgn z * (\<bar>d\<bar> div \<bar>z\<bar>)))"

definition Addr_Padding :: "addr \<Rightarrow> 64 word \<Rightarrow> 64 word" where
  "Addr_Padding a align = Padding a align"

definition Addr_RoundUpTo :: "addr \<Rightarrow> 64 word \<Rightarrow> addr" where
  "Addr_RoundUpTo a align = a + Padding a align"

definition Addr_SignBit :: "addr \<Rightarrow> bool" where
  "Addr_SignBit a = (drop_bit (unat (layout_Bits 8 - 1)) a \<noteq> 0)"

definition Addr_ClearSignBit :: "addr \<Rightarrow> addr" where
  "Addr_ClearSignBit a = a AND NOT (push_bit (unat (layout_Bits 8 - 1)) 1)"

section \<open>Rounding\<close>

lemma exp_mask: "(2 ^ k - 1 :: 'a::len word) = mask k"
  by (simp add: mask_eq_exp_minus_1)

lemma uint_exp: "k < LENGTH('a::len) \<Longrightarrow> uint (2 ^ k :: 'a word) = 2 ^ k"
  by transfer (simp add: take_bit_eq_mod)

lemma and_not_mask: "x AND NOT (mask k) = x - (x AND mask k)" for x :: "'a::len word"
proof -
  have "(x AND mask k) + (x AND NOT (mask k)) = ((x AND mask k) AND (x AND NOT (mask k))) + ((x AND mask k) OR (x AND NOT (mask k)))"
    by simp
  also have "(x AND mask k) AND (x AND NOT (mask k)) = 0" by (rule bit_eqI) (auto simp: bit_simps)
  also have "(x AND mask k) OR (x AND NOT (mask k)) = x" by (rule bit_eqI) (auto simp: bit_simps)
  finally show ?thesis by (simp add: algebra_simps)
qed

lemma and_mask: "uint (x AND mask k :: 'a::len word) = uint x mod 2 ^ k"
  unfolding take_bit_eq_mask [symmetric] unsigned_take_bit_eq by (rule take_bit_eq_mod)

lemma Padding_uint:
  assumes "k < LENGTH('a::len)"
  shows "uint (Padding v (2 ^ k) :: 'a word) = (- uint v) mod 2 ^ k"
proof -
  have "uint (2 ^ k - v) mod 2 ^ k = (- uint v) mod 2 ^ k"
  proof -
    have "uint (2 ^ k - v) = (2 ^ k - uint v) mod 2 ^ LENGTH('a)"
      using assms by (simp add: uint_word_ariths uint_exp)
    also have "\<dots> mod 2 ^ k = (2 ^ k - uint v) mod 2 ^ k"
      using assms by (intro mod_mod_cancel le_imp_power_dvd) simp
    also have "\<dots> = (- uint v) mod 2 ^ k" using mod_add_self2 [of "- uint v" "2 ^ k"] by (simp add: algebra_simps)
    finally show ?thesis .
  qed
  then show ?thesis unfolding Padding_def exp_mask and_mask .
qed

lemma RoundDown_uint:
  assumes "k < LENGTH('a::len)"
  shows "uint (RoundDown v (2 ^ k) :: 'a word) = uint v div 2 ^ k * 2 ^ k"
proof -
  have le: "uint v mod 2 ^ k \<le> uint v" by (simp add: zmod_le_nonneg_dividend)
  have "uint (RoundDown v (2 ^ k)) = uint v - uint v mod 2 ^ k"
    unfolding RoundDown_def exp_mask and_not_mask using le and_mask [of v k] by (simp add: uint_sub_if')
  then show ?thesis by (simp add: minus_mod_eq_div_mult)
qed

lemma take_bit_exp_add: "k < LENGTH('a) \<Longrightarrow> take_bit k (2 ^ k + x) = take_bit k x" for x :: "'a::len word"
  by transfer (simp add: take_bit_eq_mod min_def)

lemma Padding_take_bit: "k < LENGTH('a) \<Longrightarrow> Padding v (2 ^ k) = take_bit k (- v)" for v :: "'a::len word"
  using take_bit_exp_add [of k "- v"] by (simp add: Padding_def exp_mask take_bit_eq_mask)

lemma RoundUp_Padding:
  fixes v :: "'a::len word"
  assumes "k < LENGTH('a)"
  shows "RoundUp v (2 ^ k) = v + Padding v (2 ^ k)"
proof -
  let ?w = "v + 2 ^ k - 1"
  have "take_bit k ?w = take_bit k (v - 1)"
    using take_bit_exp_add [OF assms, of "v - 1"] by (simp add: algebra_simps)
  also have "v - 1 = NOT (- v)" by (simp add: not_eq_complement)
  also have "take_bit k (NOT (- v)) = mask k - take_bit k (- v)" by (rule take_bit_not_eq_mask_diff)
  finally have "?w - take_bit k ?w = v + take_bit k (- v)" by (simp add: mask_eq_exp_minus_1)
  then show ?thesis by (simp add: RoundUp_def exp_mask and_not_mask Padding_take_bit [OF assms] take_bit_eq_mask)
qed

lemma up_to_multiple: "(n + (- n) mod m = (n + m - 1) div m * m)" if "0 < m" for n m :: int
proof -
  have "(n + (- n) mod m) mod m = 0" by (simp add: mod_simps)
  then obtain c where c: "n + (- n) mod m = c * m" unfolding mod_eq_0_iff_dvd by (metis dvdE mult.commute)
  have "0 \<le> (- n) mod m" "(- n) mod m < m" using that by simp_all
  with c have "n + m - 1 = c * m + (m - 1 - (- n) mod m)" "0 \<le> m - 1 - (- n) mod m" "m - 1 - (- n) mod m < m" by linarith+
  then have "(n + m - 1) div m = c" using that by (metis add.commute div_mult_self3 div_pos_pos_trivial add.right_neutral less_irrefl)
  with c show ?thesis by simp
qed

text \<open>
  Rounding to a power of two is right at every width, wrap-around included. \<open>RoundDown\<close> gives the greatest multiple
  below; \<open>Padding\<close> what is missing to the next multiple, less than one; \<open>RoundUp\<close> the next multiple if there is one of the
  width, and 0, the sum wrapped around, if not.
\<close>

theorem rounding:
  assumes "k < LENGTH('a::len)"
  shows "uint (RoundDown v (2 ^ k) :: 'a word) = uint v div 2 ^ k * 2 ^ k \<and>
    uint (Padding v (2 ^ k)) = (- uint v) mod 2 ^ k \<and>
    RoundUp v (2 ^ k) = v + Padding v (2 ^ k) \<and>
    uint (RoundUp v (2 ^ k)) =
      (let up = (uint v + 2 ^ k - 1) div 2 ^ k * 2 ^ k in if up < 2 ^ LENGTH('a) then up else 0)"
proof -
  have pad: "uint (Padding v (2 ^ k)) = (- uint v) mod 2 ^ k" by (rule Padding_uint [OF assms])
  let ?n = "uint v"
  have up: "?n + (- ?n) mod 2 ^ k = (?n + 2 ^ k - 1) div 2 ^ k * 2 ^ k" by (rule up_to_multiple) simp
  have "uint (v + Padding v (2 ^ k)) = (?n + (- ?n) mod 2 ^ k) mod 2 ^ LENGTH('a)"
    by (simp add: uint_word_ariths pad)
  moreover have "?n + (- ?n) mod 2 ^ k \<le> 2 ^ LENGTH('a)"
  proof -
    let ?c = "(?n + 2 ^ k - 1) div 2 ^ k" and ?d = "2 ^ (LENGTH('a) - k) :: int"
    have L: "(2 :: int) ^ LENGTH('a) = ?d * 2 ^ k" using assms by (simp flip: power_add)
    have "?n < 2 ^ LENGTH('a)" by simp
    moreover have "(- ?n) mod 2 ^ k < 2 ^ k" by simp
    ultimately have "?n + (- ?n) mod 2 ^ k < ?d * 2 ^ k + 2 ^ k" using L by linarith
    then have "?c * 2 ^ k < (?d + 1) * 2 ^ k" unfolding up by (simp only: distrib_right mult_1)
    then have "?c < ?d + 1" by (simp add: mult_less_cancel_right)
    then have "?c * 2 ^ k \<le> ?d * 2 ^ k" by (intro mult_right_mono) simp_all
    with L up show ?thesis by simp
  qed
  moreover have "0 \<le> ?n + (- ?n) mod 2 ^ k" by simp
  ultimately have "uint (v + Padding v (2 ^ k)) =
      (let up = (?n + 2 ^ k - 1) div 2 ^ k * 2 ^ k in if up < 2 ^ LENGTH('a) then up else 0)"
    unfolding up Let_def by (cases "(?n + 2 ^ k - 1) div 2 ^ k * 2 ^ k < 2 ^ LENGTH('a)") (auto simp: not_less)
  with pad RoundDown_uint [OF assms] RoundUp_Padding [OF assms] show ?thesis by metis
qed


lemma rounding_witness:
  "uint (RoundUp (13 :: 8 word) (2 ^ 3)) = 16 \<and> uint (Padding (13 :: 8 word) (2 ^ 3)) = 3 \<and> uint (RoundUp (250 :: 8 word) (2 ^ 3)) = 0"
proof -
  have "(3 :: nat) < LENGTH(8)" by simp
  note r = rounding [OF this, unfolded Let_def]
  have "uint (RoundUp (13 :: 8 word) (2 ^ 3)) = 16" using r [of 13] by (elim conjE) (simp only:, simp)
  moreover have "uint (RoundUp (250 :: 8 word) (2 ^ 3)) = 0" using r [of 250] by (elim conjE) (simp only:, simp)
  moreover have "uint (Padding (13 :: 8 word) (2 ^ 3)) = 3" using r [of 13] by (elim conjE) (simp only:, simp)
  ultimately show ?thesis by blast
qed

text \<open>A padded slice is the slice, with fewer than \<open>align\<close> zeros, and its length is a multiple.\<close>

lemma PadSlice_length:
  assumes "k < 64" "length buf < 2 ^ 64"
  shows "2 ^ k dvd length (PadSlice buf (2 ^ k)) \<and> take (length buf) (PadSlice buf (2 ^ k)) = buf \<and>
    length (PadSlice buf (2 ^ k)) < length buf + 2 ^ k"
proof -
  let ?p = "Padding (word_of_nat (length buf) :: 64 word) (2 ^ k)"
  have n: "uint (word_of_nat (length buf) :: 64 word) = int (length buf)" using assms(2) by (simp add: unsigned_of_nat take_bit_nat_eq_self)
  have p: "uint ?p = (- int (length buf)) mod 2 ^ k" using Padding_uint [of k "word_of_nat (length buf) :: 64 word"] assms(1) n by simp
  have "int (length (PadSlice buf (2 ^ k))) = int (length buf) + (- int (length buf)) mod 2 ^ k"
    unfolding p [symmetric] by (simp add: PadSlice_def)
  moreover have "(2 :: int) ^ k dvd int (length buf) + (- int (length buf)) mod 2 ^ k"
    by (simp add: dvd_eq_mod_eq_0 mod_simps)
  moreover have "(- int (length buf)) mod 2 ^ k < 2 ^ k" by simp
  ultimately have "int (2 ^ k) dvd int (length (PadSlice buf (2 ^ k)))" "int (length (PadSlice buf (2 ^ k))) < int (length buf + 2 ^ k)"
    by simp_all
  then show ?thesis unfolding int_dvd_int_iff of_nat_less_iff by (simp add: PadSlice_def)
qed

text \<open>An address rounded up is a multiple of the alignment, unless it wraps; and clearing the sign bit clears it.\<close>

lemma Addr_RoundUpTo_RoundUp: "k < 64 \<Longrightarrow> Addr_RoundUpTo a (2 ^ k) = RoundUp a (2 ^ k)"
  by (simp add: Addr_RoundUpTo_def RoundUp_Padding)

lemma Addr_ClearSignBit_clear: "\<not> Addr_SignBit (Addr_ClearSignBit a)"
proof -
  have "drop_bit 63 (a AND NOT (push_bit 63 1)) = 0" for a :: "64 word"
    by (rule bit_eqI) (auto simp: bit_simps)
  then show ?thesis by (simp add: Addr_SignBit_def Addr_ClearSignBit_def layout_Bits_def)
qed

section \<open>Bounds\<close>

definition BoundsCheck :: "64 word \<Rightarrow> 64 word \<Rightarrow> bool" where
  \<comment> \<open>does it return? \<open>dummy\<close> has the length without its sign bit\<close>
  "BoundsCheck n len = (0 \<le> sint n \<and> sint n < sint (len AND NOT (push_bit 63 1)))"

end
