(* ===== verification/Spec2Isabelle.thy ===== *)
theory Spec2Isabelle
  imports PathSpec MuxSpec AuthChain ClientStreamsSpec BuilderSpec Plugin PopulateTypes GenOps GrpcHop Lifecycle Pools Sync Layout
begin

text \<open>
  A verification development for \<open>zara-rpc\<close>, an RPC framework in Go that serves Protobuf services over HTTP
  (unary calls, NDJSON, server-sent events, WebSocket) and gRPC, with generated clients for the former.

  \<^bold>\<open>The program and its parts.\<close> A generated service is a list of \<^emph>\<open>operations\<close> (\<open>kernel/\<close>): name, HTTP verb, path
  template, typed handler, interceptors. Registering it on a \<open>Mux\<close> (\<open>routing/mux.go\<close>) prepares each operation, parses
  its template (\<open>routing/pattern.go\<close>) and stores its HTTP handler in a map of exact paths or in a radix tree per
  verb (\<open>routing/route_tree.go\<close>). A request is dispatched by the mux to the handler of \<open>kernel/handler.go\<close>, which
  negotiates a codec (\<open>encoding/\<close>), sets a deadline from the request's metadata (\<open>metadata/\<close>), builds the \<open>Ctx\<close> of the
  call (\<open>runtime/ctx.go\<close>), fills the request message from path, query and body (\<open>runtime/populate.go\<close>), runs the
  interceptor chain (\<open>middleware/\<close>, \<open>auth/\<close>) around the handler, and writes the response or, for the three
  stream modes, hands it a stream over one of the transports (\<open>transport/\<close>). Errors are \<open>status.Error\<close> values with
  codes of \<open>codes/\<close>. A client (\<open>client/\<close>) does the reverse: it substitutes the message into the path and query
  (\<open>runtime/substitute.go\<close>), sends metadata and deadline headers, retries, and decodes responses, errors and streams.

  \<^bold>\<open>Conventions.\<close> A Go string or byte slice is a HOL string (its bytes). A Go struct is a record, an interface value a
  datatype of the implementations in the repository, an error or \<open>nil\<close> an option or the left of a sum; a panic is
  \<open>None\<close> where a function can panic. A map is a HOL map, or an association list where the code ranges over it: then
  the list's order stands for the order of the iteration, and what is proved for every list holds for every order.
  State that the code mutates (headers, the writer of a response, a stream's reader, the client) is passed and
  returned. Integers that the code keeps at a width and that can overflow are words or are cut with the width
  written out (\<open>setStringValue\<close>, the varints of \<open>Status\<close>, the multiplication of \<open>ParseGrpcTimeout\<close>).
  Code outside the repository (serializers, the HTTP client, the JWT library, JSON, clocks, floating-point
  formatting) is an argument of the definitions that call it; where a theorem needs more of it than that it is a
  function, the theorem states the documented law as a hypothesis and its witness instantiates it.

  \<^bold>\<open>Theories.\<close>
  \<^item> \<^theory_text>\<open>Prelude\<close>: Go's string functions and their laws, association lists, the collections \<open>go_defs\<close>, \<open>go_strings\<close>.
    \<^theory_text>\<open>Registry\<close>: the locale of name-to-value stores, interpreted for the codec and transport registries.
    \<^theory_text>\<open>Base64\<close>, \<^theory_text>\<open>Url\<close>: the parts of the standard library that headers and queries rest on, with their round trips.
  \<^item> \<^theory_text>\<open>Codes\<close> (\<open>codes/codes.go\<close>): the codes, their names and HTTP statuses, and which of them survive a conversion.
  \<^item> \<^theory_text>\<open>Pattern\<close>, \<^theory_text>\<open>PatternSpec\<close> (\<open>routing/pattern.go\<close>): parser and matcher of path templates. A parsed pattern is
    well formed, printing and parsing are inverse, and a match binds the pattern's names to what it matched.
  \<^item> \<^theory_text>\<open>RouteTree\<close>, \<^theory_text>\<open>RouteTreeSpec\<close>, \<^theory_text>\<open>RouteLookup\<close> (\<open>routing/route_tree.go\<close>): the radix tree. \<open>node_routes\<close> abstracts a
    node to its routes; insertion adds one route and keeps the invariant; look-up is sound and complete with respect to
    the registered patterns, and refines \<open>Match\<close> on clean paths.
  \<^item> \<^theory_text>\<open>Mux\<close>, \<^theory_text>\<open>MuxSpec\<close> (\<open>routing/mux.go\<close>, \<open>routing/server.go\<close>, \<open>runtime/handler_router.go\<close>): registration and dispatch.
    The state is abstracted to the list of routes registered; dispatch, 405 and the \<open>Allow\<close> header follow from it.
  \<^item> \<^theory_text>\<open>Metadata\<close>, \<^theory_text>\<open>Encoding\<close>, \<^theory_text>\<open>Status\<close> (\<open>metadata/\<close>, \<open>encoding/\<close>, \<open>status/\<close>): headers and deadlines, codecs and
    their negotiation, errors and the status message in the trailer, written and read back. An error body is an object
    with members, written and read under their keys; its text is the JSON library's.
  \<^item> \<^theory_text>\<open>Ctx\<close>, \<^theory_text>\<open>Middleware\<close>, \<^theory_text>\<open>Operation\<close>, \<^theory_text>\<open>Transport\<close>, \<^theory_text>\<open>Handler\<close>, \<^theory_text>\<open>HandlerSpec\<close> (\<open>runtime/\<close>, \<open>middleware/\<close>,
    \<open>kernel/\<close>, \<open>streaming/\<close>, \<open>transport/\<close>, the stream readers of \<open>client/\<close>): the life of a request in a server. The
    locale \<open>onion\<close> states composition of interceptors once, for unary calls, streams and client calls.
  \<^item> \<^theory_text>\<open>Jwt\<close>, \<^theory_text>\<open>Rbac\<close>, \<^theory_text>\<open>AuthChain\<close> (\<open>auth/\<close>): tokens, policies, the file watcher as a step relation whose runs
    determine the policy in force, authorizers (locale \<open>authorizer\<close>), and the chain of the three interceptors.
  \<^item> \<^theory_text>\<open>Populate\<close>, \<^theory_text>\<open>PopulateSpec\<close> (\<open>runtime/populate.go\<close>, \<open>substitute.go\<close>, \<open>pathconvert.go\<close>): messages as Go values and
    reflection on them. A message survives its trip through a query; two divergences from generated code are proved.
    \<^theory_text>\<open>PopulateTypes\<close>: filling a message is type safe.
  \<^item> \<^theory_text>\<open>Client\<close>, \<^theory_text>\<open>ClientSpec\<close>, \<^theory_text>\<open>ClientStreams\<close>, \<^theory_text>\<open>ClientStreamsSpec\<close> (\<open>client/\<close>): calls and streams of the client, and
    what of them reaches the server: deadline, errors, and every message of a server stream.
  \<^item> \<^theory_text>\<open>PathSpec\<close>: a call without a body from end to end, the message's fields in the path and the query on one side,
    the pattern's match and the population of the server's message on the other.
  \<^item> \<^theory_text>\<open>Descriptors\<close>, \<^theory_text>\<open>GenServer\<close>, \<^theory_text>\<open>GenService\<close>, \<^theory_text>\<open>GenGrpc\<close>, \<^theory_text>\<open>GenSpec\<close> (\<open>protoc-gen-zararpc/\<close>): the code
    generator. Descriptors are records; what it prints is a list of lines, \<open>None\<close> where it panics. \<open>GenSpec\<close> shows what
    the validation of HTTP rules accepts, when the plugin panics all the same, that stubs and descriptor agree on the
    streams of a service, and that generated names can collide.
  \<^item> \<^theory_text>\<open>Builder\<close>, \<^theory_text>\<open>BuilderSpec\<close> (\<open>protoc-gen-zararpc/handler.go\<close>, \<open>path.go\<close>): the generated request builders as programs,
    with their text and their meaning on Go values. For rules without a body the program refines
    \<open>PopulateMessage\<close> where its converters accept, and a client's message arrives through it. Where the two differ on
    bodies is proved. \<open>builder_shows\<close> only ties two transcriptions of the generator, its text and the program, together.
  \<^item> \<^theory_text>\<open>GenOps\<close> (\<open>endpoint.go\<close>, \<open>generate.go\<close>): the operation constructors as programs of builder calls, with their text,
    run in an environment of the file's constants, request builders and the service's implementation. The service they
    make up is registered on a mux and serves exactly the bindings of its rules; a unary call is followed from the
    client's message to the service's method and back.
  \<^item> \<^theory_text>\<open>Plugin\<close> (\<open>main.go\<close>, \<open>patch.go\<close>): the plugin from the request to the response, which is complete or an error.
  \<^item> \<^theory_text>\<open>Gateway\<close> (\<open>gateway.go\<close>): the generated gateway methods as programs, with their text (tied to the generator's by
    \<open>gateway_shows\<close>), and as step relations over streams that are parameters. One loop serves all modes; its trace determines where it is (\<open>relay_at\<close>), and from that
    follow what each mode passes on and returns. The two goroutines of a bidirectional stream, their channel and the loop
    that collects their results are interleaved steps; each goroutine can go on at every moment, and every execution is shown to return, by a weight
    each step lowers.
  \<^item> \<^theory_text>\<open>GrpcBridge\<close> (\<open>grpcbridge/\<close>): interceptors around gRPC calls and streams, the context of a call, errors over
    several hops. \<^theory_text>\<open>GrpcHop\<close> (\<open>grpc.go\<close>): the generated gRPC handlers, and a call through the whole gateway: interceptors,
    service, errors and metadata, with gRPC's delivery as a hypothesis. \<^theory_text>\<open>Lifecycle\<close> (\<open>kernel/lifecycle.go\<close>): options and defaults of the HTTP server.
  \<^item> \<^theory_text>\<open>Pools\<close>, \<^theory_text>\<open>Sync\<close>, \<^theory_text>\<open>Layout\<close> (\<open>internal/\<close>): buffer pools, the wrappers of \<open>sync.Map\<close> and the atomic float as step
    relations of interleaved goroutines with their invariants, and rounding on machine words.

  \<^bold>\<open>Loops and termination.\<close> Functions are total HOL functions with a measure where the code's loop visibly shrinks its
  input. \<open>Status.unmarshal_loop\<close> is a partial function, proved to return on every input; \<open>Client.retry_loop\<close> is bounded
  by the configured attempts and \<open>DoUnary\<close> is proved to return. No definition that models code takes fuel.

  \<^bold>\<open>Not modelled.\<close> Goroutines and locks, but for the policy watcher, the gateway's relays, the pools and the wrappers of
  \<open>internal/xsync\<close>: the code guards its shared maps, and each operation is a step that happens at once. Sockets, signals and cancellation of a
  blocked read are effects of libraries the sources only call. Generated Go code is text, but for the request builders, the
  operation constructors and their registration, the gateway methods and the gRPC handlers.
  Of \<open>internal/xunsafe\<close> only the arithmetic is modelled; its casts and raw loads lie below Go's memory model, and
  nothing in the repository calls them.
\<close>

end
